(* ===== verification/Prelude.thy ===== *)
theory Prelude
  imports Main
begin

section \<open>Shared notions: the exception monad and lists\<close>

text \<open>
  Every component uses what is here: results of Python calls that may raise are values of
  \<open>'e + 'a\<close> (\<open>Inl\<close> the exception, \<open>Inr\<close> the returned value), composed by \<open>bindE\<close>; a
  \<^verbatim>\<open>for\<close> loop whose body may raise is \<open>forE\<close> (no result) or \<open>mapE\<close> (a list of results).
  The lemmas turn "this call returned" into facts about the steps it went through; they are
  collected in \<open>err_simps\<close> so that the component proofs are \<open>auto simp: err_simps\<close>.
\<close>

named_theorems err_simps \<open>equivalences that take a returned value apart\<close>

subsection \<open>Exceptions as values\<close>

definition bindE :: "'e + 'a \<Rightarrow> ('a \<Rightarrow> 'e + 'b) \<Rightarrow> 'e + 'b" where
  "bindE m f = (case m of Inl e \<Rightarrow> Inl e | Inr x \<Rightarrow> f x)"

lemma bindE_simps [simp]:
  "bindE (Inl e) f = Inl e"
  "bindE (Inr x) f = f x"
  by (simp_all add: bindE_def)

lemma bindE_Inr_iff [err_simps]: "bindE m f = Inr y \<longleftrightarrow> (\<exists>x. m = Inr x \<and> f x = Inr y)"
  by (cases m) auto

lemma bindE_Inl_iff [err_simps]:
  "bindE m f = Inl e \<longleftrightarrow> m = Inl e \<or> (\<exists>x. m = Inr x \<and> f x = Inl e)"
  by (cases m) auto

lemma bindE_assoc: "bindE (bindE m f) g = bindE m (\<lambda>x. bindE (f x) g)"
  by (cases m) auto

lemma bindE_return [simp]: "bindE m Inr = m"
  by (cases m) auto

lemma bindE_cong [fundef_cong]:
  "m = m' \<Longrightarrow> (\<And>x. m' = Inr x \<Longrightarrow> f x = f' x) \<Longrightarrow> bindE m f = bindE m' f'"
  by (cases m') auto

definition returned :: "'e + 'a \<Rightarrow> bool" where
  "returned m = (case m of Inl _ \<Rightarrow> False | Inr _ \<Rightarrow> True)"

lemma returned_simps [simp]: "returned (Inr x)" "\<not> returned (Inl e)"
  by (simp_all add: returned_def)

lemma returned_iff: "returned m \<longleftrightarrow> (\<exists>x. m = Inr x)"
  by (cases m) auto

lemma not_returned_iff: "\<not> returned m \<longleftrightarrow> (\<exists>e. m = Inl e)"
  by (cases m) auto

lemma if_Inl_Inr_iff [err_simps]:
  "(if c then Inl e else m) = Inr y \<longleftrightarrow> \<not> c \<and> m = Inr y"
  "(if c then m else Inl e) = Inr y \<longleftrightarrow> c \<and> m = Inr y"
  by auto

lemma option_case_Inr_iff [err_simps]:
  "(case m of None \<Rightarrow> Inl e | Some x \<Rightarrow> f x) = Inr y \<longleftrightarrow> (\<exists>x. m = Some x \<and> f x = Inr y)"
  by (cases m) auto

lemma option_case_Inl_iff:
  "(case m of None \<Rightarrow> Inl e | Some x \<Rightarrow> f x) = Inl e' \<longleftrightarrow>
     m = None \<and> e = e' \<or> (\<exists>x. m = Some x \<and> f x = Inl e')"
  by (cases m) auto

lemma if_Inl_iff: "(if c then Inl e else m) = Inl e' \<longleftrightarrow> c \<and> e = e' \<or> \<not> c \<and> m = Inl e'"
  by auto

lemmas raise_simps = bindE_Inl_iff option_case_Inl_iff if_Inl_iff

text \<open>An \<^verbatim>\<open>except\<close> clause that raises another exception.\<close>

definition mapErr :: "('e \<Rightarrow> 'e) \<Rightarrow> 'e + 'a \<Rightarrow> 'e + 'a" where
  "mapErr f r = (case r of Inl e \<Rightarrow> Inl (f e) | Inr x \<Rightarrow> Inr x)"

lemma mapErr_Inr_iff [err_simps]: "mapErr f r = Inr x \<longleftrightarrow> r = Inr x"
  by (auto simp: mapErr_def split: sum.splits)

lemma mapErr_Inl_iff: "mapErr f r = Inl e \<longleftrightarrow> (\<exists>e'. r = Inl e' \<and> e = f e')"
  by (auto simp: mapErr_def split: sum.splits)

subsection \<open>Loops that may raise\<close>

fun forE :: "('a \<Rightarrow> 'e + unit) \<Rightarrow> 'a list \<Rightarrow> 'e + unit" where
  "forE f [] = Inr ()"
| "forE f (x # xs) = bindE (f x) (\<lambda>_. forE f xs)"

fun mapE :: "('a \<Rightarrow> 'e + 'b) \<Rightarrow> 'a list \<Rightarrow> 'e + 'b list" where
  "mapE f [] = Inr []"
| "mapE f (x # xs) = bindE (f x) (\<lambda>y. bindE (mapE f xs) (\<lambda>ys. Inr (y # ys)))"

lemma forE_Inr_iff [err_simps]: "forE f xs = Inr u \<longleftrightarrow> (\<forall>x\<in>set xs. f x = Inr ())"
  by (induction xs) (auto simp: err_simps)

lemma mapE_Inr_iff [err_simps]:
  "mapE f xs = Inr ys \<longleftrightarrow> list_all2 (\<lambda>x y. f x = Inr y) xs ys"
  by (induction xs arbitrary: ys) (auto simp: err_simps list_all2_Cons1)

lemma mapE_all_Inr: "(\<And>x. x \<in> set xs \<Longrightarrow> f x = Inr (g x)) \<Longrightarrow> mapE f xs = Inr (map g xs)"
  by (induction xs) auto

lemma mapE_error: "mapE f xs = Inl e \<Longrightarrow> \<exists>x\<in>set xs. f x = Inl e"
  by (induction xs) (auto simp: err_simps)

lemma mapE_length: "mapE f xs = Inr ys \<Longrightarrow> length ys = length xs"
  by (auto simp: err_simps dest: list_all2_lengthD)

lemma mapE_cong [fundef_cong]:
  "xs = ys \<Longrightarrow> (\<And>x. x \<in> set ys \<Longrightarrow> f x = g x) \<Longrightarrow> mapE f xs = mapE g ys"
  by (induction ys arbitrary: xs) auto

subsection \<open>State and exceptions\<close>

text \<open>
  An action that changes the state \<open>'s\<close> and may raise is a function \<open>'s \<Rightarrow> ('e + 'a) \<times> 's\<close>:
  as in Python, an exception does not undo the changes made before it.
\<close>

type_synonym ('s, 'e, 'a) action = "'s \<Rightarrow> ('e + 'a) \<times> 's"

definition returnM :: "'a \<Rightarrow> ('s, 'e, 'a) action" where
  "returnM x s = (Inr x, s)"

definition raiseM :: "'e \<Rightarrow> ('s, 'e, 'a) action" where
  "raiseM e s = (Inl e, s)"

definition liftM :: "'e + 'a \<Rightarrow> ('s, 'e, 'a) action" where
  "liftM r s = (r, s)"

definition readM :: "('s \<Rightarrow> 'a) \<Rightarrow> ('s, 'e, 'a) action" where
  "readM f s = (Inr (f s), s)"

definition writeM :: "('s \<Rightarrow> 's) \<Rightarrow> ('s, 'e, unit) action" where
  "writeM f s = (Inr (), f s)"

definition bindM :: "('s, 'e, 'a) action \<Rightarrow> ('a \<Rightarrow> ('s, 'e, 'b) action) \<Rightarrow> ('s, 'e, 'b) action" where
  "bindM m f s = (case m s of (Inl e, s') \<Rightarrow> (Inl e, s') | (Inr x, s') \<Rightarrow> f x s')"

lemma method_simps [simp]:
  "returnM x s = (Inr x, s)"
  "raiseM e s = (Inl e, s)"
  "liftM r s = (r, s)"
  "readM g s = (Inr (g s), s)"
  "writeM w s = (Inr (), w s)"
  by (simp_all add: returnM_def raiseM_def liftM_def readM_def writeM_def)

lemma bindM_Inr_iff [err_simps]:
  "bindM m f s = (Inr y, s') \<longleftrightarrow> (\<exists>x s1. m s = (Inr x, s1) \<and> f x s1 = (Inr y, s'))"
  by (auto simp: bindM_def split: prod.splits sum.splits)

lemma bindM_Inl_iff:
  "bindM m f s = (Inl e, s') \<longleftrightarrow>
     m s = (Inl e, s') \<or> (\<exists>x s1. m s = (Inr x, s1) \<and> f x s1 = (Inl e, s'))"
  by (auto simp: bindM_def split: prod.splits sum.splits)

lemma methodM_Inr_iff [err_simps]:
  "(if c then raiseM e else m) s = (Inr y, s') \<longleftrightarrow> \<not> c \<and> m s = (Inr y, s')"
  "(case v of None \<Rightarrow> raiseM e | Some x \<Rightarrow> f x) s = (Inr y, s') \<longleftrightarrow> (\<exists>x. v = Some x \<and> f x s = (Inr y, s'))"
  by (cases v; auto)+

lemma methodM_Inl_iff:
  "(if c then raiseM e else m) s = (Inl e', s') \<longleftrightarrow>
     c \<and> e = e' \<and> s = s' \<or> \<not> c \<and> m s = (Inl e', s')"
  "(case v of None \<Rightarrow> raiseM e | Some x \<Rightarrow> f x) s = (Inl e', s') \<longleftrightarrow>
     v = None \<and> e = e' \<and> s = s' \<or> (\<exists>x. v = Some x \<and> f x s = (Inl e', s'))"
  by (cases v; auto)+

lemmas raiseM_simps = bindM_Inl_iff methodM_Inl_iff

lemma bindM_simps [simp]:
  "bindM (returnM x) f = f x"
  "bindM (raiseM e) f' = raiseM e"
  "bindM (liftM (Inr x)) f = f x"
  "bindM (liftM (Inl e)) f' = raiseM e"
  by (simp_all add: bindM_def fun_eq_iff)

lemma bindM_assoc: "bindM (bindM m f) g = bindM m (\<lambda>x. bindM (f x) g)"
  by (auto simp: bindM_def fun_eq_iff split: prod.splits sum.splits)

text \<open>An \<^verbatim>\<open>except\<close> clause around a state change, and the \<^verbatim>\<open>for\<close> loop over one.\<close>

definition catchM :: "('s, 'e, 'a) action \<Rightarrow> ('e \<Rightarrow> ('s, 'e, 'a) action) \<Rightarrow> ('s, 'e, 'a) action" where
  "catchM m h s = (case m s of (Inl e, s') \<Rightarrow> h e s' | (Inr x, s') \<Rightarrow> (Inr x, s'))"

fun forM :: "('a \<Rightarrow> ('s, 'e, unit) action) \<Rightarrow> 'a list \<Rightarrow> ('s, 'e, unit) action" where
  "forM f [] = returnM ()"
| "forM f (x # xs) = bindM (f x) (\<lambda>_. forM f xs)"

lemma catchM_raise_Inr_iff [err_simps]:
  "catchM m (\<lambda>e. raiseM (f e)) s = (Inr x, s') \<longleftrightarrow> m s = (Inr x, s')"
  by (auto simp: catchM_def split: prod.splits sum.splits)

lemma catchM_raise_Inl_iff:
  "catchM m (\<lambda>e. raiseM (f e)) s = (Inl e, s') \<longleftrightarrow> (\<exists>e'. m s = (Inl e', s') \<and> e = f e')"
  by (auto simp: catchM_def split: prod.splits sum.splits)

subsection \<open>First match\<close>

lemma find_SomeD: "find P xs = Some x \<Longrightarrow> P x \<and> x \<in> set xs"
  by (induction xs) (auto split: if_splits)

lemma find_exists: "x \<in> set xs \<Longrightarrow> P x \<Longrightarrow> \<exists>y. find P xs = Some y"
  by (induction xs) auto

subsection \<open>Association lists as Python dictionaries\<close>

text \<open>\<^verbatim>\<open>d[k] = v\<close>: the key keeps its place if it is there, otherwise it comes last.\<close>

fun dict_set :: "'k \<Rightarrow> 'v \<Rightarrow> ('k \<times> 'v) list \<Rightarrow> ('k \<times> 'v) list" where
  "dict_set k v [] = [(k, v)]"
| "dict_set k v ((k', v') # d) = (if k' = k then (k, v) # d else (k', v') # dict_set k v d)"

lemma map_of_dict_set [simp]: "map_of (dict_set k v d) = (map_of d)(k \<mapsto> v)"
  by (induction k v d rule: dict_set.induct) auto

lemma keys_dict_set [simp]: "fst ` set (dict_set k v d) = insert k (fst ` set d)"
  by (induction k v d rule: dict_set.induct) auto

lemma distinct_dict_set: "distinct (map fst d) \<Longrightarrow> distinct (map fst (dict_set k v d))"
proof (induction k v d rule: dict_set.induct)
  case (2 k v k' v' d)
  then have "k' \<noteq> k \<Longrightarrow> k' \<notin> fst ` set (dict_set k v d)" by (simp only: keys_dict_set) simp
  with 2 show ?case by (cases "k' = k") auto
qed simp

lemma dict_set_fresh: "k \<notin> fst ` set d \<Longrightarrow> dict_set k v d = d @ [(k, v)]"
  by (induction k v d rule: dict_set.induct) auto

lemma map_of_mem_keys: "map_of d k = None \<longleftrightarrow> k \<notin> fst ` set d"
  by (simp add: map_of_eq_None_iff)

end
