(* ===== verification/PyValue.thy ===== *)
theory PyValue
  imports Prelude "HOL-Library.Char_ord" "HOL-Library.List_Lexorder"
begin

section \<open>Python values and strings\<close>

text \<open>
  The data the program passes around: JSON-shaped Python values (\<open>pyval\<close>) and the string
  operations the sources call. A Python \<^verbatim>\<open>str\<close> is a
  \<open>string\<close>, that is a list of code points 0..255 (Latin-1); text outside that range is not
  modelled. A \<^verbatim>\<open>dict\<close> is an association list in insertion order. A \<^verbatim>\<open>float\<close> is its
  IEEE double, written exactly as sign, mantissa and binary exponent.
\<close>

subsection \<open>Floats\<close>

text \<open>
  \<open>PyFin neg m e\<close> is the double \<open>\<plusminus>m * 2^e\<close>. \<open>dec_to_float\<close> is \<^verbatim>\<open>float(text)\<close> for the
  decimal \<open>\<plusminus>d * 10^k\<close>: the nearest double, ties to the even mantissa, infinity on overflow.
\<close>

datatype pyfloat = PyNaN | PyInf bool | PyFin bool nat int

fun bit_length :: "nat \<Rightarrow> nat" where
  "bit_length n = (if n = 0 then 0 else Suc (bit_length (n div 2)))"

declare bit_length.simps [simp del]

definition round_half_even :: "nat \<Rightarrow> nat \<Rightarrow> nat" where
  "round_half_even a b =
     (let q = a div b; r = a mod b
      in if 2 * r > b \<or> (2 * r = b \<and> odd q) then Suc q else q)"

definition ratio_to_float :: "bool \<Rightarrow> nat \<Rightarrow> nat \<Rightarrow> pyfloat" where
  "ratio_to_float neg num den =
     (if num = 0 then PyFin neg 0 0
      else
        let scale = (\<lambda>e::int. (num * 2 ^ nat (- e), den * 2 ^ nat e));
            e0 = max (- 1074) (int (bit_length num) - int (bit_length den) - 53);
            e = (if fst (scale e0) div snd (scale e0) \<ge> 2 ^ 53 then e0 + 1 else e0);
            m = round_half_even (fst (scale e)) (snd (scale e))
        in if e > 971 \<or> (e = 971 \<and> m \<ge> 2 ^ 53) then PyInf neg else PyFin neg m e)"

definition dec_to_float :: "bool \<Rightarrow> nat \<Rightarrow> int \<Rightarrow> pyfloat" where
  "dec_to_float neg d k = ratio_to_float neg (d * 10 ^ nat k) (10 ^ nat (- k))"

definition is_finite :: "pyfloat \<Rightarrow> bool" where
  "is_finite x = (case x of PyFin _ _ _ \<Rightarrow> True | _ \<Rightarrow> False)"

text \<open>Exact comparison of two numbers \<open>m * 2^e\<close>.\<close>

definition dyadic_eq :: "int \<Rightarrow> int \<Rightarrow> int \<Rightarrow> int \<Rightarrow> bool" where
  "dyadic_eq m e m' e' \<longleftrightarrow> m * 2 ^ nat (e - min e e') = m' * 2 ^ nat (e' - min e e')"

definition with_sign :: "bool \<Rightarrow> nat \<Rightarrow> int" where
  "with_sign neg m = (if neg then - int m else int m)"

fun float_eq :: "pyfloat \<Rightarrow> pyfloat \<Rightarrow> bool" where
  "float_eq (PyInf n) (PyInf n') = (n = n')"
| "float_eq (PyFin n m e) (PyFin n' m' e') = dyadic_eq (with_sign n m) e (with_sign n' m') e'"
| "float_eq _ _ = False"

lemma dyadic_eq_refl [simp]: "dyadic_eq m e m e"
  by (simp add: dyadic_eq_def)

lemma dyadic_eq_sym: "dyadic_eq m e m' e' \<longleftrightarrow> dyadic_eq m' e' m e"
  by (auto simp: dyadic_eq_def min.commute)

lemma dyadic_eq_trans_int: "dyadic_eq m 0 m' 0 \<longleftrightarrow> m = m'"
  by (simp add: dyadic_eq_def)

subsection \<open>Values\<close>

datatype pyval =
    PNone
  | PBool bool
  | PInt int
  | PFloat pyfloat
  | PStr string
  | PList "pyval list"
  | PDict "(string \<times> pyval) list"

type_synonym pydict = "(string \<times> pyval) list"

text \<open>\<^verbatim>\<open>isinstance(x, int)\<close> holds of booleans too, \<^verbatim>\<open>type(x) is int\<close> does not.\<close>

definition is_str :: "pyval \<Rightarrow> bool" where
  "is_str v = (case v of PStr _ \<Rightarrow> True | _ \<Rightarrow> False)"

definition dict_get :: "pydict \<Rightarrow> string \<Rightarrow> pyval" where
  "dict_get d k = (case map_of d k of None \<Rightarrow> PNone | Some v \<Rightarrow> v)"

definition has_key :: "pydict \<Rightarrow> string \<Rightarrow> bool" where
  "has_key d k \<longleftrightarrow> map_of d k \<noteq> None"

definition keys_are :: "pydict \<Rightarrow> string list \<Rightarrow> bool" where
  "keys_are d fields \<longleftrightarrow> set (map fst d) = set fields"

text \<open>\<^verbatim>\<open>isinstance(v, str) and v\<close>: a non-empty string.\<close>

definition nonempty_str :: "pyval \<Rightarrow> string option" where
  "nonempty_str v = (case v of PStr s \<Rightarrow> (if s = [] then None else Some s) | _ \<Rightarrow> None)"

lemma nonempty_str_Some [simp]: "nonempty_str v = Some s \<longleftrightarrow> v = PStr s \<and> s \<noteq> []"
  by (auto simp: nonempty_str_def split: pyval.splits)

text \<open>\<^verbatim>\<open>isinstance(v, str)\<close>.\<close>

definition str_value :: "pyval \<Rightarrow> string option" where
  "str_value v = (case v of PStr s \<Rightarrow> Some s | _ \<Rightarrow> None)"

lemma str_value_Some [simp]: "str_value v = Some s \<longleftrightarrow> v = PStr s"
  by (auto simp: str_value_def split: pyval.splits)

text \<open>\<^verbatim>\<open>type(v) is int\<close>.\<close>

definition int_value :: "pyval \<Rightarrow> int option" where
  "int_value v = (case v of PInt i \<Rightarrow> Some i | _ \<Rightarrow> None)"

lemma int_value_Some [simp]: "int_value v = Some i \<longleftrightarrow> v = PInt i"
  by (auto simp: int_value_def split: pyval.splits)

text \<open>\<^verbatim>\<open>type(v) is bool\<close>.\<close>

definition bool_value :: "pyval \<Rightarrow> bool option" where
  "bool_value v = (case v of PBool b \<Rightarrow> Some b | _ \<Rightarrow> None)"

lemma bool_value_Some [simp]: "bool_value v = Some b \<longleftrightarrow> v = PBool b"
  by (auto simp: bool_value_def split: pyval.splits)

text \<open>A dictionary of strings.\<close>

definition str_dict :: "(string \<times> string) list \<Rightarrow> pydict" where
  "str_dict d = map (\<lambda>(k, v). (k, PStr v)) d"

lemma str_dict_inject [simp]: "str_dict d = str_dict d' \<longleftrightarrow> d = d'"
  unfolding str_dict_def by (rule inj_map_eq_map) (auto simp: inj_def)

lemma has_key_iff: "has_key d k \<longleftrightarrow> k \<in> fst ` set d"
  by (auto simp: has_key_def map_of_eq_None_iff)

lemma keys_are_has_key: "keys_are d fields \<Longrightarrow> k \<in> set fields \<Longrightarrow> has_key d k"
  by (simp add: keys_are_def has_key_iff)

subsection \<open>Strings\<close>

definition starts_with :: "string \<Rightarrow> string \<Rightarrow> bool" where
  "starts_with s p \<longleftrightarrow> take (length p) s = p"

definition ends_with :: "string \<Rightarrow> string \<Rightarrow> bool" where
  "ends_with s p \<longleftrightarrow> length p \<le> length s \<and> drop (length s - length p) s = p"

fun contains :: "string \<Rightarrow> string \<Rightarrow> bool" where
  "contains p [] = (p = [])"
| "contains p (c # s) = (starts_with (c # s) p \<or> contains p s)"

text \<open>\<^verbatim>\<open>s[: -len(suffix)]\<close> for a non-empty suffix.\<close>

definition drop_suffix :: "string \<Rightarrow> string \<Rightarrow> string" where
  "drop_suffix s suffix = take (length s - length suffix) s"

fun split_on :: "char \<Rightarrow> string \<Rightarrow> string list" where
  "split_on sep [] = [[]]"
| "split_on sep (c # s) =
     (if c = sep then [] # split_on sep s
      else case split_on sep s of [] \<Rightarrow> [[c]] | w # ws \<Rightarrow> (c # w) # ws)"

fun join_with :: "string \<Rightarrow> string list \<Rightarrow> string" where
  "join_with sep [] = []"
| "join_with sep [w] = w"
| "join_with sep (w # ws) = w @ sep @ join_with sep ws"

text \<open>\<^verbatim>\<open>str.strip\<close>: Python's white space among the code points 0..255.\<close>

definition is_space :: "char \<Rightarrow> bool" where
  "is_space c \<longleftrightarrow> (of_char c :: nat) \<in> {9, 10, 11, 12, 13, 28, 29, 30, 31, 32, 133, 160}"

definition strip :: "string \<Rightarrow> string" where
  "strip s = rev (dropWhile is_space (rev (dropWhile is_space s)))"

text \<open>
  \<^verbatim>\<open>str.casefold\<close> on code points 0..255: the capital letters lose their case and
  the German sharp s (223) becomes \<^verbatim>\<open>ss\<close>. The micro sign (181) folds to a Greek letter that is no
  Latin-1 character; the model leaves it alone, and no comparison in the sources tells
  the difference, since they compare with ASCII text.
\<close>

definition fold_char :: "char \<Rightarrow> string" where
  "fold_char c =
     (let n = (of_char c :: nat)
      in if (65 \<le> n \<and> n \<le> 90) \<or> (192 \<le> n \<and> n \<le> 222 \<and> n \<noteq> 215) then [char_of (n + 32)]
         else if n = 223 then ''ss'' else [c])"

definition casefold :: "string \<Rightarrow> string" where
  "casefold s = concat (map fold_char s)"

lemma starts_with_append [simp]: "starts_with (p @ s) p"
  by (simp add: starts_with_def)

lemma starts_with_iff: "starts_with s p \<longleftrightarrow> (\<exists>t. s = p @ t)"
proof
  assume "starts_with s p"
  then have "p @ drop (length p) s = s"
    unfolding starts_with_def by (metis append_take_drop_id)
  then show "\<exists>t. s = p @ t" by metis
qed auto

lemma ends_with_iff: "ends_with s p \<longleftrightarrow> (\<exists>t. s = t @ p)"
proof
  assume "ends_with s p"
  then have "take (length s - length p) s @ p = s"
    unfolding ends_with_def by (metis append_take_drop_id)
  then show "\<exists>t. s = t @ p" by metis
qed (auto simp: ends_with_def)

lemma contains_iff: "contains p s \<longleftrightarrow> (\<exists>a b. s = a @ p @ b)"
proof (induction s)
  case (Cons c s)
  show ?case
    by (auto simp: starts_with_iff Cons.IH Cons_eq_append_conv intro: exI [of _ "[]"])
qed simp

lemma drop_suffix_append [simp]: "drop_suffix (s @ t) t = s"
  by (simp add: drop_suffix_def)

lemma split_on_not_Nil [simp]: "split_on sep s \<noteq> []"
  by (induction s) (auto split: list.splits)

lemma split_on_join: "join_with [sep] (split_on sep s) = s"
proof (induction s)
  case (Cons c s)
  then show ?case
    by (cases "split_on sep s"; cases "tl (split_on sep s)") auto
qed simp

end
