(* ===== verification/Exceptions.thy ===== *)
theory Exceptions
  imports PyValue
begin

section \<open>Exception classes and adapter observations\<close>

text \<open>
  The exception classes the modelled code raises or catches, as one datatype. Messages keep
  the constant text of the source; an interpolated list or \<^verbatim>\<open>repr\<close> is left out.
  The adapter's observation record is declared here because one exception carries it.
\<close>

text \<open>
  \<^verbatim>\<open>MetadataObservation\<close> of \<^verbatim>\<open>openclaw_adapter.py\<close>: \<open>None\<close> and a string are kept
  apart, as the declared types \<^verbatim>\<open>str | None\<close> say.
\<close>

record observation =
  obs_version :: "string option"
  obs_normalized :: "pydict option"
  obs_raw_json :: "string option"
  obs_external_id :: "string option"
  obs_spawn_session_key :: "string option"
  obs_session_key :: "string option"
  obs_status_json :: "string option"
  obs_raw_response :: "string option"

datatype exn =
    MetadataContractError string
  | PredicateContractError string
  | PrivacyPreflightError string
  | BudgetError string
  | BudgetConflict string
  | BudgetExceeded string
  | MigrationError string
  | RuntimeDispatchError string
  | AdapterContractError string
  | AdapterAmbiguousOutcomeError string "observation option"
  | SqliteIntegrityError string
  | SqliteError string
  | JSONDecodeError string
  | KeyError string
  | TypeError string
  | OSError string
  | FileNotFoundError string
  | NotADirectoryError string
  | TimeoutError string
  | TimeoutExpired string
  | UnicodeError string
  | OtherError string
  | OutsideModel string

text \<open>\<open>str(exc)\<close>.\<close>

fun exn_text :: "exn \<Rightarrow> string" where
  "exn_text (MetadataContractError s) = s"
| "exn_text (PredicateContractError s) = s"
| "exn_text (PrivacyPreflightError s) = s"
| "exn_text (BudgetError s) = s"
| "exn_text (BudgetConflict s) = s"
| "exn_text (BudgetExceeded s) = s"
| "exn_text (MigrationError s) = s"
| "exn_text (RuntimeDispatchError s) = s"
| "exn_text (AdapterContractError s) = s"
| "exn_text (AdapterAmbiguousOutcomeError s _) = s"
| "exn_text (SqliteIntegrityError s) = s"
| "exn_text (SqliteError s) = s"
| "exn_text (JSONDecodeError s) = s"
| "exn_text (KeyError s) = s"
| "exn_text (TypeError s) = s"
| "exn_text (OSError s) = s"
| "exn_text (FileNotFoundError s) = s"
| "exn_text (NotADirectoryError s) = s"
| "exn_text (TimeoutError s) = s"
| "exn_text (TimeoutExpired s) = s"
| "exn_text (UnicodeError s) = s"
| "exn_text (OtherError s) = s"
| "exn_text (OutsideModel s) = s"

text \<open>What \<^verbatim>\<open>except OSError\<close> catches: the class and its subclasses.\<close>

definition is_os_error :: "exn \<Rightarrow> bool" where
  "is_os_error e =
     (case e of OSError _ \<Rightarrow> True | FileNotFoundError _ \<Rightarrow> True | NotADirectoryError _ \<Rightarrow> True
      | TimeoutError _ \<Rightarrow> True | _ \<Rightarrow> False)"

text \<open>\<^verbatim>\<open>d[k]\<close>.\<close>

definition getitem :: "pydict \<Rightarrow> string \<Rightarrow> exn + pyval" where
  "getitem d k = (case map_of d k of None \<Rightarrow> Inl (KeyError k) | Some v \<Rightarrow> Inr v)"

lemma getitem_Inr_iff [err_simps]: "getitem d k = Inr v \<longleftrightarrow> map_of d k = Some v"
  by (auto simp: getitem_def split: option.splits)

lemma getitem_has_key: "has_key d k \<Longrightarrow> \<exists>v. getitem d k = Inr v"
  by (auto simp: getitem_def has_key_def)

end
