(* ===== verification/Json.thy ===== *)
theory Json
  imports Exceptions
begin

section \<open>JSON text: \<open>json.loads\<close> and \<open>json.dumps\<close>\<close>

text \<open>
  The standard library's JSON functions as the sources use them. \<open>json_loads\<close> takes the two
  hooks of \<^verbatim>\<open>metadata.py\<close> (\<open>object_pairs_hook\<close>, called on every object as it closes, and
  \<open>parse_constant\<close>, called on \<^verbatim>\<open>NaN\<close>, \<^verbatim>\<open>Infinity\<close>, \<^verbatim>\<open>-Infinity\<close>) as arguments; \<open>dumps\<close> is
  \<^verbatim>\<open>json.dumps(v, sort_keys=True, separators=(",", ":"))\<close>. The parser recurses with a
  fuel argument; \<open>json_loads_not_out_of_fuel\<close> shows that the fuel it starts with is always enough.
  Out of scope: an escape for a code point above 255 (\<open>OutsideModel\<close>), the interpreter's
  limits on recursion depth and on the number of digits of an integer.
\<close>

subsection \<open>Lexical elements\<close>

definition is_digit :: "char \<Rightarrow> bool" where
  "is_digit c \<longleftrightarrow> 48 \<le> (of_char c :: nat) \<and> (of_char c :: nat) \<le> 57"

definition is_json_ws :: "char \<Rightarrow> bool" where
  "is_json_ws c \<longleftrightarrow> (of_char c :: nat) \<in> {32, 9, 10, 13}"

definition skip_ws :: "string \<Rightarrow> string" where
  "skip_ws s = dropWhile is_json_ws s"

definition digit_value :: "char \<Rightarrow> nat" where
  "digit_value c = of_char c - 48"

definition nat_of_digits :: "string \<Rightarrow> nat" where
  "nat_of_digits s = foldl (\<lambda>a c. 10 * a + digit_value c) 0 s"

fun digits_of :: "nat \<Rightarrow> string" where
  "digits_of n =
     (if n < 10 then [char_of (48 + n)] else digits_of (n div 10) @ [char_of (48 + n mod 10)])"

declare digits_of.simps [simp del]

definition int_text :: "int \<Rightarrow> string" where
  "int_text i = (if i < 0 then ''-'' @ digits_of (nat (- i)) else digits_of (nat i))"

definition span_digits :: "string \<Rightarrow> string \<times> string" where
  "span_digits s = (takeWhile is_digit s, dropWhile is_digit s)"

definition hex_value :: "char \<Rightarrow> nat option" where
  "hex_value c =
     (let n = (of_char c :: nat)
      in if 48 \<le> n \<and> n \<le> 57 then Some (n - 48)
         else if 97 \<le> n \<and> n \<le> 102 then Some (n - 87)
         else if 65 \<le> n \<and> n \<le> 70 then Some (n - 55) else None)"

definition hex_char :: "nat \<Rightarrow> char" where
  "hex_char d = (if d < 10 then char_of (48 + d) else char_of (87 + d))"

definition hex4 :: "char \<Rightarrow> char \<Rightarrow> char \<Rightarrow> char \<Rightarrow> nat option" where
  "hex4 a b c d =
     (case (hex_value a, hex_value b, hex_value c, hex_value d) of
        (Some w, Some x, Some y, Some z) \<Rightarrow> Some (4096 * w + 256 * x + 16 * y + z)
      | _ \<Rightarrow> None)"

definition simple_escape :: "char \<Rightarrow> char option" where
  "simple_escape e =
     (if e = CHR 0x22 then Some (CHR 0x22)
      else if e = CHR 0x5C then Some (CHR 0x5C)
      else if e = CHR ''/'' then Some (CHR ''/'')
      else if e = CHR ''b'' then Some (CHR 0x08)
      else if e = CHR ''f'' then Some (CHR 0x0C)
      else if e = CHR ''n'' then Some (CHR 0x0A)
      else if e = CHR ''r'' then Some (CHR 0x0D)
      else if e = CHR ''t'' then Some (CHR 0x09) else None)"

definition bad_json :: exn where
  "bad_json = JSONDecodeError ''invalid JSON''"

definition out_of_fuel :: exn where
  "out_of_fuel = OutsideModel ''out of fuel''"

definition wide_char :: exn where
  "wide_char = OutsideModel ''code point above 255''"

text \<open>The text after a backslash: the character it stands for and the rest.\<close>

fun unescape_hex :: "string \<Rightarrow> exn + (char \<times> string)" where
  "unescape_hex (h1 # h2 # h3 # h4 # rest) =
     (case hex4 h1 h2 h3 h4 of
        None \<Rightarrow> Inl bad_json
      | Some n \<Rightarrow> (if n < 256 then Inr (char_of n, rest) else Inl wide_char))"
| "unescape_hex _ = Inl bad_json"

fun unescape :: "string \<Rightarrow> exn + (char \<times> string)" where
  "unescape [] = Inl bad_json"
| "unescape (e # es) =
     (if e = CHR ''u'' then unescape_hex es
      else (case simple_escape e of None \<Rightarrow> Inl bad_json | Some d \<Rightarrow> Inr (d, es)))"

lemma unescape_hex_shrinks: "unescape_hex s = Inr (d, r) \<Longrightarrow> length r < length s"
  by (induction s rule: unescape_hex.induct) (auto split: option.splits if_splits)

lemma unescape_shrinks: "unescape s = Inr (d, r) \<Longrightarrow> length r < length s"
  by (cases s) (auto split: option.splits if_splits dest!: unescape_hex_shrinks)

text \<open>The text after the opening quote: the decoded string and the text after the closing one.\<close>

function scan_string :: "string \<Rightarrow> exn + (string \<times> string)" where
  "scan_string [] = Inl bad_json"
| "scan_string (c # cs) =
     (if c = CHR 0x22 then Inr ([], cs)
      else if c = CHR 0x5C then
        bindE (unescape cs) (\<lambda>dr.
        bindE (scan_string (snd dr)) (\<lambda>(s, r). Inr (fst dr # s, r)))
      else if (of_char c :: nat) < 32 then Inl bad_json
      else bindE (scan_string cs) (\<lambda>(s, r). Inr (c # s, r)))"
  by pat_completeness auto
termination
  by (relation "measure length") (auto dest: unescape_shrinks)

subsection \<open>Numbers\<close>

definition frac_part :: "string \<Rightarrow> string option \<times> string" where
  "frac_part s =
     (case s of
        c # r \<Rightarrow>
          (if c = CHR ''.'' \<and> fst (span_digits r) \<noteq> []
           then (Some (fst (span_digits r)), snd (span_digits r)) else (None, s))
      | [] \<Rightarrow> (None, s))"

definition exp_part :: "string \<Rightarrow> int option \<times> string" where
  "exp_part s =
     (case s of
        c # r \<Rightarrow>
          (if c = CHR ''e'' \<or> c = CHR ''E'' then
             (let (neg, r1) =
                (case r of
                   d # r' \<Rightarrow> (if d = CHR ''-'' then (True, r')
                              else if d = CHR ''+'' then (False, r') else (False, r))
                 | [] \<Rightarrow> (False, r))
              in if fst (span_digits r1) = [] then (None, s)
                 else (Some (with_sign neg (nat_of_digits (fst (span_digits r1)))),
                       snd (span_digits r1)))
           else (None, s))
      | [] \<Rightarrow> (None, s))"

definition parse_unsigned :: "bool \<Rightarrow> string \<Rightarrow> exn + (pyval \<times> string)" where
  "parse_unsigned neg s =
     (case s of
        [] \<Rightarrow> Inl bad_json
      | d # ds \<Rightarrow>
          (if \<not> is_digit d then Inl bad_json
           else
             let (ip, s2) = (if d = CHR ''0'' then ([d], ds) else span_digits s);
                 (fp, s3) = frac_part s2;
                 (ep, s4) = exp_part s3
             in if fp = None \<and> ep = None then Inr (PInt (with_sign neg (nat_of_digits ip)), s4)
                else
                  let fd = (case fp of None \<Rightarrow> [] | Some f \<Rightarrow> f);
                      e = (case ep of None \<Rightarrow> 0 | Some x \<Rightarrow> x)
                  in Inr (PFloat (dec_to_float neg (nat_of_digits (ip @ fd)) (e - int (length fd))), s4)))"

definition parse_number :: "string \<Rightarrow> exn + (pyval \<times> string)" where
  "parse_number s =
     (case s of
        c # cs \<Rightarrow> (if c = CHR ''-'' then parse_unsigned True cs else parse_unsigned False s)
      | [] \<Rightarrow> Inl bad_json)"

subsection \<open>Values\<close>

definition expect :: "char \<Rightarrow> string \<Rightarrow> exn + string" where
  "expect c s = (case s of [] \<Rightarrow> Inl bad_json | d # r \<Rightarrow> (if d = c then Inr r else Inl bad_json))"

text \<open>After a member or an element: the closing bracket (\<open>True\<close>) or a comma.\<close>

definition separator :: "char \<Rightarrow> string \<Rightarrow> exn + (bool \<times> string)" where
  "separator close s =
     (case s of
        [] \<Rightarrow> Inl bad_json
      | d # r \<Rightarrow> (if d = close then Inr (True, r)
                 else if d = CHR '','' then Inr (False, r) else Inl bad_json))"

text \<open>
  \<open>parse_value\<close> reads one value with no white space before it; \<open>parse_members\<close> and \<open>parse_elems\<close>
  read the rest of a non-empty object or array from the start of a member or an element.
\<close>

fun parse_value :: "(pydict \<Rightarrow> exn + pyval) \<Rightarrow> (string \<Rightarrow> exn + pyval) \<Rightarrow> nat \<Rightarrow> string
      \<Rightarrow> exn + (pyval \<times> string)"
  and parse_members :: "(pydict \<Rightarrow> exn + pyval) \<Rightarrow> (string \<Rightarrow> exn + pyval) \<Rightarrow> nat \<Rightarrow> pydict \<Rightarrow> string
      \<Rightarrow> exn + (pyval \<times> string)"
  and parse_elems :: "(pydict \<Rightarrow> exn + pyval) \<Rightarrow> (string \<Rightarrow> exn + pyval) \<Rightarrow> nat \<Rightarrow> pyval list
      \<Rightarrow> string \<Rightarrow> exn + (pyval \<times> string)" where
  "parse_value h k 0 s = Inl out_of_fuel"
| "parse_value h k (Suc n) s =
     (case s of
        [] \<Rightarrow> Inl bad_json
      | c # cs \<Rightarrow>
          (if c = CHR 0x22 then bindE (scan_string cs) (\<lambda>(x, r). Inr (PStr x, r))
           else if c = CHR 0x7B then
             (case skip_ws cs of
                [] \<Rightarrow> Inl bad_json
              | d # r \<Rightarrow> (if d = CHR 0x7D then bindE (h []) (\<lambda>v. Inr (v, r))
                         else parse_members h k n [] (d # r)))
           else if c = CHR 0x5B then
             (case skip_ws cs of
                [] \<Rightarrow> Inl bad_json
              | d # r \<Rightarrow> (if d = CHR 0x5D then Inr (PList [], r)
                         else parse_elems h k n [] (d # r)))
           else if starts_with s ''null'' then Inr (PNone, drop 4 s)
           else if starts_with s ''true'' then Inr (PBool True, drop 4 s)
           else if starts_with s ''false'' then Inr (PBool False, drop 5 s)
           else if starts_with s ''NaN'' then bindE (k ''NaN'') (\<lambda>v. Inr (v, drop 3 s))
           else if starts_with s ''Infinity'' then bindE (k ''Infinity'') (\<lambda>v. Inr (v, drop 8 s))
           else if starts_with s ''-Infinity'' then bindE (k ''-Infinity'') (\<lambda>v. Inr (v, drop 9 s))
           else parse_number s))"
| "parse_members h k 0 acc s = Inl out_of_fuel"
| "parse_members h k (Suc n) acc s =
     bindE (expect (CHR 0x22) s) (\<lambda>cs.
     bindE (scan_string cs) (\<lambda>(key, r1).
     bindE (expect (CHR '':'') (skip_ws r1)) (\<lambda>r2.
     bindE (parse_value h k n (skip_ws r2)) (\<lambda>(v, r3).
     bindE (separator (CHR 0x7D) (skip_ws r3)) (\<lambda>(closed, r4).
       if closed then bindE (h (acc @ [(key, v)])) (\<lambda>obj. Inr (obj, r4))
       else parse_members h k n (acc @ [(key, v)]) (skip_ws r4))))))"
| "parse_elems h k 0 acc s = Inl out_of_fuel"
| "parse_elems h k (Suc n) acc s =
     bindE (parse_value h k n s) (\<lambda>(v, r).
     bindE (separator (CHR 0x5D) (skip_ws r)) (\<lambda>(closed, r').
       if closed then Inr (PList (acc @ [v]), r')
       else parse_elems h k n (acc @ [v]) (skip_ws r')))"

declare parse_value.simps [simp del] parse_members.simps [simp del] parse_elems.simps [simp del]

definition json_fuel :: "string \<Rightarrow> nat" where
  "json_fuel s = 2 * length s + 1"

definition json_loads :: "(pydict \<Rightarrow> exn + pyval) \<Rightarrow> (string \<Rightarrow> exn + pyval) \<Rightarrow> string \<Rightarrow> exn + pyval" where
  "json_loads h k s =
     bindE (parse_value h k (json_fuel s) (skip_ws s)) (\<lambda>(v, r).
       if skip_ws r = [] then Inr v else Inl bad_json)"

text \<open>
  Without hooks a repeated key keeps its place and takes the last value, and the three
  constants are floats.
\<close>

definition plain_object :: "pydict \<Rightarrow> exn + pyval" where
  "plain_object pairs = Inr (PDict (foldl (\<lambda>d (k, v). dict_set k v d) [] pairs))"

definition plain_constant :: "string \<Rightarrow> exn + pyval" where
  "plain_constant c =
     Inr (PFloat (if c = ''NaN'' then PyNaN else PyInf (c = ''-Infinity'')))"

definition json_loads_plain :: "string \<Rightarrow> exn + pyval" where
  "json_loads_plain = json_loads plain_object plain_constant"

subsection \<open>The fuel is always enough\<close>

text \<open>
  Every parser that returns has consumed text, so the text bounds the number of calls.
\<close>

lemma length_skip_ws: "length (skip_ws s) \<le> length s"
  by (simp add: skip_ws_def length_dropWhile_le)

lemma skip_ws_Cons_length: "skip_ws s = c # r \<Longrightarrow> length r < length s"
  using length_skip_ws [of s] by simp

lemma scan_string_shrinks: "scan_string s = Inr (x, r) \<Longrightarrow> length r < length s"
proof (induction s arbitrary: x r rule: scan_string.induct)
  case (2 c cs)
  consider (quote) "c = CHR 0x22" "r = cs"
    | (escape) d b x' where "unescape cs = Inr (d, b)" "scan_string b = Inr (x', r)"
        "c \<noteq> CHR 0x22" "c = CHR 0x5C"
    | (plain) x' where "scan_string cs = Inr (x', r)" "c \<noteq> CHR 0x22" "c \<noteq> CHR 0x5C"
        "\<not> (of_char c :: nat) < 32"
    using "2.prems" by (auto simp: err_simps split: if_splits)
  then show ?case
  proof cases
    case escape
    then show ?thesis using "2.IH"(1) [of "(d, b)"] unescape_shrinks by fastforce
  next
    case plain
    then show ?thesis using "2.IH"(2) by fastforce
  qed simp
qed simp

lemma length_span_digits: "length (snd (span_digits s)) \<le> length s"
  by (simp add: span_digits_def length_dropWhile_le)

lemma length_frac_part: "length (snd (frac_part s)) \<le> length s"
  using length_span_digits [of "tl s"] by (cases s) (auto simp: frac_part_def)

lemma length_exp_part: "length (snd (exp_part s)) \<le> length s"
proof (cases s)
  case (Cons c r)
  then show ?thesis
    using length_span_digits [of r] length_span_digits [of "tl r"]
    by (cases r) (auto simp: exp_part_def Let_def)
qed (simp add: exp_part_def)

lemma parse_unsigned_shrinks: "parse_unsigned neg s = Inr (v, r) \<Longrightarrow> length r < length s"
proof (cases s)
  case (Cons d ds)
  assume p: "parse_unsigned neg s = Inr (v, r)"
  define s2 where "s2 = snd (if d = CHR ''0'' then ([d], ds) else span_digits s)"
  have d: "is_digit d" using p Cons by (auto simp: parse_unsigned_def split: if_splits)
  have "length s2 \<le> length ds"
    using d Cons by (simp add: s2_def span_digits_def length_dropWhile_le)
  moreover have "r = snd (exp_part (snd (frac_part s2)))"
    using p Cons d by (auto simp: parse_unsigned_def s2_def Let_def split: prod.splits if_splits)
  ultimately show ?thesis
    using Cons length_exp_part [of "snd (frac_part s2)"] length_frac_part [of s2] by simp
qed (simp add: parse_unsigned_def)

lemma parse_number_shrinks: "parse_number s = Inr (v, r) \<Longrightarrow> length r < length s"
  by (auto simp: parse_number_def split: list.splits if_splits dest!: parse_unsigned_shrinks)

lemma starts_with_length: "starts_with s p \<Longrightarrow> length p \<le> length s"
  by (auto simp: starts_with_iff)


lemma expect_Inr_iff [err_simps]: "expect c s = Inr r \<longleftrightarrow> s = c # r"
  by (auto simp: expect_def split: list.splits if_splits)

lemma separator_Inr_iff [err_simps]:
  "separator close s = Inr (b, r) \<longleftrightarrow> (if b then s = close # r else s = CHR '','' # r \<and> close \<noteq> CHR '','')"
  by (auto simp: separator_def split: list.splits if_splits)

lemma parse_shrinks:
  "(\<forall>s v r. parse_value h k n s = Inr (v, r) \<longrightarrow> length r < length s) \<and>
   (\<forall>acc s v r. parse_members h k n acc s = Inr (v, r) \<longrightarrow> length r < length s) \<and>
   (\<forall>acc s v r. parse_elems h k n acc s = Inr (v, r) \<longrightarrow> length r < length s)"
proof (induction n)
  case 0
  then show ?case by (simp add: parse_value.simps parse_members.simps parse_elems.simps)
next
  case (Suc n)
  then have IH: "\<And>s v r. parse_value h k n s = Inr (v, r) \<Longrightarrow> length r < length s"
    "\<And>acc s v r. parse_members h k n acc s = Inr (v, r) \<Longrightarrow> length r < length s"
    "\<And>acc s v r. parse_elems h k n acc s = Inr (v, r) \<Longrightarrow> length r < length s" by blast+
  have v: "length r < length s" if "parse_value h k (Suc n) s = Inr (v, r)" for s v r
    using that Suc.IH 
    by (auto simp: parse_value.simps err_simps split: list.splits if_splits
        dest!: scan_string_shrinks parse_number_shrinks skip_ws_Cons_length starts_with_length)
       (fastforce)+
  have m: "length r < length s" if p: "parse_members h k (Suc n) acc s = Inr (v, r)" for acc s v r
  proof -
    from p obtain key cs r1 r2 w r3 b r4 where s: "s = CHR 0x22 # cs"
      and a: "scan_string cs = Inr (key, r1)" "skip_ws r1 = CHR '':'' # r2"
        "parse_value h k n (skip_ws r2) = Inr (w, r3)" "separator (CHR 0x7D) (skip_ws r3) = Inr (b, r4)"
      and f: "b \<and> r = r4 \<or> parse_members h k n (acc @ [(key, w)]) (skip_ws r4) = Inr (v, r)"
      by (auto simp: parse_members.simps bindE_Inr_iff expect_Inr_iff split: if_splits)
    have "length r4 < length s"
      using s scan_string_shrinks [OF a(1)] skip_ws_Cons_length [OF a(2)] IH(1) [OF a(3)] a(4)
        length_skip_ws [of r2] length_skip_ws [of r3]
      by (auto simp: separator_Inr_iff split: if_splits)
    then show ?thesis using f IH(2) length_skip_ws [of r4] by fastforce
  qed
  have e: "length r < length s" if p: "parse_elems h k (Suc n) acc s = Inr (v, r)" for acc s v r
  proof -
    from p obtain w r3 b r4 where 
       a: "parse_value h k n s = Inr (w, r3)" "separator (CHR 0x5D) (skip_ws r3) = Inr (b, r4)"
      and f: "b \<and> r = r4 \<or> parse_elems h k n (acc @ [w]) (skip_ws r4) = Inr (v, r)"
      by (auto simp: parse_elems.simps bindE_Inr_iff split: if_splits)
    have "length r4 < length s"
      using IH(1) [OF a(1)] a(2) length_skip_ws [of r3]
      by (auto simp: separator_Inr_iff split: if_splits)
    then show ?thesis using f IH(3) length_skip_ws [of r4] by fastforce
  qed
  show ?case using v m e by blast
qed

lemmas parse_value_shrinks = parse_shrinks [THEN conjunct1, rule_format]

lemma bad_json_fuel: "bad_json \<noteq> out_of_fuel" "wide_char \<noteq> out_of_fuel" 
  by (simp_all add: bad_json_def out_of_fuel_def wide_char_def)

lemma expect_fuel: "expect c s \<noteq> Inl out_of_fuel" "separator d s \<noteq> Inl out_of_fuel"
  by (auto simp: expect_def separator_def bad_json_fuel split: list.splits)

lemma unescape_fuel: "unescape s \<noteq> Inl out_of_fuel"
proof -
  have "unescape_hex t \<noteq> Inl out_of_fuel" for t
    by (induction t rule: unescape_hex.induct) (simp_all add: bad_json_fuel split: option.split)
  then show ?thesis by (cases s) (simp_all add: bad_json_fuel split: option.split)
qed

lemma scan_string_fuel: "scan_string s \<noteq> Inl out_of_fuel"
proof (induction s rule: scan_string.induct)
  case (2 c cs)
  then show ?case
    by (auto simp: err_simps bad_json_fuel unescape_fuel split: if_splits)
qed (simp add: bad_json_fuel)

lemma parse_number_fuel: "parse_number s \<noteq> Inl out_of_fuel"
  by (simp add: parse_number_def parse_unsigned_def bad_json_fuel Let_def split_def split: list.split)

lemma parse_fuel_enough:
  assumes h: "\<And>d. h d \<noteq> Inl out_of_fuel" and k: "\<And>c. k c \<noteq> Inl out_of_fuel"
  shows "(\<forall>s. 2 * length s < n \<longrightarrow> parse_value h k n s \<noteq> Inl out_of_fuel) \<and>
   (\<forall>acc s. 2 * length s < n \<longrightarrow> parse_members h k n acc s \<noteq> Inl out_of_fuel) \<and>
   (\<forall>acc s. Suc (2 * length s) < n \<longrightarrow> parse_elems h k n acc s \<noteq> Inl out_of_fuel)"
proof (induction n)
  case 0
  then show ?case by simp
next
  case (Suc n)
  then have IH: "\<And>s. 2 * length s < n \<Longrightarrow> parse_value h k n s \<noteq> Inl out_of_fuel"
    "\<And>acc s. 2 * length s < n \<Longrightarrow> parse_members h k n acc s \<noteq> Inl out_of_fuel"
    "\<And>acc s. Suc (2 * length s) < n \<Longrightarrow> parse_elems h k n acc s \<noteq> Inl out_of_fuel" by blast+
  have v: "parse_value h k (Suc n) s \<noteq> Inl out_of_fuel" if "2 * length s < Suc n" for s
  proof (cases s)
    case (Cons c cs)
    have "Suc (2 * length (skip_ws cs)) < n"
      using that Cons length_skip_ws [of cs] by simp
    then show ?thesis
      using IH Cons h k scan_string_fuel parse_number_fuel
      by (auto simp: parse_value.simps err_simps bad_json_fuel split: list.splits if_splits prod.splits)
  qed (simp add: parse_value.simps bad_json_fuel)
  have m: "parse_members h k (Suc n) acc s \<noteq> Inl out_of_fuel" if l: "2 * length s < Suc n" for acc s
  proof
    assume "parse_members h k (Suc n) acc s = Inl out_of_fuel"
    then obtain key cs r1 r2 where s: "s = CHR 0x22 # cs"
      and a: "scan_string cs = Inr (key, r1)" "skip_ws r1 = CHR '':'' # r2"
      and f: "parse_value h k n (skip_ws r2) = Inl out_of_fuel \<or>
        (\<exists>w r3 b r4. parse_value h k n (skip_ws r2) = Inr (w, r3) \<and>
           separator (CHR 0x7D) (skip_ws r3) = Inr (b, r4) \<and>
           parse_members h k n (acc @ [(key, w)]) (skip_ws r4) = Inl out_of_fuel)"
      using h by (auto simp: parse_members.simps bindE_Inl_iff bindE_Inr_iff expect_Inr_iff
          expect_fuel scan_string_fuel split: if_splits) blast+
    have r2: "length r2 < length cs"
      using scan_string_shrinks [OF a(1)] skip_ws_Cons_length [OF a(2)] by simp
    then have "parse_value h k n (skip_ws r2) \<noteq> Inl out_of_fuel"
      using IH(1) [of "skip_ws r2"] l s length_skip_ws [of r2] by simp
    with f obtain w r3 b r4 where b: "parse_value h k n (skip_ws r2) = Inr (w, r3)"
      "separator (CHR 0x7D) (skip_ws r3) = Inr (b, r4)"
      "parse_members h k n (acc @ [(key, w)]) (skip_ws r4) = Inl out_of_fuel" by blast
    have "length (skip_ws r4) < length cs"
      using parse_value_shrinks [OF b(1)] r2 b(2) length_skip_ws [of r2] length_skip_ws [of r3] length_skip_ws [of r4]
      by (auto simp: separator_Inr_iff split: if_splits)
    then show False using IH(2) b(3) l s by fastforce
  qed
  have e: "parse_elems h k (Suc n) acc s \<noteq> Inl out_of_fuel" if l: "Suc (2 * length s) < Suc n" for acc s
  proof
    assume "parse_elems h k (Suc n) acc s = Inl out_of_fuel"
    then obtain w r3 b r4 where a: "parse_value h k n s = Inr (w, r3)"
           "separator (CHR 0x5D) (skip_ws r3) = Inr (b, r4)"
           "parse_elems h k n (acc @ [w]) (skip_ws r4) = Inl out_of_fuel"
      using IH(1) [of s] l by (auto simp: parse_elems.simps bindE_Inl_iff expect_fuel split: if_splits)
    have "length (skip_ws r4) < length s"
      using parse_value_shrinks [OF a(1)] a(2) length_skip_ws [of r3] length_skip_ws [of r4]
      by (auto simp: separator_Inr_iff split: if_splits)
    then show False using IH(3) a(3) l by fastforce
  qed
  show ?case using v m e by blast
qed

lemma json_loads_not_out_of_fuel:
  assumes "\<And>d. h d \<noteq> Inl out_of_fuel" and "\<And>c. k c \<noteq> Inl out_of_fuel"
  shows "json_loads h k s \<noteq> Inl out_of_fuel"
  using parse_fuel_enough [OF assms, of "json_fuel s"] length_skip_ws [of s] bad_json_fuel
  by (auto simp: json_loads_def json_fuel_def bindE_Inl_iff split: if_splits)

subsection \<open>What the hooks guarantee holds of the result\<close>

text \<open>How a call on a value returns or raises.\<close>

lemma parse_value_cases:
  assumes "parse_value h k (Suc n) s = Inr (v, r)"
  shows "(\<exists>x. v = PStr x) \<or> v = PList [] \<or> v = PNone \<or> (\<exists>b. v = PBool b) \<or> h [] = Inr v
    \<or> (\<exists>c. k c = Inr v) \<or> parse_number s = Inr (v, r)
    \<or> (\<exists>t. parse_members h k n [] t = Inr (v, r)) \<or> (\<exists>t. parse_elems h k n [] t = Inr (v, r))"
  using assms
  by (auto simp: parse_value.simps bindE_Inr_iff split: list.splits if_splits)

lemma parse_value_errors:
  assumes "parse_value h k (Suc n) s = Inl e"
  shows "e = bad_json \<or> (\<exists>t. scan_string t = Inl e) \<or> h [] = Inl e
    \<or> (\<exists>c. k c = Inl e) \<or> parse_number s = Inl e
    \<or> (\<exists>t. parse_members h k n [] t = Inl e) \<or> (\<exists>t. parse_elems h k n [] t = Inl e)"
  using assms
  by (auto simp: parse_value.simps bindE_Inl_iff split: list.splits if_splits)

text \<open>
  Two hooks, a property \<open>P\<close> that the object hook and the constants establish and that scalars
  and lists have, and a set \<open>E\<close> of exceptions: then \<open>json_loads\<close> returns only values with \<open>P\<close>
  and raises only exceptions in \<open>E\<close>.
\<close>

locale json_hooks =
  fixes h :: "pydict \<Rightarrow> exn + pyval" and k :: "string \<Rightarrow> exn + pyval"
    and P :: "pyval \<Rightarrow> bool" and E :: "exn \<Rightarrow> bool"
  assumes object_value: "h d = Inr v \<Longrightarrow> (\<And>kv. kv \<in> set d \<Longrightarrow> P (snd kv)) \<Longrightarrow> P v"
    and object_error: "h d = Inl e \<Longrightarrow> E e"
    and constant_value: "k c = Inr v \<Longrightarrow> P v"
    and constant_error: "k c = Inl e \<Longrightarrow> E e"
    and scalar_values: "P PNone" "P (PBool b)" "P (PInt i)" "P (PFloat x)" "P (PStr s)"
    and list_value: "(\<And>v. v \<in> set vs \<Longrightarrow> P v) \<Longrightarrow> P (PList vs)"
    and error_kinds: "E bad_json" "E wide_char" "\<not> E out_of_fuel"
begin

lemma number_value: "parse_number s = Inr (v, r) \<Longrightarrow> P v"
  by (auto simp: parse_number_def parse_unsigned_def Let_def scalar_values
      split: list.splits if_splits prod.splits)

lemma parsed_values:
  "(\<forall>s v r. parse_value h k n s = Inr (v, r) \<longrightarrow> P v) \<and>
   (\<forall>acc s v r. (\<forall>kv\<in>set acc. P (snd kv)) \<longrightarrow> parse_members h k n acc s = Inr (v, r) \<longrightarrow> P v) \<and>
   (\<forall>acc s v r. (\<forall>v\<in>set acc. P v) \<longrightarrow> parse_elems h k n acc s = Inr (v, r) \<longrightarrow> P v)"
proof (induction n)
  case 0
  then show ?case by (simp add: parse_value.simps parse_members.simps parse_elems.simps)
next
  case (Suc n)
  then have IH: "\<And>s v r. parse_members h k n [] s = Inr (v, r) \<Longrightarrow> P v"
    "\<And>s v r. parse_elems h k n [] s = Inr (v, r) \<Longrightarrow> P v"
    by (metis empty_iff list.set(1))+
  have empty: "P (PList [])" "h [] = Inr v \<Longrightarrow> P v" for v
    by (rule list_value, simp) (erule object_value, simp)
  have v: "P v" if "parse_value h k (Suc n) s = Inr (v, r)" for s v r
    using parse_value_cases [OF that]
    by (elim disjE exE) (simp_all add: scalar_values empty IH constant_value number_value)
  have m: "P v" if "\<forall>kv\<in>set acc. P (snd kv)" "parse_members h k (Suc n) acc s = Inr (v, r)" for acc s v r
  proof -
    from that(2) obtain key w r2 r3 where w: "parse_value h k n (skip_ws r2) = Inr (w, r3)"
      and f: "h (acc @ [(key, w)]) = Inr v \<or> (\<exists>t. parse_members h k n (acc @ [(key, w)]) t = Inr (v, r))"
      by (auto simp: parse_members.simps bindE_Inr_iff split: if_splits) blast
    have "\<forall>kv\<in>set (acc @ [(key, w)]). P (snd kv)" using Suc.IH [THEN conjunct1, rule_format, OF w] that(1) by auto
    then show ?thesis using f Suc.IH object_value by metis
  qed
  have e: "P v" if "\<forall>v\<in>set acc. P v" "parse_elems h k (Suc n) acc s = Inr (v, r)" for acc s v r
  proof -
    from that(2) obtain w r3 where w: "parse_value h k n s = Inr (w, r3)"
      and f: "v = PList (acc @ [w]) \<or> (\<exists>t. parse_elems h k n (acc @ [w]) t = Inr (v, r))"
      by (auto simp: parse_elems.simps bindE_Inr_iff split: if_splits)
    have "\<forall>v\<in>set (acc @ [w]). P v" using Suc.IH [THEN conjunct1, rule_format, OF w] that(1) by auto
    then show ?thesis using f Suc.IH list_value by metis
  qed
  show ?case using v m e by blast
qed

lemma loads_value: "json_loads h k s = Inr v \<Longrightarrow> P v"
  using parsed_values [of "json_fuel s", THEN conjunct1, rule_format]
  by (auto simp: json_loads_def bindE_Inr_iff split: if_splits)

lemma unescape_error: "unescape s = Inl e \<Longrightarrow> E e"
proof -
  have "unescape_hex t = Inl e \<Longrightarrow> E e" for t
    by (induction t rule: unescape_hex.induct) (auto simp: error_kinds split: option.splits if_splits)
  then show "unescape s = Inl e \<Longrightarrow> E e"
    by (cases s) (auto simp: error_kinds split: option.splits if_splits)
qed

lemma string_error: "scan_string s = Inl e \<Longrightarrow> E e"
proof (induction s rule: scan_string.induct)
  case (2 c cs)
  then show ?case by (auto simp: err_simps error_kinds split: if_splits dest: unescape_error)
qed (simp add: error_kinds)

lemma lexical_errors: "expect c s = Inl e \<Longrightarrow> E e" "separator c s = Inl e \<Longrightarrow> E e"
    "parse_number s = Inl e \<Longrightarrow> E e"
  by (auto simp: expect_def separator_def parse_number_def parse_unsigned_def Let_def error_kinds
      split: list.splits if_splits prod.splits)

lemma parse_errors:
  "(\<forall>s. parse_value h k n s = Inl e \<longrightarrow> e = out_of_fuel \<or> E e) \<and>
   (\<forall>acc s. parse_members h k n acc s = Inl e \<longrightarrow> e = out_of_fuel \<or> E e) \<and>
   (\<forall>acc s. parse_elems h k n acc s = Inl e \<longrightarrow> e = out_of_fuel \<or> E e)"
proof (induction n)
  case 0
  then show ?case by (simp add: parse_value.simps parse_members.simps parse_elems.simps)
next
  case (Suc n)
  then have IH: "\<And>s. parse_members h k n [] s = Inl e \<Longrightarrow> e = out_of_fuel \<or> E e"
    "\<And>s. parse_elems h k n [] s = Inl e \<Longrightarrow> e = out_of_fuel \<or> E e" by blast+
  have v: "e = out_of_fuel \<or> E e" if "parse_value h k (Suc n) s = Inl e" for s
    using parse_value_errors [OF that]
    by (elim disjE exE) (auto simp: error_kinds dest: object_error constant_error string_error
        lexical_errors IH)
  have m: "e = out_of_fuel \<or> E e" if "parse_members h k (Suc n) acc s = Inl e" for acc s
    using that Suc.IH
    by (auto simp: parse_members.simps bindE_Inl_iff split: if_splits
        dest: object_error string_error lexical_errors)
  have e: "e = out_of_fuel \<or> E e" if "parse_elems h k (Suc n) acc s = Inl e" for acc s
    using that Suc.IH
    by (auto simp: parse_elems.simps bindE_Inl_iff split: if_splits dest: lexical_errors)
  show ?case using v m e by blast
qed

lemma loads_error: "json_loads h k s = Inl e \<Longrightarrow> E e"
proof -
  assume l: "json_loads h k s = Inl e"
  have "e \<noteq> out_of_fuel"
    using l json_loads_not_out_of_fuel [of h k s] object_error constant_error error_kinds by blast
  then show "E e" using l parse_errors [of "json_fuel s" e] error_kinds
    by (auto simp: json_loads_def bindE_Inl_iff split: if_splits)
qed

end

text \<open>No object inside the value repeats a key.\<close>

fun distinct_keys :: "pyval \<Rightarrow> bool" where
  "distinct_keys (PList vs) = (\<forall>v\<in>set vs. distinct_keys v)"
| "distinct_keys (PDict d) = (distinct (map fst d) \<and> (\<forall>kv\<in>set d. distinct_keys (snd kv)))"
| "distinct_keys v = True"

end
