(* ===== verification/JsonText.thy ===== *)
theory JsonText
  imports Json
begin

section \<open>Printing JSON, and reading it back\<close>

text \<open>
  \<open>dumps\<close> is \<^verbatim>\<open>json.dumps\<close> with sorted keys and no spaces, the \<^verbatim>\<open>stable_json\<close> of
  \<^verbatim>\<open>runtime_dispatch.py\<close>. The lemmas show that the parser
  reads a printed value back (\<open>json_loads_dumps\<close>), with every object's keys sorted.
\<close>

subsection \<open>\<open>float.__repr__\<close>\<close>

text \<open>
  The shortest decimal that reads back as the same double, the closer one of two, in fixed
  notation for exponents -4 to 15 and in scientific notation otherwise.
\<close>

fun leading_zeros :: "nat \<Rightarrow> nat \<Rightarrow> nat \<Rightarrow> nat" where
  "leading_zeros 0 num den = 0"
| "leading_zeros (Suc f) num den = (if num \<ge> den then 0 else Suc (leading_zeros f (10 * num) den))"

text \<open>The position of the decimal point: \<open>10^(p-1) \<le> num/den < 10^p\<close> (400 covers every double).\<close>

definition decimal_point :: "nat \<Rightarrow> nat \<Rightarrow> int" where
  "decimal_point num den =
     (if num \<ge> den then int (length (digits_of (num div den)))
      else 1 - int (leading_zeros 400 num den))"

definition float_candidate :: "bool \<Rightarrow> nat \<Rightarrow> int \<Rightarrow> nat \<Rightarrow> (nat \<times> int) option" where
  "float_candidate neg m e n =
     (let num = m * 2 ^ nat e; den = 2 ^ nat (- e);
          k = decimal_point num den - int n;
          a = num * 10 ^ nat (- k); b = den * 10 ^ nat k;
          lo = a div b;
          good = (\<lambda>d. float_eq (dec_to_float neg d k) (PyFin neg m e));
          low_first = 2 * (a mod b) < b \<or> (2 * (a mod b) = b \<and> even lo)
      in if good lo \<and> (low_first \<or> \<not> good (Suc lo)) then Some (lo, k)
         else if good (Suc lo) then Some (Suc lo, k) else None)"

definition float_digits :: "bool \<Rightarrow> nat \<Rightarrow> int \<Rightarrow> string \<times> int" where
  "float_digits neg m e =
     (case List.map_filter (float_candidate neg m e) [1..<18] of
        [] \<Rightarrow> (''0'', 1)
      | (d, k) # _ \<Rightarrow>
          (let ds = digits_of d
           in (rev (dropWhile (\<lambda>c. c = CHR ''0'') (rev ds)), int (length ds) + k)))"

definition exponent_text :: "int \<Rightarrow> string" where
  "exponent_text x =
     (let ds = digits_of (nat \<bar>x\<bar>)
      in (if x < 0 then ''-'' else ''+'') @ (if length ds < 2 then ''0'' @ ds else ds))"

definition finite_text :: "nat \<Rightarrow> int \<Rightarrow> bool \<Rightarrow> string" where
  "finite_text m e neg =
     (if m = 0 then ''0.0''
      else
        let (ds, p) = float_digits neg m e; n = int (length ds)
        in if p \<le> - 4 \<or> p > 16 then
             take 1 ds @ (if n > 1 then ''.'' @ drop 1 ds else []) @ ''e'' @ exponent_text (p - 1)
           else if p \<le> 0 then ''0.'' @ replicate (nat (- p)) (CHR ''0'') @ ds
           else if p \<ge> n then ds @ replicate (nat (p - n)) (CHR ''0'') @ ''.0''
           else take (nat p) ds @ ''.'' @ drop (nat p) ds)"

definition float_text :: "pyfloat \<Rightarrow> string" where
  "float_text x =
     (case x of
        PyNaN \<Rightarrow> ''NaN''
      | PyInf neg \<Rightarrow> (if neg then ''-Infinity'' else ''Infinity'')
      | PyFin neg m e \<Rightarrow> (if neg then ''-'' else []) @ finite_text m e neg)"

subsection \<open>Strings and values\<close>

definition escape_char :: "char \<Rightarrow> string" where
  "escape_char c =
     (let n = (of_char c :: nat)
      in if c = CHR 0x22 then [CHR 0x5C, CHR 0x22]
         else if c = CHR 0x5C then [CHR 0x5C, CHR 0x5C]
         else if n = 10 then [CHR 0x5C, CHR ''n'']
         else if n = 13 then [CHR 0x5C, CHR ''r'']
         else if n = 9 then [CHR 0x5C, CHR ''t'']
         else if n = 12 then [CHR 0x5C, CHR ''f'']
         else if n = 8 then [CHR 0x5C, CHR ''b'']
         else if 32 \<le> n \<and> n \<le> 126 then [c]
         else [CHR 0x5C, CHR ''u'', CHR ''0'', CHR ''0'', hex_char (n div 16), hex_char (n mod 16)])"

definition quote :: "string \<Rightarrow> string" where
  "quote s = CHR 0x22 # concat (map escape_char s) @ [CHR 0x22]"

definition member_text :: "string \<times> string \<Rightarrow> string" where
  "member_text kv = quote (fst kv) @ '':'' @ snd kv"

fun dumps :: "pyval \<Rightarrow> string" where
  "dumps PNone = ''null''"
| "dumps (PBool b) = (if b then ''true'' else ''false'')"
| "dumps (PInt i) = int_text i"
| "dumps (PFloat x) = float_text x"
| "dumps (PStr s) = quote s"
| "dumps (PList vs) = ''['' @ join_with '','' (map dumps vs) @ '']''"
| "dumps (PDict d) =
     [CHR 0x7B] @
     join_with '','' (map member_text (sort_key fst (map (\<lambda>kv. (fst kv, dumps (snd kv))) d))) @
     [CHR 0x7D]"

text \<open>The value a reader of the text gets: every object with its keys in order.\<close>

fun sorted_value :: "pyval \<Rightarrow> pyval" where
  "sorted_value (PList vs) = PList (map sorted_value vs)"
| "sorted_value (PDict d) = PDict (sort_key fst (map (\<lambda>kv. (fst kv, sorted_value (snd kv))) d))"
| "sorted_value v = v"

text \<open>Values a Python program can hold with distinct keys, and without floats.\<close>

fun plain_value :: "pyval \<Rightarrow> bool" where
  "plain_value (PFloat x) = False"
| "plain_value (PList vs) = (\<forall>v\<in>set vs. plain_value v)"
| "plain_value (PDict d) = (distinct (map fst d) \<and> (\<forall>kv\<in>set d. plain_value (snd kv)))"
| "plain_value v = True"

subsection \<open>The round trip\<close>

lemma is_digit_char_of [simp]: "d < (10::nat) \<Longrightarrow> is_digit (char_of (48 + d))"
  by (simp add: is_digit_def)

lemma digit_value_char_of [simp]: "d < 10 \<Longrightarrow> digit_value (char_of (48 + d)) = d"
  by (simp add: digit_value_def)

lemma nat_of_digits_snoc [simp]: "nat_of_digits (s @ [c]) = 10 * nat_of_digits s + digit_value c"
  by (simp add: nat_of_digits_def)

lemma char_literal:
  "char_of (48::nat) = CHR ''0''" "char_of (8::nat) = CHR 0x08" "char_of (9::nat) = CHR 0x09"
  "char_of (10::nat) = CHR 0x0A" "char_of (12::nat) = CHR 0x0C" "char_of (13::nat) = CHR 0x0D"
  by (simp_all add: char_of_eq_iff)

lemma char_of_number: "(of_char c :: nat) = n \<Longrightarrow> c = char_of n"
  by auto

lemma digits_of_digits: "c \<in> set (digits_of n) \<Longrightarrow> is_digit c"
proof (induction n arbitrary: c rule: digits_of.induct)
  case (1 n)
  then show ?case
    by (subst (asm) (2) digits_of.simps) (auto split: if_splits)
qed

lemma digits_of_value [simp]: "nat_of_digits (digits_of n) = n"
proof (induction n rule: digits_of.induct)
  case (1 n)
  then show ?case
    by (subst digits_of.simps) (auto simp: nat_of_digits_def)
qed

lemma digits_of_not_Nil [simp]: "digits_of n \<noteq> []"
  by (subst digits_of.simps) simp

lemma digits_of_hd: "0 < n \<Longrightarrow> hd (digits_of n) \<noteq> CHR ''0''"
proof (induction n rule: digits_of.induct)
  case (1 n)
  show ?case
  proof (cases "n < 10")
    case True
    then have "of_char (char_of (48 + n) :: char) \<noteq> (of_char (CHR ''0'') :: nat)"
      using 1 by simp
    then have "char_of (48 + n) \<noteq> CHR ''0''" by (simp only: of_char_eq_iff not_False_eq_True)
    with True show ?thesis by (subst digits_of.simps) simp
  next
    case False
    then show ?thesis using 1 by (subst digits_of.simps) simp
  qed
qed

definition delimited :: "string \<Rightarrow> bool" where
  "delimited r \<longleftrightarrow> r = [] \<or> hd r \<in> {CHR '','', CHR 0x5D, CHR 0x7D}"

lemma delimited_simps [simp]: "delimited []"
  "delimited (c # r) \<longleftrightarrow> c = CHR '','' \<or> c = CHR 0x5D \<or> c = CHR 0x7D"
  by (auto simp: delimited_def)

lemma span_digits_append:
  assumes "\<And>c. c \<in> set ds \<Longrightarrow> is_digit c" "delimited r"
  shows "span_digits (ds @ r) = (ds, r)"
proof -
  have "takeWhile is_digit r = [] \<and> dropWhile is_digit r = r"
    using assms(2) by (cases r) (auto simp: is_digit_def)
  then show ?thesis using assms(1)
    by (simp add: span_digits_def takeWhile_append2 dropWhile_append2)
qed

lemma no_fraction: "delimited r \<Longrightarrow> frac_part r = (None, r)" "delimited r \<Longrightarrow> exp_part r = (None, r)"
  by (cases r; auto simp: frac_part_def exp_part_def)+

lemma parse_unsigned_digits:
  assumes "delimited r"
  shows "parse_unsigned neg (digits_of n @ r) = Inr (PInt (with_sign neg n), r)"
proof (cases "n = 0")
  case True
  moreover have "digits_of 0 = ''0''" by (subst digits_of.simps) (simp add: char_literal)
  ultimately show ?thesis using assms
    by (simp add: parse_unsigned_def is_digit_def no_fraction nat_of_digits_def digit_value_def)
next
  case False
  obtain d ds where s: "digits_of n = d # ds" by (cases "digits_of n") auto
  with False have "d \<noteq> CHR ''0''" using digits_of_hd [of n] by simp
  moreover have "span_digits (digits_of n @ r) = (digits_of n, r)"
    using digits_of_digits assms by (rule span_digits_append)
  then have "span_digits (d # ds @ r) = (d # ds, r)" by (simp only: s append_Cons)
  moreover have "is_digit d" using digits_of_digits [of d n] s by simp
  moreover have "nat_of_digits (d # ds) = n" by (simp flip: s)
  ultimately show ?thesis using assms s
    by (simp add: parse_unsigned_def no_fraction)
qed

lemma digit_not_minus: "is_digit c \<Longrightarrow> c \<notin> {CHR ''-'', CHR 0x22, CHR 0x7B, CHR 0x5B, CHR 0x5D, CHR ''n'', CHR ''t'', CHR ''f'', CHR ''N'', CHR ''I''} \<and> \<not> is_json_ws c"
  by (auto simp: is_digit_def is_json_ws_def)

lemma parse_value_int:
  assumes "delimited r"
  shows "parse_value h k (Suc n) (int_text i @ r) = Inr (PInt i, r)"
proof -
  obtain d ds where s: "digits_of (nat \<bar>i\<bar>) = d # ds" by (cases "digits_of (nat \<bar>i\<bar>)") auto
  then have d: "is_digit d" using digits_of_digits [of d "nat \<bar>i\<bar>"] by simp
  have p: "parse_unsigned neg (d # ds @ r) = Inr (PInt (with_sign neg (nat \<bar>i\<bar>)), r)" for neg
    using parse_unsigned_digits [OF assms, of neg "nat \<bar>i\<bar>"] s by simp
  show ?thesis
  proof (cases "i < 0")
    case True
    then have "int_text i = CHR ''-'' # d # ds" using s by (simp add: int_text_def)
    then show ?thesis using True p [of True] digit_not_minus [OF d]
      by (simp add: parse_value.simps starts_with_def parse_number_def with_sign_def)
  next
    case False
    then have "int_text i = d # ds" using s by (simp add: int_text_def)
    then show ?thesis using False p [of False] digit_not_minus [OF d]
      by (simp add: parse_value.simps starts_with_def parse_number_def with_sign_def)
  qed
qed

text \<open>Strings: each escape reads back as its character.\<close>

lemma hex_value_hex_char: "d < 16 \<Longrightarrow> hex_value (hex_char d) = Some d"
  by (auto simp: hex_value_def hex_char_def Let_def)

lemma hex4_byte: "n < 256 \<Longrightarrow> hex4 (CHR ''0'') (CHR ''0'') (hex_char (n div 16)) (hex_char (n mod 16)) = Some n"
  using hex_value_hex_char [of "n div 16"] hex_value_hex_char [of "n mod 16"] hex_value_hex_char [of 0]
  by (simp add: hex4_def hex_value_def)

lemma scan_string_escape:
  "scan_string (escape_char c @ t) = bindE (scan_string t) (\<lambda>(s, r). Inr (c # s, r))"
  using hex4_byte [of "of_char c"]
  by (auto simp: escape_char_def Let_def simple_escape_def char_literal dest!: char_of_number)

lemma scan_string_quoted:
  "scan_string (concat (map escape_char s) @ CHR 0x22 # r) = Inr (s, r)"
  by (induction s) (simp_all add: scan_string_escape del: scan_string.simps(2), simp)


text \<open>Values: \<open>reads h k t v\<close> says that the text \<open>t\<close>, before a delimiter, is read as \<open>v\<close>.\<close>

lemma sort_key_map_fst: "sort_key fst (map (\<lambda>kv. (fst kv, f (snd kv))) d)
    = map (\<lambda>kv. (fst kv, f (snd kv))) (sort_key fst d)"
proof -
  have ins: "insort_key fst (fst kv, f (snd kv)) (map (\<lambda>kv. (fst kv, f (snd kv))) xs)
     = map (\<lambda>kv. (fst kv, f (snd kv))) (insort_key fst kv xs)" for kv xs
    by (induction xs) auto
  show ?thesis
  proof (induction d)
    case (Cons kv d)
    then show ?case using ins [of kv] by (simp del: insort_key.simps)
  qed simp
qed

definition reads :: "(pydict \<Rightarrow> exn + pyval) \<Rightarrow> (string \<Rightarrow> exn + pyval) \<Rightarrow> string \<Rightarrow> pyval \<Rightarrow> bool" where
  "reads h k t v \<longleftrightarrow> t \<noteq> [] \<and> \<not> is_json_ws (hd t) \<and> hd t \<noteq> CHR 0x5D \<and>
     (\<forall>n r. 2 * length t < n \<longrightarrow> delimited r \<longrightarrow> parse_value h k n (t @ r) = Inr (v, r))"

lemma readsD:
  assumes "reads h k t v"
  shows "t \<noteq> []" "skip_ws (t @ r) = t @ r"
    "2 * length t < n \<Longrightarrow> delimited r \<Longrightarrow> parse_value h k n (t @ r) = Inr (v, r)"
  using assms by (cases t; simp add: reads_def skip_ws_def)+

lemma delimited_skip [simp]: "delimited r \<Longrightarrow> skip_ws r = r"
  by (cases r) (auto simp: skip_ws_def is_json_ws_def)

lemma skip_ws_plain [simp]: "\<not> is_json_ws c \<Longrightarrow> skip_ws (c # s) = c # s"
  by (simp add: skip_ws_def)

lemma not_ws [simp]: "\<not> is_json_ws (CHR 0x22)" "\<not> is_json_ws (CHR '':'')" "\<not> is_json_ws (CHR 0x7D)"
   "\<not> is_json_ws (CHR 0x5D)"  "\<not> is_json_ws (CHR '','')" 
  by (simp_all add: is_json_ws_def)

lemma join_with_Cons: "join_with sep (w # ws) = (if ws = [] then w else w @ sep @ join_with sep ws)"
  by (cases ws) auto

lemma parse_elems_join:
  assumes "list_all2 (reads h k) ts vs" "ts \<noteq> []" "Suc (2 * length (join_with '','' ts)) < n"
  shows "parse_elems h k n acc (join_with '','' ts @ CHR 0x5D # r) = Inr (PList (acc @ vs), r)"
  using assms
proof (induction ts arbitrary: vs acc n)
  case (Cons t ts)
  then obtain v vs' where vs: "vs = v # vs'" "reads h k t v" "list_all2 (reads h k) ts vs'"
    by (auto simp: list_all2_Cons1)
  obtain m where n: "n = Suc m" using Cons.prems(3) by (cases n) auto
  show ?case
  proof (cases "ts = []")
    case True
    with Cons.prems n vs show ?thesis
      by (simp add: parse_elems.simps readsD separator_def)
  next
    case False
    then obtain t' ts' v' where ts: "ts = t' # ts'" "reads h k t' v'"
      using vs(3) by (cases ts) (auto simp: list_all2_Cons1)
    then have w: "skip_ws (join_with '','' ts @ CHR 0x5D # r) = join_with '','' ts @ CHR 0x5D # r"
      by (simp add: join_with_Cons readsD(2))
    have "parse_elems h k m (acc @ [v]) (join_with '','' ts @ CHR 0x5D # r) = Inr (PList ((acc @ [v]) @ vs'), r)"
      using Cons.prems n False by (intro Cons.IH vs) (auto simp: join_with_Cons)
    then show ?thesis using Cons.prems n vs False w
      by (simp add: parse_elems.simps readsD separator_def join_with_Cons)
  qed
qed simp

lemma parse_members_join:
  assumes "list_all2 (\<lambda>a b. fst a = fst b \<and> reads h k (snd a) (snd b)) kts kvs" "kts \<noteq> []"
    "2 * length (join_with '','' (map member_text kts)) < n"
  shows "parse_members h k n acc (join_with '','' (map member_text kts) @ CHR 0x7D # r)
    = bindE (h (acc @ kvs)) (\<lambda>obj. Inr (obj, r))"
  using assms
proof (induction kts arbitrary: kvs acc n)
  case (Cons kt kts)
  then obtain key t v kvs' where vs: "kt = (key, t)" "kvs = (key, v) # kvs'" "reads h k t v"
     "list_all2 (\<lambda>a b. fst a = fst b \<and> reads h k (snd a) (snd b)) kts kvs'"
    by (cases kt) (auto simp: list_all2_Cons1)
  obtain m where n: "n = Suc m" using Cons.prems(3) by (cases n) auto
  have mt: "member_text (key, t) = CHR 0x22 # concat (map escape_char key) @ CHR 0x22 # CHR '':'' # t"
    by (simp add: member_text_def quote_def)
  have len: "2 * length t < m" 
    using Cons.prems(3) n mt vs by (auto simp: join_with_Cons split: if_splits)
  show ?case
  proof (cases "kts = []")
    case True
    with Cons.prems n vs len show ?thesis
      by (simp add: parse_members.simps readsD separator_def expect_def mt scan_string_quoted)
  next
    case False
    then have w: "skip_ws (join_with '','' (map member_text kts) @ CHR 0x7D # r) = join_with '','' (map member_text kts) @ CHR 0x7D # r"
      by (cases kts) (simp_all add: join_with_Cons member_text_def quote_def)
    have "parse_members h k m (acc @ [(key, v)]) (join_with '','' (map member_text kts) @ CHR 0x7D # r)
        = bindE (h ((acc @ [(key, v)]) @ kvs')) (\<lambda>obj. Inr (obj, r))"
      using Cons.prems n False by (intro Cons.IH vs) (auto simp: join_with_Cons)
    then show ?thesis using Cons.prems n vs False w len
      by (simp add: parse_members.simps readsD separator_def expect_def mt scan_string_quoted join_with_Cons)
  qed
qed simp

lemma reads_dumps:
  assumes h: "\<And>d. distinct (map fst d) \<Longrightarrow> h d = Inr (PDict d)"
  shows "plain_value v \<Longrightarrow> reads h k (dumps v) (sorted_value v)"
proof (induction v)
  case PNone
  have "parse_value h k n (''null'' @ r) = Inr (PNone, r)" if "8 < n" for n r
    using that by (cases n) (simp_all add: parse_value.simps starts_with_def)
  then show ?case by (simp add: reads_def is_json_ws_def)
next
  case (PBool b)
  have "parse_value h k n (dumps (PBool b) @ r) = Inr (PBool b, r)" if "0 < n" for n r
    using that by (cases n) (simp_all add: parse_value.simps starts_with_def)
  then show ?case by (auto simp: reads_def is_json_ws_def)
next
  case (PInt i)
  obtain d ds where s: "digits_of (nat \<bar>i\<bar>) = d # ds" by (cases "digits_of (nat \<bar>i\<bar>)") auto
  then have d: "is_digit d" using digits_of_digits [of d "nat \<bar>i\<bar>"] by simp
  have "int_text i \<noteq> [] \<and> (hd (int_text i) = CHR ''-'' \<or> hd (int_text i) = d)"
    using s by (auto simp: int_text_def)
  then show ?case using parse_value_int digit_not_minus [OF d]
    by (auto simp: reads_def is_json_ws_def dest!: less_imp_Suc_add)
next
  case (PFloat x)
  then show ?case by simp
next
  case (PStr s)
  then show ?case
    by (auto simp: reads_def quote_def scan_string_quoted parse_value.simps dest!: less_imp_Suc_add)
next
  case (PList vs)
  have all: "list_all2 (reads h k) (map dumps vs) (map sorted_value vs)"
    using PList by (auto simp: list_all2_conv_all_nth)
  have "parse_value h k n (dumps (PList vs) @ r) = Inr (sorted_value (PList vs), r)"
    if len: "2 * length (dumps (PList vs)) < n" and "delimited r" for n r
  proof (cases vs)
    case Nil
    then show ?thesis using that by (cases n) (simp_all add: parse_value.simps)
  next
    case (Cons w ws)
    then have rw: "reads h k (dumps w) (sorted_value w)" using PList by simp
    obtain m where n: "n = Suc m" using len by (cases n) simp_all
    let ?j = "join_with '','' (map dumps vs)"
    have "parse_elems h k m [] (?j @ CHR 0x5D # r) = Inr (PList ([] @ map sorted_value vs), r)"
      using that n Cons by (intro parse_elems_join all) auto
    moreover obtain c cs where "?j = c # cs" "\<not> is_json_ws c" "c \<noteq> CHR 0x5D"
      using rw Cons by (cases "dumps w"; cases ws) (auto simp: reads_def join_with_Cons)
    ultimately show ?thesis using n by (simp add: parse_value.simps)
  qed
  then show ?case by (auto simp: reads_def is_json_ws_def)
next
  case (PDict d)
  let ?f = "\<lambda>kv. (fst kv, dumps (snd kv))" and ?g = "\<lambda>kv. (fst kv, sorted_value (snd kv))"
  define kts where "kts = map ?f (sort_key fst d)"
  define kvs where "kvs = map ?g (sort_key fst d)"
  have t: "dumps (PDict d) = CHR 0x7B # join_with '','' (map member_text kts) @ [CHR 0x7D]"
    by (simp add: kts_def sort_key_map_fst)
  have s: "sorted_value (PDict d) = PDict kvs"
    by (simp add: kvs_def sort_key_map_fst)
  have IH: "kv \<in> set d \<Longrightarrow> reads h k (dumps (snd kv)) (sorted_value (snd kv))" for kv
    using PDict by (cases kv) fastforce
  have "set (sort_key fst d) = set d" by simp
  then have all: "list_all2 (\<lambda>a b. fst a = fst b \<and> reads h k (snd a) (snd b)) kts kvs"
    unfolding kts_def kvs_def list_all2_map1 list_all2_map2 using IH
    by (intro list.rel_refl_strong) auto
  have dist: "distinct (map fst kvs)"
    using PDict.prems by (simp add: kvs_def comp_def distinct_map)
  have "parse_value h k n (dumps (PDict d) @ r) = Inr (sorted_value (PDict d), r)"
    if len: "2 * length (dumps (PDict d)) < n" and "delimited r" for n r
  proof (cases d)
    case Nil
    then show ?thesis using that h [of "[]"] by (cases n) (simp_all add: parse_value.simps)
  next
    case (Cons w ws)
    have ne: "kts \<noteq> []" using Cons unfolding kts_def
      by (metis length_0_conv length_map length_sort list.discI)
    obtain m where n: "n = Suc m" using len by (cases n) simp_all
    let ?j = "join_with '','' (map member_text kts)"
    have "parse_members h k m [] (?j @ CHR 0x7D # r) = bindE (h ([] @ kvs)) (\<lambda>obj. Inr (obj, r))"
      using that(1) n unfolding t by (intro parse_members_join all ne) auto
    moreover have "h kvs = Inr (PDict kvs)" using dist by (rule h)
    moreover obtain cs where "?j = CHR 0x22 # cs" 
      using ne by (cases kts; cases "tl kts") (auto simp: member_text_def quote_def)
    ultimately show ?thesis using n unfolding t s by (simp add: parse_value.simps)
  qed
  then show ?case unfolding reads_def by (simp add: is_json_ws_def)
qed

lemma json_loads_dumps_hook:
  assumes "\<And>d. distinct (map fst d) \<Longrightarrow> h d = Inr (PDict d)" "plain_value v"
  shows "json_loads h k (dumps v) = Inr (sorted_value v)"
proof -
  have r: "reads h k (dumps v) (sorted_value v)" using assms by (rule reads_dumps)
  then have "parse_value h k (json_fuel (dumps v)) (dumps v @ []) = Inr (sorted_value v, [])"
    by (intro readsD) (auto simp: json_fuel_def)
  then show ?thesis using readsD(2) [OF r, of "[]"]
    by (simp add: json_loads_def skip_ws_def)
qed

lemma plain_object_distinct:
  assumes "distinct (map fst d)"
  shows "plain_object d = Inr (PDict d)"
proof -
  have "foldl (\<lambda>d (k, v). dict_set k v d) e xs = e @ xs"
    if "distinct (map fst (e @ xs))" for e xs :: pydict
    using that
  proof (induction xs arbitrary: e)
    case (Cons x xs)
    obtain k v where x: "x = (k, v)" by (cases x)
    then have "dict_set k v e = e @ [(k, v)]" using Cons.prems by (intro dict_set_fresh) auto
    with x Cons.IH [of "e @ [(k, v)]"] Cons.prems show ?case by simp
  qed simp
  from this [of "[]" d] assms show ?thesis by (simp add: plain_object_def)
qed

lemma json_loads_plain_dumps: "plain_value v \<Longrightarrow> json_loads_plain (dumps v) = Inr (sorted_value v)"
  unfolding json_loads_plain_def by (intro json_loads_dumps_hook plain_object_distinct)

end
