(* ===== verification/Metadata.thy ===== *)
theory Metadata
  imports JsonText
begin

section \<open>External metadata validators (\<^verbatim>\<open>metadata.py\<close>)\<close>

text \<open>
  Each validator compares three copies of an identity: the local intent, the metadata the
  runtime returned and the raw JSON of that return. A \<^verbatim>\<open>Mapping[str, Any]\<close> is a \<open>pydict\<close>, the
  optional arguments are \<open>option\<close>s, and the validated dictionaries list their fields in the
  order of the field tuple, so that Python's dictionary equality is list equality.
\<close>

definition session_fields :: "string list" where
  "session_fields =
     [''run_id'', ''transition_id'', ''client_request_id'', ''idempotency_key'', ''phase'',
      ''agent_id'', ''task_digest'']"

definition allow_lease_identity_fields :: "string list" where
  "allow_lease_identity_fields =
     [''client_lease_id'', ''idempotency_key'', ''run_id'', ''phase'', ''transition_id'',
      ''agent_id'', ''requester_agent_id'']"

definition allow_lease_observed_fields :: "string list" where
  "allow_lease_observed_fields = allow_lease_identity_fields @ [''ttl_ms'', ''gateway_lease_id'']"

definition allow_lease_release_fields :: "string list" where
  "allow_lease_release_fields =
     [''client_lease_id'', ''release_idempotency_key'', ''run_id'', ''phase'', ''transition_id'',
      ''agent_id'', ''requester_agent_id'', ''gateway_lease_id'']"

definition max_lease_ttl_ms :: int where
  "max_lease_ttl_ms = 31536000000"

subsection \<open>Field checks\<close>

definition exact_nonempty_fields ::
    "pydict \<Rightarrow> string list \<Rightarrow> string \<Rightarrow> exn + (string \<times> string) list" where
  "exact_nonempty_fields value names label =
     (if \<not> keys_are value names then Inl (MetadataContractError (label @ '' must contain exactly''))
      else mapE (\<lambda>field.
             bindE (getitem value field) (\<lambda>item.
               case nonempty_str item of
                 None \<Rightarrow> Inl (MetadataContractError (label @ ''.'' @ field @ '' must be a non-empty string''))
               | Some s \<Rightarrow> Inr (field, s))) names)"

definition reject_duplicate_keys :: "pydict \<Rightarrow> exn + pyval" where
  "reject_duplicate_keys pairs =
     (if distinct (map fst pairs) then Inr (PDict pairs)
      else Inl (MetadataContractError ''raw external metadata contains duplicate key''))"

definition reject_nonstandard_constant :: "string \<Rightarrow> exn + pyval" where
  "reject_nonstandard_constant constant =
     Inl (MetadataContractError (''raw external metadata contains non-standard JSON constant: '' @ constant))"

definition raw_json_object :: "string \<Rightarrow> exn + pydict" where
  "raw_json_object raw_json =
     (if raw_json = [] then Inl (MetadataContractError ''raw external metadata is required'')
      else case json_loads reject_duplicate_keys reject_nonstandard_constant raw_json of
        Inl (JSONDecodeError _) \<Rightarrow> Inl (MetadataContractError ''raw external metadata is invalid JSON'')
      | Inl e \<Rightarrow> Inl e
      | Inr (PDict d) \<Rightarrow> Inr d
      | Inr _ \<Rightarrow> Inl (MetadataContractError ''raw external metadata must be a JSON object''))"

definition select_fields :: "pydict \<Rightarrow> string list \<Rightarrow> exn + pydict" where
  "select_fields value names =
     mapE (\<lambda>field. bindE (getitem value field) (\<lambda>item. Inr (field, item))) names"

definition raw_object :: "string \<Rightarrow> string list \<Rightarrow> exn + (string \<times> string) list" where
  "raw_object raw_json names =
     bindE (raw_json_object raw_json) (\<lambda>value.
       if \<not> list_all (has_key value) names
       then Inl (MetadataContractError ''raw external metadata is missing required fields'')
       else bindE (select_fields value names) (\<lambda>required.
              exact_nonempty_fields required names ''raw external metadata''))"

subsection \<open>The validators\<close>

definition validate_metadata_observation ::
    "pydict \<Rightarrow> pydict option \<Rightarrow> string option \<Rightarrow> string option \<Rightarrow> string list
      \<Rightarrow> exn + (string \<times> string) list" where
  "validate_metadata_observation local normalized raw_json version names =
     (if version = None \<or> version = Some [] then
        Inl (MetadataContractError ''metadata contract version is absent'')
      else case (normalized, raw_json) of
        (Some nmeta, Some raw) \<Rightarrow>
          bindE (exact_nonempty_fields local names ''local intent'') (\<lambda>local_values.
          bindE (exact_nonempty_fields nmeta names ''normalized metadata'') (\<lambda>observed_values.
          bindE (raw_object raw names) (\<lambda>raw_values.
            if \<not> (local_values = observed_values \<and> observed_values = raw_values)
            then Inl (MetadataContractError ''local, normalized, and raw metadata do not match'')
            else Inr observed_values)))
      | _ \<Rightarrow> Inl (MetadataContractError ''normalized and raw external metadata are required''))"

definition validate_session_observation ::
    "pydict \<Rightarrow> pydict option \<Rightarrow> string option \<Rightarrow> string option \<Rightarrow> exn + (string \<times> string) list" where
  "validate_session_observation local normalized raw_json version =
     validate_metadata_observation local normalized raw_json version session_fields"

definition allow_values :: "pydict \<Rightarrow> string \<Rightarrow> bool \<Rightarrow> exn + pydict" where
  "allow_values value label exact =
     (if exact \<and> \<not> keys_are value allow_lease_observed_fields
      then Inl (MetadataContractError (label @ '' must contain exactly''))
      else if \<not> list_all (has_key value) allow_lease_observed_fields
      then Inl (MetadataContractError (label @ '' is missing required fields''))
      else
        bindE (select_fields value allow_lease_identity_fields) (\<lambda>selected.
        bindE (exact_nonempty_fields selected allow_lease_identity_fields label) (\<lambda>identity.
        bindE (getitem value ''ttl_ms'') (\<lambda>ttl_ms.
          case int_value ttl_ms of
            None \<Rightarrow> Inl (MetadataContractError (label @ ''.ttl_ms must be an integer in [1,31536000000]''))
          | Some ttl \<Rightarrow>
              (if \<not> (1 \<le> ttl \<and> ttl \<le> max_lease_ttl_ms)
               then Inl (MetadataContractError (label @ ''.ttl_ms must be an integer in [1,31536000000]''))
               else bindE (getitem value ''gateway_lease_id'') (\<lambda>gateway.
                 case nonempty_str gateway of
                   None \<Rightarrow> Inl (MetadataContractError (label @ ''.gateway_lease_id must be a non-empty string''))
                 | Some g \<Rightarrow> Inr (str_dict identity
                                @ [(''ttl_ms'', PInt ttl), (''gateway_lease_id'', PStr g)])))))))"

definition validate_allow_lease_observation ::
    "pydict \<Rightarrow> pydict option \<Rightarrow> string option \<Rightarrow> string option \<Rightarrow> exn + pydict" where
  "validate_allow_lease_observation local normalized raw_json version =
     (if version = None \<or> version = Some [] then
        Inl (MetadataContractError ''metadata contract version is absent'')
      else case (normalized, raw_json) of
        (Some nmeta, Some raw) \<Rightarrow>
          bindE (allow_values local ''local intent'' True) (\<lambda>local_values.
          bindE (allow_values nmeta ''normalized metadata'' True) (\<lambda>observed_values.
          bindE (raw_json_object raw) (\<lambda>raw_value.
          bindE (allow_values raw_value ''raw external metadata'' False) (\<lambda>raw_values.
            if \<not> (local_values = observed_values \<and> observed_values = raw_values)
            then Inl (MetadataContractError ''local, normalized, and raw metadata do not match'')
            else Inr observed_values))))
      | _ \<Rightarrow> Inl (MetadataContractError ''normalized and raw external metadata are required''))"

definition rename_release_key ::
    "pydict \<Rightarrow> string \<Rightarrow> (string \<times> string) list \<Rightarrow> exn + (string \<times> string) list" where
  "rename_release_key value label external =
     (case map_of external ''release_idempotency_key'' of
        None \<Rightarrow> Inl (KeyError ''release_idempotency_key'')
      | Some release_idem \<Rightarrow>
          (let popped = filter (\<lambda>fv. fst fv \<noteq> ''release_idempotency_key'') external;
               legacy = dict_get value ''idempotency_key'';
               result = Inr (dict_set ''idempotency_key'' release_idem popped)
           in if legacy = PNone then result
              else case nonempty_str legacy of
                None \<Rightarrow> Inl (MetadataContractError (label @ ''.idempotency_key must be a non-empty string''))
              | Some legacy_idem \<Rightarrow>
                  (if legacy_idem \<noteq> release_idem
                   then Inl (MetadataContractError
                          (label @ ''.idempotency_key conflicts with release_idempotency_key''))
                   else result)))"

definition release_values :: "pydict \<Rightarrow> string \<Rightarrow> bool \<Rightarrow> exn + (string \<times> string) list" where
  "release_values value label exact =
     (if exact \<and> \<not> keys_are value allow_lease_release_fields
      then Inl (MetadataContractError (label @ '' must contain exactly''))
      else if \<not> list_all (has_key value) allow_lease_release_fields
      then Inl (MetadataContractError (label @ '' is missing required fields''))
      else
        bindE (select_fields value allow_lease_release_fields) (\<lambda>selected.
        bindE (exact_nonempty_fields selected allow_lease_release_fields label) (\<lambda>external.
          rename_release_key value label external)))"

definition validate_allow_lease_release_observation ::
    "pydict \<Rightarrow> pydict option \<Rightarrow> string option \<Rightarrow> string option \<Rightarrow> exn + (string \<times> string) list" where
  "validate_allow_lease_release_observation local normalized raw_json version =
     (if version = None \<or> version = Some [] then
        Inl (MetadataContractError ''metadata contract version is absent'')
      else case (normalized, raw_json) of
        (Some nmeta, Some raw) \<Rightarrow>
          bindE (release_values local ''local intent'' True) (\<lambda>local_values.
          bindE (release_values nmeta ''normalized metadata'' True) (\<lambda>observed_values.
          bindE (raw_json_object raw) (\<lambda>raw_value.
          bindE (release_values raw_value ''raw external metadata'' False) (\<lambda>raw_values.
            if \<not> (local_values = observed_values \<and> observed_values = raw_values)
            then Inl (MetadataContractError ''local, normalized, and raw metadata do not match'')
            else Inr observed_values))))
      | _ \<Rightarrow> Inl (MetadataContractError ''normalized and raw external metadata are required''))"

definition validate_accepted_lease_identity :: "string option \<Rightarrow> string option \<Rightarrow> exn + string" where
  "validate_accepted_lease_identity gateway_lease_id duplicate =
     (case gateway_lease_id of
        None \<Rightarrow> Inl (MetadataContractError ''accepted gateway lease identity must be non-empty'')
      | Some g \<Rightarrow>
          (if g = [] then Inl (MetadataContractError ''accepted gateway lease identity must be non-empty'')
           else case duplicate of
             None \<Rightarrow> Inr g
           | Some d \<Rightarrow>
               (if d = [] \<or> d \<noteq> g
                then Inl (MetadataContractError ''duplicate allowLease acquire returned a different lease identity'')
                else Inr g)))"

definition validate_accepted_session_identity ::
    "string option \<Rightarrow> string option \<Rightarrow> string option \<Rightarrow> string option \<Rightarrow> exn + string" where
  "validate_accepted_session_identity external_id spawn_request_session_key session_key duplicate =
     (case (external_id, spawn_request_session_key, session_key) of
        (Some x, Some y, Some z) \<Rightarrow>
          (if x = [] \<or> y = [] \<or> z = []
           then Inl (MetadataContractError ''accepted session identity must be stable and non-empty'')
           else if length (remdups [x, y, z]) \<noteq> 1
           then Inl (MetadataContractError ''accepted session identity tuple does not match'')
           else case duplicate of
             None \<Rightarrow> Inr x
           | Some d \<Rightarrow>
               (if d = [] \<or> d \<noteq> x
                then Inl (MetadataContractError ''duplicate spawn returned a different session identity'')
                else Inr x))
      | _ \<Rightarrow> Inl (MetadataContractError ''accepted session identity must be stable and non-empty''))"

subsection \<open>What a validator that returns has checked\<close>

text \<open>The identity fields of a mapping: present, and non-empty strings.\<close>

definition fields_of :: "pydict \<Rightarrow> string list \<Rightarrow> (string \<times> string) list \<Rightarrow> bool" where
  "fields_of d names values \<longleftrightarrow>
     list_all2 (\<lambda>f fv. fst fv = f \<and> snd fv \<noteq> [] \<and> map_of d f = Some (PStr (snd fv))) names values"

lemma fields_of_names: "fields_of d names values \<Longrightarrow> map fst values = names"
  by (auto simp: fields_of_def list_all2_conv_all_nth intro!: nth_equalityI)

lemma fields_of_lookup:
  assumes "fields_of d names values" "f \<in> set names"
  shows "\<exists>s. map_of values f = Some s \<and> s \<noteq> [] \<and> map_of d f = Some (PStr s)"
  using assms unfolding fields_of_def
  by (induction rule: list_all2_induct) auto

lemma fields_of_unique: "fields_of d names v \<Longrightarrow> fields_of d names w \<Longrightarrow> v = w"
proof (rule nth_equalityI)
  assume a: "fields_of d names v" "fields_of d names w"
  then show "length v = length w" by (auto simp: fields_of_def dest!: list_all2_lengthD)
  show "v ! i = w ! i" if "i < length v" for i
    using a that by (auto simp: fields_of_def list_all2_conv_all_nth prod_eq_iff)
qed

lemma exact_nonempty_fields_Inr_iff [err_simps]:
  "exact_nonempty_fields d names label = Inr values \<longleftrightarrow> keys_are d names \<and> fields_of d names values"
proof -
  have "(\<lambda>x y. bindE (getitem d x) (\<lambda>item. case nonempty_str item of
            None \<Rightarrow> Inl (MetadataContractError (label @ ''.'' @ x @ '' must be a non-empty string''))
          | Some s \<Rightarrow> Inr (x, s)) = Inr y)
      = (\<lambda>f fv. fst fv = f \<and> snd fv \<noteq> [] \<and> map_of d f = Some (PStr (snd fv)))"
    by (auto simp: fun_eq_iff err_simps split: option.splits)
  then show ?thesis
    by (auto simp: exact_nonempty_fields_def mapE_Inr_iff fields_of_def)
qed

lemma select_fields_all:
  "list_all (has_key d) names \<Longrightarrow> select_fields d names = Inr (map (\<lambda>f. (f, the (map_of d f))) names)"
  unfolding select_fields_def
  by (rule mapE_all_Inr) (auto simp: getitem_def has_key_def list_all_iff split: option.splits)

lemma map_of_selected: "f \<in> set names \<Longrightarrow> map_of (map (\<lambda>f. (f, the (map_of d f))) names) f = Some (the (map_of d f))"
  by (induction names) auto

lemma fields_of_selected:
  assumes "list_all (has_key d) names"
  shows "fields_of (map (\<lambda>f. (f, the (map_of d f))) names) names values \<longleftrightarrow> fields_of d names values"
  using assms
  by (auto simp: fields_of_def list_all2_conv_all_nth map_of_selected list_all_length has_key_def)

lemma keys_are_selected [simp]: "keys_are (map (\<lambda>f. (f, x f)) names) names"
  by (simp add: keys_are_def comp_def)

lemma fields_of_has_keys: "fields_of d names values \<Longrightarrow> list_all (has_key d) names"
  by (auto simp: fields_of_def list_all2_conv_all_nth list_all_length has_key_def)

lemma raw_json_object_Inr_iff [err_simps]:
  "raw_json_object s = Inr d \<longleftrightarrow>
     s \<noteq> [] \<and> json_loads reject_duplicate_keys reject_nonstandard_constant s = Inr (PDict d)"
  by (auto simp: raw_json_object_def split: sum.splits exn.splits pyval.splits)

lemma raw_object_Inr_iff [err_simps]:
  "raw_object s names = Inr values \<longleftrightarrow>
     (\<exists>d. raw_json_object s = Inr d \<and> fields_of d names values)"
  by (auto simp: raw_object_def bindE_Inr_iff select_fields_all fields_of_selected
      exact_nonempty_fields_Inr_iff dest: fields_of_has_keys)

lemma checked_fields_Inr_iff:
  assumes "list_all (has_key d) names"
  shows "bindE (select_fields d names) (\<lambda>s. bindE (exact_nonempty_fields s names label) f) = Inr r
    \<longleftrightarrow> (\<exists>values. fields_of d names values \<and> f values = Inr r)"
  using assms by (simp add: select_fields_all fields_of_selected err_simps)

lemma validate_metadata_observation_iff:
  "validate_metadata_observation local normalized raw_json version names = Inr values \<longleftrightarrow>
     version \<noteq> None \<and> version \<noteq> Some [] \<and>
     (\<exists>n raw d. normalized = Some n \<and> raw_json = Some raw \<and> raw_json_object raw = Inr d \<and>
        keys_are local names \<and> keys_are n names \<and>
        fields_of local names values \<and> fields_of n names values \<and> fields_of d names values)"
  by (auto simp: validate_metadata_observation_def err_simps)

text \<open>An integer time to live in range, under \<^verbatim>\<open>ttl_ms\<close>.\<close>

definition ttl_of :: "pydict \<Rightarrow> int \<Rightarrow> bool" where
  "ttl_of d ttl \<longleftrightarrow> map_of d ''ttl_ms'' = Some (PInt ttl) \<and> 1 \<le> ttl \<and> ttl \<le> max_lease_ttl_ms"

lemma allow_values_Inr_iff:
  "allow_values d label exact = Inr r \<longleftrightarrow> (exact \<longrightarrow> keys_are d allow_lease_observed_fields) \<and>
     (\<exists>identity ttl g. fields_of d allow_lease_identity_fields identity \<and> ttl_of d ttl \<and>
        map_of d ''gateway_lease_id'' = Some (PStr g) \<and> g \<noteq> [] \<and>
        r = str_dict identity @ [(''ttl_ms'', PInt ttl), (''gateway_lease_id'', PStr g)])"
proof -
  have all: "list_all (has_key d) allow_lease_observed_fields \<longleftrightarrow>
     list_all (has_key d) allow_lease_identity_fields \<and> has_key d ''ttl_ms'' \<and> has_key d ''gateway_lease_id''"
    by (simp add: allow_lease_observed_fields_def)
  show ?thesis
  proof (cases "list_all (has_key d) allow_lease_identity_fields")
    case True
    then show ?thesis
      by (auto simp: allow_values_def err_simps all select_fields_all fields_of_selected ttl_of_def has_key_def)
  next
    case False
    then show ?thesis by (auto simp: allow_values_def all err_simps dest: fields_of_has_keys)
  qed
qed

lemma validate_allow_lease_observation_iff:
  "validate_allow_lease_observation local normalized raw_json version = Inr r \<longleftrightarrow>
     version \<noteq> None \<and> version \<noteq> Some [] \<and>
     (\<exists>n raw d. normalized = Some n \<and> raw_json = Some raw \<and> raw_json_object raw = Inr d \<and>
        allow_values local ''local intent'' True = Inr r \<and>
        allow_values n ''normalized metadata'' True = Inr r \<and>
        allow_values d ''raw external metadata'' False = Inr r)"
  by (auto simp: validate_allow_lease_observation_def err_simps split: option.splits)

text \<open>The legacy key of a release is absent, null or equal to the release key.\<close>

definition legacy_agrees :: "pydict \<Rightarrow> string \<Rightarrow> bool" where
  "legacy_agrees d idem \<longleftrightarrow> dict_get d ''idempotency_key'' \<in> {PNone, PStr idem}"

definition release_result :: "(string \<times> string) list \<Rightarrow> string \<Rightarrow> (string \<times> string) list" where
  "release_result external idem =
     filter (\<lambda>fv. fst fv \<noteq> ''release_idempotency_key'') external @ [(''idempotency_key'', idem)]"

lemma rename_release_key_Inr_iff:
  assumes "fields_of d allow_lease_release_fields external"
  shows "rename_release_key d label external = Inr r \<longleftrightarrow>
     (\<exists>idem. map_of d ''release_idempotency_key'' = Some (PStr idem) \<and> legacy_agrees d idem \<and>
        r = release_result external idem)"
proof -
  have "''idempotency_key'' \<notin> set allow_lease_release_fields"
    by (simp add: allow_lease_release_fields_def)
  then have "''idempotency_key'' \<notin> fst ` set external"
    using fields_of_names [OF assms] by (metis set_map)
  then have "''idempotency_key'' \<notin> fst ` set (filter (\<lambda>fv. fst fv \<noteq> ''release_idempotency_key'') external)"
    by (simp only: set_filter) blast
  then have set: "dict_set ''idempotency_key'' i (filter (\<lambda>fv. fst fv \<noteq> ''release_idempotency_key'') external)
      = release_result external i" for i
    unfolding release_result_def by (rule dict_set_fresh)
  obtain idem where idem: "map_of external ''release_idempotency_key'' = Some idem" "idem \<noteq> []"
      "map_of d ''release_idempotency_key'' = Some (PStr idem)"
    using fields_of_lookup [OF assms, of "''release_idempotency_key''"]
    by (auto simp: allow_lease_release_fields_def)
  then show ?thesis
    by (auto simp: rename_release_key_def set legacy_agrees_def err_simps Let_def)
qed

lemma release_values_Inr_iff:
  "release_values d label exact = Inr r \<longleftrightarrow> (exact \<longrightarrow> keys_are d allow_lease_release_fields) \<and>
     (\<exists>external idem. fields_of d allow_lease_release_fields external \<and>
        map_of d ''release_idempotency_key'' = Some (PStr idem) \<and> legacy_agrees d idem \<and>
        r = release_result external idem)"
proof (cases "list_all (has_key d) allow_lease_release_fields")
  case True
  then show ?thesis
    by (auto simp: release_values_def select_fields_all fields_of_selected err_simps
        rename_release_key_Inr_iff)
qed (auto simp: release_values_def dest: fields_of_has_keys)

lemma validate_allow_lease_release_observation_iff:
  "validate_allow_lease_release_observation local normalized raw_json version = Inr r \<longleftrightarrow>
     version \<noteq> None \<and> version \<noteq> Some [] \<and>
     (\<exists>n raw d. normalized = Some n \<and> raw_json = Some raw \<and> raw_json_object raw = Inr d \<and>
        release_values local ''local intent'' True = Inr r \<and>
        release_values n ''normalized metadata'' True = Inr r \<and>
        release_values d ''raw external metadata'' False = Inr r)"
  by (auto simp: validate_allow_lease_release_observation_def err_simps split: option.splits)

lemma validate_accepted_lease_identity_Inr_iff [err_simps]:
  "validate_accepted_lease_identity g dup = Inr x \<longleftrightarrow>
     g = Some x \<and> x \<noteq> [] \<and> (dup = None \<or> dup = Some x)"
  by (auto simp: validate_accepted_lease_identity_def split: option.splits if_splits)

lemma validate_accepted_session_identity_Inr_iff [err_simps]:
  "validate_accepted_session_identity a b c dup = Inr x \<longleftrightarrow>
     a = Some x \<and> b = Some x \<and> c = Some x \<and> x \<noteq> [] \<and> (dup = None \<or> dup = Some x)"
  by (auto simp: validate_accepted_session_identity_def split: option.splits if_splits)

subsection \<open>The strict JSON reader\<close>

text \<open>The exceptions of a strict read: \<open>wide_char\<close> stands for text outside the model.\<close>

definition strict_error :: "exn \<Rightarrow> bool" where
  "strict_error e \<longleftrightarrow> (\<exists>m. e = MetadataContractError m) \<or> e = bad_json \<or> e = wide_char"

interpretation strict: json_hooks reject_duplicate_keys reject_nonstandard_constant distinct_keys strict_error
  by unfold_locales
    (auto simp: reject_duplicate_keys_def reject_nonstandard_constant_def strict_error_def
      bad_json_def wide_char_def out_of_fuel_def split: if_splits)

definition contract_error :: "exn \<Rightarrow> bool" where
  "contract_error e \<longleftrightarrow> (\<exists>m. e = MetadataContractError m) \<or> e = wide_char"

lemma raw_json_object_error: "raw_json_object s = Inl e \<Longrightarrow> contract_error e"
  using strict.loads_error [of s]
  by (auto simp: raw_json_object_def contract_error_def strict_error_def bad_json_def wide_char_def
      split: if_splits sum.splits exn.splits pyval.splits)

lemma contract_error_simp [simp]: "contract_error (MetadataContractError m)"
  by (simp add: contract_error_def)

lemma exact_nonempty_fields_error:
  "exact_nonempty_fields d names label = Inl e \<Longrightarrow> contract_error e"
  by (auto simp: exact_nonempty_fields_def raise_simps getitem_def
      split: option.splits dest!: mapE_error) (auto simp: has_key_def dest: keys_are_has_key)

lemma raw_object_error: "raw_object s names = Inl e \<Longrightarrow> contract_error e"
  by (auto simp: raw_object_def bindE_Inl_iff select_fields_all split: if_splits
      dest: raw_json_object_error exact_nonempty_fields_error)

lemma allow_values_error: "allow_values d label exact = Inl e \<Longrightarrow> contract_error e"
proof -
  assume e: "allow_values d label exact = Inl e"
  show ?thesis
  proof (cases "list_all (has_key d) allow_lease_observed_fields")
    case True
    then obtain t g where "map_of d ''ttl_ms'' = Some t" "map_of d ''gateway_lease_id'' = Some g"
        "list_all (has_key d) allow_lease_identity_fields"
      by (auto simp: allow_lease_observed_fields_def has_key_def)
    with e True show ?thesis
      by (auto simp: allow_values_def raise_simps select_fields_all getitem_def
          dest: exact_nonempty_fields_error)
  next
    case False
    with e show ?thesis by (auto simp: allow_values_def split: if_splits)
  qed
qed

lemma release_values_error: "release_values d label exact = Inl e \<Longrightarrow> contract_error e"
proof -
  assume e: "release_values d label exact = Inl e"
  have rk: "''release_idempotency_key'' \<in> set allow_lease_release_fields"
    by (simp add: allow_lease_release_fields_def)
  have rename: "contract_error e"
    if "fields_of x allow_lease_release_fields ext" "rename_release_key d label ext = Inl e" for x ext
    using fields_of_lookup [OF that(1) rk] that(2)
    by (auto simp: rename_release_key_def Let_def split: if_splits option.splits)
  show ?thesis using e
    by (auto simp: release_values_def bindE_Inl_iff select_fields_all exact_nonempty_fields_Inr_iff
        split: if_splits intro: rename dest: exact_nonempty_fields_error)
qed

subsection \<open>Properties\<close>

lemma raw_json_object_distinct: "raw_json_object raw = Inr d \<Longrightarrow> distinct_keys (PDict d)"
  unfolding raw_json_object_Inr_iff by (erule conjE) (rule strict.loads_value)

text \<open>
  C21: \<^verbatim>\<open>validate_session_observation\<close> returns \<open>values\<close> exactly when the contract version is a
  non-empty string, the local intent and the normalized metadata have exactly the seven session
  fields, the raw text is a JSON object without repeated keys (more fields are allowed), and
  the three hold the same non-empty string \<open>values\<close> in each of these fields.
\<close>

theorem session_observation_accepted_iff:
  "validate_session_observation local normalized raw_json version = Inr values \<longleftrightarrow>
     (\<exists>v n raw d. version = Some v \<and> v \<noteq> [] \<and> normalized = Some n \<and>
        raw_json = Some raw \<and> raw_json_object raw = Inr d \<and> distinct_keys (PDict d) \<and>
        keys_are local session_fields \<and> keys_are n session_fields \<and>
        fields_of local session_fields values \<and> fields_of n session_fields values \<and>
        fields_of d session_fields values)"
  unfolding validate_session_observation_def validate_metadata_observation_iff
  using raw_json_object_distinct by (cases version; simp del: distinct_keys.simps; blast)

text \<open>
  The seven identity strings, the time to live and the gateway lease identity of a mapping.
\<close>

definition lease_values :: "pydict \<Rightarrow> pydict \<Rightarrow> bool" where
  "lease_values d r \<longleftrightarrow>
     (\<exists>identity ttl g. fields_of d allow_lease_identity_fields identity \<and> ttl_of d ttl \<and>
        map_of d ''gateway_lease_id'' = Some (PStr g) \<and> g \<noteq> [] \<and>
        r = str_dict identity @ [(''ttl_ms'', PInt ttl), (''gateway_lease_id'', PStr g)])"

definition released_values :: "pydict \<Rightarrow> (string \<times> string) list \<Rightarrow> bool" where
  "released_values d r \<longleftrightarrow>
     (\<exists>external idem. fields_of d allow_lease_release_fields external \<and>
        map_of d ''release_idempotency_key'' = Some (PStr idem) \<and> legacy_agrees d idem \<and>
        r = release_result external idem)"

text \<open>
  C10: \<^verbatim>\<open>validate_allow_lease_observation\<close> returns \<open>values\<close> exactly when the local intent, the
  normalized metadata and the raw object all hold them: seven non-empty identity strings, an
  integer (not a boolean) \<^verbatim>\<open>ttl_ms\<close> between 1 and 31536000000 and a non-empty gateway lease
  identity; the first two have no other field.
\<close>

theorem lease_observation_accepted_iff:
  "validate_allow_lease_observation local normalized raw_json version = Inr values \<longleftrightarrow>
     (\<exists>v n raw d. version = Some v \<and> v \<noteq> [] \<and> normalized = Some n \<and>
        raw_json = Some raw \<and> raw_json_object raw = Inr d \<and> distinct_keys (PDict d) \<and>
        keys_are local allow_lease_observed_fields \<and> keys_are n allow_lease_observed_fields \<and>
        lease_values local values \<and> lease_values n values \<and> lease_values d values)"
  unfolding validate_allow_lease_observation_iff allow_values_Inr_iff lease_values_def [symmetric]
  using raw_json_object_distinct by (cases version; simp del: distinct_keys.simps; blast)

text \<open>
  C22: \<^verbatim>\<open>validate_allow_lease_release_observation\<close> returns \<open>values\<close> exactly when the three
  copies of the release hold them: eight non-empty strings, with a legacy
  \<^verbatim>\<open>idempotency_key\<close> that is absent, null or equal to the release key; the result carries the
  release key under the legacy name.
\<close>

theorem release_observation_accepted_iff:
  "validate_allow_lease_release_observation local normalized raw_json version = Inr values \<longleftrightarrow>
     (\<exists>v n raw d. version = Some v \<and> v \<noteq> [] \<and> normalized = Some n \<and>
        raw_json = Some raw \<and> raw_json_object raw = Inr d \<and> distinct_keys (PDict d) \<and>
        keys_are local allow_lease_release_fields \<and> keys_are n allow_lease_release_fields \<and>
        released_values local values \<and> released_values n values \<and> released_values d values)"
  unfolding validate_allow_lease_release_observation_iff release_values_Inr_iff released_values_def [symmetric]
  using raw_json_object_distinct by (cases version; simp del: distinct_keys.simps; blast)

text \<open>
  Within the limits of theory \<open>Json\<close> (no integer literal of more digits and no deeper nesting
  than the interpreter accepts) the validators raise nothing but \<^verbatim>\<open>MetadataContractError\<close>: no
  \<^verbatim>\<open>KeyError\<close> and no \<^verbatim>\<open>JSONDecodeError\<close> escapes (\<open>contract_error\<close> admits the model's own
  out-of-range character besides).
\<close>

lemma validators_raise_contract_errors:
  assumes "validate_session_observation local normalized raw_json version = Inl e \<or>
    validate_allow_lease_observation local normalized raw_json version = Inl e \<or>
    validate_allow_lease_release_observation local normalized raw_json version = Inl e"
  shows "contract_error e"
  using assms
  by (auto simp: validate_session_observation_def validate_metadata_observation_def
      validate_allow_lease_observation_def validate_allow_lease_release_observation_def raise_simps
      split: option.splits if_splits
      dest: exact_nonempty_fields_error raw_object_error raw_json_object_error allow_values_error
        release_values_error)

end
