(* ===== verification/MetadataDispatch.thy ===== *)
theory MetadataDispatch
  imports Metadata
begin

section \<open>The dispatch probe (\<^verbatim>\<open>metadata_dispatch.py\<close>)\<close>

text \<open>
  The probe drives an injected adapter and remembers what it accepted. The adapter is a record
  of state-changing methods over a state of its own (\<^verbatim>\<open>MetadataDispatchAdapter\<close> is a protocol);
  the scripted adapter of the fixtures is one such record. The five dictionaries of the probe
  are finite maps; an exception leaves the changes made before it, as in Python.
\<close>

subsection \<open>Data\<close>

record metadata_observation =
  mo_normalized :: "pydict option"
  mo_raw_json :: "string option"
  mo_contract_version :: "string option"
  mo_external_id :: "string option"
  mo_spawn_request_session_key :: "string option"
  mo_session_key :: "string option"

record allow_lease_intent =
  al_client_lease_id :: string
  al_idempotency_key :: string
  al_run_id :: string
  al_phase :: string
  al_transition_id :: string
  al_agent_id :: string
  al_requester_agent_id :: string
  al_ttl_ms :: int

definition allow_lease_metadata :: "allow_lease_intent \<Rightarrow> string \<Rightarrow> pydict" where
  "allow_lease_metadata i gateway_lease_id =
     [(''client_lease_id'', PStr (al_client_lease_id i)),
      (''idempotency_key'', PStr (al_idempotency_key i)),
      (''run_id'', PStr (al_run_id i)),
      (''phase'', PStr (al_phase i)),
      (''transition_id'', PStr (al_transition_id i)),
      (''agent_id'', PStr (al_agent_id i)),
      (''requester_agent_id'', PStr (al_requester_agent_id i)),
      (''ttl_ms'', PInt (al_ttl_ms i)),
      (''gateway_lease_id'', PStr gateway_lease_id)]"

record allow_lease_release_intent =
  ar_client_lease_id :: string
  ar_idempotency_key :: string
  ar_run_id :: string
  ar_phase :: string
  ar_transition_id :: string
  ar_agent_id :: string
  ar_requester_agent_id :: string
  ar_gateway_lease_id :: string

definition release_metadata :: "allow_lease_release_intent \<Rightarrow> pydict" where
  "release_metadata i =
     [(''client_lease_id'', PStr (ar_client_lease_id i)),
      (''release_idempotency_key'', PStr (ar_idempotency_key i)),
      (''run_id'', PStr (ar_run_id i)),
      (''phase'', PStr (ar_phase i)),
      (''transition_id'', PStr (ar_transition_id i)),
      (''agent_id'', PStr (ar_agent_id i)),
      (''requester_agent_id'', PStr (ar_requester_agent_id i)),
      (''gateway_lease_id'', PStr (ar_gateway_lease_id i))]"

record session_spawn_intent =
  sp_run_id :: string
  sp_transition_id :: string
  sp_client_request_id :: string
  sp_idempotency_key :: string
  sp_phase :: string
  sp_agent_id :: string
  sp_task_digest :: string

definition session_metadata :: "session_spawn_intent \<Rightarrow> pydict" where
  "session_metadata i =
     [(''run_id'', PStr (sp_run_id i)),
      (''transition_id'', PStr (sp_transition_id i)),
      (''client_request_id'', PStr (sp_client_request_id i)),
      (''idempotency_key'', PStr (sp_idempotency_key i)),
      (''phase'', PStr (sp_phase i)),
      (''agent_id'', PStr (sp_agent_id i)),
      (''task_digest'', PStr (sp_task_digest i))]"

record 'a adapter =
  ad_lease_acquire :: "allow_lease_intent \<Rightarrow> ('a, exn, metadata_observation) action"
  ad_lease_status :: "string \<Rightarrow> ('a, exn, metadata_observation) action"
  ad_lease_release :: "allow_lease_release_intent \<Rightarrow> ('a, exn, metadata_observation) action"
  ad_session_spawn :: "session_spawn_intent \<Rightarrow> ('a, exn, metadata_observation) action"
  ad_session_status :: "string \<Rightarrow> ('a, exn, metadata_observation) action"
  ad_session_list :: "session_spawn_intent \<Rightarrow> ('a, exn, metadata_observation list) action"
  ad_session_result :: "string \<Rightarrow> ('a, exn, metadata_observation) action"

subsection \<open>The scripted adapter\<close>

type_synonym script = "string \<Rightarrow> metadata_observation list"

definition script_next :: "string \<Rightarrow> (script, exn, metadata_observation) action" where
  "script_next name q =
     (case q name of
        [] \<Rightarrow> (Inl (MetadataContractError (''fake adapter has no scripted '' @ name @ '' observation'')), q)
      | ob # rest \<Rightarrow> (Inr ob, q(name := rest)))"

text \<open>\<^verbatim>\<open>session_list\<close> pops until its queue is empty.\<close>

definition script_session_list :: "(script, exn, metadata_observation list) action" where
  "script_session_list q = (Inr (q ''session_list''), q(''session_list'' := []))"

definition scripted_adapter :: "script adapter" where
  "scripted_adapter =
     \<lparr>ad_lease_acquire = \<lambda>_. script_next ''allow_lease_acquire'',
      ad_lease_status = \<lambda>_. script_next ''allow_lease_status'',
      ad_lease_release = \<lambda>_. script_next ''allow_lease_release'',
      ad_session_spawn = \<lambda>_. script_next ''session_spawn'',
      ad_session_status = \<lambda>_. script_next ''session_status'',
      ad_session_list = \<lambda>_. script_session_list,
      ad_session_result = \<lambda>_. script_next ''session_result''\<rparr>"

subsection \<open>The probe's state\<close>

record 'a probe =
  pr_adapter :: 'a
  lease_by_acquire_key :: "string \<rightharpoonup> (allow_lease_intent \<times> string)"
  lease_by_gateway_id :: "string \<rightharpoonup> allow_lease_intent"
  release_by_key :: "string \<rightharpoonup> (allow_lease_release_intent \<times> string)"
  session_by_spawn_key :: "string \<rightharpoonup> (session_spawn_intent \<times> string)"
  session_intent_by_key :: "string \<rightharpoonup> session_spawn_intent"

definition new_probe :: "'a \<Rightarrow> 'a probe" where
  "new_probe a = \<lparr>pr_adapter = a, lease_by_acquire_key = Map.empty, lease_by_gateway_id = Map.empty,
     release_by_key = Map.empty, session_by_spawn_key = Map.empty, session_intent_by_key = Map.empty\<rparr>"

definition callA :: "('a, exn, 'r) action \<Rightarrow> ('a probe, exn, 'r) action" where
  "callA m p = (case m (pr_adapter p) of (r, a) \<Rightarrow> (r, p\<lparr>pr_adapter := a\<rparr>))"

abbreviation contractM :: "string \<Rightarrow> ('s, exn, 'r) action" where
  "contractM message \<equiv> raiseM (MetadataContractError message)"

subsection \<open>Helper methods\<close>

definition observed_gateway_lease_id :: "metadata_observation \<Rightarrow> exn + string" where
  "observed_gateway_lease_id ob =
     (case mo_normalized ob of
        None \<Rightarrow> Inl (MetadataContractError ''normalized and raw external metadata are required'')
      | Some n \<Rightarrow>
          (case nonempty_str (dict_get n ''gateway_lease_id'') of
             None \<Rightarrow> Inl (MetadataContractError ''accepted gateway lease identity must be non-empty'')
           | Some g \<Rightarrow> Inr g))"

definition changed_intent :: "('i \<times> string) option \<Rightarrow> 'i \<Rightarrow> bool" where
  "changed_intent prior i = (case prior of None \<Rightarrow> False | Some (j, _) \<Rightarrow> j \<noteq> i)"

definition changed_identity :: "('i \<times> string) option \<Rightarrow> string \<Rightarrow> bool" where
  "changed_identity prior x = (case prior of None \<Rightarrow> False | Some (_, y) \<Rightarrow> y \<noteq> x)"

definition preflight_lease_acquire_replay :: "allow_lease_intent \<Rightarrow> ('a probe, exn, unit) action" where
  "preflight_lease_acquire_replay i =
     bindM (readM (\<lambda>p. lease_by_acquire_key p (al_idempotency_key i))) (\<lambda>prior.
       if changed_intent prior i then contractM ''duplicate acquire identity changed'' else returnM ())"

definition preflight_release_replay :: "allow_lease_release_intent \<Rightarrow> ('a probe, exn, unit) action" where
  "preflight_release_replay i =
     bindM (readM (\<lambda>p. release_by_key p (ar_idempotency_key i))) (\<lambda>prior.
       if changed_intent prior i then contractM ''release replay identity changed'' else returnM ())"

definition preflight_session_spawn_replay :: "session_spawn_intent \<Rightarrow> ('a probe, exn, unit) action" where
  "preflight_session_spawn_replay i =
     bindM (readM (\<lambda>p. session_by_spawn_key p (sp_idempotency_key i))) (\<lambda>prior.
       if changed_intent prior i then contractM ''duplicate spawn identity changed'' else returnM ())"

definition remember_lease_acquire :: "allow_lease_intent \<Rightarrow> string \<Rightarrow> ('a probe, exn, unit) action" where
  "remember_lease_acquire i gateway_lease_id =
     bindM (readM (\<lambda>p. lease_by_acquire_key p (al_idempotency_key i))) (\<lambda>prior.
     if changed_intent prior i then contractM ''duplicate acquire identity changed''
     else if changed_identity prior gateway_lease_id
     then contractM ''duplicate allowLease acquire returned a different lease identity''
     else bindM (readM (\<lambda>p. lease_by_gateway_id p gateway_lease_id)) (\<lambda>gateway_owner.
       if gateway_owner \<noteq> None \<and> gateway_owner \<noteq> Some i
       then contractM ''gateway lease identity is already bound to another acquire intent''
       else writeM (\<lambda>p. p\<lparr>lease_by_acquire_key :=
                             (lease_by_acquire_key p)(al_idempotency_key i \<mapsto> (i, gateway_lease_id)),
                          lease_by_gateway_id := (lease_by_gateway_id p)(gateway_lease_id \<mapsto> i)\<rparr>)))"

definition require_acquired_lease :: "allow_lease_intent \<Rightarrow> string \<Rightarrow> ('a probe, exn, unit) action" where
  "require_acquired_lease i gateway_lease_id =
     bindM (readM (\<lambda>p. lease_by_gateway_id p gateway_lease_id)) (\<lambda>acquired.
       if acquired \<noteq> Some i then contractM ''status identity does not match acquired lease''
       else returnM ())"

definition release_owner :: "allow_lease_release_intent \<Rightarrow> allow_lease_intent \<Rightarrow> bool" where
  "release_owner i acquired \<longleftrightarrow>
     ar_client_lease_id i = al_client_lease_id acquired \<and>
     ar_run_id i = al_run_id acquired \<and>
     ar_phase i = al_phase acquired \<and>
     ar_transition_id i = al_transition_id acquired \<and>
     ar_agent_id i = al_agent_id acquired \<and>
     ar_requester_agent_id i = al_requester_agent_id acquired"

definition has_session_intent_metadata :: "session_spawn_intent \<Rightarrow> metadata_observation \<Rightarrow> bool" where
  "has_session_intent_metadata i ob =
     (case mo_normalized ob of
        None \<Rightarrow> False
      | Some n \<Rightarrow>
          set (map fst n) = set (map fst (session_metadata i)) \<and>
          list_all (\<lambda>(field, v). dict_get n field = v) (session_metadata i))"

definition validate_session :: "session_spawn_intent \<Rightarrow> metadata_observation \<Rightarrow> string option \<Rightarrow> exn + string" where
  "validate_session i ob expected =
     bindE (validate_session_observation (session_metadata i) (mo_normalized ob) (mo_raw_json ob)
              (mo_contract_version ob)) (\<lambda>_.
     validate_accepted_session_identity (mo_external_id ob) (mo_spawn_request_session_key ob)
       (mo_session_key ob) expected)"

definition remember_session_spawn :: "session_spawn_intent \<Rightarrow> string \<Rightarrow> ('a probe, exn, unit) action" where
  "remember_session_spawn i session_key =
     bindM (readM (\<lambda>p. session_by_spawn_key p (sp_idempotency_key i))) (\<lambda>prior.
     if changed_intent prior i then contractM ''duplicate spawn identity changed''
     else if changed_identity prior session_key
     then contractM ''duplicate spawn returned a different session identity''
     else bindM (readM (\<lambda>p. session_intent_by_key p session_key)) (\<lambda>session_owner.
       if session_owner \<noteq> None \<and> session_owner \<noteq> Some i
       then contractM ''session identity is already bound to another spawn intent''
       else writeM (\<lambda>p. p\<lparr>session_by_spawn_key :=
                             (session_by_spawn_key p)(sp_idempotency_key i \<mapsto> (i, session_key)),
                          session_intent_by_key := (session_intent_by_key p)(session_key \<mapsto> i)\<rparr>)))"

definition require_spawned_session :: "session_spawn_intent \<Rightarrow> string \<Rightarrow> ('a probe, exn, unit) action" where
  "require_spawned_session i session_key =
     bindM (readM (\<lambda>p. session_intent_by_key p session_key)) (\<lambda>spawned.
       if spawned \<noteq> Some i then contractM ''session identity does not match spawned request''
       else returnM ())"

subsection \<open>Operations\<close>

definition acquire_allow_lease :: "'a adapter \<Rightarrow> allow_lease_intent \<Rightarrow> ('a probe, exn, string) action" where
  "acquire_allow_lease ad i =
     bindM (preflight_lease_acquire_replay i) (\<lambda>_.
     bindM (callA (ad_lease_acquire ad i)) (\<lambda>ob.
     bindM (liftM (observed_gateway_lease_id ob)) (\<lambda>gateway_lease_id.
     bindM (liftM (validate_allow_lease_observation (allow_lease_metadata i gateway_lease_id)
              (mo_normalized ob) (mo_raw_json ob) (mo_contract_version ob))) (\<lambda>observed.
     bindM (liftM (getitem observed ''gateway_lease_id'')) (\<lambda>g.
     bindM (readM (\<lambda>p. map_option snd (lease_by_acquire_key p (al_idempotency_key i)))) (\<lambda>duplicate.
     bindM (liftM (validate_accepted_lease_identity (str_value g) duplicate)) (\<lambda>accepted.
     bindM (remember_lease_acquire i accepted) (\<lambda>_.
     returnM accepted))))))))"

definition status_allow_lease ::
    "'a adapter \<Rightarrow> allow_lease_intent \<Rightarrow> string \<Rightarrow> ('a probe, exn, string) action" where
  "status_allow_lease ad i gateway_lease_id =
     bindM (require_acquired_lease i gateway_lease_id) (\<lambda>_.
     bindM (callA (ad_lease_status ad gateway_lease_id)) (\<lambda>ob.
     bindM (liftM (validate_allow_lease_observation (allow_lease_metadata i gateway_lease_id)
              (mo_normalized ob) (mo_raw_json ob) (mo_contract_version ob))) (\<lambda>observed.
     bindM (liftM (getitem observed ''gateway_lease_id'')) (\<lambda>g.
     liftM (validate_accepted_lease_identity (str_value g) (Some gateway_lease_id))))))"

definition release_allow_lease ::
    "'a adapter \<Rightarrow> allow_lease_release_intent \<Rightarrow> ('a probe, exn, string) action" where
  "release_allow_lease ad i =
     bindM (preflight_release_replay i) (\<lambda>_.
     bindM (readM (\<lambda>p. lease_by_gateway_id p (ar_gateway_lease_id i))) (\<lambda>acquired.
     case acquired of
       None \<Rightarrow> contractM ''release references an unknown gateway lease''
     | Some lease \<Rightarrow>
         if \<not> release_owner i lease
         then contractM ''release owner metadata does not match acquired lease''
         else
           bindM (callA (ad_lease_release ad i)) (\<lambda>ob.
           bindM (liftM (validate_allow_lease_release_observation (release_metadata i)
                    (mo_normalized ob) (mo_raw_json ob) (mo_contract_version ob))) (\<lambda>observed.
           bindM (liftM (getitem (str_dict observed) ''gateway_lease_id'')) (\<lambda>g.
           bindM (liftM (validate_accepted_lease_identity (str_value g)
                    (Some (ar_gateway_lease_id i)))) (\<lambda>released.
           bindM (readM (\<lambda>p. release_by_key p (ar_idempotency_key i))) (\<lambda>prior.
           if changed_intent prior i then contractM ''release replay identity changed''
           else if changed_identity prior released
           then contractM ''release replay returned a different lease identity''
           else bindM (writeM (\<lambda>p. p\<lparr>release_by_key :=
                    (release_by_key p)(ar_idempotency_key i \<mapsto> (i, released))\<rparr>)) (\<lambda>_.
                returnM released))))))))"

definition spawn_session :: "'a adapter \<Rightarrow> session_spawn_intent \<Rightarrow> ('a probe, exn, string) action" where
  "spawn_session ad i =
     bindM (preflight_session_spawn_replay i) (\<lambda>_.
     bindM (callA (ad_session_spawn ad i)) (\<lambda>ob.
     bindM (liftM (validate_session i ob None)) (\<lambda>session_key.
     bindM (readM (\<lambda>p. map_option snd (session_by_spawn_key p (sp_idempotency_key i)))) (\<lambda>duplicate.
     bindM (liftM (validate_accepted_session_identity (mo_external_id ob)
              (mo_spawn_request_session_key ob) (mo_session_key ob) duplicate)) (\<lambda>accepted.
     if session_key \<noteq> accepted
     then contractM ''session metadata identity does not match accepted identity''
     else bindM (remember_session_spawn i accepted) (\<lambda>_. returnM accepted))))))"

definition status_session ::
    "'a adapter \<Rightarrow> session_spawn_intent \<Rightarrow> string \<Rightarrow> ('a probe, exn, string) action" where
  "status_session ad i session_key =
     bindM (require_spawned_session i session_key) (\<lambda>_.
     bindM (callA (ad_session_status ad session_key)) (\<lambda>ob.
     liftM (validate_session i ob (Some session_key))))"

definition list_match :: "session_spawn_intent \<Rightarrow> string \<Rightarrow> metadata_observation \<Rightarrow> bool" where
  "list_match i session_key ob \<longleftrightarrow>
     mo_session_key ob = Some session_key \<or> mo_external_id ob = Some session_key \<or>
     has_session_intent_metadata i ob"

definition list_session ::
    "'a adapter \<Rightarrow> session_spawn_intent \<Rightarrow> string \<Rightarrow> ('a probe, exn, string) action" where
  "list_session ad i session_key =
     bindM (require_spawned_session i session_key) (\<lambda>_.
     bindM (callA (ad_session_list ad i)) (\<lambda>listed.
     let match_indexes = filter (\<lambda>n. list_match i session_key (listed ! n)) [0..<length listed]
     in if length match_indexes \<noteq> 1
        then contractM ''session list must expose exactly one matching session''
        else liftM (validate_session i (listed ! hd match_indexes) (Some session_key))))"

definition result_session ::
    "'a adapter \<Rightarrow> session_spawn_intent \<Rightarrow> string \<Rightarrow> ('a probe, exn, string) action" where
  "result_session ad i session_key =
     bindM (require_spawned_session i session_key) (\<lambda>_.
     bindM (callA (ad_session_result ad session_key)) (\<lambda>ob.
     liftM (validate_session i ob (Some session_key))))"

subsection \<open>Sequences of calls\<close>

datatype probe_call =
    AcquireLease allow_lease_intent
  | StatusLease allow_lease_intent string
  | ReleaseLease allow_lease_release_intent
  | SpawnSession session_spawn_intent
  | StatusSession session_spawn_intent string
  | ListSession session_spawn_intent string
  | ResultSession session_spawn_intent string

fun probe_run :: "'a adapter \<Rightarrow> probe_call \<Rightarrow> ('a probe, exn, string) action" where
  "probe_run ad (AcquireLease i) = acquire_allow_lease ad i"
| "probe_run ad (StatusLease i g) = status_allow_lease ad i g"
| "probe_run ad (ReleaseLease i) = release_allow_lease ad i"
| "probe_run ad (SpawnSession i) = spawn_session ad i"
| "probe_run ad (StatusSession i s) = status_session ad i s"
| "probe_run ad (ListSession i s) = list_session ad i s"
| "probe_run ad (ResultSession i s) = result_session ad i s"

text \<open>
  A caller may make any calls in any order and go on after an exception; the adapter may change
  between two calls.
\<close>

inductive probe_steps :: "'a probe \<Rightarrow> 'a probe \<Rightarrow> bool" where
  probe_done: "probe_steps p p"
| probe_call: "probe_steps p q \<Longrightarrow> probe_run ad c q = (res, q') \<Longrightarrow> probe_steps p (q'\<lparr>pr_adapter := a\<rparr>)"

definition probe_reachable :: "'a probe \<Rightarrow> bool" where
  "probe_reachable p \<longleftrightarrow> (\<exists>a. probe_steps (new_probe a) p)"

subsection \<open>Replay registries\<close>

text \<open>
  Leases and sessions are remembered in the same way: by the caller's idempotency key, with the
  intent and the external identity, and by the external identity. \<open>registry_ok\<close> says that the two
  tables are inverse to each other.
\<close>

definition registry_ok :: "('i \<Rightarrow> string) \<Rightarrow> (string \<rightharpoonup> 'i \<times> string) \<Rightarrow> (string \<rightharpoonup> 'i) \<Rightarrow> bool" where
  "registry_ok key_of by_key by_id \<longleftrightarrow>
     (\<forall>k i x. by_key k = Some (i, x) \<longrightarrow> key_of i = k \<and> by_id x = Some i) \<and>
     (\<forall>x i. by_id x = Some i \<longrightarrow> by_key (key_of i) = Some (i, x))"

locale replay_registry =
  fixes key_of :: "'i \<Rightarrow> string"
    and by_key :: "'s \<Rightarrow> string \<rightharpoonup> 'i \<times> string"
    and by_id :: "'s \<Rightarrow> string \<rightharpoonup> 'i"
    and remember :: "'i \<Rightarrow> string \<Rightarrow> ('s, exn, unit) action"
  assumes remember_accepts: "remember i x s = (Inr u, s') \<Longrightarrow>
      by_key s (key_of i) \<in> {None, Some (i, x)} \<and> by_id s x \<in> {None, Some i} \<and>
      by_key s' = (by_key s)(key_of i \<mapsto> (i, x)) \<and> by_id s' = (by_id s)(x \<mapsto> i)"
begin

lemma remember_keeps:
  assumes ok: "registry_ok key_of (by_key s) (by_id s)" and r: "remember i x s = (Inr u, s')"
  shows "registry_ok key_of (by_key s') (by_id s')"
proof -
  have key: "by_key s (key_of i) = None \<or> by_key s (key_of i) = Some (i, x)" "by_id s x = None \<or> by_id s x = Some i"
    and new: "by_key s' = (by_key s)(key_of i \<mapsto> (i, x))" "by_id s' = (by_id s)(x \<mapsto> i)"
    using remember_accepts [OF r] by auto
  have A: "by_key s k = Some (j, y) \<Longrightarrow> key_of j = k \<and> by_id s y = Some j" for k j y
    using ok unfolding registry_ok_def by blast
  have B: "by_id s y = Some j \<Longrightarrow> by_key s (key_of j) = Some (j, y)" for y j
    using ok unfolding registry_ok_def by blast
  have "key_of j = k \<and> by_id s' y = Some j" if "by_key s' k = Some (j, y)" for k j y
    using that A [of k j y] key(2) unfolding new by (auto split: if_splits)
  moreover have "by_key s' (key_of j) = Some (j, y)" if "by_id s' y = Some j" for y j
    using that B [of y j] key(1) unfolding new by (auto split: if_splits)
  ultimately show ?thesis unfolding registry_ok_def by blast
qed

lemma remember_extends:
  "remember i x s = (Inr u, s') \<Longrightarrow> by_key s \<subseteq>\<^sub>m by_key s' \<and> by_id s \<subseteq>\<^sub>m by_id s'"
  by (drule remember_accepts) (auto simp: map_le_def)

lemma remember_records: "remember i x s = (Inr u, s') \<Longrightarrow> by_key s' (key_of i) = Some (i, x)"
  by (drule remember_accepts) simp

lemma remember_stable:
  "remember i x s = (Inr u, s') \<Longrightarrow> by_key s (key_of i) = Some (j, y) \<Longrightarrow> j = i \<and> y = x"
  by (drule remember_accepts) auto

lemma identities_distinct:
  "registry_ok key_of (by_key s) (by_id s) \<Longrightarrow> by_key s k = Some (i, x) \<Longrightarrow>
   by_key s k' = Some (j, x) \<Longrightarrow> k = k' \<and> i = j"
  unfolding registry_ok_def by (metis option.inject)

end

interpretation leases: replay_registry al_idempotency_key lease_by_acquire_key lease_by_gateway_id
    remember_lease_acquire
  by unfold_locales
    (auto simp: remember_lease_acquire_def changed_intent_def changed_identity_def err_simps
      split: option.splits if_splits)

interpretation sessions: replay_registry sp_idempotency_key session_by_spawn_key session_intent_by_key
    remember_session_spawn
  by unfold_locales
    (auto simp: remember_session_spawn_def changed_intent_def changed_identity_def err_simps
      split: option.splits if_splits)

subsection \<open>What each operation changes\<close>

lemma callA_effect: "callA m p = (r, p') \<Longrightarrow> \<exists>a. p' = p\<lparr>pr_adapter := a\<rparr>"
  by (auto simp: callA_def split: prod.splits)

definition adapter_only :: "'a probe \<Rightarrow> 'a probe \<Rightarrow> bool" where
  "adapter_only p p' \<longleftrightarrow> (\<exists>a. p' = p\<lparr>pr_adapter := a\<rparr>)"

lemma adapter_only_refl [simp]: "adapter_only p p"
  unfolding adapter_only_def by (rule exI [of _ "pr_adapter p"]) simp



lemma guard_state:
  "preflight_lease_acquire_replay i p = (r, q) \<Longrightarrow> q = p"
  "preflight_release_replay ri p = (r, q) \<Longrightarrow> q = p"
  "preflight_session_spawn_replay si p = (r, q) \<Longrightarrow> q = p"
  "require_acquired_lease i g p = (r, q) \<Longrightarrow> q = p"
  "require_spawned_session si g p = (r, q) \<Longrightarrow> q = p"
  by (auto simp: preflight_lease_acquire_replay_def preflight_release_replay_def
      preflight_session_spawn_replay_def require_acquired_lease_def require_spawned_session_def
      bindM_def split: if_splits)

lemma remember_error:
  "remember_lease_acquire i g p = (Inl e, q) \<Longrightarrow> q = p"
  "remember_session_spawn si g p = (Inl e, q) \<Longrightarrow> q = p"
  by (auto simp: remember_lease_acquire_def remember_session_spawn_def bindM_def split: if_splits)

lemma acquire_returns:
  assumes "acquire_allow_lease ad i p = (Inr g, p')"
  shows "\<exists>q. adapter_only p q \<and> remember_lease_acquire i g q = (Inr (), p') \<and> g \<noteq> []"
  using assms unfolding acquire_allow_lease_def
  by (auto simp: bindM_Inr_iff err_simps adapter_only_def dest!: callA_effect guard_state)

lemma acquire_raises: "acquire_allow_lease ad i p = (Inl e, p') \<Longrightarrow> adapter_only p p'"
  unfolding acquire_allow_lease_def
  by (auto simp: bindM_Inl_iff adapter_only_def intro: exI [of _ "pr_adapter p"]
      dest!: callA_effect guard_state remember_error)

lemma spawn_returns:
  assumes "spawn_session ad i p = (Inr s, p')"
  shows "\<exists>q. adapter_only p q \<and> remember_session_spawn i s q = (Inr (), p') \<and> s \<noteq> []"
  using assms unfolding spawn_session_def
  by (auto simp: bindM_Inr_iff err_simps adapter_only_def split: if_splits dest!: callA_effect guard_state)

lemma spawn_raises: "spawn_session ad i p = (Inl e, p') \<Longrightarrow> adapter_only p p'"
  unfolding spawn_session_def
  by (auto simp: bindM_Inl_iff adapter_only_def split: if_splits intro: exI [of _ "pr_adapter p"]
      dest!: callA_effect guard_state remember_error)

lemma release_returns:
  assumes "release_allow_lease ad i p = (Inr g, p')"
  shows "\<exists>a lease. g = ar_gateway_lease_id i \<and> g \<noteq> [] \<and> lease_by_gateway_id p g = Some lease \<and>
    release_owner i lease \<and> release_by_key p (ar_idempotency_key i) \<in> {None, Some (i, g)} \<and>
    p' = p\<lparr>pr_adapter := a, release_by_key := (release_by_key p)(ar_idempotency_key i \<mapsto> (i, g))\<rparr>"
  using assms unfolding release_allow_lease_def
  by (auto simp: err_simps changed_intent_def changed_identity_def
     split: option.splits dest!: callA_effect guard_state) blast

lemma release_raises: "release_allow_lease ad i p = (Inl e, p') \<Longrightarrow> adapter_only p p'"
  unfolding release_allow_lease_def
  by (auto simp: raiseM_simps adapter_only_def intro: exI [of _ "pr_adapter p"]
      dest!: callA_effect guard_state)

lemma status_lease_effect: "status_allow_lease ad i g p = (r, p') \<Longrightarrow> adapter_only p p'"
  unfolding status_allow_lease_def adapter_only_def
  by (cases r; auto simp: raiseM_simps err_simps intro: exI [of _ "pr_adapter p"]
      dest!: callA_effect guard_state)

lemma session_reads_effect:
  "status_session ad si s p = (r, p') \<Longrightarrow> adapter_only p p'"
  "result_session ad si s p = (r, p') \<Longrightarrow> adapter_only p p'"
  unfolding status_session_def result_session_def adapter_only_def
  by (cases r; auto simp: raiseM_simps err_simps intro: exI [of _ "pr_adapter p"]
      dest!: callA_effect guard_state)+

lemma list_session_effect:
  "list_session ad si s p = (r, p') \<Longrightarrow> adapter_only p p'"
  unfolding list_session_def adapter_only_def
  by (cases r; auto simp: raiseM_simps err_simps Let_def intro: exI [of _ "pr_adapter p"]
      dest!: callA_effect guard_state)


subsection \<open>The invariant\<close>

text \<open>A release was accepted only for a lease acquired by the same owner.\<close>

definition releases_ok :: "'a probe \<Rightarrow> bool" where
  "releases_ok p \<longleftrightarrow> (\<forall>k i g. release_by_key p k = Some (i, g) \<longrightarrow>
     ar_idempotency_key i = k \<and> ar_gateway_lease_id i = g \<and>
     (\<exists>lease. lease_by_gateway_id p g = Some lease \<and> release_owner i lease))"

definition probe_ok :: "'a probe \<Rightarrow> bool" where
  "probe_ok p \<longleftrightarrow>
     registry_ok al_idempotency_key (lease_by_acquire_key p) (lease_by_gateway_id p) \<and>
     registry_ok sp_idempotency_key (session_by_spawn_key p) (session_intent_by_key p) \<and>
     releases_ok p \<and> lease_by_gateway_id p [] = None \<and> session_intent_by_key p [] = None"

text \<open>What the probe remembers only grows.\<close>

definition probe_extends :: "'a probe \<Rightarrow> 'a probe \<Rightarrow> bool" where
  "probe_extends p p' \<longleftrightarrow>
     lease_by_acquire_key p \<subseteq>\<^sub>m lease_by_acquire_key p' \<and>
     lease_by_gateway_id p \<subseteq>\<^sub>m lease_by_gateway_id p' \<and>
     release_by_key p \<subseteq>\<^sub>m release_by_key p' \<and>
     session_by_spawn_key p \<subseteq>\<^sub>m session_by_spawn_key p' \<and>
     session_intent_by_key p \<subseteq>\<^sub>m session_intent_by_key p'"

lemma probe_extends_trans: "probe_extends p q \<Longrightarrow> probe_extends q r \<Longrightarrow> probe_extends p r"
  unfolding probe_extends_def by (blast intro: map_le_trans)

lemma adapter_only_keeps: "adapter_only p p' \<Longrightarrow> probe_ok p' = probe_ok p" "adapter_only p p' \<Longrightarrow> probe_extends p p'"
  by (auto simp: adapter_only_def probe_ok_def releases_ok_def probe_extends_def)

lemma remember_lease_frame:
  "remember_lease_acquire i g p = (Inr u, p') \<Longrightarrow>
     release_by_key p' = release_by_key p \<and> session_by_spawn_key p' = session_by_spawn_key p \<and>
     session_intent_by_key p' = session_intent_by_key p"
  by (auto simp: remember_lease_acquire_def err_simps)

lemma remember_session_frame:
  "remember_session_spawn i g p = (Inr u, p') \<Longrightarrow>
     release_by_key p' = release_by_key p \<and> lease_by_acquire_key p' = lease_by_acquire_key p \<and>
     lease_by_gateway_id p' = lease_by_gateway_id p"
  by (auto simp: remember_session_spawn_def err_simps)

lemma remember_lease_ok:
  assumes "remember_lease_acquire i g p = (Inr u, p')" "g \<noteq> []" "probe_ok p"
  shows "probe_ok p' \<and> probe_extends p p'"
proof -
  have ext: "lease_by_acquire_key p \<subseteq>\<^sub>m lease_by_acquire_key p'" "lease_by_gateway_id p \<subseteq>\<^sub>m lease_by_gateway_id p'"
    using leases.remember_extends [OF assms(1)] by auto
  have "registry_ok al_idempotency_key (lease_by_acquire_key p') (lease_by_gateway_id p')"
    using leases.remember_keeps assms by (auto simp: probe_ok_def)
  moreover have "releases_ok p'"
    using assms(3) ext(2) remember_lease_frame [OF assms(1)]
    unfolding probe_ok_def releases_ok_def map_le_def by (metis domI)
  moreover have "lease_by_gateway_id p' [] = None"
    using leases.remember_accepts [OF assms(1)] assms by (auto simp: probe_ok_def)
  ultimately show ?thesis
    using ext assms(3) remember_lease_frame [OF assms(1)] by (simp add: probe_ok_def probe_extends_def)
qed

lemma remember_session_ok:
  assumes "remember_session_spawn i g p = (Inr u, p')" "g \<noteq> []" "probe_ok p"
  shows "probe_ok p' \<and> probe_extends p p'"
proof -
  have "registry_ok sp_idempotency_key (session_by_spawn_key p') (session_intent_by_key p')"
    using sessions.remember_keeps assms by (auto simp: probe_ok_def)
  moreover have "session_intent_by_key p' [] = None"
    using sessions.remember_accepts [OF assms(1)] assms by (auto simp: probe_ok_def)
  ultimately show ?thesis
    using assms(3) remember_session_frame [OF assms(1)] sessions.remember_extends [OF assms(1)]
    by (simp add: probe_ok_def probe_extends_def releases_ok_def)
qed

lemma release_ok:
  assumes "release_allow_lease ad i p = (Inr g, p')" "probe_ok p"
  shows "probe_ok p' \<and> probe_extends p p'"
proof -
  obtain a lease where r: "g = ar_gateway_lease_id i" "lease_by_gateway_id p g = Some lease" "release_owner i lease"
      "release_by_key p (ar_idempotency_key i) \<in> {None, Some (i, g)}"
      "p' = p\<lparr>pr_adapter := a, release_by_key := (release_by_key p)(ar_idempotency_key i \<mapsto> (i, g))\<rparr>"
    using release_returns [OF assms(1)] by metis
  have "releases_ok p'"
    using assms(2) r(1,2,3) unfolding r(5) probe_ok_def releases_ok_def by simp
  moreover have "release_by_key p \<subseteq>\<^sub>m release_by_key p'"
    using r(4) unfolding r(5) map_le_def by auto
  ultimately show ?thesis
    using assms(2) unfolding probe_ok_def probe_extends_def by (simp add: r(5))
qed

lemma probe_run_ok:
  assumes "probe_run ad c p = (r, p')" "probe_ok p"
  shows "probe_ok p' \<and> probe_extends p p'"
proof -
  consider "adapter_only p p'"
    | i g q where "adapter_only p q" "remember_lease_acquire i g q = (Inr (), p')" "g \<noteq> []"
    | i g q where "adapter_only p q" "remember_session_spawn i g q = (Inr (), p')" "g \<noteq> []"
    | i g where "release_allow_lease ad i p = (Inr g, p')"
    using assms(1)
    by (cases c; cases r) (auto dest: acquire_returns acquire_raises spawn_returns spawn_raises
        release_raises status_lease_effect session_reads_effect list_session_effect)
  then show ?thesis
  proof cases
    case 1
    with assms(2) show ?thesis using adapter_only_keeps by blast
  next
    case 2
    with assms(2) have "probe_ok q" "probe_extends p q" using adapter_only_keeps by blast+
    with 2 show ?thesis using remember_lease_ok probe_extends_trans by blast
  next
    case 3
    with assms(2) have "probe_ok q" "probe_extends p q" using adapter_only_keeps by blast+
    with 3 show ?thesis using remember_session_ok probe_extends_trans by blast
  next
    case 4
    from this assms(2) show ?thesis by (rule release_ok)
  qed
qed

lemma probe_steps_ok: "probe_steps p q \<Longrightarrow> probe_ok p \<Longrightarrow> probe_ok q \<and> probe_extends p q"
proof (induction rule: probe_steps.induct)
  case (probe_done p)
  then show ?case by (simp add: probe_extends_def)
next
  case (probe_call p q ad c res q' a)
  have "adapter_only q' (q'\<lparr>pr_adapter := a\<rparr>)" by (auto simp: adapter_only_def)
  then show ?case using probe_call adapter_only_keeps probe_run_ok probe_extends_trans by metis
qed

lemma new_probe_ok: "probe_ok (new_probe a)"
  by (simp add: probe_ok_def new_probe_def registry_ok_def releases_ok_def)

lemma reachable_ok: "probe_reachable p \<Longrightarrow> probe_ok p"
proof -
  assume "probe_reachable p"
  then obtain a where "probe_steps (new_probe a) p" unfolding probe_reachable_def by (elim exE)
  from probe_steps_ok [OF this new_probe_ok] show ?thesis by (rule conjunct1)
qed

lemma acquire_records:
  assumes "acquire_allow_lease ad i p = (Inr g, p')" "probe_ok p"
  shows "probe_ok p' \<and> probe_extends p p' \<and> lease_by_acquire_key p' (al_idempotency_key i) = Some (i, g)"
  using acquire_returns [OF assms(1)] probe_run_ok [of ad "AcquireLease i" p "Inr g" p'] assms
    leases.remember_records by auto

lemma spawn_records:
  assumes "spawn_session ad i p = (Inr s, p')" "probe_ok p"
  shows "probe_ok p' \<and> probe_extends p p' \<and> session_by_spawn_key p' (sp_idempotency_key i) = Some (i, s)"
  using spawn_returns [OF assms(1)] probe_run_ok [of ad "SpawnSession i" p "Inr s" p'] assms
    sessions.remember_records by auto

lemma map_le_lookup: "m \<subseteq>\<^sub>m m' \<Longrightarrow> m k = Some v \<Longrightarrow> m' k = Some v"
  by (auto simp: map_le_def dom_def)

subsection \<open>An honest runtime\<close>

text \<open>What a runtime that echoes the metadata answers.\<close>

definition honest_lease_observation :: "allow_lease_intent \<Rightarrow> string \<Rightarrow> metadata_observation" where
  "honest_lease_observation i g =
     \<lparr>mo_normalized = Some (allow_lease_metadata i g),
      mo_raw_json = Some (dumps (PDict (allow_lease_metadata i g))),
      mo_contract_version = Some ''v1'', mo_external_id = None,
      mo_spawn_request_session_key = None, mo_session_key = None\<rparr>"

definition honest_session_observation :: "session_spawn_intent \<Rightarrow> string \<Rightarrow> metadata_observation" where
  "honest_session_observation i s =
     \<lparr>mo_normalized = Some (session_metadata i),
      mo_raw_json = Some (dumps (PDict (session_metadata i))),
      mo_contract_version = Some ''v1'', mo_external_id = Some s,
      mo_spawn_request_session_key = Some s, mo_session_key = Some s\<rparr>"

definition lease_intent_ok :: "allow_lease_intent \<Rightarrow> bool" where
  "lease_intent_ok i \<longleftrightarrow>
     list_all (\<lambda>s. s \<noteq> []) [al_client_lease_id i, al_idempotency_key i, al_run_id i, al_phase i, al_transition_id i,
           al_agent_id i, al_requester_agent_id i] \<and>
     1 \<le> al_ttl_ms i \<and> al_ttl_ms i \<le> max_lease_ttl_ms"

definition session_intent_ok :: "session_spawn_intent \<Rightarrow> bool" where
  "session_intent_ok i \<longleftrightarrow>
     list_all (\<lambda>s. s \<noteq> []) [sp_run_id i, sp_transition_id i, sp_client_request_id i, sp_idempotency_key i, sp_phase i,
           sp_agent_id i, sp_task_digest i]"

lemma map_of_sort_key: "distinct (map fst d) \<Longrightarrow> map_of (sort_key fst d) = map_of d"
  by (rule map_of_inject_set [THEN iffD2]) (simp_all add: distinct_map)

lemma strict_read_back:
  assumes "distinct (map fst d)" "\<And>kv. kv \<in> set d \<Longrightarrow> plain_value (snd kv) \<and> sorted_value (snd kv) = snd kv"
  shows "\<exists>d'. raw_json_object (dumps (PDict d)) = Inr d' \<and> map_of d' = map_of d"
proof -
  have m: "map (\<lambda>kv. (fst kv, sorted_value (snd kv))) d = d"
    using assms(2) by (simp add: map_idI)
  have "json_loads reject_duplicate_keys reject_nonstandard_constant (dumps (PDict d))
      = Inr (sorted_value (PDict d))"
    using assms by (intro json_loads_dumps_hook) (auto simp: reject_duplicate_keys_def)
  then have "raw_json_object (dumps (PDict d)) = Inr (sort_key fst d)"
    unfolding raw_json_object_Inr_iff by (simp add: m)
  with map_of_sort_key [OF assms(1)] show ?thesis by blast
qed

lemma fields_of_map_of: "map_of d' = map_of d \<Longrightarrow> fields_of d' names v = fields_of d names v"
  by (simp add: fields_of_def)

lemma lease_values_map_of: "map_of d' = map_of d \<Longrightarrow> lease_values d' v = lease_values d v"
  by (simp add: lease_values_def ttl_of_def fields_of_def)

lemma honest_lease_valid:
  assumes "lease_intent_ok i" "g \<noteq> []"
  shows "validate_allow_lease_observation (allow_lease_metadata i g) (Some (allow_lease_metadata i g))
     (Some (dumps (PDict (allow_lease_metadata i g)))) (Some ''v1'') = Inr (allow_lease_metadata i g)"
proof -
  let ?m = "allow_lease_metadata i g"
  have "distinct (map fst ?m)" by (simp add: allow_lease_metadata_def)
  moreover have "kv \<in> set ?m \<Longrightarrow> plain_value (snd kv) \<and> sorted_value (snd kv) = snd kv" for kv
    by (auto simp: allow_lease_metadata_def)
  ultimately obtain d' where d': "raw_json_object (dumps (PDict ?m)) = Inr d'" "map_of d' = map_of ?m"
    using strict_read_back by blast
  have "keys_are ?m allow_lease_observed_fields"
    by (simp add: keys_are_def allow_lease_metadata_def allow_lease_observed_fields_def
        allow_lease_identity_fields_def)
  moreover have "lease_values ?m ?m"
  proof -
    let ?id = "zip allow_lease_identity_fields [al_client_lease_id i, al_idempotency_key i, al_run_id i,
        al_phase i, al_transition_id i, al_agent_id i, al_requester_agent_id i]"
    have "fields_of ?m allow_lease_identity_fields ?id" "ttl_of ?m (al_ttl_ms i)"
      "map_of ?m ''gateway_lease_id'' = Some (PStr g)"
      "?m = str_dict ?id @ [(''ttl_ms'', PInt (al_ttl_ms i)), (''gateway_lease_id'', PStr g)]"
      using assms by (simp_all add: fields_of_def ttl_of_def allow_lease_metadata_def
          allow_lease_identity_fields_def lease_intent_ok_def str_dict_def)
    then show ?thesis using assms(2) unfolding lease_values_def by blast
  qed
  ultimately show ?thesis
    unfolding validate_allow_lease_observation_iff allow_values_Inr_iff lease_values_def [symmetric]
    using d'(1) lease_values_map_of [OF d'(2)] by (simp del: dumps.simps)
qed

lemma honest_session_valid:
  assumes "session_intent_ok i"
  shows "\<exists>v. validate_session_observation (session_metadata i) (Some (session_metadata i))
     (Some (dumps (PDict (session_metadata i)))) (Some ''v1'') = Inr v"
proof -
  let ?m = "session_metadata i"
  have "distinct (map fst ?m)" by (simp add: session_metadata_def)
  moreover have "kv \<in> set ?m \<Longrightarrow> plain_value (snd kv) \<and> sorted_value (snd kv) = snd kv" for kv
    by (auto simp: session_metadata_def)
  ultimately obtain d' where d': "raw_json_object (dumps (PDict ?m)) = Inr d'" "map_of d' = map_of ?m"
    using strict_read_back by blast
  have "keys_are ?m session_fields"
    by (simp add: keys_are_def session_metadata_def session_fields_def)
  moreover have "fields_of ?m session_fields (zip session_fields [sp_run_id i, sp_transition_id i,
      sp_client_request_id i, sp_idempotency_key i, sp_phase i, sp_agent_id i, sp_task_digest i])"
    using assms by (simp add: fields_of_def session_metadata_def session_fields_def session_intent_ok_def)
  ultimately show ?thesis
    unfolding validate_session_observation_def validate_metadata_observation_iff
    using d'(1) fields_of_map_of [OF d'(2)] by (simp del: dumps.simps) blast
qed

lemma acquire_honest:
  assumes "lease_intent_ok i" "g \<noteq> []"
    "ad_lease_acquire ad i (pr_adapter p) = (Inr (honest_lease_observation i g), a)"
    "lease_by_acquire_key p (al_idempotency_key i) \<in> {None, Some (i, g)}"
    "lease_by_gateway_id p g \<in> {None, Some i}"
  shows "acquire_allow_lease ad i p =
     (Inr g, p\<lparr>pr_adapter := a,
        lease_by_acquire_key := (lease_by_acquire_key p)(al_idempotency_key i \<mapsto> (i, g)),
        lease_by_gateway_id := (lease_by_gateway_id p)(g \<mapsto> i)\<rparr>)"
proof -
  let ?ob = "honest_lease_observation i g" and ?q = "p\<lparr>pr_adapter := a\<rparr>"
  have pre: "preflight_lease_acquire_replay i p = (Inr (), p)"
    using assms(4) by (auto simp: preflight_lease_acquire_replay_def bindM_def changed_intent_def)
  have gid: "observed_gateway_lease_id ?ob = Inr g"
    using assms(2) by (simp add: observed_gateway_lease_id_def honest_lease_observation_def
        allow_lease_metadata_def dict_get_def nonempty_str_def del: dumps.simps)
  have val: "validate_allow_lease_observation (allow_lease_metadata i g) (mo_normalized ?ob)
      (mo_raw_json ?ob) (mo_contract_version ?ob) = Inr (allow_lease_metadata i g)"
    using honest_lease_valid [OF assms(1,2)] by (simp add: honest_lease_observation_def del: dumps.simps)
  have get: "getitem (allow_lease_metadata i g) ''gateway_lease_id'' = Inr (PStr g)"
    by (simp add: getitem_def allow_lease_metadata_def)
  have acc: "validate_accepted_lease_identity (str_value (PStr g))
      (map_option snd (lease_by_acquire_key p (al_idempotency_key i))) = Inr g"
    using assms(2,4) by (auto simp: err_simps str_value_def)
  have rem: "remember_lease_acquire i g ?q = (Inr (), ?q\<lparr>
        lease_by_acquire_key := (lease_by_acquire_key p)(al_idempotency_key i \<mapsto> (i, g)),
        lease_by_gateway_id := (lease_by_gateway_id p)(g \<mapsto> i)\<rparr>)"
    using assms(4,5) by (auto simp: remember_lease_acquire_def bindM_def changed_intent_def changed_identity_def)
  have call: "callA (ad_lease_acquire ad i) p = (Inr ?ob, ?q)"
    using assms(3) by (simp add: callA_def)
  show ?thesis
    unfolding acquire_allow_lease_def
    by (simp add: bindM_def pre call gid val get acc rem)
qed

lemma spawn_honest:
  assumes "session_intent_ok i" "s \<noteq> []"
    "ad_session_spawn ad i (pr_adapter p) = (Inr (honest_session_observation i s), a)"
    "session_by_spawn_key p (sp_idempotency_key i) \<in> {None, Some (i, s)}"
    "session_intent_by_key p s \<in> {None, Some i}"
  shows "spawn_session ad i p =
     (Inr s, p\<lparr>pr_adapter := a,
        session_by_spawn_key := (session_by_spawn_key p)(sp_idempotency_key i \<mapsto> (i, s)),
        session_intent_by_key := (session_intent_by_key p)(s \<mapsto> i)\<rparr>)"
proof -
  let ?ob = "honest_session_observation i s" and ?q = "p\<lparr>pr_adapter := a\<rparr>"
  have pre: "preflight_session_spawn_replay i p = (Inr (), p)"
    using assms(4) by (auto simp: preflight_session_spawn_replay_def bindM_def changed_intent_def)
  obtain v where v: "validate_session_observation (session_metadata i) (mo_normalized ?ob)
      (mo_raw_json ?ob) (mo_contract_version ?ob) = Inr v"
    using honest_session_valid [OF assms(1)] by (auto simp: honest_session_observation_def simp del: dumps.simps)
  have acc: "validate_accepted_session_identity (mo_external_id ?ob) (mo_spawn_request_session_key ?ob)
      (mo_session_key ?ob) dup = Inr s" if "dup \<in> {None, Some s}" for dup
    using assms(2) that by (auto simp: err_simps honest_session_observation_def simp del: dumps.simps)
  have val: "validate_session i ?ob None = Inr s"
    using v acc by (simp add: validate_session_def)
  have dup: "map_option snd (session_by_spawn_key p (sp_idempotency_key i)) \<in> {None, Some s}"
    using assms(4) by auto
  have rem: "remember_session_spawn i s ?q = (Inr (), ?q\<lparr>
        session_by_spawn_key := (session_by_spawn_key p)(sp_idempotency_key i \<mapsto> (i, s)),
        session_intent_by_key := (session_intent_by_key p)(s \<mapsto> i)\<rparr>)"
    using assms(4,5) by (auto simp: remember_session_spawn_def bindM_def changed_intent_def changed_identity_def)
  have call: "callA (ad_session_spawn ad i) p = (Inr ?ob, ?q)"
    using assms(3) by (simp add: callA_def)
  show ?thesis
    unfolding spawn_session_def
    by (simp add: bindM_def pre call val acc [OF dup] rem)
qed

definition honest_release_observation :: "allow_lease_release_intent \<Rightarrow> metadata_observation" where
  "honest_release_observation i =
     \<lparr>mo_normalized = Some (release_metadata i),
      mo_raw_json = Some (dumps (PDict (release_metadata i))),
      mo_contract_version = Some ''v1'', mo_external_id = None,
      mo_spawn_request_session_key = None, mo_session_key = None\<rparr>"

definition release_intent_ok :: "allow_lease_release_intent \<Rightarrow> bool" where
  "release_intent_ok i \<longleftrightarrow>
     list_all (\<lambda>s. s \<noteq> []) [ar_client_lease_id i, ar_idempotency_key i, ar_run_id i, ar_phase i,
        ar_transition_id i, ar_agent_id i, ar_requester_agent_id i, ar_gateway_lease_id i]"

lemma honest_release_valid:
  assumes "release_intent_ok i"
  shows "\<exists>v. validate_allow_lease_release_observation (release_metadata i) (Some (release_metadata i))
     (Some (dumps (PDict (release_metadata i)))) (Some ''v1'') = Inr v \<and>
     map_of (str_dict v) ''gateway_lease_id'' = Some (PStr (ar_gateway_lease_id i))"
proof -
  let ?m = "release_metadata i"
  let ?e = "zip allow_lease_release_fields [ar_client_lease_id i, ar_idempotency_key i, ar_run_id i, ar_phase i,
        ar_transition_id i, ar_agent_id i, ar_requester_agent_id i, ar_gateway_lease_id i]"
  have "distinct (map fst ?m)" by (simp add: release_metadata_def)
  moreover have "kv \<in> set ?m \<Longrightarrow> plain_value (snd kv) \<and> sorted_value (snd kv) = snd kv" for kv
    by (auto simp: release_metadata_def)
  ultimately obtain d' where d': "raw_json_object (dumps (PDict ?m)) = Inr d'" "map_of d' = map_of ?m"
    using strict_read_back by blast
  have keys: "keys_are ?m allow_lease_release_fields"
    by (simp add: keys_are_def release_metadata_def allow_lease_release_fields_def)
  have e: "fields_of ?m allow_lease_release_fields ?e"
    "map_of ?m ''release_idempotency_key'' = Some (PStr (ar_idempotency_key i))"
    "legacy_agrees ?m (ar_idempotency_key i)"
    using assms by (simp_all add: fields_of_def release_metadata_def allow_lease_release_fields_def
        release_intent_ok_def legacy_agrees_def dict_get_def)
  let ?v = "release_result ?e (ar_idempotency_key i)"
  have r: "released_values ?m ?v" using e unfolding released_values_def by blast
  have r': "released_values d' ?v" using r d'(2) by (simp add: released_values_def fields_of_def legacy_agrees_def dict_get_def)
  have "validate_allow_lease_release_observation ?m (Some ?m) (Some (dumps (PDict ?m))) (Some ''v1'') = Inr ?v"
    unfolding validate_allow_lease_release_observation_iff release_values_Inr_iff released_values_def [symmetric]
    using keys r r' d'(1) by (simp del: dumps.simps)
  moreover have "map_of (str_dict ?v) ''gateway_lease_id'' = Some (PStr (ar_gateway_lease_id i))"
    by (simp add: release_result_def str_dict_def allow_lease_release_fields_def)
  ultimately show ?thesis by blast
qed

text \<open>A runtime that answers every call so, always with the same two identities.\<close>

definition echo_adapter :: "string \<Rightarrow> string \<Rightarrow> unit adapter" where
  "echo_adapter g s =
     \<lparr>ad_lease_acquire = \<lambda>i a. (Inr (honest_lease_observation i g), a),
      ad_lease_status = \<lambda>_ a. (Inl (MetadataContractError ''unknown lease''), a),
      ad_lease_release = \<lambda>i a. (Inr (honest_release_observation i), a),
      ad_session_spawn = \<lambda>i a. (Inr (honest_session_observation i s), a),
      ad_session_status = \<lambda>_ a. (Inl (MetadataContractError ''unknown session''), a),
      ad_session_list = \<lambda>i a. (Inr [honest_session_observation i s], a),
      ad_session_result = \<lambda>_ a. (Inl (MetadataContractError ''unknown session''), a)\<rparr>"

definition demo_lease :: allow_lease_intent where
  "demo_lease = \<lparr>al_client_lease_id = ''c'', al_idempotency_key = ''k'', al_run_id = ''r'',
     al_phase = ''p'', al_transition_id = ''t'', al_agent_id = ''a'', al_requester_agent_id = ''q'',
     al_ttl_ms = 60000\<rparr>"

definition demo_release :: allow_lease_release_intent where
  "demo_release = \<lparr>ar_client_lease_id = ''c'', ar_idempotency_key = ''k2'', ar_run_id = ''r'',
     ar_phase = ''p'', ar_transition_id = ''t'', ar_agent_id = ''a'', ar_requester_agent_id = ''q'',
     ar_gateway_lease_id = ''g''\<rparr>"

definition demo_session :: session_spawn_intent where
  "demo_session = \<lparr>sp_run_id = ''r'', sp_transition_id = ''t'', sp_client_request_id = ''c'',
     sp_idempotency_key = ''k'', sp_phase = ''p'', sp_agent_id = ''a'', sp_task_digest = ''d''\<rparr>"

definition demo_leased :: "unit probe" where
  "demo_leased = (new_probe ())\<lparr>lease_by_acquire_key := [''k'' \<mapsto> (demo_lease, ''g'')],
     lease_by_gateway_id := [''g'' \<mapsto> demo_lease]\<rparr>"

definition demo_spawned :: "unit probe" where
  "demo_spawned = (new_probe ())\<lparr>session_by_spawn_key := [''k'' \<mapsto> (demo_session, ''s'')],
     session_intent_by_key := [''s'' \<mapsto> demo_session]\<rparr>"

lemma demo_intents_ok: "lease_intent_ok demo_lease" "release_intent_ok demo_release" "session_intent_ok demo_session"
  by (simp_all add: lease_intent_ok_def demo_lease_def release_intent_ok_def demo_release_def
      session_intent_ok_def demo_session_def max_lease_ttl_ms_def)

lemma demo_acquire:
  "acquire_allow_lease (echo_adapter ''g'' ''s'') demo_lease (new_probe ()) = (Inr ''g'', demo_leased)"
  by (subst acquire_honest [where a = "()"])
    (simp_all add: demo_intents_ok echo_adapter_def new_probe_def demo_leased_def, simp add: demo_lease_def)

lemma demo_acquire_again:
  "acquire_allow_lease (echo_adapter ''g'' ''s'') demo_lease demo_leased = (Inr ''g'', demo_leased)"
  by (subst acquire_honest [where a = "()"])
    (simp_all add: demo_intents_ok echo_adapter_def new_probe_def demo_leased_def, simp_all add: demo_lease_def)

lemma demo_spawn:
  "spawn_session (echo_adapter ''g'' ''s'') demo_session (new_probe ()) = (Inr ''s'', demo_spawned)"
  by (subst spawn_honest [where a = "()"])
    (simp_all add: demo_intents_ok echo_adapter_def new_probe_def demo_spawned_def, simp add: demo_session_def)

lemma demo_spawn_again:
  "spawn_session (echo_adapter ''g'' ''s'') demo_session demo_spawned = (Inr ''s'', demo_spawned)"
  by (subst spawn_honest [where a = "()"])
    (simp_all add: demo_intents_ok echo_adapter_def new_probe_def demo_spawned_def, simp_all add: demo_session_def)

lemma demo_list:
  "list_session (echo_adapter ''g'' ''s'') demo_session ''s'' demo_spawned = (Inr ''s'', demo_spawned)"
proof -
  obtain v where "validate_session_observation (session_metadata demo_session) (Some (session_metadata demo_session))
     (Some (dumps (PDict (session_metadata demo_session)))) (Some ''v1'') = Inr v"
    using honest_session_valid [OF demo_intents_ok(3)] by blast
  then have v: "validate_session demo_session (honest_session_observation demo_session ''s'') (Some ''s'') = Inr ''s''"
    by (simp add: validate_session_def honest_session_observation_def err_simps del: dumps.simps)
  have "list_match demo_session ''s'' (honest_session_observation demo_session ''s'')"
    by (simp add: list_match_def honest_session_observation_def del: dumps.simps)
  then show ?thesis
    by (simp add: list_session_def bindM_def require_spawned_session_def callA_def echo_adapter_def
        demo_spawned_def new_probe_def v)
qed

lemma demo_release:
  "\<exists>p'. release_allow_lease (echo_adapter ''g'' ''s'') demo_release demo_leased = (Inr ''g'', p')"
proof -
  obtain v where v: "validate_allow_lease_release_observation (release_metadata demo_release)
      (Some (release_metadata demo_release)) (Some (dumps (PDict (release_metadata demo_release)))) (Some ''v1'') = Inr v"
      "map_of (str_dict v) ''gateway_lease_id'' = Some (PStr (ar_gateway_lease_id demo_release))"
    using honest_release_valid [OF demo_intents_ok(2)] by blast
  have o: "release_owner demo_release demo_lease" "ar_gateway_lease_id demo_release = ''g''"
    by (simp_all add: release_owner_def demo_release_def demo_lease_def)
  show ?thesis
    by (simp add: release_allow_lease_def bindM_def preflight_release_replay_def callA_def echo_adapter_def
        demo_leased_def new_probe_def changed_intent_def changed_identity_def o v getitem_def str_value_def
        honest_release_observation_def validate_accepted_lease_identity_def del: dumps.simps)
qed

lemma demo_reachable: "probe_reachable (new_probe ())"
  unfolding probe_reachable_def by (blast intro: probe_done)

lemma demo_leased_reachable: "probe_reachable demo_leased"
proof -
  have "probe_run (echo_adapter ''g'' ''s'') (AcquireLease demo_lease) (new_probe ()) = (Inr ''g'', demo_leased)"
    using demo_acquire by simp
  from probe_call [OF probe_done this, of "()"] show ?thesis
    unfolding probe_reachable_def by (intro exI [of _ "()"]) (simp add: demo_leased_def new_probe_def)
qed

subsection \<open>Properties\<close>

text \<open>
  C24: whatever calls are made in whatever order, against any adapter and with exceptions on the
  way, the probe's tables stay consistent: idempotency keys and external identities are in one to one
  correspondence, for leases and for sessions, no identity is empty, and each recorded release is
  for a lease that the same owner acquired.
\<close>

theorem probe_tables_consistent:
  assumes "probe_reachable p"
  shows "probe_ok p"
  using assms by (rule reachable_ok)

lemma probe_tables_consistent_witness: "probe_ok demo_leased"
  by (rule probe_tables_consistent) (rule demo_leased_reachable)

text \<open>
  C11: once an acquire was accepted with a lease identity, then after any further calls an acquire
  under the same idempotency key is accepted only for the same intent and with the same
  identity, and an acquire under another key only with another identity.
\<close>

theorem acquire_replay_stable:
  assumes "probe_reachable p" "acquire_allow_lease ad i p = (Inr g, p1)" "probe_steps p1 p2"
    "acquire_allow_lease ad' i' p2 = (Inr g', p3)"
  shows "if al_idempotency_key i' = al_idempotency_key i then i' = i \<and> g' = g else g' \<noteq> g"
proof -
  note r1 = acquire_records [OF assms(2) reachable_ok [OF assms(1)]]
  note r2 = probe_steps_ok [OF assms(3) r1 [THEN conjunct1]]
  note r3 = acquire_records [OF assms(4) r2 [THEN conjunct1]]
  have e: "probe_extends p1 p3" "probe_ok p3"
    using r2 r3 probe_extends_trans [of p1 p2 p3] by simp_all
  then have "lease_by_acquire_key p3 (al_idempotency_key i) = Some (i, g)"
    using r1 unfolding probe_extends_def by (auto intro: map_le_lookup)
  moreover have "lease_by_acquire_key p3 (al_idempotency_key i') = Some (i', g')"
    using r3 by simp
  moreover from e(2) have "registry_ok al_idempotency_key (lease_by_acquire_key p3) (lease_by_gateway_id p3)"
    unfolding probe_ok_def by (elim conjE)
  ultimately show ?thesis
    by (metis leases.identities_distinct option.inject prod.inject)
qed

lemma acquire_replay_stable_witness:
  "acquire_allow_lease (echo_adapter ''g'' ''s'') demo_lease demo_leased = (Inr ''g'', demo_leased) \<and>
   (if al_idempotency_key demo_lease = al_idempotency_key demo_lease
    then demo_lease = demo_lease \<and> ''g'' = ''g'' else ''g'' \<noteq> ''g'')"
  using acquire_replay_stable [OF demo_reachable demo_acquire probe_done demo_acquire_again]
    demo_acquire_again by (rule conjI [rotated])

text \<open>
  C25: the same for sessions: a replayed spawn is accepted only with the session identity of the
  first one, and two spawn requests never share a session.
\<close>

theorem spawn_replay_stable:
  assumes "probe_reachable p" "spawn_session ad i p = (Inr s, p1)" "probe_steps p1 p2"
    "spawn_session ad' i' p2 = (Inr s', p3)"
  shows "if sp_idempotency_key i' = sp_idempotency_key i then i' = i \<and> s' = s else s' \<noteq> s"
proof -
  note r1 = spawn_records [OF assms(2) reachable_ok [OF assms(1)]]
  note r2 = probe_steps_ok [OF assms(3) r1 [THEN conjunct1]]
  note r3 = spawn_records [OF assms(4) r2 [THEN conjunct1]]
  have e: "probe_extends p1 p3" "probe_ok p3"
    using r2 r3 probe_extends_trans [of p1 p2 p3] by simp_all
  then have "session_by_spawn_key p3 (sp_idempotency_key i) = Some (i, s)"
    using r1 unfolding probe_extends_def by (auto intro: map_le_lookup)
  moreover have "session_by_spawn_key p3 (sp_idempotency_key i') = Some (i', s')"
    using r3 by simp
  moreover from e(2) have "registry_ok sp_idempotency_key (session_by_spawn_key p3) (session_intent_by_key p3)"
    unfolding probe_ok_def by (elim conjE)
  ultimately show ?thesis
    by (metis sessions.identities_distinct option.inject prod.inject)
qed

lemma spawn_replay_stable_witness:
  "spawn_session (echo_adapter ''g'' ''s'') demo_session demo_spawned = (Inr ''s'', demo_spawned) \<and>
   (if sp_idempotency_key demo_session = sp_idempotency_key demo_session
    then demo_session = demo_session \<and> ''s'' = ''s'' else ''s'' \<noteq> ''s'')"
  using spawn_replay_stable [OF demo_reachable demo_spawn probe_done demo_spawn_again]
    demo_spawn_again by (rule conjI [rotated])

text \<open>The selection by index is the selection of the observations.\<close>

lemma filter_indexes: "filter P xs = map ((!) xs) (filter (\<lambda>n. P (xs ! n)) [0..<length xs])"
  using filter_map [of P "(!) xs" "[0..<length xs]"] by (simp add: map_nth comp_def)

lemma list_match_iff:
  "list_match i s ob \<longleftrightarrow> mo_session_key ob = Some s \<or> mo_external_id ob = Some s \<or>
     (\<exists>n. mo_normalized ob = Some n \<and> set (map fst n) = set session_fields \<and>
        (\<forall>f \<in> set session_fields. dict_get n f = dict_get (session_metadata i) f))"
proof -
  have "map fst (session_metadata i) = session_fields" "distinct session_fields"
    by (simp_all add: session_metadata_def session_fields_def)
  then have "list_all (\<lambda>(f, v). dict_get n f = v) (session_metadata i) \<longleftrightarrow>
      (\<forall>f \<in> set session_fields. dict_get n f = dict_get (session_metadata i) f)" for n
    by (auto simp: session_metadata_def session_fields_def dict_get_def)
  then show ?thesis using \<open>map fst (session_metadata i) = session_fields\<close>
    by (auto simp: list_match_def has_session_intent_metadata_def split: option.splits)
qed

lemma validate_session_Inr_iff:
  "validate_session i ob (Some s) = Inr k \<longleftrightarrow> k = s \<and> s \<noteq> [] \<and> mo_external_id ob = Some s \<and>
     mo_spawn_request_session_key ob = Some s \<and> mo_session_key ob = Some s \<and>
     (\<exists>vs. validate_session_observation (session_metadata i) (mo_normalized ob) (mo_raw_json ob) (mo_contract_version ob) = Inr vs)"
  by (auto simp: validate_session_def err_simps)

text \<open>
  C23: a listing returns a session exactly when it is the one asked for, that session was spawned for this
  very intent, the runtime lists exactly one observation that carries its key, as session key or as external
  identity, or the seven metadata fields of the intent and no others, and that observation is a valid one of
  the intent whose three identities are the session. The probe then changes by nothing but the answer of
  the runtime.
\<close>

theorem list_session_exactly_one:
  "list_session ad i s p = (Inr s', p') \<longleftrightarrow>
     s' = s \<and> s \<noteq> [] \<and> session_intent_by_key p s = Some i \<and>
     (\<exists>listed a ob. ad_session_list ad i (pr_adapter p) = (Inr listed, a) \<and> p' = p\<lparr>pr_adapter := a\<rparr> \<and>
        filter (\<lambda>ob. mo_session_key ob = Some s \<or> mo_external_id ob = Some s \<or>
          (\<exists>n. mo_normalized ob = Some n \<and> set (map fst n) = set session_fields \<and>
             (\<forall>f \<in> set session_fields. dict_get n f = dict_get (session_metadata i) f))) listed = [ob] \<and>
        mo_external_id ob = Some s \<and> mo_spawn_request_session_key ob = Some s \<and> mo_session_key ob = Some s \<and>
        (\<exists>vs. validate_session_observation (session_metadata i) (mo_normalized ob) (mo_raw_json ob) (mo_contract_version ob) = Inr vs))"
proof -
  let ?found = "\<lambda>listed. filter (\<lambda>n. list_match i s (listed ! n)) [0..<length listed]"
  have one: "length (?found listed) = 1 \<and> validate_session i (listed ! hd (?found listed)) (Some s) = Inr s' \<longleftrightarrow>
      (\<exists>ob. filter (list_match i s) listed = [ob] \<and> validate_session i ob (Some s) = Inr s')" for listed
    by (auto simp: filter_indexes [of "list_match i s" listed] length_Suc_conv)
  have "list_session ad i s p = (Inr s', p') \<longleftrightarrow> session_intent_by_key p s = Some i \<and>
      (\<exists>listed a. ad_session_list ad i (pr_adapter p) = (Inr listed, a) \<and> p' = p\<lparr>pr_adapter := a\<rparr> \<and>
         length (?found listed) = 1 \<and> validate_session i (listed ! hd (?found listed)) (Some s) = Inr s')"
    unfolding list_session_def require_spawned_session_def
    by (auto simp: err_simps Let_def callA_def split: prod.splits if_splits)
  then show ?thesis unfolding one unfolding validate_session_Inr_iff list_match_iff [abs_def] by blast
qed

lemma list_session_exactly_one_witness: "session_intent_by_key demo_spawned ''s'' = Some demo_session"
  using iffD1 [OF list_session_exactly_one demo_list] by blast

text \<open>
  C26: a release returns the gateway lease it names, and only if that lease was acquired by the
  same client, run, phase, transition, agent and requester; it is then recorded.
\<close>

theorem release_only_by_owner:
  assumes "release_allow_lease ad i p = (Inr g, p')"
  shows "g = ar_gateway_lease_id i \<and> release_by_key p' (ar_idempotency_key i) = Some (i, g) \<and>
    (\<exists>lease. lease_by_gateway_id p g = Some lease \<and> release_owner i lease)"
  using release_returns [OF assms] by auto

lemma release_only_by_owner_witness:
  "\<exists>lease. lease_by_gateway_id demo_leased ''g'' = Some lease \<and> release_owner demo_release lease"
  using demo_release release_only_by_owner by (elim exE) blast


text \<open>
  C27: an acquire answered by a runtime that echoes the intent's metadata, in the normalized form
  and as JSON text, is accepted and recorded, also when it is a replay.
\<close>

theorem honest_acquire_accepted:
  assumes "lease_intent_ok i" "g \<noteq> []"
    "ad_lease_acquire ad i (pr_adapter p) = (Inr (honest_lease_observation i g), a)"
    "lease_by_acquire_key p (al_idempotency_key i) \<in> {None, Some (i, g)}"
    "lease_by_gateway_id p g \<in> {None, Some i}"
  shows "acquire_allow_lease ad i p =
     (Inr g, p\<lparr>pr_adapter := a,
        lease_by_acquire_key := (lease_by_acquire_key p)(al_idempotency_key i \<mapsto> (i, g)),
        lease_by_gateway_id := (lease_by_gateway_id p)(g \<mapsto> i)\<rparr>)"
  using assms by (rule acquire_honest)

lemma honest_acquire_accepted_witness:
  "acquire_allow_lease (echo_adapter ''g'' ''s'') demo_lease (new_probe ()) =
     (Inr ''g'', (new_probe ())\<lparr>pr_adapter := (),
        lease_by_acquire_key := (lease_by_acquire_key (new_probe ()))(al_idempotency_key demo_lease \<mapsto> (demo_lease, ''g'')),
        lease_by_gateway_id := (lease_by_gateway_id (new_probe ()))(''g'' \<mapsto> demo_lease)\<rparr>)"
  by (rule honest_acquire_accepted) (simp_all add: demo_intents_ok echo_adapter_def new_probe_def)

text \<open>
  C38: an object printed as compact JSON with sorted keys is read back by the strict reader of raw
  metadata as the same object with its keys in order, at every depth; objects with floats
  or repeated keys are left out.
\<close>

theorem printed_metadata_reads_back:
  assumes "plain_value (PDict d)"
  shows "raw_json_object (dumps (PDict d)) = Inr d' \<longleftrightarrow> sorted_value (PDict d) = PDict d'"
proof -
  have "json_loads reject_duplicate_keys reject_nonstandard_constant (dumps (PDict d)) = Inr (sorted_value (PDict d))"
    using assms by (intro json_loads_dumps_hook) (auto simp: reject_duplicate_keys_def)
  moreover have "dumps (PDict d) \<noteq> []" by simp
  ultimately show ?thesis unfolding raw_json_object_Inr_iff by (auto simp del: dumps.simps)
qed

lemma printed_metadata_reads_back_witness:
  "raw_json_object (dumps (PDict [(''b'', PInt 2), (''a'', PList [PStr ''x'', PNone])]))
     = Inr [(''a'', PList [PStr ''x'', PNone]), (''b'', PInt 2)]"
  by (rule printed_metadata_reads_back [THEN iffD2]) code_simp+

end
