(* ===== verification/Privacy.thy ===== *)
theory Privacy
  imports Exceptions
begin

section \<open>Privacy preflight (\<^verbatim>\<open>privacy.py\<close>)\<close>

text \<open>
  The denylist that keeps raw database state out of packages, and the preflight that proves the
  database files private in the checked worktree. Paths are strings; what the file system and
  the two git commands answer is a record argument.
\<close>

definition preflight_paths :: "string list" where
  "preflight_paths =
     [''state/agentic-os/control.db'', ''state/agentic-os/control.db-wal'',
      ''state/agentic-os/control.db-shm'', ''state/agentic-os/control.db-journal'',
      ''state/agentic-os/backups/example.db'']"

definition raw_state_patterns :: "string list" where
  "raw_state_patterns =
     [''*.db'', ''*.db.*'', ''*.db_*'', ''*.db-wal'', ''*.db-shm'', ''*.db-journal'', ''*.db-*'', ''*.db~'',
      ''*.db.tar*'', ''*.db.backup*'', ''*.dbbackup*'', ''*.dbbak*'', ''*.dbcopy*'', ''*.db.bak*'',
      ''*.sqlite'', ''*.sqlite.*'', ''*.sqlite_*'', ''*.sqlite-*'', ''*.sqlite~'', ''*.sqlite.tar*'',
      ''*.sqlite.backup*'', ''*.sqlitebackup*'', ''*.sqlitebak*'', ''*.sqlitecopy*'', ''*.sqlite.bak*'',
      ''*.sqlite3'', ''*.sqlite3.*'', ''*.sqlite3_*'', ''*.sqlite3-*'', ''*.sqlite3~'', ''*.sqlite3.tar*'',
      ''*.sqlite3.backup*'', ''*.sqlite3backup*'', ''*.sqlite3bak*'', ''*.sqlite3copy*'', ''*.sqlite3.bak*'']"

definition compressed_state_suffixes :: "string list" where
  "compressed_state_suffixes =
     [''.tar.gz'', ''.tar.bz2'', ''.tar.xz'', ''.tar.zst'', ''.tgz'', ''.tbz'', ''.tbz2'', ''.txz'', ''.tzst'',
      ''.gz'', ''.zip'', ''.zst'', ''.xz'', ''.bz2'', ''.lz4'', ''.tar'']"

subsection \<open>Paths and patterns\<close>

text \<open>\<^verbatim>\<open>fnmatch.fnmatchcase\<close> for patterns without brackets.\<close>

fun glob :: "string \<Rightarrow> string \<Rightarrow> bool" where
  "glob [] s = (s = [])"
| "glob (c # p) [] = (c = CHR ''*'' \<and> glob p [])"
| "glob (c # p) (d # s) =
     (if c = CHR ''*'' then glob p (d # s) \<or> glob (c # p) s
      else (c = CHR ''?'' \<or> c = d) \<and> glob p s)"

text \<open>
  \<^verbatim>\<open>PurePosixPath(s).parts\<close>: the root, if any (two leading slashes are a root of their own), and the
  components that are neither empty nor a dot.
\<close>

definition path_root :: "string \<Rightarrow> string list" where
  "path_root s =
     (if starts_with s ''//'' \<and> \<not> starts_with s ''///'' then [''//'']
      else if starts_with s ''/'' then [''/''] else [])"

definition path_parts :: "string \<Rightarrow> string list" where
  "path_parts s = path_root s @ filter (\<lambda>p. p \<noteq> [] \<and> p \<noteq> ''.'') (split_on (CHR ''/'') s)"

fun strip_dot_slash :: "string \<Rightarrow> string" where
  "strip_dot_slash (a # b # s) =
     (if a = CHR ''.'' \<and> b = CHR ''/'' then strip_dot_slash s else a # b # s)"
| "strip_dot_slash s = s"

definition normalized_path :: "string \<Rightarrow> string" where
  "normalized_path path =
     strip_dot_slash (map (\<lambda>c. if c = CHR 0x5C then CHR ''/'' else c) path)"

subsection \<open>The denylist\<close>

definition compressed_suffix :: "string \<Rightarrow> string option" where
  "compressed_suffix s = find (\<lambda>suffix. ends_with s suffix \<and> s \<noteq> suffix) compressed_state_suffixes"

lemma suffixes_nonempty: "suffix \<in> set compressed_state_suffixes \<Longrightarrow> suffix \<noteq> []"
  by (auto simp: compressed_state_suffixes_def)

lemma compressed_suffix_Some:
  assumes "compressed_suffix s = Some suffix"
  shows "\<exists>t. s = t @ suffix \<and> t \<noteq> [] \<and> suffix \<noteq> [] \<and> suffix \<in> set compressed_state_suffixes"
  using find_SomeD [OF assms [unfolded compressed_suffix_def]] suffixes_nonempty [of suffix]
  by (auto simp: ends_with_iff)

function candidate_names :: "string \<Rightarrow> string list" where
  "candidate_names s =
     s # (case compressed_suffix s of None \<Rightarrow> [] | Some suffix \<Rightarrow> candidate_names (drop_suffix s suffix))"
  by pat_completeness auto
termination
  by (relation "measure length") (auto dest!: compressed_suffix_Some)

declare candidate_names.simps [simp del]

definition raw_name :: "string \<Rightarrow> bool" where
  "raw_name s \<longleftrightarrow> list_ex (\<lambda>pattern. glob pattern s) raw_state_patterns"

definition denied_name :: "string \<Rightarrow> bool" where
  "denied_name name = list_ex raw_name (candidate_names (casefold name))"

definition in_backups :: "string list \<Rightarrow> bool" where
  "in_backups parts =
     list_ex (\<lambda>i. take 3 (drop i parts) = [''state'', ''agentic-os'', ''backups'']) [0..<length parts - 2]"

definition is_raw_state_denied :: "string \<Rightarrow> bool" where
  "is_raw_state_denied path =
     (let parts = path_parts (normalized_path path)
      in list_ex denied_name parts \<or> in_backups (map casefold parts))"

definition assert_paths_retrievable :: "string list \<Rightarrow> bool \<Rightarrow> exn + unit" where
  "assert_paths_retrievable paths local_recovery =
     (if filter is_raw_state_denied paths \<noteq> [] \<and> \<not> local_recovery
      then Inl (PrivacyPreflightError ''raw database state is denied'')
      else Inr ())"

subsection \<open>The preflight\<close>

record process_result =
  returncode :: int
  stdout :: string
  stderr :: string

text \<open>
  The environment, each part of which may raise: the components of \<^verbatim>\<open>Path(p).resolve()\<close> and of
  \<^verbatim>\<open>Path(p).expanduser().resolve()\<close>, whether the root holds a \<^verbatim>\<open>.git\<close>, and what
  \<^verbatim>\<open>git ls-files -z\<close> and \<^verbatim>\<open>git check-ignore -v --\<close> answer.
\<close>

record git_env =
  env_resolve :: "string \<Rightarrow> exn + string list"
  env_expand_resolve :: "string \<Rightarrow> exn + string list"
  env_git_entry :: "string list \<Rightarrow> exn + bool"
  env_ls_files :: "exn + process_result"
  env_check_ignore :: "string list \<Rightarrow> exn + process_result"

text \<open>\<^verbatim>\<open>dict.fromkeys\<close>: the first occurrence of each.\<close>

definition unique :: "'a list \<Rightarrow> 'a list" where
  "unique xs = rev (remdups (rev xs))"

lemma set_unique [simp]: "set (unique xs) = set xs"
  by (simp add: unique_def)

text \<open>\<^verbatim>\<open>str.splitlines\<close> on code points 0..255.\<close>

definition is_line_break :: "char \<Rightarrow> bool" where
  "is_line_break c \<longleftrightarrow> (of_char c :: nat) \<in> {10, 11, 12, 13, 28, 29, 30, 133}"

fun splitlines_from :: "string \<Rightarrow> string \<Rightarrow> string list" where
  "splitlines_from line [] = (if line = [] then [] else [rev line])"
| "splitlines_from line (c # s) =
     (if c = CHR 0x0D \<and> s \<noteq> [] \<and> hd s = CHR 0x0A then rev line # splitlines_from [] (tl s)
      else if is_line_break c then rev line # splitlines_from [] s
      else splitlines_from (c # line) s)"

definition splitlines :: "string \<Rightarrow> string list" where
  "splitlines s = splitlines_from [] s"

definition relative_to :: "string list \<Rightarrow> string list \<Rightarrow> exn + string" where
  "relative_to parts root =
     (if take (length root) parts = root
      then Inr (case drop (length root) parts of [] \<Rightarrow> ''.'' | ps \<Rightarrow> join_with ''/'' ps)
      else Inl (PrivacyPreflightError ''database path is outside checked worktree''))"

definition repo_relative_paths :: "git_env \<Rightarrow> string list \<Rightarrow> string list \<Rightarrow> exn + string list" where
  "repo_relative_paths env root paths =
     bindE (mapE (\<lambda>path.
       bindE (env_expand_resolve env path) (\<lambda>resolved.
       bindE (relative_to resolved root) (\<lambda>item.
         Inr [item, item @ ''-wal'', item @ ''-shm'', item @ ''-journal'']))) paths) (\<lambda>relative.
     Inr (unique (concat relative)))"

definition matched_paths :: "string \<Rightarrow> string list" where
  "matched_paths out =
     map (\<lambda>line. strip (last (split_on (CHR 0x09) line)))
       (filter (\<lambda>line. CHR 0x09 \<in> set line) (splitlines out))"

definition git_not_executed :: "exn \<Rightarrow> exn" where
  "git_not_executed e = (if is_os_error e then PrivacyPreflightError ''cannot execute git check-ignore'' else e)"

definition git_outputs :: "git_env \<Rightarrow> string list \<Rightarrow> exn + (process_result \<times> process_result)" where
  "git_outputs env checked =
     mapErr git_not_executed
       (bindE (env_ls_files env) (\<lambda>tracked.
        bindE (env_check_ignore env checked) (\<lambda>result. Inr (tracked, result))))"

definition assert_privacy_preflight ::
    "git_env \<Rightarrow> string \<Rightarrow> string list \<Rightarrow> exn + (string list \<times> string list)" where
  "assert_privacy_preflight env repo_root database_paths =
     bindE (env_resolve env repo_root) (\<lambda>root.
     bindE (env_git_entry env root) (\<lambda>exists.
     if \<not> exists then Inl (PrivacyPreflightError ''not a Git worktree'')
     else
       bindE (repo_relative_paths env root database_paths) (\<lambda>relative.
       let checked_paths = unique (preflight_paths @ relative) in
       bindE (git_outputs env checked_paths) (\<lambda>(tracked, result).
         if returncode tracked \<noteq> 0
         then Inl (PrivacyPreflightError ''privacy preflight failed closed: cannot inspect tracked paths'')
         else if filter (\<lambda>path. path \<noteq> [] \<and> is_raw_state_denied path) (split_on (CHR 0x00) (stdout tracked)) \<noteq> []
         then Inl (PrivacyPreflightError ''privacy preflight failed closed: tracked runtime paths'')
         else if returncode result \<noteq> 0
             \<or> filter (\<lambda>path. path \<notin> set (matched_paths (stdout result))) checked_paths \<noteq> []
         then Inl (PrivacyPreflightError ''privacy preflight failed closed'')
         else if filter (\<lambda>path. \<not> is_raw_state_denied path) checked_paths \<noteq> []
         then Inl (PrivacyPreflightError ''packaging/retrieval denylist is incomplete'')
         else Inr (root, checked_paths)))))"

subsection \<open>What the patterns and the suffix loop amount to\<close>

definition literal :: "string \<Rightarrow> bool" where
  "literal l \<longleftrightarrow> list_all (\<lambda>c. c \<noteq> CHR ''*'' \<and> c \<noteq> CHR ''?'') l"

lemma glob_star: "glob (CHR ''*'' # p) s \<longleftrightarrow> (\<exists>a b. s = a @ b \<and> glob p b)"
proof (induction s)
  case (Cons d s)
  have "(\<exists>a b. d # s = a @ b \<and> glob p b) \<longleftrightarrow> glob p (d # s) \<or> (\<exists>a b. s = a @ b \<and> glob p b)"
    by (auto simp: Cons_eq_append_conv)
  with Cons show ?case by simp
qed simp

lemma glob_literal: "literal l \<Longrightarrow> glob (l @ p) s \<longleftrightarrow> (\<exists>b. s = l @ b \<and> glob p b)"
proof (induction l arbitrary: s)
  case (Cons c l)
  then show ?case by (cases s) (auto simp: literal_def)
qed simp

lemma glob_suffix: "literal l \<Longrightarrow> glob (CHR ''*'' # l) s \<longleftrightarrow> ends_with s l"
  using glob_literal [of l "[]"] by (auto simp: glob_star ends_with_iff)

lemma glob_infix: "literal l \<Longrightarrow> glob (CHR ''*'' # l @ ''*'') s \<longleftrightarrow> contains l s"
proof -
  assume "literal l"
  moreover have "glob ''*'' b" for b :: string by (simp add: glob_star exI [of _ b])
  ultimately show ?thesis by (auto simp: glob_star glob_literal contains_iff)
qed

text \<open>The patterns that end in a star, and those that do not, without their stars.\<close>

definition open_patterns :: "string list" where
  "open_patterns =
     [''.db.'', ''.db_'', ''.db-'', ''.db.tar'', ''.db.backup'', ''.dbbackup'', ''.dbbak'', ''.dbcopy'', ''.db.bak'',
      ''.sqlite.'', ''.sqlite_'', ''.sqlite-'', ''.sqlite.tar'', ''.sqlite.backup'', ''.sqlitebackup'', ''.sqlitebak'',
      ''.sqlitecopy'', ''.sqlite.bak'', ''.sqlite3.'', ''.sqlite3_'', ''.sqlite3-'', ''.sqlite3.tar'',
      ''.sqlite3.backup'', ''.sqlite3backup'', ''.sqlite3bak'', ''.sqlite3copy'', ''.sqlite3.bak'']"

definition closed_patterns :: "string list" where
  "closed_patterns =
     [''.db'', ''.db-wal'', ''.db-shm'', ''.db-journal'', ''.db~'', ''.sqlite'', ''.sqlite~'', ''.sqlite3'', ''.sqlite3~'']"

lemma patterns_split:
  "set raw_state_patterns = (\<lambda>l. CHR ''*'' # l @ ''*'') ` set open_patterns \<union> (\<lambda>l. CHR ''*'' # l) ` set closed_patterns"
  unfolding raw_state_patterns_def open_patterns_def closed_patterns_def by (simp add: insert_commute)

lemma patterns_literal: "list_all literal (open_patterns @ closed_patterns)"
  by (simp add: open_patterns_def closed_patterns_def literal_def)

lemma raw_name_iff:
  "raw_name s \<longleftrightarrow> (\<exists>l\<in>set open_patterns. contains l s) \<or> (\<exists>l\<in>set closed_patterns. ends_with s l)"
proof -
  have "raw_name s \<longleftrightarrow> (\<exists>p\<in>set raw_state_patterns. glob p s)"
    by (simp add: raw_name_def list_ex_iff)
  moreover have "l \<in> set open_patterns \<Longrightarrow> literal l" "l \<in> set closed_patterns \<Longrightarrow> literal l" for l
    using patterns_literal by (auto simp: list_all_iff)
  ultimately show ?thesis by (simp add: patterns_split bex_Un glob_suffix glob_infix)
qed

lemma contains_append: "contains l s \<Longrightarrow> contains l (s @ t)"
  unfolding contains_iff by (metis append_assoc)

lemma closed_grow:
  "list_all (\<lambda>l. list_ex (\<lambda>open. contains open (l @ ''.'')) open_patterns \<or> ends_with l ''~'') closed_patterns"
  by (simp add: open_patterns_def closed_patterns_def starts_with_def ends_with_def)

lemma raw_name_grows:
  assumes "raw_name s"
  shows "raw_name (s @ CHR ''.'' # t) \<or> ends_with s ''~''"
proof -
  consider l where "l \<in> set open_patterns" "contains l s" | l where "l \<in> set closed_patterns" "ends_with s l"
    using assms raw_name_iff by blast
  then show ?thesis
  proof cases
    case 1
    then show ?thesis using contains_append raw_name_iff by blast
  next
    case 2
    then obtain a where s: "s = a @ l" by (auto simp: ends_with_iff)
    from 2 closed_grow consider "open" where "open \<in> set open_patterns" "contains open (l @ ''.'')" | "ends_with l ''~''"
      by (auto simp: list_all_iff list_ex_iff)
    then show ?thesis
    proof cases
      case 1
      then obtain b c where "l @ ''.'' = b @ open @ c" by (auto simp: contains_iff)
      then have "s @ CHR ''.'' # t = (a @ b) @ open @ (c @ t)"
        using s by (metis append.assoc append_Cons append_Nil)
      then show ?thesis using 1(1) raw_name_iff contains_iff by blast
    qed (auto simp: s ends_with_iff)
  qed
qed

lemma suffix_overlap:
  "list_all (\<lambda>p. list_all (\<lambda>q. ends_with q p \<longrightarrow> q = p \<or> drop_suffix q p = ''.tar'') compressed_state_suffixes)
     compressed_state_suffixes"
  by (simp add: compressed_state_suffixes_def ends_with_def drop_suffix_def)

lemma suffix_overlapD:
  assumes "p \<in> set compressed_state_suffixes" "d @ p \<in> set compressed_state_suffixes"
  shows "d = [] \<or> d = ''.tar''"
proof -
  have "ends_with (d @ p) p" by (auto simp: ends_with_iff)
  then have "d @ p = p \<or> drop_suffix (d @ p) p = ''.tar''"
    using suffix_overlap assms unfolding list_all_iff by blast
  then show ?thesis by simp
qed

lemma tar_suffix: "''.tar'' \<in> set compressed_state_suffixes"
  by (simp add: compressed_state_suffixes_def)

lemma chain_realign:
  assumes "set chain \<subseteq> set compressed_state_suffixes" "q \<in> set compressed_state_suffixes" "concat chain = w @ q"
  shows "\<exists>chain'. w = concat chain' \<and> set chain' \<subseteq> set compressed_state_suffixes"
  using assms
proof (induction chain arbitrary: w q rule: rev_induct)
  case Nil
  then show ?case using suffixes_nonempty by auto
next
  case (snoc p chain)
  then have eq: "concat chain @ p = w @ q" and p: "p \<in> set compressed_state_suffixes" by auto
  then obtain d where "concat chain = w @ d \<and> q = d @ p \<or> w = concat chain @ d \<and> p = d @ q"
    by (metis append_eq_append_conv2)
  then show ?case
  proof
    assume d: "concat chain = w @ d \<and> q = d @ p"
    then have "d = [] \<or> d = ''.tar''" using suffix_overlapD [OF p] snoc.prems(2) by blast
    then show ?thesis
    proof
      assume "d = []"
      then show ?thesis using d snoc.prems(1) by (intro exI [of _ chain]) auto
    next
      assume "d = ''.tar''"
      then show ?thesis using d snoc.IH [of "''.tar''" w] snoc.prems(1) tar_suffix by auto
    qed
  next
    assume d: "w = concat chain @ d \<and> p = d @ q"
    then have "d = [] \<or> d = ''.tar''" using suffix_overlapD [OF snoc.prems(2)] p by blast
    then show ?thesis using d snoc.prems(1) tar_suffix
      by (intro exI [of _ "if d = [] then chain else chain @ [d]"]) auto
  qed
qed

lemma no_tilde: "q \<in> set compressed_state_suffixes \<Longrightarrow> CHR ''~'' \<notin> set q"
  by (auto simp: compressed_state_suffixes_def)

lemma set_candidates:
  "c \<in> set (candidate_names s) \<longleftrightarrow>
     c = s \<or> (\<exists>q. compressed_suffix s = Some q \<and> c \<in> set (candidate_names (drop_suffix s q)))"
  using arg_cong [OF candidate_names.simps [of s], of set] by (auto split: option.splits)

lemma candidates_reach:
  assumes "ends_with c ''~''" "set chain \<subseteq> set compressed_state_suffixes" "c @ concat chain = s"
  shows "c \<in> set (candidate_names s)"
  using assms(2,3)
proof (induction s arbitrary: chain rule: candidate_names.induct)
  case (1 s)
  show ?case
  proof (cases "concat chain = []")
    case True
    then have "c = s" using "1.prems"(2) by (metis append_Nil2)
    then show ?thesis using set_candidates by blast
  next
    case False
    then obtain chain0 p where chain: "chain = chain0 @ [p]" "p \<in> set compressed_state_suffixes"
      using "1.prems"(1) by (cases chain rule: rev_cases) auto
    have "c \<noteq> []" using assms(1) by (auto simp: ends_with_def)
    then have "ends_with s p \<and> s \<noteq> p" using "1.prems"(2) chain by (auto simp: ends_with_iff)
    then obtain q where q: "compressed_suffix s = Some q"
      using chain(2) unfolding compressed_suffix_def by (metis (mono_tags, lifting) find_None_iff not_Some_eq)
    then obtain t where t: "s = t @ q" "q \<in> set compressed_state_suffixes"
      using compressed_suffix_Some by blast
    then have "c @ concat chain = t @ q" using "1.prems"(2) by simp
    then obtain d where "c = t @ d \<and> q = d @ concat chain \<or> t = c @ d \<and> concat chain = d @ q"
      by (metis append_eq_append_conv2)
    moreover have "d = []" if "c = t @ d" "q = d @ concat chain"
    proof (rule ccontr)
      assume "d \<noteq> []"
      moreover obtain b where "c = b @ ''~''" using assms(1) by (auto simp: ends_with_iff)
      ultimately have "CHR ''~'' \<in> set d" using that(1) by (metis append_butlast_last_id last_appendR last_in_set last_snoc)
      then show False using no_tilde [OF t(2)] that(2) by simp
    qed
    ultimately obtain d where d: "t = c @ d" "concat chain = d @ q" by fastforce
    then obtain chain' where "d = concat chain'" "set chain' \<subseteq> set compressed_state_suffixes"
      using chain_realign [OF "1.prems"(1) t(2) d(2)] by blast
    moreover have "drop_suffix s q = t" using t(1) by simp
    ultimately have "c \<in> set (candidate_names t)"
      using "1.IH" [OF q, of chain'] d(1) by simp
    then show ?thesis using q t set_candidates [of c s] by simp
  qed
qed

lemma candidates_chain:
  "c \<in> set (candidate_names s) \<Longrightarrow> \<exists>chain. s = c @ concat chain \<and> set chain \<subseteq> set compressed_state_suffixes"
proof (induction s rule: candidate_names.induct)
  case (1 s)
  show ?case
  proof (cases "c = s")
    case True
    then show ?thesis by (intro exI [of _ "[]"]) simp
  next
    case False
    with "1.prems" obtain q where q: "compressed_suffix s = Some q" "c \<in> set (candidate_names (drop_suffix s q))"
      using set_candidates by blast
    then obtain chain where "drop_suffix s q = c @ concat chain" "set chain \<subseteq> set compressed_state_suffixes"
      using "1.IH" by blast
    moreover obtain t where "s = t @ q" "q \<in> set compressed_state_suffixes" using compressed_suffix_Some [OF q(1)] by blast
    ultimately show ?thesis by (intro exI [of _ "chain @ [q]"]) auto
  qed
qed

lemma suffix_dot: "q \<in> set compressed_state_suffixes \<Longrightarrow> \<exists>t. q = CHR ''.'' # t"
  by (auto simp: compressed_state_suffixes_def)

lemma casefold_suffix: "q \<in> set compressed_state_suffixes \<Longrightarrow> casefold q = q"
  by (auto simp: compressed_state_suffixes_def casefold_def fold_char_def)

lemma casefold_append: "casefold (a @ b) = casefold a @ casefold b"
  by (simp add: casefold_def)

lemma candidate_self: "s \<in> set (candidate_names s)"
  using set_candidates by blast

lemma denied_name_compressed:
  assumes "denied_name n" "q \<in> set compressed_state_suffixes"
  shows "denied_name (n @ q)"
proof -
  obtain c where c: "c \<in> set (candidate_names (casefold n))" "raw_name c"
    using assms(1) by (auto simp: denied_name_def list_ex_iff)
  then obtain chain where chain: "casefold n = c @ concat chain" "set chain \<subseteq> set compressed_state_suffixes"
    using candidates_chain by blast
  have e: "casefold (n @ q) = c @ concat (chain @ [q])"
    using chain assms(2) by (simp add: casefold_append casefold_suffix)
  obtain t where "concat (chain @ [q]) = CHR ''.'' # t"
    using chain(2) assms(2) suffix_dot by (cases chain) fastforce+
  then have "raw_name (casefold (n @ q)) \<or> ends_with c ''~''"
    using raw_name_grows [OF c(2)] e by metis
  then show ?thesis
  proof
    assume "raw_name (casefold (n @ q))"
    then show ?thesis using candidate_self by (auto simp: denied_name_def list_ex_iff)
  next
    assume "ends_with c ''~''"
    then have "c \<in> set (candidate_names (casefold (n @ q)))"
      using candidates_reach [of c "chain @ [q]"] chain(2) assms(2) e by auto
    then show ?thesis using c(2) by (auto simp: denied_name_def list_ex_iff)
  qed
qed


lemma split_on_append: "split_on sep (x @ sep # y) = split_on sep x @ split_on sep y"
  by (induction x) (auto split: list.splits)

lemma split_on_single: "sep \<notin> set n \<Longrightarrow> split_on sep n = [n]"
  by (induction n) auto

lemma strip_dot_slash_keeps:
  assumes "CHR ''/'' \<notin> set n"
  shows "strip_dot_slash (d @ CHR ''/'' # n) = n \<or> (\<exists>x. strip_dot_slash (d @ CHR ''/'' # n) = x @ CHR ''/'' # n)"
proof (induction d rule: strip_dot_slash.induct)
  fix v
  have "strip_dot_slash n = n" using assms by (induction n rule: strip_dot_slash.induct) auto
  then have "strip_dot_slash ([v] @ CHR ''/'' # n) = n \<or> strip_dot_slash ([v] @ CHR ''/'' # n) = [v] @ CHR ''/'' # n"
    by auto
  then show "strip_dot_slash ([v] @ CHR ''/'' # n) = n \<or> (\<exists>x. strip_dot_slash ([v] @ CHR ''/'' # n) = x @ CHR ''/'' # n)"
    by metis
next
  have "strip_dot_slash (CHR ''/'' # n) = [] @ CHR ''/'' # n" by (cases n) auto
  then show "strip_dot_slash ([] @ CHR ''/'' # n) = n \<or> (\<exists>x. strip_dot_slash ([] @ CHR ''/'' # n) = x @ CHR ''/'' # n)"
    by (metis append_Nil)
qed auto

lemma last_component:
  assumes "CHR ''/'' \<notin> set n" "CHR 0x5C \<notin> set n" "n \<noteq> []" "n \<noteq> ''.''"
  shows "n \<in> set (path_parts (normalized_path (dir @ CHR ''/'' # n)))"
    and "n \<in> set (path_parts (normalized_path n))"
proof -
  let ?m = "\<lambda>c. if c = CHR 0x5C then CHR ''/'' else c"
  have n: "map ?m n = n" using assms(2) by (intro map_idI) auto
  have "strip_dot_slash n = n" using assms(1) by (induction n rule: strip_dot_slash.induct) auto
  then have self: "normalized_path n = n" by (simp add: normalized_path_def n)
  have split: "n \<in> set (split_on (CHR ''/'') s)" if "s = n \<or> (\<exists>x. s = x @ CHR ''/'' # n)" for s
    using that assms(1) by (auto simp: split_on_append split_on_single)
  have "normalized_path (dir @ CHR ''/'' # n) = strip_dot_slash (map ?m dir @ CHR ''/'' # n)"
    by (simp add: normalized_path_def n)
  then have "n \<in> set (split_on (CHR ''/'') (normalized_path (dir @ CHR ''/'' # n)))"
    using split strip_dot_slash_keeps [OF assms(1)] by simp
  then show "n \<in> set (path_parts (normalized_path (dir @ CHR ''/'' # n)))"
    using assms by (simp add: path_parts_def)
  show "n \<in> set (path_parts (normalized_path n))"
    using assms split [of n] by (simp add: path_parts_def self)
qed

lemma denied_component: "n \<in> set (path_parts (normalized_path path)) \<Longrightarrow> denied_name n \<Longrightarrow> is_raw_state_denied path"
  by (auto simp: is_raw_state_denied_def Let_def list_ex_iff)

lemma denied_names_nonempty: "denied_name n \<Longrightarrow> n \<noteq> [] \<and> n \<noteq> ''.''"
proof -
  have "\<not> denied_name []" "\<not> denied_name ''.''" by code_simp+
  then show "denied_name n \<Longrightarrow> n \<noteq> [] \<and> n \<noteq> ''.''" by metis
qed

lemma raw_extension:
  assumes "ext \<in> {''.db'', ''.sqlite'', ''.sqlite3''}"
    "rest = [] \<or> hd rest \<in> {CHR ''.'', CHR ''_'', CHR ''-''}"
  shows "raw_name (stem @ ext @ rest)"
proof (cases rest)
  case Nil
  have "ext \<in> set closed_patterns" using assms(1) by (auto simp: closed_patterns_def)
  moreover have "ends_with (stem @ ext) ext" by (auto simp: ends_with_iff)
  ultimately show ?thesis using Nil raw_name_iff by auto
next
  case (Cons c cs)
  have "list_all (\<lambda>e. list_all (\<lambda>c. list_ex (\<lambda>p. p = e @ [c]) open_patterns) ''._-'') [''.db'', ''.sqlite'', ''.sqlite3'']"
    by code_simp
  then have "ext @ [c] \<in> set open_patterns" using assms Cons by (auto simp: list_ex_iff)
  moreover have "stem @ ext @ rest = stem @ (ext @ [c]) @ cs" using Cons by simp
  then have "contains (ext @ [c]) (stem @ ext @ rest)" unfolding contains_iff by blast
  ultimately show ?thesis using raw_name_iff by blast
qed


lemma casefold_chain: "set chain \<subseteq> set compressed_state_suffixes \<Longrightarrow> casefold (concat chain) = concat chain"
  by (induction chain) (auto simp: casefold_append casefold_suffix, simp add: casefold_def)

lemma denied_name_chain:
  "denied_name n \<Longrightarrow> set chain \<subseteq> set compressed_state_suffixes \<Longrightarrow> denied_name (n @ concat chain)"
proof (induction chain rule: rev_induct)
  case (snoc q chain)
  then have "denied_name ((n @ concat chain) @ q)" using denied_name_compressed by (metis le_sup_iff list.set_intros(1) set_append subsetD)
  then show ?case by simp
qed simp

lemma suffix_plain: "q \<in> set compressed_state_suffixes \<Longrightarrow> CHR ''/'' \<notin> set q \<and> CHR 0x5C \<notin> set q"
  by (auto simp: compressed_state_suffixes_def)

subsection \<open>Properties\<close>

text \<open>
  A file whose name is, up to letter case, anything followed by \<^verbatim>\<open>.db\<close>, \<^verbatim>\<open>.sqlite\<close> or
  \<^verbatim>\<open>.sqlite3\<close> and then nothing, or a dot, an underscore or a dash and anything, is denied in every
  directory: the database, its journals, its backups and their archives.
\<close>

theorem database_names_denied:
  assumes "casefold n = stem @ ext @ rest" "ext \<in> {''.db'', ''.sqlite'', ''.sqlite3''}"
    "rest = [] \<or> hd rest \<in> {CHR ''.'', CHR ''_'', CHR ''-''}"
    "CHR ''/'' \<notin> set n" "CHR 0x5C \<notin> set n"
  shows "is_raw_state_denied (dir @ CHR ''/'' # n) \<and> is_raw_state_denied n"
proof -
  have "raw_name (casefold n)" using raw_extension assms(1-3) by metis
  then have d: "denied_name n" using candidate_self by (auto simp: denied_name_def list_ex_iff)
  with last_component [OF assms(4,5)] denied_names_nonempty [OF d] show ?thesis
    using denied_component by blast
qed

lemma database_names_denied_witness:
  "is_raw_state_denied (''exports'' @ CHR ''/'' # ''Control.DB-wal.gz'') \<and> is_raw_state_denied ''Control.DB-wal.gz''"
  by (rule database_names_denied [where stem = "''control''" and ext = "''.db''" and rest = "''-wal.gz''"])
    (simp_all, code_simp)

text \<open>
  C30: packing does not hide raw state: if a file name is denied, it is still denied after any
  number of archive and compression suffixes, in whatever directory the result is put.
\<close>

theorem compressed_names_denied:
  assumes "denied_name n" "CHR ''/'' \<notin> set n" "CHR 0x5C \<notin> set n"
    "set chain \<subseteq> set compressed_state_suffixes"
  shows "is_raw_state_denied (dir @ CHR ''/'' # n @ concat chain)"
proof -
  let ?n = "n @ concat chain"
  have d: "denied_name ?n" using assms(1,4) by (rule denied_name_chain)
  have "CHR ''/'' \<notin> set ?n" "CHR 0x5C \<notin> set ?n" using assms suffix_plain by auto
  with last_component(1) denied_names_nonempty [OF d] denied_component d show ?thesis by blast
qed

lemma compressed_names_denied_witness:
  "is_raw_state_denied (''out'' @ CHR ''/'' # ''control.db~'' @ concat [''.tar'', ''.gz'', ''.zip''])"
proof (rule compressed_names_denied)
  show "denied_name ''control.db~''" by code_simp
qed (simp_all add: compressed_state_suffixes_def)


lemma repo_relative_paths_cover:
  assumes "repo_relative_paths env root paths = Inr relative" "p \<in> set paths"
  shows "\<exists>resolved item. env_expand_resolve env p = Inr resolved \<and> relative_to resolved root = Inr item \<and>
    {item, item @ ''-wal'', item @ ''-shm'', item @ ''-journal''} \<subseteq> set relative"
proof -
  from assms(1) obtain xs where xs: "list_all2 (\<lambda>p y. \<exists>resolved. env_expand_resolve env p = Inr resolved \<and>
      (\<exists>item. relative_to resolved root = Inr item \<and>
      [item, item @ ''-wal'', item @ ''-shm'', item @ ''-journal''] = y)) paths xs" "set relative = set (concat xs)"
    by (auto simp: repo_relative_paths_def err_simps)
  then obtain y resolved item where "y \<in> set xs" "env_expand_resolve env p = Inr resolved" "relative_to resolved root = Inr item"
      "[item, item @ ''-wal'', item @ ''-shm'', item @ ''-journal''] = y"
    using assms(2) by (auto simp: in_set_conv_nth list_all2_conv_all_nth) metis
  then show ?thesis using xs(2) by (intro exI [of _ resolved] exI [of _ item]) (auto intro: bexI [of _ y])
qed

text \<open>
  C32: a preflight that returns has proved every checked path private: the fixed paths and each
  database file with its three sidecars are checked, git ignores each of them, packaging refuses
  each of them, and no path tracked by git is raw state.
\<close>

theorem preflight_proves_private:
  assumes "assert_privacy_preflight env repo_root dbs = Inr (root, checked)"
  shows "env_resolve env repo_root = Inr root \<and> env_git_entry env root = Inr True \<and> set preflight_paths \<subseteq> set checked \<and>
    list_all (\<lambda>db. \<exists>resolved item. env_expand_resolve env db = Inr resolved \<and> relative_to resolved root = Inr item \<and>
      {item, item @ ''-wal'', item @ ''-shm'', item @ ''-journal''} \<subseteq> set checked) dbs \<and>
    (\<exists>tracked result. env_ls_files env = Inr tracked \<and> env_check_ignore env checked = Inr result \<and>
      returncode tracked = 0 \<and> returncode result = 0 \<and>
      set checked \<subseteq> set (matched_paths (stdout result)) \<and>
      list_all (\<lambda>path. path = [] \<or> \<not> is_raw_state_denied path) (split_on (CHR 0x00) (stdout tracked))) \<and>
    list_all (\<lambda>path. assert_paths_retrievable [path] False \<noteq> Inr ()) checked"
proof -
  from assms obtain relative tracked result where r0: "env_resolve env repo_root = Inr root" "env_git_entry env root = Inr True"
    and r: "repo_relative_paths env root dbs = Inr relative"
      "checked = unique (preflight_paths @ relative)" "git_outputs env checked = Inr (tracked, result)"
    and ok: "returncode tracked = 0"
      "filter (\<lambda>path. path \<noteq> [] \<and> is_raw_state_denied path) (split_on (CHR 0x00) (stdout tracked)) = []"
      "returncode result = 0" "filter (\<lambda>path. path \<notin> set (matched_paths (stdout result))) checked = []"
      "filter (\<lambda>path. \<not> is_raw_state_denied path) checked = []"
    unfolding assert_privacy_preflight_def Let_def
    by (auto simp: err_simps)
  have git: "env_ls_files env = Inr tracked" "env_check_ignore env checked = Inr result"
    using r(3) by (auto simp: git_outputs_def err_simps)
  have "set relative \<subseteq> set checked" "set preflight_paths \<subseteq> set checked" using r(2) by auto
  moreover have "list_all (\<lambda>db. \<exists>resolved item. env_expand_resolve env db = Inr resolved \<and> relative_to resolved root = Inr item \<and>
      {item, item @ ''-wal'', item @ ''-shm'', item @ ''-journal''} \<subseteq> set checked) dbs"
    using repo_relative_paths_cover [OF r(1)] \<open>set relative \<subseteq> set checked\<close>
    unfolding list_all_iff by (meson order_trans)
  ultimately show ?thesis
    using git ok r0 by (auto simp: filter_empty_conv list_all_iff assert_paths_retrievable_def)
qed

text \<open>A worktree whose git ignores everything it is asked about.\<close>

definition demo_git_env :: git_env where
  "demo_git_env = \<lparr>env_resolve = (\<lambda>p. Inr (split_on (CHR ''/'') p)),
     env_expand_resolve = (\<lambda>p. Inr (split_on (CHR ''/'') p)), env_git_entry = (\<lambda>_. Inr True),
     env_ls_files = Inr \<lparr>returncode = 0, stdout = ''LICENSE'' @ [CHR 0x00], stderr = []\<rparr>,
     env_check_ignore = (\<lambda>paths. Inr \<lparr>returncode = 0,
        stdout = concat (map (\<lambda>p. [CHR 0x09] @ p @ [CHR 0x0A]) paths), stderr = []\<rparr>)\<rparr>"

lemma demo_preflight:
  "assert_privacy_preflight demo_git_env ''w'' [''w/my.db'']
     = Inr ([''w''], preflight_paths @ [''my.db'', ''my.db-wal'', ''my.db-shm'', ''my.db-journal''])"
  by code_simp

lemma preflight_proves_private_witness:
  "list_all (\<lambda>path. assert_paths_retrievable [path] False \<noteq> Inr ())
     (preflight_paths @ [''my.db'', ''my.db-wal'', ''my.db-shm'', ''my.db-journal''])"
  using preflight_proves_private [OF demo_preflight] by blast

end
