(* ===== verification/Credentials.thy ===== *)
theory Credentials
  imports Privacy
begin

section \<open>Credential names and git reference names (\<^verbatim>\<open>predicates.py\<close>)\<close>

text \<open>
  The name filters of the predicate evaluator: which evidence names and paths may hold
  credentials, and which texts are valid git reference names. All are pure string functions; a
  regular expression of the source is the function that computes it.
\<close>

definition credential_file_names :: "string list" where
  "credential_file_names =
     [''.aws'', ''.azure'', ''.docker'', ''.env'', ''.envrc'', ''.git'', ''.gcloud'', ''.gnupg'', ''.kube'', ''.netrc'',
      ''.ssh'', ''.npmrc'', ''.pypirc'', ''credentials'', ''id_dsa'', ''id_ecdsa'', ''id_ed25519'', ''id_rsa'',
      ''known_hosts'']"

definition credential_name_tokens :: "string list" where
  "credential_name_tokens =
     [''credential'', ''credentials'', ''passwd'', ''password'', ''passwords'', ''private'', ''secret'', ''secrets'',
      ''token'', ''tokens'']"

definition credential_file_suffixes :: "string list" where
  "credential_file_suffixes = [''.env'', ''.pem'', ''.key'', ''.p12'', ''.pfx'']"

definition credential_backup_suffixes :: "string list" where
  "credential_backup_suffixes =
     [''.bak'', ''.backup'', ''.copy'', ''.old'', ''.orig'', ''.tmp'', ''.swp'', ''_bak'', ''_backup'', ''-backup'',
      '' backup'', ''~'']"

subsection \<open>Tokens\<close>

definition is_alnum :: "char \<Rightarrow> bool" where
  "is_alnum c \<longleftrightarrow> (let n = (of_char c :: nat) in (97 \<le> n \<and> n \<le> 122) \<or> (48 \<le> n \<and> n \<le> 57))"

text \<open>\<^verbatim>\<open>re.split(r"[^a-z0-9]+", s)\<close> and \<^verbatim>\<open>re.sub(r"[^a-z0-9]+", "", s)\<close>.\<close>

function split_tokens :: "string \<Rightarrow> string list" where
  "split_tokens s =
     takeWhile is_alnum s #
       (case dropWhile is_alnum s of
          [] \<Rightarrow> []
        | _ # rest \<Rightarrow> split_tokens (dropWhile (\<lambda>c. \<not> is_alnum c) rest))"
  by pat_completeness auto
termination
proof (relation "measure length", simp)
  fix s c rest
  assume "dropWhile is_alnum s = c # rest"
  then have "length rest < length s"
    using length_dropWhile_le [of is_alnum s] by simp
  then show "(dropWhile (\<lambda>c. \<not> is_alnum c) rest, s) \<in> measure length"
    using length_dropWhile_le [of "\<lambda>c. \<not> is_alnum c" rest] by simp
qed

declare split_tokens.simps [simp del]

definition compact_text :: "string \<Rightarrow> string" where
  "compact_text s = filter is_alnum s"

subsection \<open>Credential paths\<close>

definition backup_suffix :: "string \<Rightarrow> string option" where
  "backup_suffix s = find (\<lambda>suffix. ends_with s suffix \<and> length s > length suffix) credential_backup_suffixes"

lemma backup_suffix_Some:
  assumes "backup_suffix s = Some suffix"
  shows "\<exists>t. s = t @ suffix \<and> t \<noteq> [] \<and> suffix \<noteq> [] \<and> suffix \<in> set credential_backup_suffixes"
proof -
  have s: "ends_with s suffix" "length s > length suffix" "suffix \<in> set credential_backup_suffixes"
    using find_SomeD [OF assms [unfolded backup_suffix_def]] by simp_all
  obtain t where t: "s = t @ suffix" using s(1) by (auto simp: ends_with_iff)
  have "[] \<notin> set credential_backup_suffixes" by (simp add: credential_backup_suffixes_def)
  then have "suffix \<noteq> []" using s(3) by metis
  moreover have "t \<noteq> []" using s(2) t by auto
  ultimately show ?thesis using s(3) t by blast
qed

function credential_name_variants :: "string \<Rightarrow> string list" where
  "credential_name_variants part =
     part # (case backup_suffix part of
               None \<Rightarrow> []
             | Some suffix \<Rightarrow> credential_name_variants (drop_suffix part suffix))"
  by pat_completeness auto
termination
  by (relation "measure length") (auto dest!: backup_suffix_Some)

declare credential_name_variants.simps [simp del]

definition credential_candidate :: "string \<Rightarrow> bool" where
  "credential_candidate candidate =
     (let stem = takeWhile (\<lambda>c. c \<noteq> CHR ''.'') candidate;
          tokenized = set (split_tokens candidate);
          compact = compact_text candidate
      in candidate \<in> set credential_file_names \<or> stem \<in> set credential_file_names \<or>
         list_ex (\<lambda>name. starts_with name ''.'' \<and> starts_with candidate (name @ ''.'')) credential_file_names \<or>
         (starts_with candidate ''.env'' \<and>
            (length candidate = 4 \<or> candidate ! 4 \<in> set ''._- ~'')) \<or>
         list_ex (\<lambda>t. t \<in> tokenized) credential_name_tokens \<or>
         list_ex (\<lambda>t. contains t compact)
           [''apikey'', ''credential'', ''passwd'', ''password'', ''private'', ''secret'', ''token''] \<or>
         (''api'' \<in> tokenized \<and> ''key'' \<in> tokenized) \<or>
         list_ex (ends_with candidate) credential_file_suffixes)"

definition slash_path :: "string \<Rightarrow> string" where
  "slash_path path = map (\<lambda>c. if c = CHR 0x5C then CHR ''/'' else c) path"

definition is_credential_path_denied :: "string \<Rightarrow> bool" where
  "is_credential_path_denied relative =
     (let parts = map casefold (path_parts (slash_path relative));
          path_text = join_with ''/'' parts;
          path_tokens = set (split_tokens path_text);
          path_compact = compact_text path_text
      in (''api'' \<in> path_tokens \<and> ''key'' \<in> path_tokens) \<or> contains ''apikey'' path_compact \<or>
         list_ex (\<lambda>part. list_ex credential_candidate (credential_name_variants part)) parts)"

subsection \<open>Git reference names\<close>

definition is_git_control_char :: "char \<Rightarrow> bool" where
  "is_git_control_char c \<longleftrightarrow> (let n = (of_char c :: nat) in n < 32 \<or> n = 127)"

definition bad_ref_part :: "string \<Rightarrow> bool" where
  "bad_ref_part part \<longleftrightarrow>
     part = [] \<or> part = ''.'' \<or> ends_with part ''.lock'' \<or> starts_with part ''.'' \<or>
     ends_with part ''.'' \<or> contains ''//'' part"

definition is_valid_git_ref_name :: "string \<Rightarrow> bool" where
  "is_valid_git_ref_name ref_name =
     (if \<not> starts_with ref_name ''refs/'' \<or> contains ''//'' ref_name \<or> contains ''..'' ref_name \<or>
         ends_with ref_name ''/'' \<or> ends_with ref_name ''.'' \<or> ends_with ref_name ''.lock'' \<or>
         starts_with ref_name ''/'' \<or> list_ex is_git_control_char ref_name \<or>
         list_ex (\<lambda>c. c \<in> set ref_name) (CHR 0x5C # '' ~^:?*['') \<or>
         contains [CHR ''@'', CHR 0x7B] ref_name
      then False
      else if path_root ref_name \<noteq> [] \<or> ''..'' \<in> set (path_parts ref_name) then False
      else \<not> list_ex bad_ref_part (path_parts ref_name))"

end
