(* ===== verification/Sha256.thy ===== *)
theory Sha256
  imports PyValue "HOL-Library.Word"
begin

section \<open>SHA-256\<close>

text \<open>
  \<^verbatim>\<open>hashlib.sha256(data).hexdigest()\<close>, as FIPS 180-4 defines it, on byte strings (a Latin-1
  character is its byte), and the UTF-8 encoding of the code points 0..255.
\<close>

unbundle bit_operations_syntax

definition rotr :: "nat \<Rightarrow> 32 word \<Rightarrow> 32 word" where
  "rotr n x = drop_bit n x OR push_bit (32 - n) x"

definition big_sigma0 :: "32 word \<Rightarrow> 32 word" where
  "big_sigma0 x = rotr 2 x XOR rotr 13 x XOR rotr 22 x"

definition big_sigma1 :: "32 word \<Rightarrow> 32 word" where
  "big_sigma1 x = rotr 6 x XOR rotr 11 x XOR rotr 25 x"

definition small_sigma0 :: "32 word \<Rightarrow> 32 word" where
  "small_sigma0 x = rotr 7 x XOR rotr 18 x XOR drop_bit 3 x"

definition small_sigma1 :: "32 word \<Rightarrow> 32 word" where
  "small_sigma1 x = rotr 17 x XOR rotr 19 x XOR drop_bit 10 x"

definition sha_choose :: "32 word \<Rightarrow> 32 word \<Rightarrow> 32 word \<Rightarrow> 32 word" where
  "sha_choose x y z = (x AND y) XOR (NOT x AND z)"

definition majority :: "32 word \<Rightarrow> 32 word \<Rightarrow> 32 word \<Rightarrow> 32 word" where
  "majority x y z = (x AND y) XOR (x AND z) XOR (y AND z)"

definition round_constants :: "32 word list" where
  "round_constants =
    [1116352408, 1899447441, 3049323471, 3921009573, 961987163, 1508970993, 2453635748, 2870763221,
     3624381080, 310598401, 607225278, 1426881987, 1925078388, 2162078206, 2614888103, 3248222580,
     3835390401, 4022224774, 264347078, 604807628, 770255983, 1249150122, 1555081692, 1996064986,
     2554220882, 2821834349, 2952996808, 3210313671, 3336571891, 3584528711, 113926993, 338241895,
     666307205, 773529912, 1294757372, 1396182291, 1695183700, 1986661051, 2177026350, 2456956037,
     2730485921, 2820302411, 3259730800, 3345764771, 3516065817, 3600352804, 4094571909, 275423344,
     430227734, 506948616, 659060556, 883997877, 958139571, 1322822218, 1537002063, 1747873779,
     1955562222, 2024104815, 2227730452, 2361852424, 2428436474, 2756734187, 3204031479, 3329325298]"

definition initial_hash :: "32 word list" where
  "initial_hash =
    [1779033703, 3144134277, 1013904242, 2773480762, 1359893119, 2600822924, 528734635, 1541459225]"

text \<open>The message padded to whole blocks of 64 bytes: a one bit, zeros and the length in bits.\<close>

definition big_endian :: "nat \<Rightarrow> nat \<Rightarrow> nat list" where
  "big_endian k n = map (\<lambda>i. n div 256 ^ (k - 1 - i) mod 256) [0..<k]"

definition padded :: "nat list \<Rightarrow> nat list" where
  "padded m = m @ [128] @ replicate ((119 - length m mod 64) mod 64) 0 @ big_endian 8 (8 * length m)"

definition word_of_bytes :: "nat list \<Rightarrow> 32 word" where
  "word_of_bytes bs = word_of_nat (foldl (\<lambda>a b. 256 * a + b) 0 bs)"

text \<open>The message schedule, latest word first.\<close>

fun schedule :: "nat \<Rightarrow> 32 word list \<Rightarrow> 32 word list" where
  "schedule 0 ws = ws"
| "schedule (Suc n) ws =
     schedule n ((small_sigma1 (ws ! 1) + ws ! 6 + small_sigma0 (ws ! 14) + ws ! 15) # ws)"

definition block_words :: "nat list \<Rightarrow> 32 word list" where
  "block_words block =
     rev (schedule 48 (rev (map (\<lambda>i. word_of_bytes (take 4 (drop (4 * i) block))) [0..<16])))"

definition compress_round :: "32 word list \<Rightarrow> 32 word \<times> 32 word \<Rightarrow> 32 word list" where
  "compress_round st kw =
     (case st of
        [a, b, c, d, e, f, g, h] \<Rightarrow>
          (let t1 = h + big_sigma1 e + sha_choose e f g + fst kw + snd kw;
               t2 = big_sigma0 a + majority a b c
           in [t1 + t2, a, b, c, d + t1, e, f, g])
      | _ \<Rightarrow> st)"

definition compress :: "32 word list \<Rightarrow> nat list \<Rightarrow> 32 word list" where
  "compress st block =
     map2 (+) st (foldl compress_round st (zip round_constants (block_words block)))"

definition sha256_words :: "nat list \<Rightarrow> 32 word list" where
  "sha256_words m =
     (let p = padded m
      in foldl compress initial_hash (map (\<lambda>i. take 64 (drop (64 * i) p)) [0..<length p div 64]))"

definition hex_digit :: "nat \<Rightarrow> char" where
  "hex_digit d = (if d < 10 then char_of (48 + d) else char_of (87 + d))"

definition word_hex :: "32 word \<Rightarrow> string" where
  "word_hex w = map (\<lambda>i. hex_digit (unat w div 16 ^ (7 - i) mod 16)) [0..<8]"

definition sha256_hex :: "string \<Rightarrow> string" where
  "sha256_hex data = concat (map word_hex (sha256_words (map of_char data)))"

text \<open>\<^verbatim>\<open>s.encode("utf-8")\<close>.\<close>

definition utf8_char :: "char \<Rightarrow> string" where
  "utf8_char c =
     (let n = (of_char c :: nat)
      in if n < 128 then [c] else [char_of (192 + n div 64), char_of (128 + n mod 64)])"

definition utf8 :: "string \<Rightarrow> string" where
  "utf8 s = concat (map utf8_char s)"

text \<open>A digest is 64 lowercase hexadecimal digits.\<close>

definition is_sha256_text :: "string \<Rightarrow> bool" where
  "is_sha256_text s \<longleftrightarrow> length s = 64 \<and>
     list_all (\<lambda>c. let n = (of_char c :: nat) in (48 \<le> n \<and> n \<le> 57) \<or> (97 \<le> n \<and> n \<le> 102)) s"

lemma length_compress_round [simp]: "length (compress_round st kw) = length st"
  by (auto simp: compress_round_def Let_def split: list.splits)

lemma length_compress: "length st = 8 \<Longrightarrow> length (compress st block) = 8"
proof -
  have "length (foldl compress_round st kws) = length st" for kws
    by (induction kws arbitrary: st) auto
  then show "length st = 8 \<Longrightarrow> length (compress st block) = 8" by (simp add: compress_def)
qed

lemma length_sha256_words: "length (sha256_words m) = 8"
proof -
  have "length (foldl compress st bs) = 8" if "length st = 8" for st bs
    using that by (induction bs arbitrary: st) (auto simp: length_compress)
  then show ?thesis by (simp add: sha256_words_def Let_def initial_hash_def)
qed

lemma hex_digit_text: "d < 16 \<Longrightarrow>
    (let n = (of_char (hex_digit d) :: nat) in (48 \<le> n \<and> n \<le> 57) \<or> (97 \<le> n \<and> n \<le> 102))"
  by (auto simp: hex_digit_def Let_def)

lemma length_word_hex [simp]: "length (word_hex w) = 8"
  by (simp add: word_hex_def)

lemma sha256_hex_text: "is_sha256_text (sha256_hex data)"
proof -
  have "length (concat (map word_hex ws)) = 8 * length ws" for ws
    by (induction ws) auto
  then have "length (sha256_hex data) = 64"
    by (simp add: sha256_hex_def length_sha256_words)
  moreover have "c \<in> set (sha256_hex data) \<Longrightarrow> \<exists>d<16. c = hex_digit d" for c
    by (auto simp: sha256_hex_def word_hex_def) (metis mod_less_divisor zero_less_numeral)
  ultimately show ?thesis
    unfolding is_sha256_text_def list_all_iff using hex_digit_text by blast
qed

end
