(* ===== verification/Predicates.thy ===== *)
theory Predicates
  imports Credentials Sha256
begin

section \<open>The predicate evaluator (\<^verbatim>\<open>predicates.py\<close>)\<close>

text \<open>
  Standing-goal predicates are JSON objects. Evidence comes from two maps of the context and
  from the file system; what the operating system answers to \<^verbatim>\<open>os.stat\<close> and
  \<^verbatim>\<open>os.open\<close> is a record argument, one function for each kind of system call, so that two
  calls on the same path may answer differently. \<open>evaluate\<close> takes the root as already
  checked; theory \<open>GitMetadata\<close> holds that check and the whole call.
\<close>

definition max_predicate_depth :: nat where "max_predicate_depth = 32"
definition max_predicate_list_length :: nat where "max_predicate_list_length = 64"
definition max_json_path_length :: nat where "max_json_path_length = 32"
definition max_string_length :: nat where "max_string_length = 4096"
definition max_file_evidence_bytes :: nat where "max_file_evidence_bytes = 8 * 1024 * 1024"

subsection \<open>The operating system\<close>

datatype file_kind = Regular | Directory | Symlink | Special

record file_stat =
  st_kind :: file_kind
  st_permissions :: nat
  st_size :: nat
  st_nlink :: nat
  st_dev :: int
  st_ino :: int

text \<open>
  Paths are the components below the repository root. \<open>os_lstat\<close> is \<^verbatim>\<open>os.stat\<close> of a path
  without following links, \<open>os_open_dir\<close> opens a directory without following links and answers
  \<^verbatim>\<open>fstat\<close>, \<open>os_stat_at\<close> is \<^verbatim>\<open>os.stat\<close> relative to an opened parent, \<open>os_open_file\<close> opens a
  file and answers its \<^verbatim>\<open>fstat\<close> and what reading it to the end gives.
\<close>

record os_env =
  os_lstat :: "string list \<Rightarrow> exn + file_stat"
  os_open_dir :: "string list \<Rightarrow> exn + file_stat"
  os_stat_at :: "string list \<Rightarrow> exn + file_stat"
  os_open_file :: "string list \<Rightarrow> exn + (file_stat \<times> (exn + string))"

definition is_not_found :: "exn \<Rightarrow> bool" where
  "is_not_found e = (case e of FileNotFoundError _ \<Rightarrow> True | _ \<Rightarrow> False)"

definition is_not_directory :: "exn \<Rightarrow> bool" where
  "is_not_directory e = (case e of NotADirectoryError _ \<Rightarrow> True | _ \<Rightarrow> False)"

subsection \<open>Bounded values\<close>

definition bounded_string :: "pyval \<Rightarrow> string \<Rightarrow> exn + string" where
  "bounded_string value label =
     (case nonempty_str value of
        None \<Rightarrow> Inl (PredicateContractError (label @ '' must be a non-empty string''))
      | Some s \<Rightarrow>
          (if CHR 0x00 \<in> set s \<or> length s > max_string_length
           then Inl (PredicateContractError (label @ '' is outside safe bounds''))
           else Inr s))"

definition json_scalar :: "pyval \<Rightarrow> string \<Rightarrow> exn + pyval" where
  "json_scalar value label =
     (case value of
        PStr s \<Rightarrow>
          (if CHR 0x00 \<in> set s \<or> length s > max_string_length
           then Inl (PredicateContractError (label @ '' is outside safe bounds'')) else Inr value)
      | PFloat x \<Rightarrow>
          (if \<not> is_finite x then Inl (PredicateContractError (label @ '' must be finite'')) else Inr value)
      | PList _ \<Rightarrow> Inl (PredicateContractError (label @ '' must be a JSON scalar''))
      | PDict _ \<Rightarrow> Inl (PredicateContractError (label @ '' must be a JSON scalar''))
      | _ \<Rightarrow> Inr value)"

datatype scalar_kind = NullKind | BooleanKind | NumberKind | StringKind

definition json_scalar_kind :: "pyval \<Rightarrow> exn + scalar_kind" where
  "json_scalar_kind value =
     (case value of
        PNone \<Rightarrow> Inr NullKind
      | PBool _ \<Rightarrow> Inr BooleanKind
      | PInt _ \<Rightarrow> Inr NumberKind
      | PFloat _ \<Rightarrow> Inr NumberKind
      | PStr _ \<Rightarrow> Inr StringKind
      | _ \<Rightarrow> Inl (PredicateContractError ''internal non-scalar comparison''))"

text \<open>\<^verbatim>\<open>actual == expected\<close> on two scalars of one kind; integers and floats compare exactly.\<close>

definition scalar_eq :: "pyval \<Rightarrow> pyval \<Rightarrow> bool" where
  "scalar_eq a b =
     (case (a, b) of
        (PInt i, PFloat x) \<Rightarrow> (case x of PyFin neg m e \<Rightarrow> dyadic_eq i 0 (with_sign neg m) e | _ \<Rightarrow> False)
      | (PFloat x, PInt i) \<Rightarrow> (case x of PyFin neg m e \<Rightarrow> dyadic_eq i 0 (with_sign neg m) e | _ \<Rightarrow> False)
      | (PFloat x, PFloat y) \<Rightarrow> float_eq x y
      | _ \<Rightarrow> a = b)"

definition json_scalar_equals :: "pyval \<Rightarrow> pyval \<Rightarrow> string \<Rightarrow> exn + bool" where
  "json_scalar_equals actual expected label =
     bindE (json_scalar_kind actual) (\<lambda>actual_kind.
     bindE (json_scalar_kind expected) (\<lambda>expected_kind.
       if actual_kind \<noteq> expected_kind
       then Inl (PredicateContractError (label @ '' type mismatch''))
       else Inr (scalar_eq actual expected)))"

definition reject_sensitive_evidence_name :: "string \<Rightarrow> string \<Rightarrow> exn + unit" where
  "reject_sensitive_evidence_name value label =
     (if is_credential_path_denied value
      then Inl (PredicateContractError (label @ '' targets private credentials or artifacts''))
      else Inr ())"

definition require_keys :: "pydict \<Rightarrow> string list \<Rightarrow> string \<Rightarrow> exn + unit" where
  "require_keys value keys label =
     (if \<not> keys_are value keys then Inl (PredicateContractError (label @ '' must contain exactly''))
      else Inr ())"

definition predicate_list :: "pyval \<Rightarrow> string \<Rightarrow> exn + pyval list" where
  "predicate_list value label =
     (case value of
        PList vs \<Rightarrow>
          (if \<not> (1 \<le> length vs \<and> length vs \<le> max_predicate_list_length)
           then Inl (PredicateContractError (label @ '' length must be in [1,64]''))
           else Inr vs)
      | _ \<Rightarrow> Inl (PredicateContractError (label @ '' must be a JSON array'')))"

definition evidence_mapping :: "pyval \<Rightarrow> string \<Rightarrow> exn + pydict" where
  "evidence_mapping value label =
     (case value of PDict d \<Rightarrow> Inr d | _ \<Rightarrow> Inl (PredicateContractError (label @ '' must be an object'')))"

subsection \<open>JSON paths\<close>

definition string_segments :: "pyval list \<Rightarrow> string list" where
  "string_segments path = List.map_filter str_value path"

fun json_path_walk :: "pyval \<Rightarrow> pyval list \<Rightarrow> exn + pyval" where
  "json_path_walk current [] = Inr current"
| "json_path_walk current (segment # rest) =
     (case segment of
        PStr _ \<Rightarrow>
          bindE (bounded_string segment ''json path segment'') (\<lambda>key.
          bindE (reject_sensitive_evidence_name key ''json path segment'') (\<lambda>_.
            case current of
              PDict d \<Rightarrow>
                (case map_of d key of
                   None \<Rightarrow> Inl (PredicateContractError ''json_equals evidence path is missing'')
                 | Some v \<Rightarrow> json_path_walk v rest)
            | _ \<Rightarrow> Inl (PredicateContractError ''json_equals evidence path is missing'')))
      | PInt i \<Rightarrow>
          (case current of
             PList vs \<Rightarrow>
               (if i < 0 \<or> i \<ge> int (length vs)
                then Inl (PredicateContractError ''json_equals evidence path is missing'')
                else json_path_walk (vs ! nat i) rest)
           | _ \<Rightarrow> Inl (PredicateContractError ''json_equals evidence path is missing''))
      | _ \<Rightarrow> Inl (PredicateContractError ''json path segments must be strings or integers''))"

definition json_path_lookup :: "pyval \<Rightarrow> pyval \<Rightarrow> exn + pyval" where
  "json_path_lookup document path =
     (case path of
        PList segments \<Rightarrow>
          (if \<not> (1 \<le> length segments \<and> length segments \<le> max_json_path_length)
           then Inl (PredicateContractError ''json_equals path length must be in [1,32]'')
           else
             bindE (if string_segments segments = [] then Inr ()
                    else reject_sensitive_evidence_name (join_with ''/'' (string_segments segments))
                           ''json path segments'') (\<lambda>_.
             bindE (json_path_walk document segments) (\<lambda>current.
             json_scalar current ''json_equals resolved value'')))
      | _ \<Rightarrow> Inl (PredicateContractError ''json_equals path must be a JSON array''))"

subsection \<open>Repository paths\<close>

text \<open>The components of a relative path, as \<^verbatim>\<open>Path(s).parts\<close> gives them.\<close>

definition reject_unsafe_relative_path_parts :: "string list \<Rightarrow> exn + unit" where
  "reject_unsafe_relative_path_parts parts =
     (if parts = [] then Inl (PredicateContractError ''repo-relative path must name evidence'')
      else if ''..'' \<in> set parts
      then Inl (PredicateContractError ''repo-relative path escapes repo root'')
      else Inr ())"

fun reject_symlink_evidence_path :: "os_env \<Rightarrow> string list \<Rightarrow> string list \<Rightarrow> exn + unit" where
  "reject_symlink_evidence_path env current [] = Inr ()"
| "reject_symlink_evidence_path env current (part # rest) =
     (case os_lstat env (current @ [part]) of
        Inl e \<Rightarrow>
          (if is_not_found e then Inr ()
           else if is_os_error e
           then Inl (PredicateContractError ''file evidence path cannot be inspected'')
           else Inl e)
      | Inr st \<Rightarrow>
          (if st_kind st = Symlink
           then Inl (PredicateContractError ''file evidence cannot use symlink evidence'')
           else reject_symlink_evidence_path env (current @ [part]) rest))"

definition assert_predicate_path_allowed :: "string \<Rightarrow> exn + unit" where
  "assert_predicate_path_allowed relative =
     (case assert_paths_retrievable [relative] False of
        Inl (PrivacyPreflightError _) \<Rightarrow>
          Inl (PredicateContractError ''repo-relative path targets private raw state'')
      | Inl e \<Rightarrow> Inl e
      | Inr _ \<Rightarrow>
          (if is_credential_path_denied relative
           then Inl (PredicateContractError ''repo-relative path targets private credentials or artifacts'')
           else Inr ()))"

definition repo_path :: "os_env \<Rightarrow> pyval \<Rightarrow> exn + string list" where
  "repo_path env raw_path =
     bindE (bounded_string raw_path ''repo-relative path'') (\<lambda>relative.
       if path_root relative \<noteq> []
       then Inl (PredicateContractError ''repo-relative path must not be absolute'')
       else
         bindE (reject_unsafe_relative_path_parts (path_parts relative)) (\<lambda>_.
         bindE (assert_predicate_path_allowed relative) (\<lambda>_.
         bindE (reject_symlink_evidence_path env [] (path_parts relative)) (\<lambda>_.
         Inr (path_parts relative)))))"

text \<open>
  Opening the parents one by one: \<^verbatim>\<open>FileNotFoundError\<close> and \<^verbatim>\<open>NotADirectoryError\<close> pass, other
  \<^verbatim>\<open>OSError\<close>s become contract errors. \<open>n\<close> components are open already.
\<close>

definition open_directory :: "os_env \<Rightarrow> string list \<Rightarrow> string \<Rightarrow> string \<Rightarrow> exn + unit" where
  "open_directory env parts label message =
     (case os_open_dir env parts of
        Inl e \<Rightarrow>
          (if is_not_found e \<or> is_not_directory e then Inl e
           else if is_os_error e then Inl (PredicateContractError (label @ '' cannot be inspected''))
           else Inl e)
      | Inr st \<Rightarrow>
          (if st_kind st \<noteq> Directory then Inl (PredicateContractError (label @ message)) else Inr ()))"

definition open_parent_directory_nofollow :: "os_env \<Rightarrow> string list \<Rightarrow> string \<Rightarrow> exn + unit" where
  "open_parent_directory_nofollow env parts label =
     (if parts = [] then Inl (PredicateContractError (label @ '' must name evidence''))
      else
        bindE (open_directory env [] label '' cannot be inspected'') (\<lambda>_.
        forE (\<lambda>n. open_directory env (take n parts) label '' cannot use symlink evidence'')
          [1..<length parts]))"

definition stat_repo_path_nofollow :: "os_env \<Rightarrow> string list \<Rightarrow> string \<Rightarrow> exn + file_stat" where
  "stat_repo_path_nofollow env parts label =
     bindE (open_parent_directory_nofollow env parts label) (\<lambda>_. os_stat_at env parts)"

definition raise_if_multi_link_file :: "file_stat \<Rightarrow> string \<Rightarrow> exn + unit" where
  "raise_if_multi_link_file st label =
     (if (if st_nlink st = 0 then 1 else st_nlink st) > 1
      then Inl (PredicateContractError (label @ '' cannot use hard-linked file aliases''))
      else Inr ())"

definition repo_path_stat :: "os_env \<Rightarrow> string list \<Rightarrow> string \<Rightarrow> exn + file_stat option" where
  "repo_path_stat env parts label =
     (case stat_repo_path_nofollow env parts label of
        Inl e \<Rightarrow>
          (if is_not_found e then Inr None
           else if is_os_error e then Inl (PredicateContractError (label @ '' cannot be inspected''))
           else Inl e)
      | Inr st \<Rightarrow>
          (if st_kind st = Symlink
           then Inl (PredicateContractError (label @ '' cannot use symlink evidence''))
           else bindE (if st_kind st = Regular then raise_if_multi_link_file st label else Inr ()) (\<lambda>_.
                Inr (Some st))))"

definition stat_identity :: "file_stat \<Rightarrow> int \<times> int \<times> file_kind \<times> nat" where
  "stat_identity st = (st_dev st, st_ino st, st_kind st, st_permissions st)"

definition validate_opened_file_stat :: "file_stat \<Rightarrow> file_stat \<Rightarrow> exn + unit" where
  "validate_opened_file_stat opened checked =
     (if st_kind opened \<noteq> Regular
      then Inl (PredicateContractError ''file_sha256 evidence must be a regular file'')
      else
        bindE (raise_if_multi_link_file opened ''file_sha256 evidence'') (\<lambda>_.
        if stat_identity opened \<noteq> stat_identity checked
        then Inl (PredicateContractError ''file_sha256 evidence changed during read'')
        else if st_size opened > max_file_evidence_bytes
        then Inl (PredicateContractError ''file_sha256 evidence exceeds safe size limit'')
        else Inr ()))"

definition unreadable :: "exn \<Rightarrow> exn" where
  "unreadable e =
     (if is_os_error e then PredicateContractError ''file_sha256 evidence cannot be read'' else e)"

definition sha256_file :: "os_env \<Rightarrow> string list \<Rightarrow> file_stat \<Rightarrow> exn + string" where
  "sha256_file env parts path_stat =
     (if st_size path_stat > max_file_evidence_bytes
      then Inl (PredicateContractError ''file_sha256 evidence exceeds safe size limit'')
      else mapErr unreadable
        (bindE (open_parent_directory_nofollow env parts ''file_sha256 evidence'') (\<lambda>_.
         bindE (os_open_file env parts) (\<lambda>(opened, contents).
         bindE (validate_opened_file_stat opened path_stat) (\<lambda>_.
         bindE contents (\<lambda>data.
           if length data > max_file_evidence_bytes
           then Inl (PredicateContractError ''file_sha256 evidence exceeds safe size limit'')
           else Inr (sha256_hex data)))))))"

subsection \<open>Evaluation\<close>

record predicate_context =
  pc_os :: os_env
  json_documents :: pyval
  command_results :: pyval

definition eval_literal :: "pydict \<Rightarrow> exn + bool" where
  "eval_literal p =
     bindE (require_keys p [''op'', ''value''] ''literal predicate'') (\<lambda>_.
     bindE (getitem p ''value'') (\<lambda>value.
       case bool_value value of
         None \<Rightarrow> Inl (PredicateContractError ''literal predicate value must be boolean'')
       | Some b \<Rightarrow> Inr b))"

definition eval_file_exists :: "predicate_context \<Rightarrow> pydict \<Rightarrow> exn + bool" where
  "eval_file_exists ctx p =
     bindE (require_keys p [''op'', ''path''] ''file_exists predicate'') (\<lambda>_.
     bindE (getitem p ''path'') (\<lambda>raw.
     bindE (repo_path (pc_os ctx) raw) (\<lambda>parts.
     bindE (repo_path_stat (pc_os ctx) parts ''file_exists evidence'') (\<lambda>st.
     Inr (st \<noteq> None)))))"

definition eval_file_sha256 :: "predicate_context \<Rightarrow> pydict \<Rightarrow> exn + bool" where
  "eval_file_sha256 ctx p =
     bindE (require_keys p [''op'', ''path'', ''sha256''] ''file_sha256 predicate'') (\<lambda>_.
     bindE (getitem p ''sha256'') (\<lambda>expected_value.
       case str_value expected_value of
         None \<Rightarrow> Inl (PredicateContractError ''file_sha256 expected hash must be lowercase SHA-256'')
       | Some expected \<Rightarrow>
           (if \<not> is_sha256_text expected
            then Inl (PredicateContractError ''file_sha256 expected hash must be lowercase SHA-256'')
            else
              bindE (getitem p ''path'') (\<lambda>raw.
              bindE (repo_path (pc_os ctx) raw) (\<lambda>parts.
              bindE (repo_path_stat (pc_os ctx) parts ''file_sha256 evidence'') (\<lambda>st.
                case st of
                  None \<Rightarrow> Inl (PredicateContractError ''file_sha256 evidence must be a regular file'')
                | Some path_stat \<Rightarrow>
                    (if st_kind path_stat \<noteq> Regular
                     then Inl (PredicateContractError ''file_sha256 evidence must be a regular file'')
                     else
                       bindE (raise_if_multi_link_file path_stat ''file_sha256 evidence'') (\<lambda>_.
                       bindE (sha256_file (pc_os ctx) parts path_stat) (\<lambda>actual.
                       Inr (actual = expected))))))))))"

definition json_evidence_path_check :: "string \<Rightarrow> pyval \<Rightarrow> exn + unit" where
  "json_evidence_path_check document_name path =
     (case path of
        PList segments \<Rightarrow>
          (if string_segments segments = [] then Inr ()
           else reject_sensitive_evidence_name
                  (join_with ''/'' (document_name # string_segments segments)) ''json evidence path'')
      | _ \<Rightarrow> Inr ())"

definition eval_json_equals :: "predicate_context \<Rightarrow> pydict \<Rightarrow> exn + bool" where
  "eval_json_equals ctx p =
     bindE (require_keys p [''op'', ''document'', ''path'', ''value''] ''json_equals predicate'') (\<lambda>_.
     bindE (getitem p ''document'') (\<lambda>document.
     bindE (bounded_string document ''json document name'') (\<lambda>document_name.
     bindE (reject_sensitive_evidence_name document_name ''json document name'') (\<lambda>_.
     bindE (evidence_mapping (json_documents ctx) ''JSON evidence map'') (\<lambda>documents.
       case map_of documents document_name of
         None \<Rightarrow> Inl (PredicateContractError ''missing JSON evidence document'')
       | Some content \<Rightarrow>
           bindE (getitem p ''value'') (\<lambda>value.
           bindE (json_scalar value ''json_equals value'') (\<lambda>expected.
           bindE (getitem p ''path'') (\<lambda>path.
           bindE (json_evidence_path_check document_name path) (\<lambda>_.
           bindE (json_path_lookup content path) (\<lambda>actual.
           json_scalar_equals actual expected ''json_equals resolved value''))))))))))"

definition eval_command_result_equals :: "predicate_context \<Rightarrow> pydict \<Rightarrow> exn + bool" where
  "eval_command_result_equals ctx p =
     bindE (require_keys p [''op'', ''id'', ''field'', ''value''] ''command_result_equals predicate'') (\<lambda>_.
     bindE (getitem p ''id'') (\<lambda>id_value.
     bindE (bounded_string id_value ''command result id'') (\<lambda>result_id.
     bindE (getitem p ''field'') (\<lambda>field_value.
     bindE (bounded_string field_value ''command result field'') (\<lambda>field_name.
     bindE (reject_sensitive_evidence_name result_id ''command result id'') (\<lambda>_.
     bindE (reject_sensitive_evidence_name field_name ''command result field'') (\<lambda>_.
     bindE (reject_sensitive_evidence_name (result_id @ ''/'' @ field_name) ''command result evidence path'') (\<lambda>_.
     bindE (evidence_mapping (command_results ctx) ''command result evidence map'') (\<lambda>results.
       case map_of results result_id of
         None \<Rightarrow> Inl (PredicateContractError ''missing command result evidence'')
       | Some result_value \<Rightarrow>
           bindE (evidence_mapping result_value ''command result evidence'') (\<lambda>result.
             case map_of result field_name of
               None \<Rightarrow> Inl (PredicateContractError ''command result evidence is missing field'')
             | Some found \<Rightarrow>
                 bindE (getitem p ''value'') (\<lambda>value.
                 bindE (json_scalar value ''command_result_equals value'') (\<lambda>expected.
                 bindE (json_scalar found ''command result field value'') (\<lambda>actual.
                 json_scalar_equals actual expected ''command result field value'')))))))))))))"

function evaluate :: "predicate_context \<Rightarrow> nat \<Rightarrow> pyval \<Rightarrow> exn + bool" where
  "evaluate ctx depth predicate =
     (if depth > max_predicate_depth
      then Inl (PredicateContractError ''predicate nesting exceeds safe limit'')
      else case predicate of
        PDict p \<Rightarrow>
          (case nonempty_str (dict_get p ''op'') of
             None \<Rightarrow> Inl (PredicateContractError ''predicate op must be a non-empty string'')
           | Some op \<Rightarrow>
               if op = ''literal'' then eval_literal p
               else if op = ''all'' then
                 bindE (require_keys p [''op'', ''predicates''] ''all predicate'') (\<lambda>_.
                 bindE (bindE (getitem p ''predicates'') (\<lambda>v. predicate_list v ''all predicates'')) (\<lambda>items.
                 bindE (mapE (\<lambda>item. evaluate ctx (Suc depth) item) items) (\<lambda>results.
                 Inr (list_all id results))))
               else if op = ''any'' then
                 bindE (require_keys p [''op'', ''predicates''] ''any predicate'') (\<lambda>_.
                 bindE (bindE (getitem p ''predicates'') (\<lambda>v. predicate_list v ''any predicates'')) (\<lambda>items.
                 bindE (mapE (\<lambda>item. evaluate ctx (Suc depth) item) items) (\<lambda>results.
                 Inr (list_ex id results))))
               else if op = ''not'' then
                 bindE (require_keys p [''op'', ''predicate''] ''not predicate'') (\<lambda>_.
                 bindE (getitem p ''predicate'') (\<lambda>item.
                 bindE (evaluate ctx (Suc depth) item) (\<lambda>result.
                 Inr (\<not> result))))
               else if op = ''file_exists'' then eval_file_exists ctx p
               else if op = ''file_sha256'' then eval_file_sha256 ctx p
               else if op = ''json_equals'' then eval_json_equals ctx p
               else if op = ''command_result_equals'' then eval_command_result_equals ctx p
               else Inl (PredicateContractError ''unsupported predicate op''))
      | _ \<Rightarrow> Inl (PredicateContractError ''predicate must be a JSON object''))"
  by pat_completeness auto
termination
  by (relation "measure (\<lambda>(ctx, depth, p). Suc max_predicate_depth - depth)") auto

declare evaluate.simps [simp del]

subsection \<open>Only contract errors\<close>

definition predicate_error :: "exn \<Rightarrow> bool" where
  "predicate_error e \<longleftrightarrow> (\<exists>m. e = PredicateContractError m)"

lemma predicate_error_simp [simp]: "predicate_error (PredicateContractError m)"
  by (simp add: predicate_error_def)

text \<open>
  An \<^verbatim>\<open>OSError\<close> of a system call never gets out; anything else that one raises does (a
  \<^verbatim>\<open>ValueError\<close> for a path with a zero byte, which the bounded strings exclude).
\<close>

definition os_lets_escape :: "os_env \<Rightarrow> exn \<Rightarrow> bool" where
  "os_lets_escape env e \<longleftrightarrow> \<not> is_os_error e \<and>
     ((\<exists>p. os_lstat env p = Inl e) \<or> (\<exists>p. os_open_dir env p = Inl e) \<or> (\<exists>p. os_stat_at env p = Inl e) \<or>
      (\<exists>p. os_open_file env p = Inl e) \<or> (\<exists>p st. os_open_file env p = Inr (st, Inl e)))"

definition evidence_error :: "os_env \<Rightarrow> exn \<Rightarrow> bool" where
  "evidence_error env e \<longleftrightarrow> predicate_error e \<or> os_lets_escape env e"

lemma evidence_errorI [simp, intro]: "predicate_error e \<Longrightarrow> evidence_error env e"
  by (simp add: evidence_error_def)

lemma system_call_error:
  assumes "os_lstat env p = Inl e \<or> os_open_dir env p = Inl e \<or> os_stat_at env p = Inl e \<or>
    os_open_file env p = Inl e \<or> os_open_file env p = Inr (st, Inl e)" "\<not> is_os_error e"
  shows "evidence_error env e"
  using assms unfolding evidence_error_def os_lets_escape_def by blast

lemma checks_error:
  "bounded_string v l = Inl e \<Longrightarrow> predicate_error e"
  "json_scalar v l = Inl e \<Longrightarrow> predicate_error e"
  "json_scalar_equals v w l = Inl e \<Longrightarrow> predicate_error e"
  "reject_sensitive_evidence_name s l = Inl e \<Longrightarrow> predicate_error e"
  "require_keys d ks l = Inl e \<Longrightarrow> predicate_error e"
  "predicate_list v l = Inl e \<Longrightarrow> predicate_error e"
  "evidence_mapping v l = Inl e \<Longrightarrow> predicate_error e"
  "reject_unsafe_relative_path_parts ps = Inl e \<Longrightarrow> predicate_error e"
  "assert_predicate_path_allowed s = Inl e \<Longrightarrow> predicate_error e"
  "raise_if_multi_link_file st l = Inl e \<Longrightarrow> predicate_error e"
  "validate_opened_file_stat st st' = Inl e \<Longrightarrow> predicate_error e"
  by (auto simp: bounded_string_def json_scalar_def json_scalar_equals_def json_scalar_kind_def
      reject_sensitive_evidence_name_def require_keys_def predicate_list_def evidence_mapping_def
      reject_unsafe_relative_path_parts_def assert_predicate_path_allowed_def assert_paths_retrievable_def
      raise_if_multi_link_file_def validate_opened_file_stat_def raise_simps
      split: option.splits pyval.splits if_splits sum.splits exn.splits)

lemma walk_error: "json_path_walk v path = Inl e \<Longrightarrow> predicate_error e"
proof (induction path arbitrary: v)
  case (Cons segment rest)
  then show ?case
    by (cases segment; cases v; auto simp: raise_simps split: if_splits option.splits dest: checks_error)
qed simp

lemma lookup_error: "json_path_lookup v path = Inl e \<Longrightarrow> predicate_error e"
  by (auto simp: json_path_lookup_def raise_simps split: pyval.splits if_splits
      dest: checks_error walk_error)

lemma symlink_error: "reject_symlink_evidence_path env cur ps = Inl e \<Longrightarrow> evidence_error env e"
  by (induction env cur ps rule: reject_symlink_evidence_path.induct)
    (auto split: sum.splits if_splits intro: system_call_error)

lemma repo_path_error: "repo_path env v = Inl e \<Longrightarrow> evidence_error env e"
  by (auto simp: repo_path_def raise_simps dest: checks_error symlink_error)

lemma open_parent_error:
  assumes "open_parent_directory_nofollow env ps l = Inl e"
  shows "evidence_error env e \<or> is_os_error e"
proof -
  have dir: "open_directory env qs l' m = Inl e \<Longrightarrow> evidence_error env e \<or> is_os_error e" for qs l' m
    by (auto simp: open_directory_def split: sum.splits if_splits intro: system_call_error)
  have "forE f xs = Inl e \<Longrightarrow> \<exists>x\<in>set xs. f x = Inl e" for f and xs :: "nat list"
    by (induction xs) (auto simp: bindE_Inl_iff)
  then show ?thesis using assms dir
    by (auto simp: open_parent_directory_nofollow_def raise_simps) blast+
qed

lemma repo_path_stat_error:
  assumes e: "repo_path_stat env ps l = Inl e"
  shows "evidence_error env e"
proof -
  have "stat_repo_path_nofollow env ps l = Inl e' \<Longrightarrow> evidence_error env e' \<or> is_os_error e'" for e'
    using open_parent_error system_call_error [of env ps e']
    by (auto simp: stat_repo_path_nofollow_def raise_simps)
  with e show ?thesis
    by (auto simp: repo_path_stat_def raise_simps split: sum.splits if_splits dest: checks_error)
qed

lemma sha256_file_error:
  assumes e: "sha256_file env ps st = Inl e"
  shows "evidence_error env e"
proof -
  have unr: "evidence_error env e' \<or> is_os_error e' \<Longrightarrow> evidence_error env (unreadable e')" for e'
    by (cases "is_os_error e'") (auto simp: unreadable_def)
  have raised: "os_open_file env ps = Inl e' \<Longrightarrow> evidence_error env e' \<or> is_os_error e'"
      "os_open_file env ps = Inr (x, Inl e') \<Longrightarrow> evidence_error env e' \<or> is_os_error e'" for x e'
    using system_call_error [of env ps e' x] by blast+
  show ?thesis using e
    by (auto simp: sha256_file_def raise_simps mapErr_def
        split: if_splits sum.splits intro!: unr dest: open_parent_error checks_error raised)
qed

lemma getitem_required: "require_keys d ks l = Inr u \<Longrightarrow> k \<in> set ks \<Longrightarrow> getitem d k \<noteq> Inl e"
  by (auto simp: require_keys_def getitem_def has_key_def split: if_splits option.splits dest: keys_are_has_key)

lemma eval_literal_error: "eval_literal p = Inl e \<Longrightarrow> predicate_error e"
  by (auto simp: eval_literal_def raise_simps getitem_required dest: checks_error)

lemma eval_file_exists_error: "eval_file_exists ctx p = Inl e \<Longrightarrow> evidence_error (pc_os ctx) e"
  by (auto simp: eval_file_exists_def raise_simps getitem_required
      dest: checks_error repo_path_error repo_path_stat_error)

lemma eval_file_sha256_error: "eval_file_sha256 ctx p = Inl e \<Longrightarrow> evidence_error (pc_os ctx) e"
  by (auto simp: eval_file_sha256_def raise_simps getitem_required
      split: option.splits if_splits dest: checks_error repo_path_error repo_path_stat_error sha256_file_error)

lemma path_check_error: "json_evidence_path_check n v = Inl e \<Longrightarrow> predicate_error e"
  by (auto simp: json_evidence_path_check_def split: pyval.splits if_splits dest: checks_error)

lemma eval_json_equals_error: "eval_json_equals ctx p = Inl e \<Longrightarrow> predicate_error e"
  by (auto simp: eval_json_equals_def raise_simps getitem_required
      dest: checks_error lookup_error path_check_error)

lemma eval_command_error: "eval_command_result_equals ctx p = Inl e \<Longrightarrow> predicate_error e"
  by (auto simp: eval_command_result_equals_def raise_simps getitem_required dest: checks_error)


text \<open>Induction along the nesting depth: below the limit a call only evaluates one level deeper.\<close>

lemma evaluate_induct [case_names depth]:
  assumes "\<And>depth v. (\<And>v'. depth \<le> max_predicate_depth \<Longrightarrow> P (Suc depth) v') \<Longrightarrow> P depth v"
  shows "P depth v"
proof (induction "Suc max_predicate_depth - depth" arbitrary: depth v rule: less_induct)
  case less
  show ?case by (rule assms, rule less) simp
qed

lemma evaluate_too_deep: "depth > max_predicate_depth \<Longrightarrow>
    evaluate ctx depth v = Inl (PredicateContractError ''predicate nesting exceeds safe limit'')"
  by (subst evaluate.simps) simp

lemma evaluate_dict: "depth \<le> max_predicate_depth \<Longrightarrow> evaluate ctx depth (PDict p) =
     (case nonempty_str (dict_get p ''op'') of
        None \<Rightarrow> Inl (PredicateContractError ''predicate op must be a non-empty string'')
      | Some op \<Rightarrow>
          if op = ''literal'' then eval_literal p
          else if op = ''all'' then
            bindE (require_keys p [''op'', ''predicates''] ''all predicate'') (\<lambda>_.
            bindE (bindE (getitem p ''predicates'') (\<lambda>v. predicate_list v ''all predicates'')) (\<lambda>items.
            bindE (mapE (\<lambda>item. evaluate ctx (Suc depth) item) items) (\<lambda>results.
            Inr (list_all id results))))
          else if op = ''any'' then
            bindE (require_keys p [''op'', ''predicates''] ''any predicate'') (\<lambda>_.
            bindE (bindE (getitem p ''predicates'') (\<lambda>v. predicate_list v ''any predicates'')) (\<lambda>items.
            bindE (mapE (\<lambda>item. evaluate ctx (Suc depth) item) items) (\<lambda>results.
            Inr (list_ex id results))))
          else if op = ''not'' then
            bindE (require_keys p [''op'', ''predicate''] ''not predicate'') (\<lambda>_.
            bindE (getitem p ''predicate'') (\<lambda>item.
            bindE (evaluate ctx (Suc depth) item) (\<lambda>result.
            Inr (\<not> result))))
          else if op = ''file_exists'' then eval_file_exists ctx p
          else if op = ''file_sha256'' then eval_file_sha256 ctx p
          else if op = ''json_equals'' then eval_json_equals ctx p
          else if op = ''command_result_equals'' then eval_command_result_equals ctx p
          else Inl (PredicateContractError ''unsupported predicate op''))"
  by (subst evaluate.simps) simp

lemma evaluate_not_dict: "depth \<le> max_predicate_depth \<Longrightarrow> \<forall>p. v \<noteq> PDict p \<Longrightarrow>
    evaluate ctx depth v = Inl (PredicateContractError ''predicate must be a JSON object'')"
  by (subst evaluate.simps) (simp split: pyval.split)

lemma connective_error:
  assumes rec: "\<And>item e. evaluate ctx d item = Inl e \<Longrightarrow> evidence_error env e"
    and "bindE (require_keys p [''op'', ''predicates''] l) (\<lambda>_.
            bindE (bindE (getitem p ''predicates'') (\<lambda>v. predicate_list v l')) (\<lambda>items.
            bindE (mapE (\<lambda>item. evaluate ctx d item) items) (\<lambda>results.
            Inr (f results)))) = Inl e"
  shows "evidence_error env e"
  using assms(2) by (auto simp: raise_simps getitem_required dest: checks_error rec dest!: mapE_error)

lemma negation_error:
  assumes rec: "\<And>item e. evaluate ctx d item = Inl e \<Longrightarrow> evidence_error env e"
    and "bindE (require_keys p [''op'', ''predicate''] l) (\<lambda>_.
            bindE (getitem p ''predicate'') (\<lambda>item.
            bindE (evaluate ctx d item) (\<lambda>result. Inr (\<not> result)))) = Inl e"
  shows "evidence_error env e"
  using assms(2) by (auto simp: raise_simps getitem_required dest: checks_error rec)

lemma evaluate_error: "evaluate ctx depth v = Inl e \<Longrightarrow> evidence_error (pc_os ctx) e"
proof (induction depth v arbitrary: e rule: evaluate_induct)
  case (depth depth v)
  consider "depth > max_predicate_depth" | "depth \<le> max_predicate_depth" "\<forall>p. v \<noteq> PDict p"
    | p where "depth \<le> max_predicate_depth" "v = PDict p"
    by (cases "depth \<le> max_predicate_depth"; cases v) auto
  then show ?case
  proof cases
    case 3
    note rec = depth.IH [OF 3(1)]
    show ?thesis
      using depth.prems unfolding 3(2) evaluate_dict [OF 3(1)]
      by (auto split: option.splits if_splits intro: connective_error [OF rec] negation_error [OF rec]
          evidence_errorI [OF eval_literal_error] eval_file_exists_error eval_file_sha256_error
          evidence_errorI [OF eval_json_equals_error] evidence_errorI [OF eval_command_error])
  qed (use depth.prems in \<open>auto simp: evaluate_too_deep evaluate_not_dict\<close>)
qed

text \<open>The operators of the language, as values.\<close>

definition literal_predicate :: "bool \<Rightarrow> pyval" where
  "literal_predicate b = PDict [(''op'', PStr ''literal''), (''value'', PBool b)]"

definition all_predicate :: "pyval list \<Rightarrow> pyval" where
  "all_predicate ps = PDict [(''op'', PStr ''all''), (''predicates'', PList ps)]"

definition any_predicate :: "pyval list \<Rightarrow> pyval" where
  "any_predicate ps = PDict [(''op'', PStr ''any''), (''predicates'', PList ps)]"

definition not_predicate :: "pyval \<Rightarrow> pyval" where
  "not_predicate p = PDict [(''op'', PStr ''not''), (''predicate'', p)]"

lemma evaluate_operators:
  assumes "depth \<le> max_predicate_depth"
  shows "evaluate ctx depth (literal_predicate b) = Inr b"
    and "evaluate ctx depth (not_predicate p) = bindE (evaluate ctx (Suc depth) p) (\<lambda>r. Inr (\<not> r))"
    and "evaluate ctx depth (all_predicate ps) = bindE (predicate_list (PList ps) ''all predicates'') (\<lambda>items.
      bindE (mapE (evaluate ctx (Suc depth)) items) (\<lambda>results. Inr (list_all id results)))"
    and "evaluate ctx depth (any_predicate ps) = bindE (predicate_list (PList ps) ''any predicates'') (\<lambda>items.
      bindE (mapE (evaluate ctx (Suc depth)) items) (\<lambda>results. Inr (list_ex id results)))"
  using assms
  by (simp_all add: literal_predicate_def not_predicate_def all_predicate_def any_predicate_def evaluate_dict
      dict_get_def nonempty_str_def eval_literal_def require_keys_def keys_are_def getitem_def bool_value_def)

text \<open>A tree of operators over literals, its value, its depth and its width.\<close>

datatype ptree = Leaf bool | NotNode ptree | AllNode "ptree list" | AnyNode "ptree list"

fun tree_predicate :: "ptree \<Rightarrow> pyval" where
  "tree_predicate (Leaf b) = literal_predicate b"
| "tree_predicate (NotNode t) = not_predicate (tree_predicate t)"
| "tree_predicate (AllNode ts) = all_predicate (map tree_predicate ts)"
| "tree_predicate (AnyNode ts) = any_predicate (map tree_predicate ts)"

fun tree_value :: "ptree \<Rightarrow> bool" where
  "tree_value (Leaf b) = b"
| "tree_value (NotNode t) = (\<not> tree_value t)"
| "tree_value (AllNode ts) = list_all tree_value ts"
| "tree_value (AnyNode ts) = list_ex tree_value ts"

fun tree_depth :: "ptree \<Rightarrow> nat" where
  "tree_depth (Leaf b) = 0"
| "tree_depth (NotNode t) = Suc (tree_depth t)"
| "tree_depth (AllNode ts) = Suc (foldr max (map tree_depth ts) 0)"
| "tree_depth (AnyNode ts) = Suc (foldr max (map tree_depth ts) 0)"

fun tree_ok :: "ptree \<Rightarrow> bool" where
  "tree_ok (Leaf b) = True"
| "tree_ok (NotNode t) = tree_ok t"
| "tree_ok (AllNode ts) = (1 \<le> length ts \<and> length ts \<le> max_predicate_list_length \<and> list_all tree_ok ts)"
| "tree_ok (AnyNode ts) = (1 \<le> length ts \<and> length ts \<le> max_predicate_list_length \<and> list_all tree_ok ts)"

lemma foldr_max_bound: "xs \<noteq> [] \<Longrightarrow> d + foldr max xs 0 \<le> n \<longleftrightarrow> (\<forall>x\<in>set xs. d + x \<le> (n::nat))"
proof (induction xs)
  case (Cons x xs)
  then show ?case by (cases "xs = []") (auto simp: max_def)
qed simp

lemma evaluate_children:
  assumes "\<And>t b. t \<in> set ts \<Longrightarrow> evaluate ctx d (tree_predicate t) = Inr b \<longleftrightarrow>
     tree_ok t \<and> d + tree_depth t \<le> max_predicate_depth \<and> b = tree_value t"
  shows "mapE (evaluate ctx d) (map tree_predicate ts) = Inr ys \<longleftrightarrow>
     list_all tree_ok ts \<and> (\<forall>t\<in>set ts. d + tree_depth t \<le> max_predicate_depth) \<and> ys = map tree_value ts"
  using assms
proof (induction ts arbitrary: ys)
  case (Cons t ts)
  have IH: "mapE (evaluate ctx d) (map tree_predicate ts) = Inr zs \<longleftrightarrow>
     list_all tree_ok ts \<and> (\<forall>t\<in>set ts. d + tree_depth t \<le> max_predicate_depth) \<and> zs = map tree_value ts" for zs
    using Cons by simp
  have "evaluate ctx d (tree_predicate t) = Inr b \<longleftrightarrow>
     tree_ok t \<and> d + tree_depth t \<le> max_predicate_depth \<and> b = tree_value t" for b
    using Cons.prems [of t] by simp
  then show ?case by (auto simp: bindE_Inr_iff IH)
qed auto

lemma evaluate_nodes:
  assumes "depth \<le> max_predicate_depth" "ts \<noteq> []"
    and IH: "\<And>t b. t \<in> set ts \<Longrightarrow> evaluate ctx (Suc depth) (tree_predicate t) = Inr b \<longleftrightarrow>
     tree_ok t \<and> Suc depth + tree_depth t \<le> max_predicate_depth \<and> b = tree_value t"
  shows "bindE (mapE (evaluate ctx (Suc depth)) (map tree_predicate ts)) (\<lambda>r. Inr (f r)) = Inr b \<longleftrightarrow>
     list_all tree_ok ts \<and> depth + Suc (foldr max (map tree_depth ts) 0) \<le> max_predicate_depth
     \<and> b = f (map tree_value ts)"
  using foldr_max_bound [of "map tree_depth ts" "Suc depth" max_predicate_depth] assms(2)
  by (auto simp: bindE_Inr_iff evaluate_children [OF IH])

lemma evaluate_tree:
  "evaluate ctx depth (tree_predicate t) = Inr b \<longleftrightarrow>
     tree_ok t \<and> depth + tree_depth t \<le> max_predicate_depth \<and> b = tree_value t"
proof (induction t arbitrary: depth b)
  case (Leaf x)
  then show ?case
    by (cases "depth \<le> max_predicate_depth") (auto simp: evaluate_operators evaluate_too_deep)
next
  case (NotNode t)
  then show ?case
    by (cases "depth \<le> max_predicate_depth") (auto simp: evaluate_operators evaluate_too_deep bindE_Inr_iff)
next
  case (AllNode ts)
  show ?case
  proof (cases "depth \<le> max_predicate_depth \<and> 1 \<le> length ts \<and> length ts \<le> max_predicate_list_length")
    case True
    moreover from True have "ts \<noteq> []" by auto
    ultimately show ?thesis
      using evaluate_nodes [of depth ts ctx "list_all id" b] AllNode.IH
      by (simp add: evaluate_operators predicate_list_def list.pred_map comp_def)
  qed (cases "depth \<le> max_predicate_depth"; auto simp: evaluate_operators evaluate_too_deep predicate_list_def)
next
  case (AnyNode ts)
  show ?case
  proof (cases "depth \<le> max_predicate_depth \<and> 1 \<le> length ts \<and> length ts \<le> max_predicate_list_length")
    case True
    moreover from True have "ts \<noteq> []" by auto
    ultimately show ?thesis
      using evaluate_nodes [of depth ts ctx "list_ex id" b] AnyNode.IH
      by (simp add: evaluate_operators predicate_list_def list_ex_iff)
  qed (cases "depth \<le> max_predicate_depth"; auto simp: evaluate_operators evaluate_too_deep predicate_list_def)
qed


subsection \<open>File evidence\<close>

lemma path_allowed_denied:
  "is_raw_state_denied s \<or> is_credential_path_denied s \<Longrightarrow> \<exists>e. assert_predicate_path_allowed s = Inl e"
  by (cases "is_raw_state_denied s") (auto simp: assert_predicate_path_allowed_def assert_paths_retrievable_def)

lemma repo_path_denied:
  assumes "is_raw_state_denied s \<or> is_credential_path_denied s"
  shows "\<exists>e. predicate_error e \<and> (\<forall>env. repo_path env (PStr s) = Inl e)"
proof -
  obtain e where e: "assert_predicate_path_allowed s = Inl e" using path_allowed_denied [OF assms] by blast
  define r where "r = bindE (bounded_string (PStr s) ''repo-relative path'') (\<lambda>relative.
     if path_root relative \<noteq> [] then Inl (PredicateContractError ''repo-relative path must not be absolute'')
     else bindE (reject_unsafe_relative_path_parts (path_parts relative)) (\<lambda>_. Inl e :: exn + string list))"
  have same: "bounded_string (PStr s) ''repo-relative path'' = Inr x \<Longrightarrow> x = s" for x
    by (auto simp: bounded_string_def nonempty_str_def split: if_splits)
  then have "repo_path env (PStr s) = r" for env
    by (cases "bounded_string (PStr s) ''repo-relative path''") (auto simp: repo_path_def r_def e)
  moreover have "r \<noteq> Inr x" for x by (auto simp: r_def err_simps split: if_splits)
  then obtain e' where "r = Inl e'" by (cases r) auto
  moreover have "predicate_error e'" if "r = Inl e'" for e'
    using that e by (auto simp: r_def raise_simps dest: checks_error)
  ultimately show ?thesis by blast
qed

lemma eval_file_denied:
  assumes "is_raw_state_denied s \<or> is_credential_path_denied s"
  shows "\<exists>e. predicate_error e \<and> (\<forall>ctx. evaluate ctx 0 (PDict [(''op'', PStr ''file_exists''), (''path'', PStr s)]) = Inl e)"
    and "\<exists>e. predicate_error e \<and>
      (\<forall>ctx. evaluate ctx 0 (PDict [(''op'', PStr ''file_sha256''), (''path'', PStr s), (''sha256'', h)]) = Inl e)"
proof -
  obtain e where e: "predicate_error e" "repo_path env (PStr s) = Inl e" for env using repo_path_denied [OF assms] by blast
  have op: "evaluate ctx 0 (PDict [(''op'', PStr ''file_exists''), (''path'', PStr s)]) = Inl e" for ctx
    using e(2) by (simp add: evaluate_dict max_predicate_depth_def require_keys_def keys_are_def
        getitem_def dict_get_def nonempty_str_def eval_file_exists_def)
  then show "\<exists>e. predicate_error e \<and> (\<forall>ctx. evaluate ctx 0 (PDict [(''op'', PStr ''file_exists''), (''path'', PStr s)]) = Inl e)"
    using e(1) by blast
  let ?d = "[(''op'', PStr ''file_sha256''), (''path'', PStr s), (''sha256'', h)]"
  have sha: "evaluate ctx 0 (PDict ?d) = eval_file_sha256 ctx ?d" for ctx
    by (simp add: evaluate_dict max_predicate_depth_def dict_get_def nonempty_str_def)
  have "\<exists>e'. predicate_error e' \<and> (\<forall>ctx. eval_file_sha256 ctx ?d = Inl e')"
  proof -
    let ?bad = "PredicateContractError ''file_sha256 expected hash must be lowercase SHA-256''"
    have "eval_file_sha256 ctx ?d = Inl (case str_value h of None \<Rightarrow> ?bad | Some t \<Rightarrow> if is_sha256_text t then e else ?bad)" for ctx
      using e by (simp add: eval_file_sha256_def require_keys_def keys_are_def getitem_def str_value_def split: option.split pyval.split)
    moreover have "predicate_error (case str_value h of None \<Rightarrow> ?bad | Some t \<Rightarrow> if is_sha256_text t then e else ?bad)"
      using e by (simp split: option.split)
    ultimately show ?thesis by blast
  qed
  then show "\<exists>e. predicate_error e \<and> (\<forall>ctx. evaluate ctx 0 (PDict ?d) = Inl e)" unfolding sha .
qed

lemma sha256_file_returns:
  assumes "sha256_file env ps st = Inr h"
  shows "\<exists>opened data. os_open_file env ps = Inr (opened, Inr data) \<and> h = sha256_hex data \<and>
     st_kind opened = Regular \<and> st_nlink opened \<le> 1 \<and> stat_identity opened = stat_identity st \<and>
     length data \<le> max_file_evidence_bytes"
  using assms
  by (auto simp: sha256_file_def mapErr_def validate_opened_file_stat_def raise_if_multi_link_file_def
      err_simps split: if_splits sum.splits)

subsection \<open>Credential names\<close>

lemma ends_with_append: "ends_with (t @ p) q \<Longrightarrow> ends_with p q \<or> ends_with q p"
  by (auto simp: ends_with_iff append_eq_append_conv2)

lemma backup_suffixes_apart:
  "list_all (\<lambda>p. list_all (\<lambda>q. ends_with q p \<longrightarrow> q = p) credential_backup_suffixes) credential_backup_suffixes"
  by (simp add: credential_backup_suffixes_def ends_with_def)

lemma backup_suffix_append:
  assumes p: "p \<in> set credential_backup_suffixes" and t: "t \<noteq> []"
  shows "backup_suffix (t @ p) = Some p"
proof -
  have "ends_with (t @ p) p \<and> length (t @ p) > length p" using t by (auto simp: ends_with_iff)
  then obtain q where q: "backup_suffix (t @ p) = Some q"
    using find_exists [OF p, of "\<lambda>q. ends_with (t @ p) q \<and> length (t @ p) > length q"]
    unfolding backup_suffix_def by blast
  then have "q \<in> set credential_backup_suffixes" "ends_with (t @ p) q"
    using find_SomeD [OF q [unfolded backup_suffix_def]] by simp_all
  then have "q = p" using ends_with_append backup_suffixes_apart p unfolding list_all_iff by metis
  then show ?thesis using q by simp
qed

lemma variants_chain:
  assumes "c \<noteq> []" "set chain \<subseteq> set credential_backup_suffixes"
  shows "c \<in> set (credential_name_variants (c @ concat chain))"
  using assms(2)
proof (induction chain rule: rev_induct)
  case Nil
  show ?case by (subst credential_name_variants.simps) simp
next
  case (snoc p chain)
  have "backup_suffix ((c @ concat chain) @ p) = Some p"
    by (rule backup_suffix_append) (use snoc.prems assms(1) in auto)
  moreover have "drop_suffix (c @ concat chain @ p) p = c @ concat chain"
    using drop_suffix_append [of "c @ concat chain" p] by simp
  ultimately show ?case using snoc by (subst credential_name_variants.simps) simp
qed

lemma credential_names_nonempty: "[] \<notin> set credential_file_names"
  by (simp add: credential_file_names_def)

lemma credential_component_denied:
  assumes "n \<in> set (path_parts (slash_path path))" "casefold n = c @ concat chain"
    "c \<in> set credential_file_names" "set chain \<subseteq> set credential_backup_suffixes"
  shows "is_credential_path_denied path"
proof -
  have "c \<noteq> []" using assms(3) credential_names_nonempty by metis
  then have "c \<in> set (credential_name_variants (casefold n))" "credential_candidate c"
    using variants_chain assms by (simp_all add: credential_candidate_def Let_def)
  then show ?thesis using assms(1)
    unfolding is_credential_path_denied_def Let_def list_ex_iff by auto
qed

subsection \<open>Properties\<close>

text \<open>
  C12: predicates built from literals with \<^verbatim>\<open>not\<close>, \<^verbatim>\<open>all\<close> and \<^verbatim>\<open>any\<close> evaluate to a boolean exactly
  when they nest at most 32 levels deep and every list has 1 to 64 members, and then to the
  value that the connectives have in logic.
\<close>

theorem connectives_correct:
  "evaluate ctx 0 (tree_predicate t) = Inr b \<longleftrightarrow>
     tree_ok t \<and> tree_depth t \<le> max_predicate_depth \<and> b = tree_value t"
  using evaluate_tree [of ctx 0 t b] by simp

definition demo_os :: os_env where
  "demo_os =
     \<lparr>os_lstat = \<lambda>p. Inr \<lparr>st_kind = Regular, st_permissions = 0, st_size = 3, st_nlink = 1, st_dev = 1, st_ino = 7\<rparr>,
      os_open_dir = \<lambda>p. Inr \<lparr>st_kind = Directory, st_permissions = 0, st_size = 0, st_nlink = 2, st_dev = 1, st_ino = 2\<rparr>,
      os_stat_at = \<lambda>p. Inr \<lparr>st_kind = Regular, st_permissions = 0, st_size = 3, st_nlink = 1, st_dev = 1, st_ino = 7\<rparr>,
      os_open_file = \<lambda>p. Inr (\<lparr>st_kind = Regular, st_permissions = 0, st_size = 3, st_nlink = 1, st_dev = 1, st_ino = 7\<rparr>,
        Inr ''abc'')\<rparr>"

definition demo_context :: predicate_context where
  "demo_context = \<lparr>pc_os = demo_os, json_documents = PDict [], command_results = PDict []\<rparr>"

text \<open>
  C29: a \<^verbatim>\<open>file_sha256\<close> predicate answers only about a regular file with one link of at most 8 MiB that
  did not change identity between the check and the read, and it answers true exactly when the
  SHA-256 of the content is the expected one.
\<close>

theorem file_sha256_sound:
  assumes "evaluate ctx 0 (PDict [(''op'', PStr ''file_sha256''), (''path'', PStr path), (''sha256'', PStr h)]) = Inr b"
  shows "\<exists>parts checked opened data.
    os_stat_at (pc_os ctx) parts = Inr checked \<and> os_open_file (pc_os ctx) parts = Inr (opened, Inr data) \<and>
    parts = path_parts path \<and> st_kind opened = Regular \<and> st_nlink opened \<le> 1 \<and>
    stat_identity opened = stat_identity checked \<and> length data \<le> max_file_evidence_bytes \<and>
    (b \<longleftrightarrow> sha256_hex data = h)"
proof -
  let ?p = "[(''op'', PStr ''file_sha256''), (''path'', PStr path), (''sha256'', PStr h)]"
  have "eval_file_sha256 ctx ?p = Inr b"
    using assms by (simp add: evaluate_dict max_predicate_depth_def dict_get_def nonempty_str_def)
  then obtain st actual where st: "repo_path (pc_os ctx) (PStr path) = Inr (path_parts path)"
      "repo_path_stat (pc_os ctx) (path_parts path) ''file_sha256 evidence'' = Inr (Some st)"
    and hash: "sha256_file (pc_os ctx) (path_parts path) st = Inr actual" "b = (actual = h)"
    by (auto simp: eval_file_sha256_def err_simps repo_path_def bounded_string_def str_value_def split: option.splits)
  have "os_stat_at (pc_os ctx) (path_parts path) = Inr st"
    using st(2) by (auto simp: repo_path_stat_def stat_repo_path_nofollow_def err_simps split: sum.splits if_splits)
  with sha256_file_returns [OF hash(1)] hash(2) show ?thesis by blast
qed

lemma demo_sha256:
  "evaluate demo_context 0 (PDict [(''op'', PStr ''file_sha256''), (''path'', PStr ''a''), (''sha256'', PStr (replicate 64 (CHR ''0'')))])
     = Inr (sha256_hex ''abc'' = replicate 64 (CHR ''0''))"
proof -
  have path: "repo_path demo_os (PStr ''a'') = Inr [''a'']" by code_simp
  have stat: "repo_path_stat demo_os [''a''] ''file_sha256 evidence''
      = Inr (Some \<lparr>st_kind = Regular, st_permissions = 0, st_size = 3, st_nlink = 1, st_dev = 1, st_ino = 7\<rparr>)"
    by code_simp
  have hex: "is_sha256_text (replicate 64 (CHR ''0''))" by code_simp
  show ?thesis
    by (simp add: evaluate_dict max_predicate_depth_def dict_get_def nonempty_str_def eval_file_sha256_def
        require_keys_def keys_are_def getitem_def str_value_def hex demo_context_def path stat
        raise_if_multi_link_file_def sha256_file_def mapErr_def open_parent_directory_nofollow_def
        open_directory_def validate_opened_file_stat_def stat_identity_def max_file_evidence_bytes_def
        ) (simp add: demo_os_def open_directory_def raise_if_multi_link_file_def max_file_evidence_bytes_def)
qed

lemma file_sha256_sound_witness:
  "\<exists>parts checked opened data.
    os_stat_at (pc_os demo_context) parts = Inr checked \<and> os_open_file (pc_os demo_context) parts = Inr (opened, Inr data) \<and>
    parts = path_parts ''a'' \<and> st_kind opened = Regular \<and> st_nlink opened \<le> 1 \<and>
    stat_identity opened = stat_identity checked \<and> length data \<le> max_file_evidence_bytes \<and>
    ((sha256_hex ''abc'' = replicate 64 (CHR ''0'')) \<longleftrightarrow> sha256_hex data = replicate 64 (CHR ''0''))"
  by (rule file_sha256_sound) (rule demo_sha256)

text \<open>
  C31: a path is refused as soon as one of its components is, up to letter case, one of the
  known credential files or directories, also with any number of backup suffixes.
\<close>

theorem credential_files_denied:
  assumes "n \<in> set (path_parts (slash_path path))" "casefold n = c @ concat chain"
    "c \<in> set credential_file_names" "set chain \<subseteq> set credential_backup_suffixes"
  shows "is_credential_path_denied path"
  using assms by (rule credential_component_denied)

lemma credential_files_denied_witness: "is_credential_path_denied ''home/.SSH.bak~/x''"
  by (rule credential_files_denied [of "''.SSH.bak~''" _ "''.ssh''" "[''.bak'', ''~'']"]) code_simp+

end
