(* ===== verification/GitConfig.thy ===== *)
theory GitConfig
  imports Predicates Json
begin

section \<open>Git configuration files (predicates.py, configparser)\<close>

text \<open>
  The predicate evaluator reads git configuration with Python's \<^verbatim>\<open>configparser\<close>
  (\<^verbatim>\<open>interpolation=None, strict=False\<close>): sections of options, \<^verbatim>\<open>=\<close> and \<^verbatim>\<open>:\<close> as delimiters, full-line
  comments, values continued by deeper indentation, and a \<^verbatim>\<open>DEFAULT\<close> section that every section
  inherits. \<open>parse_config\<close> answers \<open>None\<close> for any \<^verbatim>\<open>configparser.Error\<close>.
\<close>

subsection \<open>Reading\<close>

definition lower :: "string \<Rightarrow> string" where
  "lower s = map (\<lambda>c. let n = (of_char c :: nat) in
     if (65 \<le> n \<and> n \<le> 90) \<or> (192 \<le> n \<and> n \<le> 222 \<and> n \<noteq> 215) then char_of (n + 32) else c) s"

type_synonym options = "(string \<times> string) list"

record git_config =
  cfg_defaults :: options
  cfg_sections :: "(string \<times> options) list"

text \<open>The reader's state: values are still lists of lines.\<close>

record config_reader =
  rd_defaults :: "(string \<times> string list) list"
  rd_sections :: "(string \<times> (string \<times> string list) list) list"
  rd_section :: "string option"
  rd_option :: "string option"
  rd_indent :: nat

text \<open>The current section's dictionary, with the default section under its own name.\<close>

definition reader_options :: "config_reader \<Rightarrow> string \<Rightarrow> (string \<times> string list) list" where
  "reader_options r sect =
     (if sect = ''DEFAULT'' then rd_defaults r
      else case map_of (rd_sections r) sect of None \<Rightarrow> [] | Some opts \<Rightarrow> opts)"

definition set_reader_options ::
    "string \<Rightarrow> (string \<times> string list) list \<Rightarrow> config_reader \<Rightarrow> config_reader" where
  "set_reader_options sect opts r =
     (if sect = ''DEFAULT'' then r\<lparr>rd_defaults := opts\<rparr>
      else r\<lparr>rd_sections := dict_set sect opts (rd_sections r)\<rparr>)"

definition append_line :: "string \<Rightarrow> config_reader \<Rightarrow> config_reader" where
  "append_line line r =
     (case (rd_section r, rd_option r) of
        (Some sect, Some name) \<Rightarrow>
          (let opts = reader_options r sect in
           case map_of opts name of
             None \<Rightarrow> r
           | Some ls \<Rightarrow> set_reader_options sect (dict_set name (ls @ [line]) opts) r)
      | _ \<Rightarrow> r)"

text \<open>\<^verbatim>\<open>\[(?P<header>.+)\]\<close>, greedy: up to the last closing bracket.\<close>

definition section_header :: "string \<Rightarrow> string option" where
  "section_header value =
     (case value of
        [] \<Rightarrow> None
      | c # rest \<Rightarrow>
          (if c \<noteq> CHR ''['' \<or> CHR '']'' \<notin> set rest then None
           else let header = rev (tl (dropWhile (\<lambda>x. x \<noteq> CHR '']'') (rev rest)))
                in if header = [] then None else Some header))"

definition is_delimiter :: "char \<Rightarrow> bool" where
  "is_delimiter c \<longleftrightarrow> c = CHR ''='' \<or> c = CHR '':''"

definition open_section :: "string \<Rightarrow> config_reader \<Rightarrow> config_reader" where
  "open_section sect r =
     (set_reader_options sect (reader_options r sect) r)\<lparr>rd_section := Some sect, rd_option := None\<rparr>"

definition read_option :: "string \<Rightarrow> string \<Rightarrow> config_reader \<Rightarrow> config_reader option" where
  "read_option sect value r =
     (let name = lower (rev (dropWhile is_space (rev (takeWhile (\<lambda>c. \<not> is_delimiter c) value))));
          rest = dropWhile (\<lambda>c. \<not> is_delimiter c) value
      in if rest = [] \<or> name = [] then None
         else Some ((set_reader_options sect (dict_set name [strip (tl rest)] (reader_options r sect)) r)
           \<lparr>rd_option := Some name\<rparr>))"

definition is_comment :: "string \<Rightarrow> bool" where
  "is_comment line \<longleftrightarrow> starts_with (strip line) ''#'' \<or> starts_with (strip line) '';''"

definition read_line :: "string \<Rightarrow> config_reader \<Rightarrow> config_reader option" where
  "read_line line r =
     (let value = strip line; indent = length (takeWhile is_space line) in
      if is_comment line then Some r
      else if value = [] then Some (append_line [] r)
      else if rd_section r \<noteq> None \<and> rd_option r \<noteq> None \<and> rd_indent r < indent then Some (append_line value r)
      else
        let r = r\<lparr>rd_indent := indent\<rparr> in
        case section_header value of
          Some sect \<Rightarrow> Some (open_section sect r)
        | None \<Rightarrow>
            (case rd_section r of
               None \<Rightarrow> None
             | Some sect \<Rightarrow> read_option sect value r))"

fun read_lines :: "string list \<Rightarrow> config_reader \<Rightarrow> config_reader option" where
  "read_lines [] r = Some r"
| "read_lines (line # ls) r = Option.bind (read_line line r) (read_lines ls)"

definition join_lines :: "(string \<times> string list) list \<Rightarrow> options" where
  "join_lines opts = map (\<lambda>(name, ls). (name, rev (dropWhile is_space (rev (join_with [CHR 0x0A] ls))))) opts"

definition parse_config :: "string \<Rightarrow> git_config option" where
  "parse_config text =
     (case read_lines (split_on (CHR 0x0A) text)
        \<lparr>rd_defaults = [], rd_sections = [], rd_section = None, rd_option = None, rd_indent = 0\<rparr> of
        None \<Rightarrow> None
      | Some r \<Rightarrow> Some \<lparr>cfg_defaults = join_lines (rd_defaults r),
          cfg_sections = map (\<lambda>(sect, opts). (sect, join_lines opts)) (rd_sections r)\<rparr>)"

subsection \<open>Lookups\<close>

definition cfg_section_names :: "git_config \<Rightarrow> string list" where
  "cfg_section_names cfg = map fst (cfg_sections cfg)"

definition cfg_options :: "git_config \<Rightarrow> string \<Rightarrow> string list" where
  "cfg_options cfg sect =
     (case map_of (cfg_sections cfg) sect of
        None \<Rightarrow> []
      | Some opts \<Rightarrow> map fst (foldl (\<lambda>d (k, v). dict_set k v d) opts (cfg_defaults cfg)))"

definition cfg_get :: "git_config \<Rightarrow> string \<Rightarrow> string \<Rightarrow> string option" where
  "cfg_get cfg sect name =
     (case map_of (cfg_sections cfg) sect of
        None \<Rightarrow> None
      | Some opts \<Rightarrow>
          (case map_of opts (lower name) of
             Some v \<Rightarrow> Some v
           | None \<Rightarrow> map_of (cfg_defaults cfg) (lower name)))"

text \<open>\<^verbatim>\<open>has_option\<close>: the default section stands for itself.\<close>

definition cfg_has_option :: "git_config \<Rightarrow> string \<Rightarrow> string \<Rightarrow> bool" where
  "cfg_has_option cfg sect name \<longleftrightarrow>
     (if sect = [] \<or> sect = ''DEFAULT'' then map_of (cfg_defaults cfg) (lower name) \<noteq> None
      else cfg_get cfg sect name \<noteq> None)"

text \<open>\<^verbatim>\<open>set\<close> and \<^verbatim>\<open>add_section\<close>, with the exceptions they document.\<close>

definition cfg_set :: "string \<Rightarrow> string \<Rightarrow> string \<Rightarrow> git_config \<Rightarrow> exn + git_config" where
  "cfg_set sect name value cfg =
     (case map_of (cfg_sections cfg) sect of
        None \<Rightarrow> Inl (OtherError ''NoSectionError'')
      | Some opts \<Rightarrow>
          Inr (cfg\<lparr>cfg_sections := dict_set sect (dict_set (lower name) value opts) (cfg_sections cfg)\<rparr>))"

definition cfg_add_section :: "string \<Rightarrow> git_config \<Rightarrow> exn + git_config" where
  "cfg_add_section sect cfg =
     (if sect = ''DEFAULT'' \<or> sect \<in> set (cfg_section_names cfg)
      then Inl (OtherError ''DuplicateSectionError'')
      else Inr (cfg\<lparr>cfg_sections := cfg_sections cfg @ [(sect, [])]\<rparr>))"

text \<open>\<^verbatim>\<open>getboolean\<close> on the text of an option; \<open>None\<close> is the \<^verbatim>\<open>ValueError\<close>.\<close>

definition boolean_state :: "string \<Rightarrow> bool option" where
  "boolean_state s =
     (if lower s \<in> {''1'', ''yes'', ''true'', ''on''} then Some True
      else if lower s \<in> {''0'', ''no'', ''false'', ''off''} then Some False else None)"

subsection \<open>Values of git options\<close>

definition supported_git_extensions :: "string list" where
  "supported_git_extensions = [''objectformat'', ''worktreeconfig'']"

definition invalid_metadata :: string where
  "invalid_metadata = ''repo root must contain valid Git metadata''"

text \<open>\<^verbatim>\<open>_GIT_CONFIG_CONTROL_CHAR_RE\<close> leaves out tab, line feed and carriage return.\<close>

definition is_config_control_char :: "char \<Rightarrow> bool" where
  "is_config_control_char c \<longleftrightarrow>
     (let n = (of_char c :: nat) in n \<le> 8 \<or> n = 11 \<or> n = 12 \<or> (14 \<le> n \<and> n \<le> 31) \<or> n = 127)"

definition is_config_int :: "string \<Rightarrow> bool" where
  "is_config_int s \<longleftrightarrow> s = ''0'' \<or> (s \<noteq> [] \<and> list_all is_digit s \<and> hd s \<noteq> CHR ''0'')"

definition git_config_section :: "git_config \<Rightarrow> string \<Rightarrow> exn + string option" where
  "git_config_section cfg sect =
     (let found = filter (\<lambda>candidate. casefold candidate = casefold sect) (cfg_section_names cfg)
      in if length found > 1 then Inl (PredicateContractError invalid_metadata)
         else Inr (if found = [] then None else Some (hd found)))"

definition git_config_value :: "git_config \<Rightarrow> string \<Rightarrow> string \<Rightarrow> string \<Rightarrow> exn + string" where
  "git_config_value cfg sect name message =
     bindE (git_config_section cfg sect) (\<lambda>actual.
       case actual of
         None \<Rightarrow> Inr []
       | Some s \<Rightarrow>
           (let value = (case cfg_get cfg s name of None \<Rightarrow> [] | Some v \<Rightarrow> v)
            in if list_ex is_git_control_char value \<or> length value > max_string_length
               then Inl (PredicateContractError message)
               else Inr (strip value)))"

definition git_config_optional :: "git_config \<Rightarrow> string \<Rightarrow> string \<Rightarrow> string \<Rightarrow> exn + string option" where
  "git_config_optional cfg sect name message =
     bindE (git_config_section cfg sect) (\<lambda>actual.
       case actual of
         None \<Rightarrow> Inr None
       | Some s \<Rightarrow>
           (if \<not> cfg_has_option cfg s name then Inr None
            else bindE (git_config_value cfg sect name message) (\<lambda>v. Inr (Some v))))"

definition get_boolean :: "git_config \<Rightarrow> string \<Rightarrow> string \<Rightarrow> string \<Rightarrow> exn + bool" where
  "get_boolean cfg sect name message =
     (case cfg_get cfg sect name of
        None \<Rightarrow> Inl (OtherError ''NoOptionError'')
      | Some v \<Rightarrow>
          (case boolean_state v of None \<Rightarrow> Inl (PredicateContractError message) | Some b \<Rightarrow> Inr b))"

definition git_config_bool :: "git_config \<Rightarrow> string \<Rightarrow> string \<Rightarrow> string \<Rightarrow> exn + bool" where
  "git_config_bool cfg sect name message =
     bindE (git_config_section cfg sect) (\<lambda>actual.
       case actual of
         None \<Rightarrow> Inr False
       | Some s \<Rightarrow>
           (if \<not> cfg_has_option cfg s name then Inr False
            else bindE (git_config_value cfg sect name message) (\<lambda>_. get_boolean cfg s name message)))"

subsection \<open>Reading, overlaying and checking a configuration\<close>

definition check_option :: "git_config \<Rightarrow> string \<Rightarrow> string \<Rightarrow> string \<Rightarrow> exn + unit" where
  "check_option cfg message sect name =
     (if list_ex is_git_control_char name then Inl (PredicateContractError message)
      else bindE (git_config_value cfg sect name message) (\<lambda>_. Inr ()))"

definition check_section :: "git_config \<Rightarrow> string \<Rightarrow> string \<Rightarrow> exn + unit" where
  "check_section cfg message sect =
     (if list_ex is_git_control_char sect then Inl (PredicateContractError message)
      else if casefold sect = ''include'' \<or> starts_with (casefold sect) ''includeif ''
      then Inl (PredicateContractError message)
      else forE (check_option cfg message sect) (cfg_options cfg sect))"

text \<open>\<open>contents\<close> is what \<^verbatim>\<open>path.read_text\<close> answers.\<close>

definition is_read_error :: "exn \<Rightarrow> bool" where
  "is_read_error e \<longleftrightarrow> is_os_error e \<or> (case e of UnicodeError _ \<Rightarrow> True | _ \<Rightarrow> False)"

definition read_git_config :: "exn + string \<Rightarrow> string \<Rightarrow> exn + git_config" where
  "read_git_config contents message =
     bindE (mapErr (\<lambda>e. if is_read_error e then PredicateContractError message else e) contents)
       (\<lambda>config_text.
       if list_ex is_config_control_char config_text then Inl (PredicateContractError message)
       else
         case parse_config config_text of
           None \<Rightarrow> Inl (PredicateContractError message)
         | Some cfg \<Rightarrow>
             bindE (forE (check_section cfg message) (cfg_section_names cfg)) (\<lambda>_. Inr cfg))"

fun overlay_options :: "git_config \<Rightarrow> string \<Rightarrow> string \<Rightarrow> string list \<Rightarrow> git_config \<Rightarrow> exn + git_config" where
  "overlay_options source sect target [] cfg = Inr cfg"
| "overlay_options source sect target (name # names) cfg =
     (case cfg_get source sect name of
        None \<Rightarrow> Inl (OtherError ''NoOptionError'')
      | Some v \<Rightarrow> bindE (cfg_set target name v cfg) (overlay_options source sect target names))"

fun overlay_sections :: "git_config \<Rightarrow> string list \<Rightarrow> git_config \<Rightarrow> exn + git_config" where
  "overlay_sections source [] cfg = Inr cfg"
| "overlay_sections source (sect # sects) cfg =
     bindE (git_config_section cfg sect) (\<lambda>found.
     bindE (case found of
              None \<Rightarrow> bindE (cfg_add_section sect cfg) (\<lambda>cfg'. Inr (sect, cfg'))
            | Some target \<Rightarrow> Inr (target, cfg)) (\<lambda>(target, cfg').
     bindE (overlay_options source sect target (cfg_options source sect) cfg')
       (overlay_sections source sects)))"

definition overlay_git_config :: "git_config \<Rightarrow> git_config \<Rightarrow> exn + git_config" where
  "overlay_git_config base over =
     bindE (overlay_sections base (cfg_section_names base) \<lparr>cfg_defaults = [], cfg_sections = []\<rparr>)
       (overlay_sections over (cfg_section_names over))"

text \<open>The loop over the options of \<^verbatim>\<open>extensions\<close>, with its two variables.\<close>

fun extension_options ::
    "git_config \<Rightarrow> string \<Rightarrow> string list \<Rightarrow> bool \<times> string \<Rightarrow> exn + (bool \<times> string)" where
  "extension_options cfg sect [] found = Inr found"
| "extension_options cfg sect (name # names) (worktree_config, object_format) =
     (if casefold name \<notin> set supported_git_extensions
      then Inl (PredicateContractError invalid_metadata)
      else
        bindE (git_config_value cfg ''extensions'' name invalid_metadata) (\<lambda>v.
        bindE (if casefold name = ''objectformat''
               then (if casefold v \<notin> {''sha1'', ''sha256''}
                     then Inl (PredicateContractError invalid_metadata) else Inr (casefold v))
               else Inr object_format) (\<lambda>object_format'.
        bindE (if casefold name = ''worktreeconfig''
               then bindE (get_boolean cfg sect name invalid_metadata) (\<lambda>b.
                      if \<not> b then Inl (PredicateContractError invalid_metadata) else Inr True)
               else Inr worktree_config) (\<lambda>worktree_config'.
        extension_options cfg sect names (worktree_config', object_format')))))"

definition validate_git_config_extensions :: "git_config \<Rightarrow> nat \<Rightarrow> exn + (bool \<times> string)" where
  "validate_git_config_extensions cfg version =
     bindE (git_config_section cfg ''extensions'') (\<lambda>found.
       case found of
         None \<Rightarrow> Inr (False, ''sha1'')
       | Some sect \<Rightarrow>
           (if cfg_options cfg sect = [] then Inl (PredicateContractError invalid_metadata)
            else if version \<noteq> 1 then Inl (PredicateContractError invalid_metadata)
            else extension_options cfg sect (cfg_options cfg sect) (False, ''sha1'')))"

end
