(* ===== verification/GitMetadata.thy ===== *)
theory GitMetadata
  imports GitConfig
begin

section \<open>The repository root (\<^verbatim>\<open>predicates.py\<close>)\<close>

text \<open>
  Before a predicate is evaluated its repository root must prove to be the top level of a git
  work tree: \<open>normalize_repo_root\<close> reads the \<^verbatim>\<open>.git\<close> entry, the HEAD, the configuration and, for a
  linked work tree, the binding back to the root. What the file system answers is the record
  \<open>git_fs\<close>; a path is the list of its parts, the root directory first.
\<close>

text \<open>
  \<open>fs_expand_root\<close> is \<^verbatim>\<open>Path(s).expanduser().resolve(strict=True)\<close>, \<open>fs_lstat\<close> is \<^verbatim>\<open>os.stat\<close>
  without following links, \<open>fs_read_text\<close> is \<^verbatim>\<open>read_text\<close> in UTF-8, \<open>fs_resolve\<close> is
  \<^verbatim>\<open>resolve(strict=True)\<close>.
\<close>

record git_fs =
  fs_expand_root :: "string \<Rightarrow> exn + string list"
  fs_is_dir :: "string list \<Rightarrow> exn + bool"
  fs_lstat :: "string list \<Rightarrow> exn + file_stat"
  fs_read_text :: "string list \<Rightarrow> exn + string"
  fs_resolve :: "string list \<Rightarrow> exn + string list"

definition require_regular_file_nofollow ::
    "git_fs \<Rightarrow> string list \<Rightarrow> string \<Rightarrow> nat \<Rightarrow> exn + file_stat" where
  "require_regular_file_nofollow fs path message max_size =
     bindE (fs_lstat fs path) (\<lambda>st.
       if st_kind st \<noteq> Regular then Inl (PredicateContractError message)
       else if st_size st > max_size then Inl (PredicateContractError message)
       else Inr st)"

definition require_directory_nofollow :: "git_fs \<Rightarrow> string list \<Rightarrow> string \<Rightarrow> exn + file_stat" where
  "require_directory_nofollow fs path message =
     bindE (fs_lstat fs path) (\<lambda>st.
       if st_kind st \<noteq> Directory then Inl (PredicateContractError message) else Inr st)"

definition read_git_metadata_line :: "git_fs \<Rightarrow> string list \<Rightarrow> string \<Rightarrow> exn + string" where
  "read_git_metadata_line fs path message =
     bindE (mapErr (\<lambda>e. if is_read_error e then PredicateContractError message else e) (fs_read_text fs path))
       (\<lambda>content.
       case splitlines content of
         [line] \<Rightarrow>
           (if line = [] \<or> line \<noteq> strip line \<or> list_ex is_git_control_char line
            then Inl (PredicateContractError message) else Inr line)
       | _ \<Rightarrow> Inl (PredicateContractError message))"

subsection \<open>Paths named in metadata files\<close>

fun reject_symlink_parts :: "git_fs \<Rightarrow> string \<Rightarrow> string list \<Rightarrow> string list \<Rightarrow> exn + unit" where
  "reject_symlink_parts fs message current [] = Inr ()"
| "reject_symlink_parts fs message current (part # rest) =
     (if part = [] \<or> part = ''.'' then reject_symlink_parts fs message current rest
      else
        case fs_lstat fs (current @ [part]) of
          Inl e \<Rightarrow> Inl (if is_os_error e then PredicateContractError message else e)
        | Inr st \<Rightarrow>
            (if st_kind st = Symlink then Inl (PredicateContractError message)
             else reject_symlink_parts fs message (current @ [part]) rest))"

definition reject_symlink_metadata_path :: "git_fs \<Rightarrow> string list \<Rightarrow> string \<Rightarrow> string \<Rightarrow> exn + unit" where
  "reject_symlink_metadata_path fs base raw_path message =
     (if path_root raw_path \<noteq> []
      then reject_symlink_parts fs message (path_root raw_path) (tl (path_parts raw_path))
      else reject_symlink_parts fs message base (path_parts raw_path))"

definition resolve_git_metadata_path :: "git_fs \<Rightarrow> string list \<Rightarrow> string \<Rightarrow> string \<Rightarrow> exn + string list" where
  "resolve_git_metadata_path fs base raw_path message =
     (if raw_path = [] \<or> raw_path \<noteq> strip raw_path \<or> CHR 0x00 \<in> set raw_path \<or>
         length raw_path > max_string_length
      then Inl (PredicateContractError message)
      else
        bindE (reject_symlink_metadata_path fs base raw_path message) (\<lambda>_.
        mapErr (\<lambda>e. if is_os_error e then PredicateContractError message else e)
          (fs_resolve fs (if path_root raw_path \<noteq> [] then path_parts raw_path
                          else base @ path_parts raw_path))))"

definition worktree_unsafe :: string where
  "worktree_unsafe = ''repo root gitdir core.worktree is outside safe bounds''"

definition resolve_git_worktree_path :: "git_fs \<Rightarrow> string \<Rightarrow> string list \<Rightarrow> exn + string list" where
  "resolve_git_worktree_path fs worktree_text base =
     (if worktree_text = [] \<or> CHR 0x00 \<in> set worktree_text \<or> worktree_text \<noteq> strip worktree_text \<or>
         length worktree_text > max_string_length
      then Inl (PredicateContractError worktree_unsafe)
      else resolve_git_metadata_path fs base worktree_text worktree_unsafe)"

subsection \<open>The binding of a linked work tree\<close>

definition require_gitdir_file_matches_root :: "git_fs \<Rightarrow> string list \<Rightarrow> string list \<Rightarrow> exn + unit" where
  "require_gitdir_file_matches_root fs git_dir root =
     bindE (require_regular_file_nofollow fs (git_dir @ [''gitdir''])
              ''repo root gitdir must bind the worktree'' max_string_length) (\<lambda>_.
     bindE (read_git_metadata_line fs (git_dir @ [''gitdir''])
              ''repo root gitdir file is outside safe bounds'') (\<lambda>gitdir_text.
     bindE (resolve_git_metadata_path fs git_dir gitdir_text
              ''repo root gitdir file does not match'') (\<lambda>worktree_git_file.
     bindE (fs_resolve fs (root @ [''.git''])) (\<lambda>expected_git_file.
       if worktree_git_file \<noteq> expected_git_file
       then Inl (PredicateContractError ''repo root gitdir file does not match'')
       else Inr ()))))"

text \<open>\<^verbatim>\<open>try: ... except FileNotFoundError: pass\<close>.\<close>

definition if_found :: "exn + 'a \<Rightarrow> exn + 'a option" where
  "if_found r = (case r of Inl e \<Rightarrow> (if is_not_found e then Inr None else Inl e) | Inr x \<Rightarrow> Inr (Some x))"

definition worktree_mismatch :: string where
  "worktree_mismatch = ''repo root gitdir core.worktree does not match''"

definition require_gitdir_worktree_matches_root :: "git_fs \<Rightarrow> string list \<Rightarrow> string list \<Rightarrow> exn + unit" where
  "require_gitdir_worktree_matches_root fs git_dir root =
     bindE (if_found (require_regular_file_nofollow fs (git_dir @ [''config'']) invalid_metadata
              max_file_evidence_bytes)) (\<lambda>config_stat.
       case config_stat of
         None \<Rightarrow> require_gitdir_file_matches_root fs git_dir root
       | Some _ \<Rightarrow>
           bindE (read_git_config (fs_read_text fs (git_dir @ [''config''])) invalid_metadata) (\<lambda>cfg.
             case cfg_get cfg ''core'' ''worktree'' of
               None \<Rightarrow> require_gitdir_file_matches_root fs git_dir root
             | Some worktree_text \<Rightarrow>
                 bindE (resolve_git_worktree_path fs worktree_text git_dir) (\<lambda>worktree.
                   if worktree \<noteq> root then Inl (PredicateContractError worktree_mismatch)
                   else bindE (if_found (require_gitdir_file_matches_root fs git_dir root)) (\<lambda>_. Inr ()))))"

definition git_common_dir :: "git_fs \<Rightarrow> string list \<Rightarrow> exn + string list" where
  "git_common_dir fs git_dir =
     bindE (if_found (require_regular_file_nofollow fs (git_dir @ [''commondir'']) invalid_metadata
              max_string_length)) (\<lambda>st.
       case st of
         None \<Rightarrow> Inr git_dir
       | Some _ \<Rightarrow>
           bindE (read_git_metadata_line fs (git_dir @ [''commondir'']) invalid_metadata) (\<lambda>content.
           bindE (resolve_git_metadata_path fs git_dir content invalid_metadata) (\<lambda>common_dir.
           bindE (require_directory_nofollow fs common_dir invalid_metadata) (\<lambda>_.
           Inr common_dir))))"

subsection \<open>HEAD, objects, references and configuration\<close>

definition is_hex_digit :: "char \<Rightarrow> bool" where
  "is_hex_digit c \<longleftrightarrow> (let n = (of_char c :: nat) in (48 \<le> n \<and> n \<le> 57) \<or> (97 \<le> n \<and> n \<le> 102))"

definition is_head_object :: "string \<Rightarrow> bool" where
  "is_head_object s \<longleftrightarrow> (length s = 40 \<or> length s = 64) \<and> list_all is_hex_digit s"

text \<open>The object id of a detached HEAD, \<open>None\<close> when HEAD names a reference.\<close>

definition detached_head :: "string \<Rightarrow> exn + string option" where
  "detached_head content =
     (if starts_with content ''ref: '' then
        (if \<not> is_valid_git_ref_name (drop 5 content) then Inl (PredicateContractError invalid_metadata)
         else Inr None)
      else if is_head_object content then Inr (Some content)
      else Inl (PredicateContractError invalid_metadata))"

definition validate_detached_head_object_format :: "string \<Rightarrow> string \<Rightarrow> exn + unit" where
  "validate_detached_head_object_format head_content object_format =
     (if length head_content \<noteq> (if object_format = ''sha256'' then 64 else 40)
      then Inl (PredicateContractError invalid_metadata) else Inr ())"

definition read_git_worktree_config :: "git_fs \<Rightarrow> string list \<Rightarrow> bool \<Rightarrow> exn + git_config option" where
  "read_git_worktree_config fs git_dir enabled =
     (if \<not> enabled then Inr None
      else
        bindE (if_found (require_regular_file_nofollow fs (git_dir @ [''config.worktree'']) invalid_metadata
                 max_file_evidence_bytes)) (\<lambda>st.
          case st of
            None \<Rightarrow> Inr None
          | Some _ \<Rightarrow>
              bindE (read_git_config (fs_read_text fs (git_dir @ [''config.worktree''])) invalid_metadata)
                (\<lambda>cfg. Inr (Some cfg))))"

definition repository_format_version :: "git_config \<Rightarrow> exn + nat" where
  "repository_format_version cfg =
     bindE (git_config_section cfg ''core'') (\<lambda>core_section.
       case core_section of
         None \<Rightarrow> Inl (PredicateContractError invalid_metadata)
       | Some core \<Rightarrow>
           (if \<not> cfg_has_option cfg core ''repositoryformatversion''
            then Inl (PredicateContractError invalid_metadata)
            else
              bindE (git_config_value cfg ''core'' ''repositoryformatversion'' invalid_metadata) (\<lambda>v.
                if \<not> is_config_int v then Inl (PredicateContractError invalid_metadata)
                else if nat_of_digits v \<notin> {0, 1} then Inl (PredicateContractError invalid_metadata)
                else Inr (nat_of_digits v))))"

definition check_effective_config ::
    "git_fs \<Rightarrow> git_config \<Rightarrow> string list \<Rightarrow> string list \<Rightarrow> exn + unit" where
  "check_effective_config fs cfg base root =
     bindE (git_config_bool cfg ''core'' ''bare'' invalid_metadata) (\<lambda>is_bare.
       if is_bare then Inl (PredicateContractError ''repo root must be a Git worktree'')
       else
         bindE (git_config_optional cfg ''core'' ''worktree'' invalid_metadata) (\<lambda>worktree_text.
           case worktree_text of
             None \<Rightarrow> Inr ()
           | Some t \<Rightarrow>
               bindE (resolve_git_worktree_path fs t base) (\<lambda>worktree.
                 if worktree \<noteq> root then Inl (PredicateContractError worktree_mismatch) else Inr ())))"

definition validate_git_metadata ::
    "git_fs \<Rightarrow> string list \<Rightarrow> string list \<Rightarrow> string list \<Rightarrow> exn + unit" where
  "validate_git_metadata fs git_dir common_dir root =
     bindE (require_regular_file_nofollow fs (git_dir @ [''HEAD'']) invalid_metadata max_string_length) (\<lambda>_.
     bindE (read_git_metadata_line fs (git_dir @ [''HEAD'']) invalid_metadata) (\<lambda>head_content.
     bindE (detached_head head_content) (\<lambda>detached.
     bindE (require_directory_nofollow fs (common_dir @ [''objects'']) invalid_metadata) (\<lambda>_.
     bindE (require_directory_nofollow fs (common_dir @ [''refs'']) invalid_metadata) (\<lambda>_.
     bindE (require_regular_file_nofollow fs (common_dir @ [''config'']) invalid_metadata
              max_file_evidence_bytes) (\<lambda>_.
     bindE (read_git_config (fs_read_text fs (common_dir @ [''config''])) invalid_metadata) (\<lambda>cfg.
     bindE (repository_format_version cfg) (\<lambda>version.
     bindE (validate_git_config_extensions cfg version) (\<lambda>(worktree_config, object_format).
     bindE (case detached of
              None \<Rightarrow> Inr ()
            | Some head \<Rightarrow> validate_detached_head_object_format head object_format) (\<lambda>_.
     bindE (read_git_worktree_config fs git_dir worktree_config) (\<lambda>worktree_cfg.
     bindE (case worktree_cfg of
              None \<Rightarrow> Inr cfg
            | Some w \<Rightarrow> overlay_git_config cfg w) (\<lambda>effective.
     check_effective_config fs effective (if worktree_cfg \<noteq> None then git_dir else common_dir) root))))))))))))"

subsection \<open>The root\<close>

definition git_entry_checks :: "git_fs \<Rightarrow> string list \<Rightarrow> exn + unit" where
  "git_entry_checks fs root =
     bindE (mapErr (\<lambda>e. if is_not_found e
                         then PredicateContractError ''repo root must be a Git worktree top level'' else e)
              (fs_lstat fs (root @ [''.git'']))) (\<lambda>st.
       case st_kind st of
         Symlink \<Rightarrow> Inl (PredicateContractError invalid_metadata)
       | Directory \<Rightarrow> validate_git_metadata fs (root @ [''.git'']) (root @ [''.git'']) root
       | Regular \<Rightarrow>
           (if st_size st > max_string_length
            then Inl (PredicateContractError ''repo root .git file is outside safe bounds'')
            else
              bindE (read_git_metadata_line fs (root @ [''.git'']) invalid_metadata) (\<lambda>content.
                if \<not> starts_with content ''gitdir: '' then Inl (PredicateContractError invalid_metadata)
                else
                  bindE (resolve_git_metadata_path fs root (drop 8 content) invalid_metadata) (\<lambda>git_dir.
                  bindE (require_directory_nofollow fs git_dir invalid_metadata) (\<lambda>_.
                  bindE (require_gitdir_worktree_matches_root fs git_dir root) (\<lambda>_.
                  bindE (git_common_dir fs git_dir) (\<lambda>common_dir.
                  validate_git_metadata fs git_dir common_dir root))))))
       | Special \<Rightarrow> Inl (PredicateContractError ''repo root must contain a valid .git entry''))"

definition require_git_worktree_top_level :: "git_fs \<Rightarrow> string list \<Rightarrow> exn + unit" where
  "require_git_worktree_top_level fs root =
     mapErr (\<lambda>e. if is_read_error e
                  then PredicateContractError ''repo root Git metadata cannot be inspected'' else e)
       (git_entry_checks fs root)"

text \<open>The root of the context: \<open>PStr\<close> is a path or its text, \<^verbatim>\<open>Path(...)\<close> refuses anything else.\<close>

definition normalize_repo_root :: "git_fs \<Rightarrow> pyval \<Rightarrow> exn + string list" where
  "normalize_repo_root fs repo_root =
     (case str_value repo_root of
        None \<Rightarrow> Inl (PredicateContractError ''repo root must be a filesystem path'')
      | Some s \<Rightarrow>
          bindE (mapErr (\<lambda>e. if is_os_error e then PredicateContractError ''repo root must exist'' else e)
                   (fs_expand_root fs s)) (\<lambda>root.
          bindE (fs_is_dir fs root) (\<lambda>is_dir.
            if \<not> is_dir then Inl (PredicateContractError ''repo root must be a directory'')
            else bindE (require_git_worktree_top_level fs root) (\<lambda>_. Inr root))))"

text \<open>
  The caller's context, and the whole call. \<open>dc_os\<close> is the file system below a root, as the
  evidence predicates see it.
\<close>

record document_context =
  dc_root :: pyval
  dc_git :: git_fs
  dc_os :: "string list \<Rightarrow> os_env"
  dc_json :: pyval
  dc_results :: pyval

definition evaluate_predicate_document :: "document_context \<Rightarrow> pyval \<Rightarrow> exn + bool" where
  "evaluate_predicate_document ctx document =
     (case document of
        PDict d \<Rightarrow>
          bindE (require_keys d [''backend'', ''predicate''] ''predicate document'') (\<lambda>_.
          bindE (getitem d ''backend'') (\<lambda>backend.
            if backend \<noteq> PStr ''agentic_predicate_inproc_v1''
            then Inl (PredicateContractError ''unsupported predicate backend'')
            else
              bindE (normalize_repo_root (dc_git ctx) (dc_root ctx)) (\<lambda>root.
              bindE (getitem d ''predicate'') (\<lambda>predicate.
              evaluate \<lparr>pc_os = dc_os ctx root, json_documents = dc_json ctx, command_results = dc_results ctx\<rparr>
                0 predicate))))
      | _ \<Rightarrow> Inl (PredicateContractError ''predicate document must be a JSON object''))"

end
