(* ===== verification/GitFacts.thy ===== *)
theory GitFacts
  imports GitMetadata
begin

section \<open>Facts about git configurations\<close>

text \<open>
  What every configuration that was read satisfies (\<open>config_ok\<close>): sections have distinct names,
  none is \<^verbatim>\<open>DEFAULT\<close>, and options are in lower case, so that the lookups of the program cannot miss.
\<close>

subsection \<open>Lower case\<close>

lemma lower_char_idem:
  fixes c :: char
  shows "(let n = (of_char c :: nat) in
     if (65 \<le> n \<and> n \<le> 90) \<or> (192 \<le> n \<and> n \<le> 222 \<and> n \<noteq> 215) then char_of (n + 32) else c) = d \<Longrightarrow>
   (let n = (of_char d :: nat) in
     if (65 \<le> n \<and> n \<le> 90) \<or> (192 \<le> n \<and> n \<le> 222 \<and> n \<noteq> 215) then char_of (n + 32) else d) = d"
  by (auto simp: Let_def split: if_splits)

lemma lower_idem [simp]: "lower (lower s) = lower s"
  unfolding lower_def by (auto simp: lower_char_idem)

subsection \<open>Configurations that were read\<close>

definition lower_keys :: "(string \<times> 'a) list \<Rightarrow> bool" where
  "lower_keys opts \<longleftrightarrow> (\<forall>k\<in>fst ` set opts. lower k = k)"

definition sections_ok :: "(string \<times> (string \<times> 'a) list) list \<Rightarrow> bool" where
  "sections_ok sects \<longleftrightarrow> distinct (map fst sects) \<and> ''DEFAULT'' \<notin> fst ` set sects \<and> [] \<notin> fst ` set sects \<and>
     (\<forall>opts\<in>snd ` set sects. lower_keys opts)"

definition config_ok :: "git_config \<Rightarrow> bool" where
  "config_ok cfg \<longleftrightarrow> lower_keys (cfg_defaults cfg) \<and> sections_ok (cfg_sections cfg)"

definition reader_ok :: "config_reader \<Rightarrow> bool" where
  "reader_ok r \<longleftrightarrow> lower_keys (rd_defaults r) \<and> sections_ok (rd_sections r) \<and> rd_section r \<noteq> Some [] \<and>
     (\<forall>name. rd_option r = Some name \<longrightarrow> lower name = name)"

lemma lower_keys_simps [simp]: "lower_keys []" "lower_keys (p # opts) \<longleftrightarrow> lower (fst p) = fst p \<and> lower_keys opts"
  by (auto simp: lower_keys_def)

lemma lower_keys_dict_set [simp]: "lower k = k \<Longrightarrow> lower_keys (dict_set k v opts) \<longleftrightarrow> lower_keys opts"
  by (induction k v opts rule: dict_set.induct) auto

lemma snd_dict_set: "snd ` set (dict_set k v d) \<subseteq> insert v (snd ` set d)"
  by (induction k v d rule: dict_set.induct) auto

lemma sections_ok_dict_set:
  assumes "sections_ok sects" "sect \<noteq> ''DEFAULT''" "sect \<noteq> []" "lower_keys opts"
  shows "sections_ok (dict_set sect opts sects)"
  using assms snd_dict_set [of sect opts sects] distinct_dict_set [of sects sect opts]
  unfolding sections_ok_def keys_dict_set by blast

lemma sections_ok_lookup: "sections_ok sects \<Longrightarrow> map_of sects sect = Some opts \<Longrightarrow> lower_keys opts"
  unfolding sections_ok_def by (metis image_eqI map_of_SomeD snd_conv)

lemma reader_options_ok: "reader_ok r \<Longrightarrow> lower_keys (reader_options r sect)"
  by (auto simp: reader_ok_def reader_options_def sections_ok_lookup split: option.splits)

lemma set_reader_options_ok:
  "reader_ok r \<Longrightarrow> lower_keys opts \<Longrightarrow> sect \<noteq> [] \<Longrightarrow> reader_ok (set_reader_options sect opts r)"
  by (auto simp: reader_ok_def set_reader_options_def sections_ok_dict_set)

lemma append_line_ok: "reader_ok r \<Longrightarrow> reader_ok (append_line line r)"
proof -
  assume r: "reader_ok r"
  have "reader_ok (set_reader_options sect (dict_set name ls (reader_options r sect)) r)"
    if "rd_section r = Some sect" "rd_option r = Some name" for sect name ls
    using that r reader_options_ok [OF r] by (intro set_reader_options_ok) (auto simp: reader_ok_def)
  with r show ?thesis by (simp add: append_line_def Let_def split: option.splits)
qed

lemma section_header_nonempty: "section_header value = Some sect \<Longrightarrow> sect \<noteq> []"
  by (auto simp: section_header_def Let_def split: list.splits if_splits)

lemma read_line_ok:
  assumes "reader_ok r" "read_line line r = Some r'"
  shows "reader_ok r'"
proof -
  have indent: "reader_ok (r\<lparr>rd_indent := n\<rparr>)" for n
    using assms(1) by (auto simp: reader_ok_def)
  have fresh: "reader_ok (open_section sect s)" if "reader_ok s" "sect \<noteq> []" for sect s
    using set_reader_options_ok [OF that(1) reader_options_ok [OF that(1)] that(2)] that(2)
    by (auto simp: open_section_def reader_ok_def)
  have option: "reader_ok s'" if "reader_ok s" "rd_section s = Some sect" "read_option sect v s = Some s'" for sect v s s'
    using that reader_options_ok [OF that(1)]
      set_reader_options_ok [OF that(1), of _ sect]
    by (auto simp: read_option_def Let_def reader_ok_def set_reader_options_def sections_ok_dict_set split: if_splits)
  show ?thesis
    using assms fresh [OF indent section_header_nonempty] option [OF indent]
    by (auto simp: read_line_def Let_def append_line_ok split: if_splits option.splits)
qed

lemma read_lines_ok: "reader_ok r \<Longrightarrow> read_lines ls r = Some r' \<Longrightarrow> reader_ok r'"
  by (induction ls r rule: read_lines.induct) (auto simp: bind_eq_Some_conv dest: read_line_ok)

lemma lower_keys_map: "lower_keys (map (\<lambda>(k, v). (k, f v)) opts) = lower_keys opts"
  by (induction opts) auto

lemma parse_config_ok:
  assumes "parse_config s = Some cfg"
  shows "config_ok cfg"
proof -
  have start: "reader_ok \<lparr>rd_defaults = [], rd_sections = [], rd_section = None, rd_option = None, rd_indent = 0\<rparr>"
    by (simp add: reader_ok_def sections_ok_def)
  obtain r where r: "reader_ok r" "cfg = \<lparr>cfg_defaults = join_lines (rd_defaults r),
      cfg_sections = map (\<lambda>(sect, opts). (sect, join_lines opts)) (rd_sections r)\<rparr>"
    using assms read_lines_ok [OF start] by (auto simp: parse_config_def split: option.splits)
  have names: "map fst (map (\<lambda>(sect, opts). (sect, join_lines opts)) xs) = map fst xs" for xs
    by (induction xs) auto
  have "fst ` set (map (\<lambda>(sect, opts). (sect, join_lines opts)) (rd_sections r)) = fst ` set (rd_sections r)"
    using arg_cong [OF names, of set] by (simp add: image_image)
  moreover have "lower_keys (join_lines opts) = lower_keys opts" for opts
    by (simp add: join_lines_def lower_keys_map)
  ultimately show ?thesis
    using r names [of "rd_sections r"]
    by (simp add: reader_ok_def config_ok_def sections_ok_def case_prod_unfold comp_def)
qed

subsection \<open>Lookups do not miss\<close>

lemma key_lookup: "k \<in> fst ` set d \<longleftrightarrow> (\<exists>v. map_of d k = Some v)"
  by (metis map_of_eq_None_iff not_None_eq)

lemma keys_fold_set: "fst ` set (foldl (\<lambda>d (k, v). dict_set k v d) opts defaults) = fst ` set opts \<union> fst ` set defaults"
  by (induction defaults arbitrary: opts) (simp_all add: case_prod_unfold)

lemma cfg_options_lookup:
  assumes "config_ok cfg" "name \<in> set (cfg_options cfg sect)"
  shows "lower name = name \<and> (\<exists>v. cfg_get cfg sect name = Some v)"
proof -
  obtain opts where opts: "map_of (cfg_sections cfg) sect = Some opts"
    and name: "name \<in> fst ` set opts \<union> fst ` set (cfg_defaults cfg)"
    using assms(2) unfolding cfg_options_def set_map
    by (cases "map_of (cfg_sections cfg) sect") (simp_all only: option.case set_map keys_fold_set, simp)
  have "lower_keys opts" using assms(1) opts sections_ok_lookup by (auto simp: config_ok_def)
  then have "lower name = name" using name assms(1) by (auto simp: lower_keys_def config_ok_def)
  moreover from this have "cfg_get cfg sect name \<noteq> None"
    using name opts by (simp add: cfg_get_def key_lookup split: option.split) auto
  ultimately show ?thesis by auto
qed

lemma cfg_options_iff:
  assumes "config_ok cfg"
  shows "lower name \<in> set (cfg_options cfg sect) \<longleftrightarrow> cfg_get cfg sect name \<noteq> None"
proof (cases "map_of (cfg_sections cfg) sect")
  case (Some opts)
  then have "lower name \<in> set (cfg_options cfg sect) \<longleftrightarrow> lower name \<in> fst ` set opts \<union> fst ` set (cfg_defaults cfg)"
    unfolding cfg_options_def by (simp only: option.case set_map keys_fold_set)
  then show ?thesis using Some
    by (simp add: cfg_get_def key_lookup split: option.split)
qed (simp add: cfg_options_def cfg_get_def)

lemma cfg_has_option_iff:
  "config_ok cfg \<Longrightarrow> sect \<in> set (cfg_section_names cfg) \<Longrightarrow>
    cfg_has_option cfg sect name \<longleftrightarrow> cfg_get cfg sect name \<noteq> None"
  unfolding cfg_has_option_def config_ok_def sections_ok_def cfg_section_names_def set_map by metis

lemma git_config_section_Some:
  "git_config_section cfg sect = Inr (Some s) \<Longrightarrow> s \<in> set (cfg_section_names cfg) \<and> casefold s = casefold sect"
  using hd_in_set [of "filter (\<lambda>candidate. casefold candidate = casefold sect) (cfg_section_names cfg)"]
  by (simp add: git_config_section_def Let_def split: if_splits)


subsection \<open>Overlays keep the configuration well formed\<close>

lemma cfg_set_ok:
  assumes "config_ok cfg" "cfg_set sect name v cfg = Inr cfg'"
  shows "config_ok cfg' \<and> cfg_section_names cfg' = cfg_section_names cfg"
proof -
  obtain opts where opts: "map_of (cfg_sections cfg) sect = Some opts"
    "cfg' = cfg\<lparr>cfg_sections := dict_set sect (dict_set (lower name) v opts) (cfg_sections cfg)\<rparr>"
    using assms(2) by (auto simp: cfg_set_def split: option.splits)
  have sects: "sections_ok (cfg_sections cfg)" using assms(1) by (simp add: config_ok_def)
  have sect: "sect \<in> fst ` set (cfg_sections cfg)" using opts(1) by (simp add: key_lookup)
  have "map fst (dict_set k w d) = map fst d" if "k \<in> fst ` set d" for k :: string and w and d :: "(string \<times> options) list"
    using that by (induction k w d rule: dict_set.induct) auto
  then have "cfg_section_names cfg' = cfg_section_names cfg"
    using sect opts(2) by (simp add: cfg_section_names_def)
  moreover have "sect \<noteq> ''DEFAULT'' \<and> sect \<noteq> []" using sects sect unfolding sections_ok_def by metis
  ultimately show ?thesis
    using assms(1) opts sects sections_ok_lookup [OF sects opts(1)] sections_ok_dict_set [OF sects]
    by (simp add: config_ok_def)
qed

lemma cfg_add_section_ok:
  assumes "config_ok cfg" "cfg_add_section sect cfg = Inr cfg'" "sect \<noteq> []"
  shows "config_ok cfg' \<and> cfg_section_names cfg' = cfg_section_names cfg @ [sect]"
proof -
  have cfg': "cfg' = cfg\<lparr>cfg_sections := cfg_sections cfg @ [(sect, [])]\<rparr>" "sect \<noteq> ''DEFAULT''"
      "sect \<notin> fst ` set (cfg_sections cfg)"
    using assms(2) by (simp_all add: cfg_add_section_def cfg_section_names_def split: if_splits)
  then show ?thesis using assms(1,3)
    unfolding config_ok_def sections_ok_def cfg_section_names_def by simp
qed

lemma overlay_options_ok:
  "config_ok cfg \<Longrightarrow> overlay_options source sect target names cfg = Inr cfg' \<Longrightarrow>
    config_ok cfg' \<and> cfg_section_names cfg' = cfg_section_names cfg"
  by (induction source sect target names cfg rule: overlay_options.induct)
    (auto simp: err_simps split: option.splits dest: cfg_set_ok)

lemma overlay_target:
  assumes "config_ok cfg" "sect \<noteq> []" "git_config_section cfg sect = Inr found_section"
    and "(case found_section of
            None \<Rightarrow> bindE (cfg_add_section sect cfg) (\<lambda>cfg'. Inr (sect, cfg'))
          | Some target \<Rightarrow> Inr (target, cfg)) = Inr (target, cfg')"
  shows "config_ok cfg' \<and> target \<in> set (cfg_section_names cfg') \<and> casefold target = casefold sect \<and>
    cfg_section_names cfg' = (if found_section = None then cfg_section_names cfg @ [sect] else cfg_section_names cfg)"
  using assms git_config_section_Some [of cfg sect] cfg_add_section_ok [OF assms(1) _ assms(2)]
  by (cases found_section) (auto simp: bindE_Inr_iff)

lemma overlay_sections_ok:
  "config_ok cfg \<Longrightarrow> [] \<notin> set sects \<Longrightarrow> overlay_sections source sects cfg = Inr cfg' \<Longrightarrow> config_ok cfg'"
proof (induction source sects cfg rule: overlay_sections.induct)
  case (2 source sect sects cfg)
  then obtain fs target cfg1 cfg2 where step: "git_config_section cfg sect = Inr fs"
    "(case fs of None \<Rightarrow> bindE (cfg_add_section sect cfg) (\<lambda>cfg'. Inr (sect, cfg')) | Some t \<Rightarrow> Inr (t, cfg)) = Inr (target, cfg1)"
    "overlay_options source sect target (cfg_options source sect) cfg1 = Inr cfg2"
    "overlay_sections source sects cfg2 = Inr cfg'"
    by (auto simp: bindE_Inr_iff)
  have "config_ok cfg1" using overlay_target [OF 2(2) _ step(1,2)] 2(3) by auto
  then have "config_ok cfg2" using overlay_options_ok step(3) by blast
  then show ?case using 2 step by auto
qed simp

lemma section_names_nonempty: "config_ok cfg \<Longrightarrow> [] \<notin> set (cfg_section_names cfg)"
  unfolding config_ok_def sections_ok_def cfg_section_names_def by simp

lemma section_name_facts: "config_ok cfg \<Longrightarrow> s \<in> set (cfg_section_names cfg) \<Longrightarrow> s \<noteq> [] \<and> s \<noteq> ''DEFAULT''"
  unfolding config_ok_def sections_ok_def cfg_section_names_def set_map by metis

lemma empty_config_ok: "config_ok \<lparr>cfg_defaults = [], cfg_sections = []\<rparr>"
  by (simp add: config_ok_def sections_ok_def)

lemma overlay_ok:
  assumes "config_ok base" "config_ok over" "overlay_git_config base over = Inr cfg"
  shows "config_ok cfg"
proof -
  obtain cfg1 where "overlay_sections base (cfg_section_names base) \<lparr>cfg_defaults = [], cfg_sections = []\<rparr> = Inr cfg1"
    "overlay_sections over (cfg_section_names over) cfg1 = Inr cfg"
    using assms(3) by (auto simp: overlay_git_config_def bindE_Inr_iff)
  then show ?thesis
    using overlay_sections_ok empty_config_ok section_names_nonempty assms(1,2) by blast
qed

subsection \<open>What an overlay looks up\<close>

definition unique_sections :: "git_config \<Rightarrow> bool" where
  "unique_sections cfg \<longleftrightarrow> distinct (map casefold (cfg_section_names cfg))"

text \<open>The value of an option, sections compared without letter case.\<close>

definition option_of :: "git_config \<Rightarrow> string \<Rightarrow> string \<Rightarrow> string option" where
  "option_of cfg sect name =
     (case find (\<lambda>c. casefold c = casefold sect) (cfg_section_names cfg) of
        None \<Rightarrow> None | Some s \<Rightarrow> cfg_get cfg s name)"

definition or_else :: "'a option \<Rightarrow> 'a option \<Rightarrow> 'a option" where
  "or_else a b = (case a of Some v \<Rightarrow> Some v | None \<Rightarrow> b)"

lemma or_else_simps [simp]: "or_else (Some v) b = Some v" "or_else None b = b"
  by (simp_all add: or_else_def)

lemma unique_filter:
  "distinct (map f xs) \<Longrightarrow> filter (\<lambda>c. f c = k) xs = (case find (\<lambda>c. f c = k) xs of None \<Rightarrow> [] | Some x \<Rightarrow> [x])"
proof (induction xs)
  case (Cons x xs)
  have "filter (\<lambda>c. f c = k) xs = [] \<and> find (\<lambda>c. f c = k) xs = None" if "f x = k"
  proof -
    have "\<forall>y\<in>set xs. f y \<noteq> k" using that Cons.prems by (metis distinct.simps(2) image_eqI list.map(2) set_map)
    then show ?thesis by (simp add: filter_empty_conv find_None_iff)
  qed
  with Cons show ?case by (cases "f x = k") simp_all
qed simp

lemma unique_section:
  "unique_sections cfg \<Longrightarrow>
    git_config_section cfg sect = Inr (find (\<lambda>c. casefold c = casefold sect) (cfg_section_names cfg))"
  by (simp add: git_config_section_def unique_sections_def unique_filter Let_def split: option.split)

lemma cfg_get_set:
  assumes "cfg_set target name v cfg = Inr cfg'"
  shows "cfg_get cfg' s x = (if s = target \<and> lower x = lower name then Some v else cfg_get cfg s x) \<and>
    cfg_defaults cfg' = cfg_defaults cfg"
  using assms by (cases "s = target") (auto simp: cfg_set_def cfg_get_def split: option.split option.split_asm)

lemma cfg_get_lower: "lower x = lower y \<Longrightarrow> cfg_get cfg s x = cfg_get cfg s y"
  by (auto simp: cfg_get_def split: option.split)

lemma cfg_set_total: "target \<in> set (cfg_section_names cfg) \<Longrightarrow> \<exists>cfg'. cfg_set target name v cfg = Inr cfg'"
  unfolding cfg_section_names_def set_map key_lookup by (auto simp: cfg_set_def)

lemma overlay_options_total:
  assumes "config_ok cfg" "target \<in> set (cfg_section_names cfg)"
    and "\<forall>n\<in>set names. lower n = n \<and> cfg_get source sect n \<noteq> None"
  shows "\<exists>cfg'. overlay_options source sect target names cfg = Inr cfg' \<and>
    cfg_defaults cfg' = cfg_defaults cfg \<and>
    (\<forall>s x. cfg_get cfg' s x =
      (if s = target \<and> lower x \<in> set names then cfg_get source sect x else cfg_get cfg s x))"
  using assms
proof (induction source sect target names cfg rule: overlay_options.induct)
  case (2 source sect target name names cfg)
  then obtain v where v: "cfg_get source sect name = Some v" "lower name = name" by auto
  obtain cfg1 where set: "cfg_set target name v cfg = Inr cfg1"
    using cfg_set_total [OF 2(3)] by blast
  have "config_ok cfg1" "cfg_section_names cfg1 = cfg_section_names cfg"
    using cfg_set_ok [OF 2(2) set] by simp_all
  then obtain cfg' where cfg': "overlay_options source sect target names cfg1 = Inr cfg'"
      "cfg_defaults cfg' = cfg_defaults cfg1"
      "\<And>s x. cfg_get cfg' s x = (if s = target \<and> lower x \<in> set names then cfg_get source sect x else cfg_get cfg1 s x)"
    using 2(1) [OF v(1), of cfg1] set 2(3,4) by auto
  have this_option: "cfg_get source sect x = Some v" if "lower x = name" for x
    using v cfg_get_lower [of x name source sect] that by simp
  have "cfg_get cfg' s x = (if s = target \<and> lower x \<in> set (name # names) then cfg_get source sect x else cfg_get cfg s x)" for s x
    using this_option [of x] v(2) cfg_get_set [OF set, of s x] unfolding cfg'(3) by (cases "lower x = name") auto
  moreover have "cfg_defaults cfg' = cfg_defaults cfg" using cfg'(2) cfg_get_set [OF set] by simp
  moreover have "overlay_options source sect target (name # names) cfg = Inr cfg'" using v(1) set cfg'(1) by simp
  ultimately show ?case by blast
qed simp

lemma find_append: "find P (xs @ ys) = or_else (find P xs) (find P ys)"
  by (induction xs) auto

text \<open>The section an overlay writes to, and what finding or adding it changes.\<close>

lemma overlay_section_step:
  assumes cfg: "config_ok cfg" "cfg_defaults cfg = []" "unique_sections cfg" and sect: "sect \<noteq> []" "sect \<noteq> ''DEFAULT''"
  shows "\<exists>fs target cfg1. git_config_section cfg sect = Inr fs \<and>
    (case fs of None \<Rightarrow> bindE (cfg_add_section sect cfg) (\<lambda>cfg'. Inr (sect, cfg')) | Some t \<Rightarrow> Inr (t, cfg))
      = Inr (target, cfg1) \<and>
    config_ok cfg1 \<and> cfg_defaults cfg1 = [] \<and> unique_sections cfg1 \<and>
    find (\<lambda>c. casefold c = casefold sect) (cfg_section_names cfg1) = Some target \<and>
    (\<forall>s x. option_of cfg1 s x = option_of cfg s x)"
proof -
  define fs where "fs = find (\<lambda>c. casefold c = casefold sect) (cfg_section_names cfg)"
  have sec: "git_config_section cfg sect = Inr fs" using unique_section [OF cfg(3)] by (simp add: fs_def)
  show ?thesis
  proof (cases fs)
    case None
    then have absent: "\<forall>c\<in>set (cfg_section_names cfg). casefold c \<noteq> casefold sect"
      by (auto simp: fs_def find_None_iff)
    then have add: "cfg_add_section sect cfg = Inr (cfg\<lparr>cfg_sections := cfg_sections cfg @ [(sect, [])]\<rparr>)"
      using sect by (auto simp: cfg_add_section_def)
    have ok: "config_ok (cfg\<lparr>cfg_sections := cfg_sections cfg @ [(sect, [])]\<rparr>)"
      using cfg_add_section_ok [OF cfg(1) add sect(1)] by simp
    have absent_map: "map_of (cfg_sections cfg) sect = None"
      using absent by (auto simp: cfg_section_names_def map_of_eq_None_iff)
    have "option_of (cfg\<lparr>cfg_sections := cfg_sections cfg @ [(sect, [])]\<rparr>) s x = option_of cfg s x" for s x
      using cfg(2) absent_map
      by (auto simp: option_of_def cfg_section_names_def cfg_get_def find_append map_add_def
          split: option.splits dest!: find_SomeD)
    moreover have "find (\<lambda>c. casefold c = casefold sect) (map fst (cfg_sections cfg)) = None"
      using absent by (simp add: find_None_iff cfg_section_names_def)
    ultimately show ?thesis using None sec add ok cfg absent
      by (intro exI [of _ fs] exI [of _ sect] exI [of _ "cfg\<lparr>cfg_sections := cfg_sections cfg @ [(sect, [])]\<rparr>"])
        (auto simp: unique_sections_def cfg_section_names_def find_append)
  next
    case (Some target)
    with sec cfg show ?thesis by (auto simp: fs_def)
  qed
qed

lemma overlay_sections_total:
  assumes "config_ok cfg" "cfg_defaults cfg = []" "unique_sections cfg" "config_ok source"
    "distinct (map casefold sects)" "set sects \<subseteq> set (cfg_section_names source)"
  shows "\<exists>cfg'. overlay_sections source sects cfg = Inr cfg' \<and> config_ok cfg' \<and> cfg_defaults cfg' = [] \<and>
    unique_sections cfg' \<and>
    (\<forall>s x. option_of cfg' s x =
      or_else (Option.bind (find (\<lambda>c. casefold c = casefold s) sects) (\<lambda>c. cfg_get source c x)) (option_of cfg s x))"
  using assms
proof (induction sects arbitrary: cfg)
  case (Cons sect sects)
  have name: "sect \<noteq> [] \<and> sect \<noteq> ''DEFAULT''"
    using section_name_facts [OF Cons.prems(4)] Cons.prems(6) by simp
  obtain fs target cfg1 where step: "git_config_section cfg sect = Inr fs"
      "(case fs of None \<Rightarrow> bindE (cfg_add_section sect cfg) (\<lambda>cfg'. Inr (sect, cfg')) | Some t \<Rightarrow> Inr (t, cfg)) = Inr (target, cfg1)"
    and cfg1: "config_ok cfg1" "cfg_defaults cfg1 = []" "unique_sections cfg1"
    and target: "find (\<lambda>c. casefold c = casefold sect) (cfg_section_names cfg1) = Some target"
    and same1: "\<And>s x. option_of cfg1 s x = option_of cfg s x"
    using overlay_section_step [OF Cons.prems(1-3), of sect] name by blast
  have t: "target \<in> set (cfg_section_names cfg1)" "casefold target = casefold sect"
    using find_SomeD [OF target] by simp_all
  obtain cfg2 where options: "overlay_options source sect target (cfg_options source sect) cfg1 = Inr cfg2"
      "cfg_defaults cfg2 = []"
    and get2: "\<And>s x. cfg_get cfg2 s x =
      (if s = target \<and> lower x \<in> set (cfg_options source sect) then cfg_get source sect x else cfg_get cfg1 s x)"
    using overlay_options_total [OF cfg1(1) t(1), of "cfg_options source sect" source sect]
      cfg_options_lookup [OF Cons.prems(4)] cfg1(2) by fastforce
  have cfg2: "config_ok cfg2" "cfg_section_names cfg2 = cfg_section_names cfg1"
    using overlay_options_ok [OF cfg1(1) options(1)] by simp_all
  have "unique_sections cfg2" using cfg1(3) cfg2(2) by (simp add: unique_sections_def)
  then obtain cfg' where rest: "overlay_sections source sects cfg2 = Inr cfg'" "config_ok cfg'" "cfg_defaults cfg' = []"
      "unique_sections cfg'"
    and get': "\<And>s x. option_of cfg' s x =
      or_else (Option.bind (find (\<lambda>c. casefold c = casefold s) sects) (\<lambda>c. cfg_get source c x)) (option_of cfg2 s x)"
    using Cons.IH [OF cfg2(1) options(2) _ Cons.prems(4)] Cons.prems(5,6) by auto
  have found2: "option_of cfg2 s x = or_else (cfg_get source sect x) (option_of cfg s x)" if "casefold sect = casefold s" for s x
    using that target cfg_options_iff [OF Cons.prems(4), of x sect] same1 [of s x]
    by (auto simp: option_of_def cfg2(2) get2 or_else_def split: option.splits)
  have other2: "option_of cfg2 s x = option_of cfg s x" if "casefold sect \<noteq> casefold s" for s x
  proof -
    have "c \<noteq> target" if "find (\<lambda>c. casefold c = casefold s) (cfg_section_names cfg1) = Some c" for c
      using find_SomeD [OF that] t(2) \<open>casefold sect \<noteq> casefold s\<close> by auto
    then show ?thesis using same1 [of s x]
      by (auto simp: option_of_def cfg2(2) get2 split: option.splits)
  qed
  have none: "find (\<lambda>c. casefold c = casefold sect) sects = None"
    using Cons.prems(5) unfolding find_None_iff by (metis distinct.simps(2) image_eqI list.map(2) set_map)
  have "overlay_sections source (sect # sects) cfg = Inr cfg'" using step options(1) rest(1) by simp
  moreover have "option_of cfg' s x = or_else (Option.bind (find (\<lambda>c. casefold c = casefold s) (sect # sects))
      (\<lambda>c. cfg_get source c x)) (option_of cfg s x)" for s x
    using get' [of s x] found2 [of s x] other2 [of s x] none by (cases "casefold sect = casefold s") auto
  ultimately show ?case using rest by blast
qed auto

lemma overlay_lookup:
  assumes "config_ok base" "config_ok over" "unique_sections base" "unique_sections over"
  shows "\<exists>cfg. overlay_git_config base over = Inr cfg \<and>
    (\<forall>s x. option_of cfg s x = or_else (option_of over s x) (option_of base s x))"
proof -
  have find: "Option.bind (find (\<lambda>c. casefold c = casefold s) (cfg_section_names cfg)) (\<lambda>c. cfg_get cfg c x) = option_of cfg s x"
    for s x cfg by (simp add: option_of_def split: option.split)
  have "unique_sections \<lparr>cfg_defaults = [], cfg_sections = []\<rparr>"
    by (simp add: unique_sections_def cfg_section_names_def)
  then obtain cfg1 where "overlay_sections base (cfg_section_names base) \<lparr>cfg_defaults = [], cfg_sections = []\<rparr> = Inr cfg1"
      and cfg1: "config_ok cfg1" "cfg_defaults cfg1 = []" "unique_sections cfg1"
      and get1: "\<forall>s x. option_of cfg1 s x = or_else (option_of base s x) (option_of \<lparr>cfg_defaults = [], cfg_sections = []\<rparr> s x)"
    using overlay_sections_total [OF empty_config_ok _ _ assms(1), of "cfg_section_names base"] assms(3)
    unfolding find unique_sections_def [of base] by auto
  moreover obtain cfg where "overlay_sections over (cfg_section_names over) cfg1 = Inr cfg"
      "\<forall>s x. option_of cfg s x = or_else (option_of over s x) (option_of cfg1 s x)"
    using overlay_sections_total [OF cfg1 assms(2), of "cfg_section_names over"] assms(4)
    unfolding find unique_sections_def [of over] by auto
  moreover have "option_of \<lparr>cfg_defaults = [], cfg_sections = []\<rparr> s x = None" for s x
    by (simp add: option_of_def cfg_section_names_def)
  ultimately show ?thesis
    by (auto simp: overlay_git_config_def or_else_def split: option.splits)
qed

end
