(* ===== verification/GitClaims.thy ===== *)
theory GitClaims
  imports GitFacts
begin

section \<open>What an accepted repository root is\<close>

text \<open>
  The claims about the repository root check and about whole calls of the predicate evaluator, with
  the concrete repository they are applied to.
\<close>

subsection \<open>Errors\<close>

text \<open>
  Below the call only contract errors, the read errors that the outermost \<^verbatim>\<open>except\<close> clause
  turns into one, and what that clause does not name may occur: a \<^verbatim>\<open>stat\<close>, a read or a
  \<^verbatim>\<open>resolve\<close> that raises something else than \<^verbatim>\<open>OSError\<close> or \<^verbatim>\<open>UnicodeError\<close>. \<open>strict_errors\<close> are
  contract errors already.
\<close>

definition git_lets_escape :: "git_fs \<Rightarrow> exn \<Rightarrow> bool" where
  "git_lets_escape fs e \<longleftrightarrow> \<not> is_read_error e \<and>
     ((\<exists>p. fs_lstat fs p = Inl e) \<or> (\<exists>p. fs_read_text fs p = Inl e) \<or> (\<exists>p. fs_resolve fs p = Inl e))"

definition strict_errors :: "exn + 'a \<Rightarrow> bool" where
  "strict_errors r \<longleftrightarrow> (\<forall>e. r = Inl e \<longrightarrow> predicate_error e)"

definition git_errors :: "git_fs \<Rightarrow> exn + 'a \<Rightarrow> bool" where
  "git_errors fs r \<longleftrightarrow> (\<forall>e. r = Inl e \<longrightarrow> predicate_error e \<or> is_read_error e \<or> git_lets_escape fs e)"

named_theorems git_raises \<open>what the git checks may raise\<close>

lemma strict_errors_basic [git_raises, simp, intro]:
  "strict_errors (Inr x)" "strict_errors (Inl (PredicateContractError m))"
  by (simp_all add: strict_errors_def)

lemma git_errors_basic [git_raises, simp, intro]:
  "git_errors fs (Inr x)" "git_errors fs (Inl (PredicateContractError m))"
  by (simp_all add: git_errors_def)

lemma strict_bind [git_raises]:
  "strict_errors m \<Longrightarrow> (\<And>x. m = Inr x \<Longrightarrow> strict_errors (f x)) \<Longrightarrow> strict_errors (bindE m f)"
  by (cases m) (auto simp: strict_errors_def)

lemma git_bind [git_raises]:
  "git_errors fs m \<Longrightarrow> (\<And>x. m = Inr x \<Longrightarrow> git_errors fs (f x)) \<Longrightarrow> git_errors fs (bindE m f)"
  by (cases m) (auto simp: git_errors_def)

lemma strict_git: "strict_errors r \<Longrightarrow> git_errors fs r"
  by (auto simp: strict_errors_def git_errors_def)

lemma strict_forE: "(\<And>x. x \<in> set xs \<Longrightarrow> strict_errors (f x)) \<Longrightarrow> strict_errors (forE f xs)"
  by (induction xs) (auto intro: strict_bind)

subsection \<open>Configurations raise contract errors only\<close>

lemma section_strict [git_raises]: "strict_errors (git_config_section cfg sect)"
  by (simp add: git_config_section_def Let_def strict_errors_def)

lemma value_strict [git_raises]: "strict_errors (git_config_value cfg sect name m)"
  unfolding git_config_value_def Let_def by (auto intro!: strict_bind section_strict split: option.split)

lemma optional_strict [git_raises]: "strict_errors (git_config_optional cfg sect name m)"
  unfolding git_config_optional_def by (auto intro!: strict_bind section_strict value_strict split: option.split)

lemma boolean_strict: "cfg_get cfg sect name \<noteq> None \<Longrightarrow> strict_errors (get_boolean cfg sect name m)"
  by (auto simp: get_boolean_def strict_errors_def split: option.splits)

lemma bool_strict:
  assumes "config_ok cfg"
  shows "strict_errors (git_config_bool cfg sect name m)"
proof -
  have "strict_errors (get_boolean cfg s name m)" if "git_config_section cfg sect = Inr (Some s)" "cfg_has_option cfg s name" for s
    using that cfg_has_option_iff [OF assms] git_config_section_Some boolean_strict by blast
  then show ?thesis
    unfolding git_config_bool_def by (auto intro!: strict_bind section_strict value_strict split: option.split)
qed

lemma read_git_config_raises:
  assumes "read_git_config r m = Inl e"
  shows "predicate_error e \<or> r = Inl e \<and> \<not> is_read_error e"
proof (cases r)
  case (Inl e')
  then show ?thesis using assms by (cases "is_read_error e'") (auto simp: read_git_config_def mapErr_def)
next
  case (Inr content)
  have "strict_errors (read_git_config r m)"
    unfolding Inr read_git_config_def check_section_def check_option_def mapErr_def
    by (auto intro!: strict_bind strict_forE value_strict split: option.split)
  then show ?thesis using assms by (simp add: strict_errors_def)
qed

lemma read_git_config_ok: "read_git_config r m = Inr cfg \<Longrightarrow> config_ok cfg"
  by (auto simp: read_git_config_def err_simps parse_config_ok split: option.splits if_splits)

lemma extension_options_strict:
  assumes "config_ok cfg" "set names \<subseteq> set (cfg_options cfg sect)"
  shows "strict_errors (extension_options cfg sect names acc)"
  using assms(2)
proof (induction names arbitrary: acc)
  case (Cons name names)
  obtain worktree_config object_format where acc: "acc = (worktree_config, object_format)" by (cases acc)
  have boolean: "strict_errors (get_boolean cfg sect name invalid_metadata)"
    using Cons.prems cfg_options_lookup [OF assms(1), of name sect] by (intro boolean_strict) auto
  have flag: "strict_errors (if casefold name = ''worktreeconfig''
      then bindE (get_boolean cfg sect name invalid_metadata) (\<lambda>b.
             if \<not> b then Inl (PredicateContractError invalid_metadata) else Inr True)
      else Inr worktree_config)"
    using boolean by (auto intro: strict_bind)
  have format: "strict_errors (if casefold name = ''objectformat''
      then (if casefold v \<notin> {''sha1'', ''sha256''} then Inl (PredicateContractError invalid_metadata) else Inr (casefold v))
      else Inr object_format)" for v
    by auto
  have "strict_errors (extension_options cfg sect names st)" for st using Cons by simp
  then have "strict_errors (bindE (git_config_value cfg ''extensions'' name invalid_metadata) (\<lambda>v.
      bindE (if casefold name = ''objectformat''
             then (if casefold v \<notin> {''sha1'', ''sha256''}
                   then Inl (PredicateContractError invalid_metadata) else Inr (casefold v))
             else Inr object_format) (\<lambda>object_format'.
      bindE (if casefold name = ''worktreeconfig''
             then bindE (get_boolean cfg sect name invalid_metadata) (\<lambda>b.
                    if \<not> b then Inl (PredicateContractError invalid_metadata) else Inr True)
             else Inr worktree_config) (\<lambda>worktree_config'.
      extension_options cfg sect names (worktree_config', object_format')))))"
    by (intro strict_bind [OF value_strict] strict_bind [OF format] strict_bind [OF flag])
  then show ?case unfolding acc extension_options.simps by (simp only: strict_errors_basic split: if_split) blast
qed simp

lemma extensions_strict: "config_ok cfg \<Longrightarrow> strict_errors (validate_git_config_extensions cfg version)"
  unfolding validate_git_config_extensions_def
  by (auto intro!: strict_bind section_strict extension_options_strict split: option.split)

lemma version_strict: "strict_errors (repository_format_version cfg)"
  unfolding repository_format_version_def
  by (auto intro!: strict_bind section_strict value_strict split: option.split simp del: insert_iff)

lemma overlay_options_strict:
  assumes "config_ok source"
  shows "config_ok cfg \<Longrightarrow> target \<in> set (cfg_section_names cfg) \<Longrightarrow> set names \<subseteq> set (cfg_options source sect) \<Longrightarrow>
    strict_errors (overlay_options source sect target names cfg)"
  using overlay_options_total [of cfg target names source sect] cfg_options_lookup [OF assms]
  by (fastforce simp: strict_errors_def)

lemma overlay_sections_strict:
  assumes "config_ok source"
  shows "config_ok cfg \<Longrightarrow> set sects \<subseteq> set (cfg_section_names source) \<Longrightarrow>
    strict_errors (overlay_sections source sects cfg)"
proof (induction sects arbitrary: cfg)
  case (Cons sect sects)
  have sect: "sect \<noteq> []" "sect \<noteq> ''DEFAULT''" using section_name_facts [OF assms, of sect] Cons.prems by auto
  have target: "strict_errors (case fs of None \<Rightarrow> bindE (cfg_add_section sect cfg) (\<lambda>cfg'. Inr (sect, cfg'))
      | Some t \<Rightarrow> Inr (t, cfg))" if "git_config_section cfg sect = Inr fs" for fs
  proof (cases fs)
    case None
    then have "sect \<notin> set (cfg_section_names cfg)"
      using that by (auto simp: git_config_section_def Let_def filter_empty_conv split: if_splits)
    then show ?thesis using None sect(2) by (simp add: cfg_add_section_def)
  qed simp
  show ?case unfolding overlay_sections.simps
  proof (intro strict_bind section_strict)
    fix fs p
    assume fs: "git_config_section cfg sect = Inr fs"
    then show "strict_errors (case fs of None \<Rightarrow> bindE (cfg_add_section sect cfg) (\<lambda>cfg'. Inr (sect, cfg'))
      | Some t \<Rightarrow> Inr (t, cfg))" by (rule target)
    assume step: "(case fs of None \<Rightarrow> bindE (cfg_add_section sect cfg) (\<lambda>cfg'. Inr (sect, cfg'))
      | Some t \<Rightarrow> Inr (t, cfg)) = Inr p"
    obtain t cfg1 where p: "p = (t, cfg1)" by (cases p)
    have "config_ok cfg1" "t \<in> set (cfg_section_names cfg1)"
      using overlay_target [OF Cons.prems(1) sect(1) fs step [unfolded p]] by blast+
    then show "strict_errors (case p of (target, cfg') \<Rightarrow>
        bindE (overlay_options source sect target (cfg_options source sect) cfg') (overlay_sections source sects))"
      using Cons overlay_options_strict [OF assms] overlay_options_ok unfolding p
      by (auto intro!: strict_bind)
  qed
qed simp

lemma overlay_strict: "config_ok base \<Longrightarrow> config_ok over \<Longrightarrow> strict_errors (overlay_git_config base over)"
  unfolding overlay_git_config_def
  using overlay_sections_ok [OF empty_config_ok section_names_nonempty]
    overlay_sections_strict [of base _ "cfg_section_names base", OF _ empty_config_ok]
    overlay_sections_strict [of over _ "cfg_section_names over"]
  by (metis order_refl strict_bind)

subsection \<open>The whole check\<close>

lemmas git_split = option.split if_split prod.split file_kind.split

lemma lstat_git: "git_errors fs (fs_lstat fs p)"
  unfolding git_errors_def git_lets_escape_def by blast

lemma resolve_git: "git_errors fs (fs_resolve fs p)"
  unfolding git_errors_def git_lets_escape_def by blast

lemma read_git: "fs_read_text fs p = Inl e \<Longrightarrow> is_read_error e \<or> git_lets_escape fs e"
  unfolding git_lets_escape_def by blast

lemma map_git: "git_errors fs r \<Longrightarrow> (\<And>e. predicate_error (f e) \<or> f e = e) \<Longrightarrow> git_errors fs (mapErr f r)"
  unfolding git_errors_def mapErr_Inl_iff by metis

lemma regular_git: "git_errors fs (require_regular_file_nofollow fs p m n)"
  unfolding require_regular_file_nofollow_def by (auto intro!: git_bind lstat_git)

lemma directory_git: "git_errors fs (require_directory_nofollow fs p m)"
  unfolding require_directory_nofollow_def by (auto intro!: git_bind lstat_git)

lemma line_git: "git_errors fs (read_git_metadata_line fs p m)"
proof -
  have "git_errors fs (fs_read_text fs p)" using read_git by (auto simp: git_errors_def)
  then have "git_errors fs (mapErr (\<lambda>e. if is_read_error e then PredicateContractError m else e) (fs_read_text fs p))"
    by (rule map_git) simp
  then show ?thesis
    unfolding read_git_metadata_line_def by (auto intro!: git_bind split: list.split)
qed

lemma parts_git: "git_errors fs (reject_symlink_parts fs m cur ps)"
proof (induction fs m cur ps rule: reject_symlink_parts.induct)
  case (2 fs m cur part rest)
  have "git_errors fs (Inl (if is_os_error e then PredicateContractError m else e) :: exn + unit)"
    if "fs_lstat fs (cur @ [part]) = Inl e" for e
    using that lstat_git [of fs "cur @ [part]"] by (auto simp: git_errors_def)
  with 2 show ?case by (auto split: sum.split)
qed simp

lemma path_git: "git_errors fs (resolve_git_metadata_path fs b r m)"
  unfolding resolve_git_metadata_path_def reject_symlink_metadata_path_def
  by (auto intro!: git_bind parts_git map_git resolve_git)

lemma worktree_git: "git_errors fs (resolve_git_worktree_path fs t b)"
  unfolding resolve_git_worktree_path_def by (auto intro: path_git)

lemma config_git: "git_errors fs (read_git_config (fs_read_text fs p) m)"
  using read_git_config_raises read_git unfolding git_errors_def by blast

lemma if_found_git: "git_errors fs r \<Longrightarrow> git_errors fs (if_found r)"
  by (auto simp: if_found_def git_errors_def split: sum.splits if_splits)

lemma gitdir_file_git: "git_errors fs (require_gitdir_file_matches_root fs g root)"
  unfolding require_gitdir_file_matches_root_def
  by (auto intro!: git_bind regular_git line_git path_git resolve_git)

lemma gitdir_worktree_git: "git_errors fs (require_gitdir_worktree_matches_root fs g root)"
  unfolding require_gitdir_worktree_matches_root_def
  by (auto intro!: git_bind if_found_git regular_git gitdir_file_git config_git worktree_git
      split: option.split)

lemma common_dir_git: "git_errors fs (git_common_dir fs g)"
  unfolding git_common_dir_def
  by (auto intro!: git_bind if_found_git regular_git line_git path_git directory_git split: option.split)

lemma worktree_config_git: "git_errors fs (read_git_worktree_config fs g b)"
  unfolding read_git_worktree_config_def
  by (auto intro!: git_bind if_found_git regular_git config_git split: option.split)

lemma effective_git: "config_ok cfg \<Longrightarrow> git_errors fs (check_effective_config fs cfg b root)"
  unfolding check_effective_config_def
  by (auto intro!: git_bind bool_strict [THEN strict_git] optional_strict [THEN strict_git] worktree_git
      split: option.split)

lemma metadata_git: "git_errors fs (validate_git_metadata fs g c root)"
proof -
  have ok: "config_ok eff" if "config_ok cfg" "\<forall>w. wc = Some w \<longrightarrow> config_ok w"
    "(case wc of None \<Rightarrow> Inr cfg | Some w \<Rightarrow> overlay_git_config cfg w) = Inr eff" for cfg wc eff
    using that overlay_ok [of cfg] by (cases wc) auto
  have wc: "config_ok w" if "read_git_worktree_config fs g b = Inr (Some w)" for b w
    using that read_git_config_ok
    by (auto simp: read_git_worktree_config_def err_simps split: if_splits option.splits)
  have merged: "git_errors fs (case wc of None \<Rightarrow> Inr cfg | Some w \<Rightarrow> overlay_git_config cfg w)"
    if "config_ok cfg" "\<forall>w. wc = Some w \<longrightarrow> config_ok w" for cfg wc
    using that overlay_strict [of cfg, THEN strict_git] by (cases wc) auto
  have effective: "git_errors fs (check_effective_config fs eff b root)"
    if "read_git_config r m = Inr cfg" "read_git_worktree_config fs g' flag = Inr wc"
      "(case wc of None \<Rightarrow> Inr cfg | Some w \<Rightarrow> overlay_git_config cfg w) = Inr eff" for r m cfg g' flag wc eff b
    by (rule effective_git [OF ok [OF read_git_config_ok [OF that(1)] _ that(3)]])
      (use that(2) in \<open>auto simp: read_git_worktree_config_def err_simps dest: read_git_config_ok split: if_splits option.splits\<close>)
  have detached: "git_errors fs (detached_head h)" for h by (simp add: detached_head_def)
  have length: "git_errors fs (case d of None \<Rightarrow> Inr () | Some h \<Rightarrow> validate_detached_head_object_format h f)" for d f
    by (simp add: validate_detached_head_object_format_def split: option.split)
  show ?thesis
    unfolding validate_git_metadata_def
    by (auto intro!: git_bind regular_git line_git detached directory_git config_git length
        version_strict [THEN strict_git] extensions_strict [THEN strict_git] worktree_config_git merged
        effective dest: wc read_git_config_ok split: prod.split)
qed

lemma entry_git: "git_errors fs (git_entry_checks fs root)"
proof -
  have stat: "git_errors fs (mapErr (\<lambda>e. if is_not_found e
      then PredicateContractError ''repo root must be a Git worktree top level'' else e) (fs_lstat fs (root @ [''.git''])))"
    by (rule map_git [OF lstat_git]) simp
  show ?thesis unfolding git_entry_checks_def
    by (intro git_bind stat)
      (auto intro!: git_bind line_git path_git directory_git gitdir_worktree_git common_dir_git metadata_git
        split: file_kind.split)
qed

text \<open>
  The root itself: \<^verbatim>\<open>expanduser().resolve(strict=True)\<close> may raise something else than \<^verbatim>\<open>OSError\<close> (a
  \<^verbatim>\<open>RuntimeError\<close> for a home that cannot be determined or a loop, a \<^verbatim>\<open>ValueError\<close> for a zero
  byte), and \<^verbatim>\<open>is_dir\<close> stands outside every \<^verbatim>\<open>try\<close>.
\<close>

definition root_lets_escape :: "git_fs \<Rightarrow> pyval \<Rightarrow> exn \<Rightarrow> bool" where
  "root_lets_escape fs v e \<longleftrightarrow> (\<exists>s. str_value v = Some s \<and>
     (fs_expand_root fs s = Inl e \<and> \<not> is_os_error e \<or>
      (\<exists>root. fs_expand_root fs s = Inr root \<and> fs_is_dir fs root = Inl e)))"

lemma normalize_raises:
  assumes "normalize_repo_root fs v = Inl e"
  shows "predicate_error e \<or> root_lets_escape fs v e \<or> git_lets_escape fs e"
proof (cases "str_value v")
  case (Some s)
  have top: "predicate_error e \<or> git_lets_escape fs e" if "require_git_worktree_top_level fs root = Inl e" for root
    using that entry_git [of fs root] by (auto simp: require_git_worktree_top_level_def git_errors_def mapErr_Inl_iff)
  show ?thesis
  proof (cases "fs_expand_root fs s")
    case (Inl e')
    then show ?thesis
      using assms Some by (cases "is_os_error e'") (auto simp: normalize_repo_root_def mapErr_def root_lets_escape_def)
  next
    case (Inr root)
    then show ?thesis
      using assms Some top
      by (cases "fs_is_dir fs root") (auto simp: normalize_repo_root_def mapErr_def root_lets_escape_def raise_simps split: if_splits)
  qed
qed (use assms in \<open>auto simp: normalize_repo_root_def\<close>)

subsection \<open>What the check establishes\<close>

text \<open>HEAD is a regular file of one line: a valid reference name, or an object id.\<close>

definition head_names_commit :: "git_fs \<Rightarrow> string list \<Rightarrow> bool" where
  "head_names_commit fs git_dir \<longleftrightarrow> (\<exists>st text line.
     fs_lstat fs (git_dir @ [''HEAD'']) = Inr st \<and> st_kind st = Regular \<and> st_size st \<le> max_string_length \<and>
     fs_read_text fs (git_dir @ [''HEAD'']) = Inr text \<and> splitlines text = [line] \<and>
     ((\<exists>ref. line = ''ref: '' @ ref \<and> is_valid_git_ref_name ref) \<or> is_head_object line))"

text \<open>
  What a path written in a metadata file stands for: an absolute path as it is, a relative one
  below the directory \<open>base\<close>, resolved by the file system.
\<close>

definition resolves_to :: "git_fs \<Rightarrow> string list \<Rightarrow> string \<Rightarrow> string list \<Rightarrow> bool" where
  "resolves_to fs base named path \<longleftrightarrow>
     fs_resolve fs (if path_root named \<noteq> [] then path_parts named else base @ path_parts named) = Inr path"

definition holds_line :: "git_fs \<Rightarrow> string list \<Rightarrow> string \<Rightarrow> bool" where
  "holds_line fs path line \<longleftrightarrow> (\<exists>text. fs_read_text fs path = Inr text \<and> splitlines text = [line])"

definition has_kind :: "git_fs \<Rightarrow> string list \<Rightarrow> file_kind \<Rightarrow> bool" where
  "has_kind fs path kind \<longleftrightarrow> (\<exists>st. fs_lstat fs path = Inr st \<and> st_kind st = kind)"

definition is_missing :: "git_fs \<Rightarrow> string list \<Rightarrow> bool" where
  "is_missing fs path \<longleftrightarrow> (\<exists>e. fs_lstat fs path = Inl e \<and> is_not_found e)"

text \<open>
  The git directory of a linked work tree points back at the root: its \<^verbatim>\<open>core.worktree\<close> resolves
  to the root, or its \<^verbatim>\<open>gitdir\<close> file names what the root's \<^verbatim>\<open>.git\<close> resolves to.
\<close>

definition linked_back :: "git_fs \<Rightarrow> string list \<Rightarrow> string list \<Rightarrow> bool" where
  "linked_back fs git_dir root \<longleftrightarrow>
     (\<exists>text cfg t. fs_read_text fs (git_dir @ [''config'']) = Inr text \<and> parse_config text = Some cfg \<and>
        cfg_get cfg ''core'' ''worktree'' = Some t \<and> resolves_to fs git_dir t root) \<or>
     (\<exists>named file. holds_line fs (git_dir @ [''gitdir'']) named \<and> resolves_to fs git_dir named file \<and>
        fs_resolve fs (root @ [''.git'']) = Inr file)"

text \<open>
  The two directories: a \<^verbatim>\<open>.git\<close> directory is both; a \<^verbatim>\<open>.git\<close> file names the git directory, whose
  \<^verbatim>\<open>commondir\<close> file, if there is one, names the common directory.
\<close>

definition common_dir_of :: "git_fs \<Rightarrow> string list \<Rightarrow> string list \<Rightarrow> bool" where
  "common_dir_of fs git_dir common_dir \<longleftrightarrow>
     is_missing fs (git_dir @ [''commondir'']) \<and> common_dir = git_dir \<or>
     has_kind fs (git_dir @ [''commondir'']) Regular \<and> has_kind fs common_dir Directory \<and>
     (\<exists>named. holds_line fs (git_dir @ [''commondir'']) named \<and> resolves_to fs git_dir named common_dir)"

definition git_dirs_of :: "git_fs \<Rightarrow> string list \<Rightarrow> string list \<Rightarrow> string list \<Rightarrow> bool" where
  "git_dirs_of fs root git_dir common_dir \<longleftrightarrow> has_kind fs git_dir Directory \<and>
     (git_dir = root @ [''.git''] \<and> common_dir = git_dir \<or>
      has_kind fs (root @ [''.git'']) Regular \<and>
      (\<exists>named. holds_line fs (root @ [''.git'']) (''gitdir: '' @ named) \<and> resolves_to fs root named git_dir) \<and>
      linked_back fs git_dir root \<and> common_dir_of fs git_dir common_dir)"

definition includes_files :: "git_config \<Rightarrow> bool" where
  "includes_files cfg \<longleftrightarrow> (\<exists>s\<in>set (cfg_section_names cfg). casefold s = ''include'' \<or> starts_with (casefold s) ''includeif '')"

lemma starts_with_drop: "starts_with s p \<Longrightarrow> \<exists>t. s = p @ t \<and> t = drop (length p) s"
  by (auto simp: starts_with_iff)

lemma line_is_content:
  assumes "read_git_metadata_line fs p m = Inr line"
  shows "\<exists>text. fs_read_text fs p = Inr text \<and> splitlines text = [line]"
proof -
  obtain content where content: "fs_read_text fs p = Inr content"
    "(case splitlines content of [line] \<Rightarrow>
        (if line = [] \<or> line \<noteq> strip line \<or> list_ex is_git_control_char line
         then Inl (PredicateContractError m) else Inr line)
      | _ \<Rightarrow> Inl (PredicateContractError m)) = Inr line"
    using assms unfolding read_git_metadata_line_def bindE_Inr_iff mapErr_Inr_iff by blast
  then have "splitlines content = [line]"
    by (cases "splitlines content"; cases "tl (splitlines content)") (auto split: if_splits)
  with content show ?thesis by blast
qed

lemma line_held: "read_git_metadata_line fs p m = Inr line \<Longrightarrow> holds_line fs p line"
  using line_is_content unfolding holds_line_def by blast

lemma path_resolves: "resolve_git_metadata_path fs base named m = Inr path \<Longrightarrow> resolves_to fs base named path"
  by (auto simp: resolve_git_metadata_path_def resolves_to_def err_simps split: if_splits)

lemma worktree_resolves: "resolve_git_worktree_path fs named base = Inr path \<Longrightarrow> resolves_to fs base named path"
  by (auto simp: resolve_git_worktree_path_def path_resolves split: if_splits)

lemma checked_kind:
  "require_regular_file_nofollow fs p m n = Inr st \<Longrightarrow> has_kind fs p Regular"
  "require_directory_nofollow fs p m = Inr st \<Longrightarrow> has_kind fs p Directory"
  by (auto simp: require_regular_file_nofollow_def require_directory_nofollow_def has_kind_def err_simps split: if_splits)

lemma if_found_regular:
  "if_found (require_regular_file_nofollow fs p m n) = Inr None \<Longrightarrow> is_missing fs p"
  "if_found (require_regular_file_nofollow fs p m n) = Inr (Some st) \<Longrightarrow> has_kind fs p Regular"
  using checked_kind(1)
  by (auto simp: if_found_def is_missing_def require_regular_file_nofollow_def is_not_found_def raise_simps
      split: sum.splits if_splits exn.splits)

lemma common_dir_named:
  assumes "git_common_dir fs g = Inr c"
  shows "common_dir_of fs g c"
proof -
  from assms obtain found where f: "if_found (require_regular_file_nofollow fs (g @ [''commondir'']) invalid_metadata
      max_string_length) = Inr found"
    and c: "(case found of None \<Rightarrow> Inr g | Some _ \<Rightarrow>
      bindE (read_git_metadata_line fs (g @ [''commondir'']) invalid_metadata) (\<lambda>content.
      bindE (resolve_git_metadata_path fs g content invalid_metadata) (\<lambda>common_dir.
      bindE (require_directory_nofollow fs common_dir invalid_metadata) (\<lambda>_. Inr common_dir)))) = Inr c"
    unfolding git_common_dir_def by (auto simp: bindE_Inr_iff)
  show ?thesis
  proof (cases found)
    case None
    then show ?thesis using f c if_found_regular(1) by (auto simp: common_dir_of_def)
  next
    case (Some st)
    then obtain named where "read_git_metadata_line fs (g @ [''commondir'']) invalid_metadata = Inr named"
        "resolve_git_metadata_path fs g named invalid_metadata = Inr c"
        "\<exists>d. require_directory_nofollow fs c invalid_metadata = Inr d"
      using c by (auto simp: bindE_Inr_iff)
    then show ?thesis
      using line_held path_resolves checked_kind(2) if_found_regular(2) [OF f [unfolded Some]]
      unfolding common_dir_of_def by blast
  qed
qed

lemma head_accepted:
  assumes "require_regular_file_nofollow fs (g @ [''HEAD'']) m max_string_length = Inr st"
    "read_git_metadata_line fs (g @ [''HEAD'']) m' = Inr line" "detached_head line = Inr d"
  shows "head_names_commit fs g"
proof -
  have "(\<exists>ref. line = ''ref: '' @ ref \<and> is_valid_git_ref_name ref) \<or> is_head_object line"
  proof (cases "starts_with line ''ref: ''")
    case True
    then have "line = ''ref: '' @ drop 5 line" using starts_with_drop [OF True] by (simp add: eval_nat_numeral)
    moreover have "is_valid_git_ref_name (drop 5 line)" using assms(3) True by (simp add: detached_head_def split: if_splits)
    ultimately show ?thesis by metis
  qed (use assms(3) in \<open>auto simp: detached_head_def split: if_splits\<close>)
  moreover have "fs_lstat fs (g @ [''HEAD'']) = Inr st" "st_kind st = Regular" "st_size st \<le> max_string_length"
    using assms(1) by (auto simp: require_regular_file_nofollow_def err_simps)
  ultimately show ?thesis using line_is_content [OF assms(2)] unfolding head_names_commit_def by blast
qed

lemma read_config_no_includes: "read_git_config r m = Inr cfg \<Longrightarrow> \<not> includes_files cfg"
  by (auto simp: read_git_config_def includes_files_def check_section_def err_simps split: option.splits if_splits)

lemma read_config_parse:
  "read_git_config r m = Inr cfg \<Longrightarrow> \<exists>text. r = Inr text \<and> parse_config text = Some cfg"
  by (auto simp: read_git_config_def err_simps split: option.splits if_splits)

lemma gitdir_file_back: "require_gitdir_file_matches_root fs g root = Inr u \<Longrightarrow> linked_back fs g root"
  using line_held path_resolves unfolding require_gitdir_file_matches_root_def linked_back_def
  by (simp add: err_simps) blast

lemma gitdir_worktree_back:
  assumes "require_gitdir_worktree_matches_root fs g root = Inr u"
  shows "linked_back fs g root"
proof (cases "require_gitdir_file_matches_root fs g root = Inr ()")
  case False
  then obtain cfg t where c: "read_git_config (fs_read_text fs (g @ [''config''])) invalid_metadata = Inr cfg"
      "cfg_get cfg ''core'' ''worktree'' = Some t" "resolve_git_worktree_path fs t g = Inr root"
    using assms by (auto simp: require_gitdir_worktree_matches_root_def err_simps split: option.splits if_splits)
  then show ?thesis using read_config_parse [OF c(1)] worktree_resolves unfolding linked_back_def by blast
qed (rule gitdir_file_back)

text \<open>
  The checked configuration: what the version, the bare flag and the work tree say. They are those of
  the effective configuration, which is the overlay of the git directory's \<^verbatim>\<open>config.worktree\<close> exactly
  when the extension is on and the file exists.
\<close>

definition is_extension_option :: "git_config \<Rightarrow> string \<Rightarrow> bool" where
  "is_extension_option cfg name \<longleftrightarrow>
     (\<exists>s\<in>set (cfg_section_names cfg). casefold s = ''extensions'' \<and> name \<in> set (cfg_options cfg s))"

definition has_worktree_config :: "git_config \<Rightarrow> bool" where
  "has_worktree_config cfg \<longleftrightarrow> (\<exists>name. is_extension_option cfg name \<and> casefold name = ''worktreeconfig'')"

definition effective_config ::
    "git_fs \<Rightarrow> string list \<times> string list \<Rightarrow> git_config \<Rightarrow> git_config \<Rightarrow> string list \<Rightarrow> bool" where
  "effective_config fs dirs cfg eff base \<longleftrightarrow>
     (let file = fst dirs @ [''config.worktree''] in
      if has_worktree_config cfg \<and> \<not> is_missing fs file
      then base = fst dirs \<and> has_kind fs file Regular \<and>
        (\<exists>text w. fs_read_text fs file = Inr text \<and> parse_config text = Some w \<and> overlay_git_config cfg w = Inr eff)
      else eff = cfg \<and> base = snd dirs)"

definition config_accepted :: "git_fs \<Rightarrow> string list \<Rightarrow> string list \<Rightarrow> string list \<Rightarrow> git_config \<Rightarrow> bool" where
  "config_accepted fs git_dir common_dir root cfg \<longleftrightarrow>
     repository_format_version cfg \<in> {Inr 0, Inr 1} \<and> \<not> includes_files cfg \<and>
     (\<forall>name. is_extension_option cfg name \<longrightarrow> casefold name \<in> set supported_git_extensions) \<and>
     (\<exists>eff base. effective_config fs (git_dir, common_dir) cfg eff base \<and>
        git_config_bool eff ''core'' ''bare'' invalid_metadata = Inr False \<and>
        (\<forall>t. git_config_optional eff ''core'' ''worktree'' invalid_metadata = Inr (Some t) \<longrightarrow>
          resolves_to fs base t root))"

lemma extension_options_found:
  "extension_options cfg sect names (flag, format) = Inr (flag', format') \<Longrightarrow>
     (flag' \<longleftrightarrow> flag \<or> (\<exists>name\<in>set names. casefold name = ''worktreeconfig'')) \<and>
     (\<forall>name\<in>set names. casefold name \<in> set supported_git_extensions)"
proof (induction names arbitrary: flag format)
  case (Cons name names)
  obtain f1 o1 where sup: "casefold name \<in> set supported_git_extensions"
      and f1: "f1 \<longleftrightarrow> flag \<or> casefold name = ''worktreeconfig''"
      and rest: "extension_options cfg sect names (f1, o1) = Inr (flag', format')"
    using Cons.prems by (auto simp: err_simps split: if_splits)
  then show ?case using Cons.IH [OF rest] by auto
qed simp

lemma extensions_found:
  assumes "validate_git_config_extensions cfg version = Inr (flag, format)"
  shows "(flag \<longleftrightarrow> has_worktree_config cfg) \<and>
    (\<forall>name. is_extension_option cfg name \<longrightarrow> casefold name \<in> set supported_git_extensions)"
proof -
  let ?found = "filter (\<lambda>candidate. casefold candidate = casefold ''extensions'') (cfg_section_names cfg)"
  have fold: "casefold ''extensions'' = ''extensions''" by code_simp
  from assms obtain found where f: "git_config_section cfg ''extensions'' = Inr found"
    and v: "(case found of None \<Rightarrow> Inr (False, ''sha1'') | Some sect \<Rightarrow>
      (if cfg_options cfg sect = [] then Inl (PredicateContractError invalid_metadata)
       else if version \<noteq> 1 then Inl (PredicateContractError invalid_metadata)
       else extension_options cfg sect (cfg_options cfg sect) (False, ''sha1''))) = Inr (flag, format)"
    unfolding validate_git_config_extensions_def by (auto simp: bindE_Inr_iff)
  have one: "length ?found \<le> 1" "found = (if ?found = [] then None else Some (hd ?found))"
    using f by (auto simp: git_config_section_def Let_def split: if_splits)
  have sections: "s \<in> set (cfg_section_names cfg) \<and> casefold s = ''extensions'' \<longleftrightarrow> s \<in> set ?found" for s
    by (auto simp: fold)
  have opt: "is_extension_option cfg name \<longleftrightarrow> (\<exists>s\<in>set ?found. name \<in> set (cfg_options cfg s))" for name
    unfolding is_extension_option_def using sections by blast
  show ?thesis
  proof (cases found)
    case None
    then have "?found = []" using one(2) by (simp split: if_splits)
    then show ?thesis using v None unfolding has_worktree_config_def opt by simp
  next
    case (Some sect)
    then have "?found = [sect]" using one by (cases ?found) auto
    moreover have "extension_options cfg sect (cfg_options cfg sect) (False, ''sha1'') = Inr (flag, format)"
      using v Some by (auto split: if_splits)
    ultimately show ?thesis using extension_options_found unfolding has_worktree_config_def opt by fastforce
  qed
qed

lemma worktree_config_effective:
  assumes "read_git_worktree_config fs g (has_worktree_config cfg) = Inr wc"
    "(case wc of None \<Rightarrow> Inr cfg | Some w \<Rightarrow> overlay_git_config cfg w) = Inr eff"
  shows "effective_config fs (g, c) cfg eff (if wc \<noteq> None then g else c)"
proof (cases "has_worktree_config cfg")
  case True
  let ?file = "g @ [''config.worktree'']"
  from assms(1) True obtain found where f: "if_found (require_regular_file_nofollow fs ?file invalid_metadata
      max_file_evidence_bytes) = Inr found"
    and w: "(case found of None \<Rightarrow> Inr None | Some _ \<Rightarrow>
      bindE (read_git_config (fs_read_text fs ?file) invalid_metadata) (\<lambda>cfg. Inr (Some cfg))) = Inr wc"
    by (auto simp: read_git_worktree_config_def bindE_Inr_iff)
  show ?thesis
  proof (cases found)
    case None
    then show ?thesis using w assms(2) if_found_regular(1) f by (auto simp: effective_config_def Let_def)
  next
    case (Some st)
    then obtain w' where w': "wc = Some w'" "read_git_config (fs_read_text fs ?file) invalid_metadata = Inr w'"
      using w by (auto simp: bindE_Inr_iff)
    have k: "has_kind fs ?file Regular" using f Some if_found_regular(2) by blast
    then have "\<not> is_missing fs ?file" by (auto simp: has_kind_def is_missing_def)
    then show ?thesis using w' k assms(2) read_config_parse [OF w'(2)] True by (auto simp: effective_config_def Let_def)
  qed
qed (use assms in \<open>auto simp: read_git_worktree_config_def effective_config_def Let_def\<close>)

lemma effective_accepted:
  assumes "check_effective_config fs eff base root = Inr u"
  shows "git_config_bool eff ''core'' ''bare'' invalid_metadata = Inr False \<and>
    (\<forall>t. git_config_optional eff ''core'' ''worktree'' invalid_metadata = Inr (Some t) \<longrightarrow>
      resolves_to fs base t root)"
proof -
  obtain o' where o': "git_config_bool eff ''core'' ''bare'' invalid_metadata = Inr False"
      "git_config_optional eff ''core'' ''worktree'' invalid_metadata = Inr o'"
      "(case o' of None \<Rightarrow> Inr () | Some t \<Rightarrow> bindE (resolve_git_worktree_path fs t base) (\<lambda>worktree.
         if worktree \<noteq> root then Inl (PredicateContractError worktree_mismatch) else Inr ())) = Inr u"
    using assms unfolding check_effective_config_def by (auto simp: err_simps)
  then show ?thesis by (cases o') (auto simp: err_simps dest: worktree_resolves)
qed

lemma version_bound: "repository_format_version cfg = Inr n \<Longrightarrow> n = 0 \<or> n = 1"
  by (auto simp: repository_format_version_def err_simps split: option.splits if_splits)

lemma metadata_accepted:
  assumes "validate_git_metadata fs g c root = Inr u"
  shows "head_names_commit fs g \<and> has_kind fs (c @ [''objects'']) Directory \<and> has_kind fs (c @ [''refs'']) Directory \<and>
    (\<exists>text cfg. fs_read_text fs (c @ [''config'']) = Inr text \<and> parse_config text = Some cfg \<and> config_accepted fs g c root cfg)"
proof -
  obtain st line d st2 st3 cfg version flag format wc eff where steps:
    "require_regular_file_nofollow fs (g @ [''HEAD'']) invalid_metadata max_string_length = Inr st"
    "read_git_metadata_line fs (g @ [''HEAD'']) invalid_metadata = Inr line" "detached_head line = Inr d"
    "read_git_config (fs_read_text fs (c @ [''config''])) invalid_metadata = Inr cfg"
    "repository_format_version cfg = Inr version"
    "validate_git_config_extensions cfg version = Inr (flag, format)"
    "read_git_worktree_config fs g flag = Inr wc"
    "(case wc of None \<Rightarrow> Inr cfg | Some w \<Rightarrow> overlay_git_config cfg w) = Inr eff"
    "check_effective_config fs eff (if wc \<noteq> None then g else c) root = Inr u"
    and dirs: "require_directory_nofollow fs (c @ [''objects'']) invalid_metadata = Inr st2"
      "require_directory_nofollow fs (c @ [''refs'']) invalid_metadata = Inr st3"
    using assms unfolding validate_git_metadata_def by (auto simp: bindE_Inr_iff split: prod.splits)
  note ext = extensions_found [OF steps(6)]
  have "effective_config fs (g, c) cfg eff (if wc \<noteq> None then g else c)"
    using steps(7) ext worktree_config_effective [OF _ steps(8)] by simp
  then have "config_accepted fs g c root cfg"
    unfolding config_accepted_def
    using version_bound [OF steps(5)] steps(5) read_config_no_includes [OF steps(4)] effective_accepted [OF steps(9)] ext
    by (intro conjI exI [of _ eff] exI [of _ "if wc \<noteq> None then g else c"]) auto
  then show ?thesis using head_accepted [OF steps(1-3)] read_config_parse [OF steps(4)] dirs [THEN checked_kind(2)] by blast
qed

lemma entry_accepted:
  assumes "git_entry_checks fs root = Inr u"
  shows "\<exists>g c. git_dirs_of fs root g c \<and> validate_git_metadata fs g c root = Inr ()"
proof -
  from assms obtain st where st: "fs_lstat fs (root @ [''.git'']) = Inr st"
    by (auto simp: git_entry_checks_def err_simps)
  show ?thesis
  proof (cases "st_kind st")
    case Directory
    then have "git_dirs_of fs root (root @ [''.git'']) (root @ [''.git''])"
      using st by (simp add: git_dirs_of_def has_kind_def)
    then show ?thesis using assms st Directory by (auto simp: git_entry_checks_def mapErr_def)
  next
    case Regular
    then obtain content d x g c where l: "read_git_metadata_line fs (root @ [''.git'']) invalid_metadata = Inr content"
        "starts_with content ''gitdir: ''" "resolve_git_metadata_path fs root (drop 8 content) invalid_metadata = Inr g"
        "require_directory_nofollow fs g invalid_metadata = Inr d"
        "require_gitdir_worktree_matches_root fs g root = Inr x" "git_common_dir fs g = Inr c"
        "validate_git_metadata fs g c root = Inr ()"
      using assms st by (auto simp: git_entry_checks_def mapErr_def bindE_Inr_iff split: if_splits)
    have "content = ''gitdir: '' @ drop 8 content" using starts_with_drop [OF l(2)] by (simp add: eval_nat_numeral)
    then have "holds_line fs (root @ [''.git'']) (''gitdir: '' @ drop 8 content)" using line_held [OF l(1)] by metis
    moreover have "has_kind fs (root @ [''.git'']) Regular" using st Regular by (simp add: has_kind_def)
    ultimately have "git_dirs_of fs root g c"
      using path_resolves [OF l(3)] checked_kind(2) [OF l(4)] gitdir_worktree_back [OF l(5)] common_dir_named [OF l(6)]
      unfolding git_dirs_of_def by blast
    then show ?thesis using l(7) by blast
  qed (use assms st in \<open>auto simp: git_entry_checks_def mapErr_def\<close>)
qed

subsection \<open>Properties\<close>

text \<open>
  C36: whatever document and evidence it is given, the whole call \<^verbatim>\<open>evaluate_predicate_document\<close>, with the
  inspection of the git metadata, raises \<^verbatim>\<open>PredicateContractError\<close>, or else exactly what one of the
  file system calls raised that no \<^verbatim>\<open>except\<close> clause names: expanding and resolving the root (other
  than \<^verbatim>\<open>OSError\<close>), its \<^verbatim>\<open>is_dir\<close>, a \<^verbatim>\<open>stat\<close>, read or \<^verbatim>\<open>resolve\<close> of the metadata (other than \<^verbatim>\<open>OSError\<close>
  and \<^verbatim>\<open>UnicodeError\<close>), or a call on the evidence of an accepted root (other than \<^verbatim>\<open>OSError\<close>). No
  \<^verbatim>\<open>configparser\<close> error, \<^verbatim>\<open>KeyError\<close> or \<^verbatim>\<open>TypeError\<close> of the code's own gets out.
\<close>

theorem document_call_errors:
  assumes "evaluate_predicate_document ctx document = Inl e"
  shows "predicate_error e \<or> root_lets_escape (dc_git ctx) (dc_root ctx) e \<or> git_lets_escape (dc_git ctx) e \<or>
    (\<exists>root. normalize_repo_root (dc_git ctx) (dc_root ctx) = Inr root \<and> os_lets_escape (dc_os ctx root) e)"
proof -
  from assms consider "predicate_error e" | "normalize_repo_root (dc_git ctx) (dc_root ctx) = Inl e"
    | root p where "normalize_repo_root (dc_git ctx) (dc_root ctx) = Inr root"
        "evaluate \<lparr>pc_os = dc_os ctx root, json_documents = dc_json ctx, command_results = dc_results ctx\<rparr> 0 p = Inl e"
    by (auto simp: evaluate_predicate_document_def raise_simps getitem_required split: pyval.splits dest: checks_error)
  then show ?thesis
  proof cases
    case 2
    then show ?thesis using normalize_raises by blast
  next
    case 3
    then show ?thesis using evaluate_error [OF 3(2)] by (auto simp: evidence_error_def)
  qed simp
qed

definition demo_fs :: git_fs where
  "demo_fs =
     \<lparr>fs_expand_root = \<lambda>s. Inr [''/'', ''r''],
      fs_is_dir = \<lambda>p. Inr True,
      fs_lstat = \<lambda>p. Inr \<lparr>st_kind = if last p \<in> {''HEAD'', ''config''} then Regular else Directory,
        st_permissions = 0, st_size = 40, st_nlink = 1, st_dev = 1, st_ino = 1\<rparr>,
      fs_read_text = \<lambda>p. Inr (if last p = ''HEAD'' then ''ref: refs/heads/main''
        else ''[core]'' @ [CHR 0x0A] @ ''repositoryformatversion = 0''),
      fs_resolve = \<lambda>p. Inr p\<rparr>"

definition demo_document_context :: document_context where
  "demo_document_context = \<lparr>dc_root = PStr ''r'', dc_git = demo_fs, dc_os = \<lambda>_. demo_os, dc_json = PDict [], dc_results = PDict []\<rparr>"

definition demo_config :: git_config where
  "demo_config = \<lparr>cfg_defaults = [], cfg_sections = [(''core'', [(''repositoryformatversion'', ''0'')])]\<rparr>"

lemma demo_reads:
  "read_git_metadata_line demo_fs (g @ [''HEAD'']) m = Inr ''ref: refs/heads/main''"
  "detached_head ''ref: refs/heads/main'' = Inr None"
  "read_git_config (fs_read_text demo_fs (g @ [''config''])) invalid_metadata = Inr demo_config"
  "repository_format_version demo_config = Inr 0"
  "validate_git_config_extensions demo_config 0 = Inr (False, ''sha1'')"
  "git_config_bool demo_config ''core'' ''bare'' invalid_metadata = Inr False"
  "git_config_optional demo_config ''core'' ''worktree'' invalid_metadata = Inr None"
proof -
  have line: "splitlines ''ref: refs/heads/main'' = [''ref: refs/heads/main'']"
    "strip ''ref: refs/heads/main'' = ''ref: refs/heads/main''"
    "\<not> list_ex is_git_control_char ''ref: refs/heads/main''" by code_simp+
  then show "read_git_metadata_line demo_fs (g @ [''HEAD'']) m = Inr ''ref: refs/heads/main''"
    by (simp add: read_git_metadata_line_def demo_fs_def mapErr_def)
  have "read_git_config (Inr (''[core]'' @ [CHR 0x0A] @ ''repositoryformatversion = 0'')) invalid_metadata = Inr demo_config"
    by code_simp
  then show "read_git_config (fs_read_text demo_fs (g @ [''config''])) invalid_metadata = Inr demo_config"
    by (simp add: demo_fs_def)
qed code_simp+

lemma demo_files:
  "require_regular_file_nofollow demo_fs (g @ [''HEAD'']) m max_string_length =
    Inr \<lparr>st_kind = Regular, st_permissions = 0, st_size = 40, st_nlink = 1, st_dev = 1, st_ino = 1\<rparr>"
  "require_regular_file_nofollow demo_fs (g @ [''config'']) m max_file_evidence_bytes =
    Inr \<lparr>st_kind = Regular, st_permissions = 0, st_size = 40, st_nlink = 1, st_dev = 1, st_ino = 1\<rparr>"
  "require_directory_nofollow demo_fs (g @ [''objects'']) m =
    Inr \<lparr>st_kind = Directory, st_permissions = 0, st_size = 40, st_nlink = 1, st_dev = 1, st_ino = 1\<rparr>"
  "require_directory_nofollow demo_fs (g @ [''refs'']) m =
    Inr \<lparr>st_kind = Directory, st_permissions = 0, st_size = 40, st_nlink = 1, st_dev = 1, st_ino = 1\<rparr>"
  "fs_lstat demo_fs (g @ [''.git'']) =
    Inr \<lparr>st_kind = Directory, st_permissions = 0, st_size = 40, st_nlink = 1, st_dev = 1, st_ino = 1\<rparr>"
  by (simp_all add: require_regular_file_nofollow_def require_directory_nofollow_def demo_fs_def
      max_string_length_def max_file_evidence_bytes_def)

lemma demo_root: "normalize_repo_root demo_fs (PStr ''r'') = Inr [''/'', ''r'']"
proof -
  have "validate_git_metadata demo_fs g g root = Inr ()" for g root
    by (simp add: validate_git_metadata_def demo_reads demo_files read_git_worktree_config_def check_effective_config_def)
  then have "require_git_worktree_top_level demo_fs root = Inr ()" for root
    by (simp add: require_git_worktree_top_level_def git_entry_checks_def mapErr_def demo_files)
  moreover have "fs_expand_root demo_fs s = Inr [''/'', ''r'']" "fs_is_dir demo_fs p = Inr True" for s p
    by (simp_all add: demo_fs_def)
  ultimately show ?thesis by (simp add: normalize_repo_root_def mapErr_def str_value_def)
qed

lemma document_call_errors_witness:
  "predicate_error (PredicateContractError ''predicate must be a JSON object'') \<or>
     root_lets_escape demo_fs (PStr ''r'') (PredicateContractError ''predicate must be a JSON object'') \<or>
     git_lets_escape demo_fs (PredicateContractError ''predicate must be a JSON object'') \<or>
     (\<exists>root. normalize_repo_root demo_fs (PStr ''r'') = Inr root \<and>
        os_lets_escape demo_os (PredicateContractError ''predicate must be a JSON object''))"
  using document_call_errors
      [of demo_document_context "PDict [(''backend'', PStr ''agentic_predicate_inproc_v1''), (''predicate'', PNone)]"
        "PredicateContractError ''predicate must be a JSON object''"]
  by (simp add: demo_document_context_def evaluate_predicate_document_def
      require_keys_def keys_are_def getitem_def demo_root evaluate_not_dict max_predicate_depth_def)

text \<open>
  C28: a file predicate, \<^verbatim>\<open>file_exists\<close> or \<^verbatim>\<open>file_sha256\<close> with whatever hash, on a path that names raw
  database state or credentials reveals nothing: once the root is accepted, the call raises one and the
  same contract error whatever the files, the evidence and the root are.
\<close>

theorem private_paths_unobservable:
  assumes "is_raw_state_denied s \<or> is_credential_path_denied s"
    and "p \<in> {[(''op'', PStr ''file_exists''), (''path'', PStr s)],
      [(''op'', PStr ''file_sha256''), (''path'', PStr s), (''sha256'', h)]}"
  shows "\<exists>m. (\<lambda>ctx. evaluate_predicate_document ctx
      (PDict [(''backend'', PStr ''agentic_predicate_inproc_v1''), (''predicate'', PDict p)])) =
    (\<lambda>ctx. bindE (normalize_repo_root (dc_git ctx) (dc_root ctx)) (\<lambda>_. Inl (PredicateContractError m)))"
proof -
  obtain m where "evaluate ctx 0 (PDict p) = Inl (PredicateContractError m)" for ctx
    using eval_file_denied(1) [OF assms(1)] eval_file_denied(2) [OF assms(1), of h] assms(2)
    unfolding predicate_error_def by blast
  then show ?thesis
    by (intro exI [of _ m]) (simp add: fun_eq_iff evaluate_predicate_document_def require_keys_def keys_are_def getitem_def)
qed

lemma private_paths_unobservable_witness:
  "\<exists>m. (\<lambda>ctx. evaluate_predicate_document ctx
      (PDict [(''backend'', PStr ''agentic_predicate_inproc_v1''),
        (''predicate'', PDict [(''op'', PStr ''file_sha256''), (''path'', PStr ''.env''), (''sha256'', PNone)])])) =
    (\<lambda>ctx. bindE (normalize_repo_root (dc_git ctx) (dc_root ctx)) (\<lambda>_. Inl (PredicateContractError m)))"
proof (rule private_paths_unobservable)
  show "is_raw_state_denied ''.env'' \<or> is_credential_path_denied ''.env''" by code_simp
qed simp

text \<open>
  C8: a root is accepted only as the top level of a git work tree. Its \<^verbatim>\<open>.git\<close> is the git directory, or
  a file whose line names one that points back at the root; the common directory is the git directory, or
  the one its \<^verbatim>\<open>commondir\<close> file names, and holds objects and references; HEAD names a commit. The
  configuration of the common directory has format 0 or 1, includes no other file and has no
  unsupported extension. Together with the work tree's own configuration, which counts exactly when
  the extension is on and the file exists, it is not bare and puts no work tree elsewhere.
\<close>

theorem accepted_root_is_worktree:
  assumes "normalize_repo_root fs v = Inr root"
  shows "(\<exists>s. str_value v = Some s \<and> fs_expand_root fs s = Inr root) \<and> fs_is_dir fs root = Inr True \<and>
    (\<exists>git_dir common_dir text cfg. git_dirs_of fs root git_dir common_dir \<and> head_names_commit fs git_dir \<and>
      has_kind fs (common_dir @ [''objects'']) Directory \<and> has_kind fs (common_dir @ [''refs'']) Directory \<and>
      fs_read_text fs (common_dir @ [''config'']) = Inr text \<and> parse_config text = Some cfg \<and>
      config_accepted fs git_dir common_dir root cfg)"
proof -
  have top: "\<exists>s. str_value v = Some s \<and> fs_expand_root fs s = Inr root" "fs_is_dir fs root = Inr True"
      "git_entry_checks fs root = Inr ()"
    using assms by (auto simp: normalize_repo_root_def require_git_worktree_top_level_def err_simps split: option.splits)
  from entry_accepted [OF top(3)] obtain g c where gc: "git_dirs_of fs root g c" "validate_git_metadata fs g c root = Inr ()"
    by blast
  show ?thesis using top(1,2) gc(1) metadata_accepted [OF gc(2)] by blast
qed

lemma accepted_root_is_worktree_witness:
  "\<exists>git_dir common_dir text cfg. git_dirs_of demo_fs [''/'', ''r''] git_dir common_dir \<and>
    head_names_commit demo_fs git_dir \<and> fs_read_text demo_fs (common_dir @ [''config'']) = Inr text \<and>
    parse_config text = Some cfg \<and> config_accepted demo_fs git_dir common_dir [''/'', ''r''] cfg"
  using accepted_root_is_worktree [OF demo_root] by blast

text \<open>
  C37: overlaying the configuration of a work tree on the common one succeeds and makes the work
  tree's value win: an option is looked up, without regard to the letter case of its section, in
  the work tree's configuration first and in the common one otherwise.
\<close>

theorem worktree_config_wins:
  assumes "parse_config text = Some base" "parse_config text' = Some over"
    and "unique_sections base" "unique_sections over"
  shows "\<exists>cfg. overlay_git_config base over = Inr cfg \<and>
    (\<forall>s x. option_of cfg s x = (case option_of over s x of Some v \<Rightarrow> Some v | None \<Rightarrow> option_of base s x))"
  using overlay_lookup [OF parse_config_ok [OF assms(1)] parse_config_ok [OF assms(2)] assms(3,4)]
  by (simp add: or_else_def)

lemma worktree_config_wins_witness:
  "\<exists>cfg. overlay_git_config \<lparr>cfg_defaults = [], cfg_sections = [(''core'', [(''bare'', ''true'')])]\<rparr>
      \<lparr>cfg_defaults = [], cfg_sections = [(''Core'', [(''bare'', ''false'')])]\<rparr> = Inr cfg \<and>
    option_of cfg ''core'' ''bare'' = Some ''false''"
proof -
  let ?base = "\<lparr>cfg_defaults = [], cfg_sections = [(''core'', [(''bare'', ''true'')])]\<rparr>"
  let ?over = "\<lparr>cfg_defaults = [], cfg_sections = [(''Core'', [(''bare'', ''false'')])]\<rparr>"
  have texts: "parse_config (''[core]'' @ [CHR 0x0A] @ ''bare=true'') = Some ?base"
    "parse_config (''[Core]'' @ [CHR 0x0A] @ ''bare=false'') = Some ?over" by code_simp+
  have unique: "unique_sections ?base" "unique_sections ?over"
    by (simp_all add: unique_sections_def cfg_section_names_def)
  have "option_of ?over ''core'' ''bare'' = Some ''false''" by code_simp
  with worktree_config_wins [OF texts unique] show ?thesis by auto
qed

end
