(* ===== verification/Amounts.thy ===== *)
theory Amounts
  imports Exceptions
begin

section \<open>Budget amounts and prices (budgets.py)\<close>

text \<open>
  \<^verbatim>\<open>BudgetAmounts\<close> has six integer fields. The model's type is an ordered abelian group, field by
  field, so that the code's loops over \<^verbatim>\<open>_LIMITS\<close> ("for every field, compare" or "subtract") are
  \<open>\<le>\<close> and \<open>-\<close>, and sums over the ledger are \<open>sum_list\<close>.
\<close>

datatype amounts = Amounts
  (time_seconds: int) (input_tokens: int) (output_tokens: int)
  (cost_microusd: int) (retry_units: int) (human_attention_units: int)

instantiation amounts :: ordered_ab_group_add
begin

definition zero_amounts :: amounts where
  "zero_amounts = Amounts 0 0 0 0 0 0"

fun plus_amounts :: "amounts \<Rightarrow> amounts \<Rightarrow> amounts" where
  "plus_amounts (Amounts t i out c r h) (Amounts t' i' out' c' r' h') =
     Amounts (t + t') (i + i') (out + out') (c + c') (r + r') (h + h')"

fun uminus_amounts :: "amounts \<Rightarrow> amounts" where
  "uminus_amounts (Amounts t i out c r h) = Amounts (- t) (- i) (- out) (- c) (- r) (- h)"

definition minus_amounts :: "amounts \<Rightarrow> amounts \<Rightarrow> amounts" where
  "minus_amounts a b = a + (- b)"

fun less_eq_amounts :: "amounts \<Rightarrow> amounts \<Rightarrow> bool" where
  "less_eq_amounts (Amounts t i out c r h) (Amounts t' i' out' c' r' h') \<longleftrightarrow>
     t \<le> t' \<and> i \<le> i' \<and> out \<le> out' \<and> c \<le> c' \<and> r \<le> r' \<and> h \<le> h'"

definition less_amounts :: "amounts \<Rightarrow> amounts \<Rightarrow> bool" where
  "less_amounts a b \<longleftrightarrow> a \<le> b \<and> \<not> b \<le> (a::amounts)"

instance
proof
  fix a b c :: amounts
  show "a + b + c = a + (b + c)" by (cases a; cases b; cases c) simp
  show "a + b = b + a" by (cases a; cases b) simp
  show "0 + a = a" by (cases a) (simp add: zero_amounts_def)
  show "- a + a = 0" by (cases a) (simp add: zero_amounts_def)
  show "a - b = a + - b" by (simp add: minus_amounts_def)
  show "(a < b) = (a \<le> b \<and> \<not> b \<le> a)" by (rule less_amounts_def)
  show "a \<le> a" by (cases a) simp
  show "a \<le> b \<Longrightarrow> b \<le> c \<Longrightarrow> a \<le> c" by (cases a; cases b; cases c) simp
  show "a \<le> b \<Longrightarrow> b \<le> a \<Longrightarrow> a = b" by (cases a; cases b) simp
  show "a \<le> b \<Longrightarrow> c + a \<le> c + b" by (cases a; cases b; cases c) simp
qed

end

lemma amounts_fields [simp]:
  "time_seconds (a + b) = time_seconds a + time_seconds b"
  "input_tokens (a + b) = input_tokens a + input_tokens b"
  "output_tokens (a + b) = output_tokens a + output_tokens b"
  "cost_microusd (a + b) = cost_microusd a + cost_microusd b"
  "retry_units (a + b) = retry_units a + retry_units b"
  "human_attention_units (a + b) = human_attention_units a + human_attention_units b"
  by (cases a; cases b; simp)+

lemma amounts_minus [simp]: "Amounts t i out c r h - Amounts t' i' out' c' r' h' =
    Amounts (t - t') (i - i') (out - out') (c - c') (r - r') (h - h')"
  by (simp add: minus_amounts_def)

lemma amounts_diff_fields [simp]:
  "input_tokens (a - b) = input_tokens a - input_tokens b"
  "output_tokens (a - b) = output_tokens a - output_tokens b"
  "cost_microusd (a - b) = cost_microusd a - cost_microusd b"
  by (cases a; cases b; simp)+

lemma amounts_le_iff:
  "a \<le> b \<longleftrightarrow> time_seconds a \<le> time_seconds b \<and> input_tokens a \<le> input_tokens b \<and>
     output_tokens a \<le> output_tokens b \<and> cost_microusd a \<le> cost_microusd b \<and>
     retry_units a \<le> retry_units b \<and> human_attention_units a \<le> human_attention_units b"
  by (cases a; cases b) simp

subsection \<open>Limits and the checked constructor\<close>

definition limits :: amounts where
  "limits = Amounts 31536000 1000000000 1000000000 100000000000 1000000 1000000"

definition max_event_sequence :: int where "max_event_sequence = 1000000"
definition max_epoch_ms :: int where "max_epoch_ms = 253402300799999"

text \<open>\<^verbatim>\<open>BudgetAmounts.__post_init__\<close>.\<close>

definition budget_amounts :: "amounts \<Rightarrow> exn + amounts" where
  "budget_amounts a =
     (if 0 \<le> a \<and> a \<le> limits then Inr a
      else Inl (BudgetError ''field must be an integer in its range''))"

definition is_zero :: "amounts \<Rightarrow> bool" where
  "is_zero a \<longleftrightarrow> a = 0"

definition only_usage :: "amounts \<Rightarrow> amounts" where
  "only_usage a = Amounts (time_seconds a) (input_tokens a) (output_tokens a) (cost_microusd a) 0 0"

definition only_retry :: "amounts \<Rightarrow> amounts" where
  "only_retry a = Amounts 0 0 0 0 (retry_units a) 0"

definition only_human :: "amounts \<Rightarrow> amounts" where
  "only_human a = Amounts 0 0 0 0 0 (human_attention_units a)"

lemma only_parts: "only_usage a + only_retry a + only_human a = a"
  by (cases a) (simp add: only_usage_def only_retry_def only_human_def)

lemma only_mono:
  "a \<le> b \<Longrightarrow> only_usage a \<le> only_usage b"
  "a \<le> b \<Longrightarrow> only_retry a \<le> only_retry b"
  "a \<le> b \<Longrightarrow> only_human a \<le> only_human b"
  by (auto simp: only_usage_def only_retry_def only_human_def amounts_le_iff)

lemma only_zero [simp]: "only_usage 0 = 0" "only_retry 0 = 0" "only_human 0 = 0"
  by (auto simp: only_usage_def only_retry_def only_human_def zero_amounts_def)

lemma budget_amounts_Inr_iff [err_simps]: "budget_amounts a = Inr b \<longleftrightarrow> b = a \<and> 0 \<le> a \<and> a \<le> limits"
  by (auto simp: budget_amounts_def)

subsection \<open>The selected cost row and the price of tokens\<close>

text \<open>
  The eight columns that bind an event to its cost row. In \<open>budget_events\<close> they may be null,
  so that table holds an \<open>string option binding\<close>.
\<close>

datatype 'a binding = Binding
  (provider: 'a) (model: 'a) (endpoint_binding_id: 'a) (capability_class: 'a)
  (cost_registry_id: 'a) (cost_effective_at: 'a) (cost_registry_hash: 'a) (cost_confidence: 'a)

record budget_selection =
  sel_binding :: "string binding"
  input_price :: int
  output_price :: int

definition rounded_up :: "int \<Rightarrow> int \<Rightarrow> exn + int" where
  "rounded_up tokens price =
     (if \<not> (0 \<le> price \<and> price \<le> 100000000000)
      then Inl (BudgetError ''selected registry price is malformed'')
      else Inr ((tokens * price + 999999) div 1000000))"

definition required_cost :: "budget_selection \<Rightarrow> amounts \<Rightarrow> exn + int" where
  "required_cost selection a =
     bindE (rounded_up (input_tokens a) (input_price selection)) (\<lambda>inp.
     bindE (rounded_up (output_tokens a) (output_price selection)) (\<lambda>out.
       if inp + out > cost_microusd limits
       then Inl (BudgetExceeded ''selected token reservation cost exceeds fixed-point limit'')
       else Inr (inp + out)))"

lemma div_million_bounds:
  fixes x :: int
  shows "x \<le> 1000000 * ((x + 999999) div 1000000)" "1000000 * ((x + 999999) div 1000000) < x + 1000000"
  by linarith+

lemma rounded_up_mono:
  assumes "rounded_up t p = Inr n" "rounded_up t' p = Inr n'" "t \<le> t'"
  shows "n \<le> n'"
  using assms by (auto simp: rounded_up_def mult_right_mono zdiv_mono1 split: if_splits)

lemma required_cost_mono:
  assumes "required_cost s a = Inr n" "required_cost s b = Inr k" "a \<le> b"
  shows "n \<le> k"
proof -
  obtain i j i' j' where "rounded_up (input_tokens a) (input_price s) = Inr i" "n = i + j"
      "rounded_up (output_tokens a) (output_price s) = Inr j" "k = i' + j'"
      "rounded_up (input_tokens b) (input_price s) = Inr i'"
      "rounded_up (output_tokens b) (output_price s) = Inr j'"
    using assms(1,2) by (auto simp: required_cost_def err_simps)
  moreover have "input_tokens a \<le> input_tokens b" "output_tokens a \<le> output_tokens b"
    using assms(3) by (auto simp: amounts_le_iff)
  ultimately show ?thesis using rounded_up_mono by (auto intro: add_mono)
qed

text \<open>
  C39: the price check never undercharges: the required cost covers the exact token price, in
  millionths of the unit, exceeds it by less than one unit per token kind, and stays in range.
\<close>

theorem required_cost_exact:
  assumes "required_cost s a = Inr n" "0 \<le> a"
  shows "input_tokens a * input_price s + output_tokens a * output_price s \<le> 1000000 * n \<and>
    1000000 * n < input_tokens a * input_price s + output_tokens a * output_price s + 2000000 \<and>
    0 \<le> n \<and> n \<le> cost_microusd limits"
proof -
  let ?i = "input_tokens a * input_price s" and ?o = "output_tokens a * output_price s"
  have n: "n = (?i + 999999) div 1000000 + (?o + 999999) div 1000000" "n \<le> cost_microusd limits"
    and p: "0 \<le> input_price s" "0 \<le> output_price s"
    using assms(1) by (auto simp: required_cost_def rounded_up_def err_simps)
  have "0 \<le> ?i" "0 \<le> ?o" using assms(2) p by (auto simp: amounts_le_iff zero_amounts_def)
  then have "0 \<le> n" using n(1) by (simp add: pos_imp_zdiv_nonneg_iff)
  then show ?thesis using n div_million_bounds [of ?i] div_million_bounds [of ?o] by auto
qed

lemma required_cost_exact_witness:
  "(3000005::int) \<le> 1000000 * 5 \<and> 1000000 * 5 < (3000005::int) + 2000000 \<and>
    (0::int) \<le> 5 \<and> 5 \<le> cost_microusd limits"
  using required_cost_exact [of "\<lparr>sel_binding = Binding [] [] [] [] [] [] [] [], input_price = 2, output_price = 3\<rparr>"
      "Amounts 0 1500001 1 10 0 0" 5]
  by (simp add: required_cost_def rounded_up_def limits_def zero_amounts_def)

end
