(* ===== verification/Ledger.thy ===== *)
theory Ledger
  imports Amounts Privacy "HOL-Library.List_Lexorder" "HOL-Library.Char_ord"
begin

section \<open>The database the budget and dispatch code works on\<close>

text \<open>
  A table is the list of its rows, a row a record of the columns the modelled code reads or
  writes; a nullable column is an option. Columns with a fixed vocabulary (a check constraint of
  the schema) are datatypes. Triggers, keys and check constraints are not spelled out: a write
  succeeds or is refused by \<open>sql_fails\<close>, about which nothing is assumed, so every
  statement below holds whatever the engine refuses.
\<close>

datatype event_type = Reserve | Consume | Release | RetryDecrement | RetryRestore | HumanAttention

datatype confidence = Known | Estimated | Unknown

definition event_type_of :: "string \<Rightarrow> event_type option" where
  "event_type_of s =
     map_of [(''reserve'', Reserve), (''consume'', Consume), (''release'', Release),
       (''retry_decrement'', RetryDecrement), (''retry_restore'', RetryRestore),
       (''human_attention'', HumanAttention)] s"

definition confidence_of :: "string \<Rightarrow> confidence option" where
  "confidence_of s = map_of [(''known'', Known), (''estimated'', Estimated), (''unknown'', Unknown)] s"

fun event_type_text :: "event_type \<Rightarrow> string" where
  "event_type_text Reserve = ''reserve''"
| "event_type_text Consume = ''consume''"
| "event_type_text Release = ''release''"
| "event_type_text RetryDecrement = ''retry_decrement''"
| "event_type_text RetryRestore = ''retry_restore''"
| "event_type_text HumanAttention = ''human_attention''"

lemma event_type_roundtrip: "event_type_of s = Some t \<longleftrightarrow> s = event_type_text t"
  by (cases t) (auto simp: event_type_of_def)

record run_row =
  run_run :: string
  run_workflow :: string
  run_state :: string

record transition_row =
  tr_transition :: string
  tr_run :: string

record registry_row =
  reg_binding :: "string binding"
  reg_input :: int
  reg_output :: int

record budget_row =
  rb_run :: string
  rb_workflow :: string
  rb_selected :: "string binding"
  rb_transition :: string
  rb_budget :: amounts
  rb_reserved :: amounts
  rb_consumed :: amounts
  rb_usage :: confidence
  rb_updated :: string

record clock_row =
  clk_id :: string
  clk_gate :: string
  clk_consumer :: string
  clk_run :: string
  clk_transition :: string
  clk_nonce :: string
  clk_now :: int
  clk_bound :: int
  clk_consumed :: int
  clk_source :: string

record gate_row =
  gate_id :: string
  gate_run :: string
  gate_transition :: string
  gate_clock :: string
  gate_decision :: string
  gate_completed :: int

record spawn_row =
  spawn_id :: string
  spawn_run :: string
  spawn_phase :: string
  spawn_agent :: string
  spawn_transition :: string
  spawn_client :: string
  spawn_key :: string
  spawn_digest :: string
  spawn_state :: string
  spawn_session :: "string option"

record intent_row =
  int_id :: string
  int_run :: string
  int_transition :: string
  int_kind :: string
  int_spawn :: "string option"
  int_client :: string
  int_key :: string
  int_phase :: "string option"
  int_agent :: "string option"
  int_digest :: "string option"
  int_state :: string
  int_external :: "string option"
  int_requested :: int
  int_accepted :: "int option"

record session_row =
  ses_spawn :: string
  ses_run :: string
  ses_transition :: string
  ses_phase :: string
  ses_agent :: string
  ses_client :: string
  ses_key :: string
  ses_session :: string
  ses_digest :: string
  ses_state :: string
  ses_completed :: "string option"

record policy_row =
  pol_id :: string
  pol_endpoint :: string
  pol_capability :: string
  pol_hash :: string

record event_row =
  ev_id :: string
  ev_key :: string
  ev_dedupe :: string
  ev_sequence :: int
  ev_run :: string
  ev_transition :: string
  ev_spawn :: "string option"
  ev_binding :: "string option binding"
  ev_policy :: "string option"
  ev_policy_hash :: "string option"
  ev_type :: event_type
  ev_amounts :: amounts
  ev_usage :: confidence
  ev_source :: string
  ev_created :: string
  ev_created_ms :: int
  ev_clock :: "string option"
  ev_settlement :: "string option"

record settlement_row =
  set_id :: string
  set_key :: string
  set_dedupe :: string
  set_run :: string
  set_transition :: string
  set_spawn :: string
  set_binding :: "string binding"
  set_actual :: amounts
  set_released :: amounts
  set_usage :: confidence
  set_source :: string
  set_created :: string
  set_created_ms :: int
  set_clock :: string

record ledger =
  runs :: "run_row list"
  transitions :: "transition_row list"
  cost_registry :: "registry_row list"
  run_budgets :: "budget_row list"
  clock_contexts :: "clock_row list"
  gate_runs :: "gate_row list"
  spawn_requests :: "spawn_row list"
  rpc_intents :: "intent_row list"
  sessions :: "session_row list"
  zero_policies :: "policy_row list"
  budget_events :: "event_row list"
  budget_settlements :: "settlement_row list"
  schema_migrations :: "(int \<times> string \<times> string) list"

subsection \<open>Statements and transactions\<close>

text \<open>
  \<open>sql_fails\<close> says whether a statement, named by a label, fails on a database and its
  successor; a failed statement changes nothing. A transaction that raises rolls back.
\<close>

datatype sql_failure = IntegrityFailure string | OperationalFailure string

type_synonym engine = "string \<Rightarrow> ledger \<Rightarrow> ledger \<Rightarrow> sql_failure option"

fun sql_exn :: "sql_failure \<Rightarrow> exn" where
  "sql_exn (IntegrityFailure s) = SqliteIntegrityError s"
| "sql_exn (OperationalFailure s) = SqliteError s"

type_synonym 'a statement = "(ledger, exn, 'a) action"

definition fetch :: "engine \<Rightarrow> string \<Rightarrow> (ledger \<Rightarrow> 'a) \<Rightarrow> 'a statement" where
  "fetch eng label q db =
     (case eng label db db of None \<Rightarrow> (Inr (q db), db) | Some f \<Rightarrow> (Inl (sql_exn f), db))"

definition execute :: "engine \<Rightarrow> string \<Rightarrow> (ledger \<Rightarrow> ledger) \<Rightarrow> unit statement" where
  "execute eng label w db =
     (case eng label db (w db) of None \<Rightarrow> (Inr (), w db) | Some f \<Rightarrow> (Inl (sql_exn f), db))"

definition transaction :: "engine \<Rightarrow> 'a statement \<Rightarrow> 'a statement" where
  "transaction eng body db =
     (case eng ''BEGIN IMMEDIATE'' db db of
        Some f \<Rightarrow> (Inl (sql_exn f), db)
      | None \<Rightarrow>
          (case body db of
             (Inl e, db') \<Rightarrow> (Inl e, db)
           | (Inr x, db') \<Rightarrow>
               (case eng ''COMMIT'' db db' of
                  Some f \<Rightarrow> (Inl (sql_exn f), db)
                | None \<Rightarrow> (Inr x, db'))))"

lemma fetch_Inr_iff [err_simps]: "fetch eng l q db = (Inr x, db') \<longleftrightarrow> eng l db db = None \<and> x = q db \<and> db' = db"
  by (auto simp: fetch_def split: option.splits)

lemma fetch_Inl_iff: "fetch eng l q db = (Inl e, db') \<longleftrightarrow> db' = db \<and> (\<exists>f. eng l db db = Some f \<and> e = sql_exn f)"
  by (auto simp: fetch_def split: option.splits)

lemma execute_Inr_iff [err_simps]: "execute eng l w db = (Inr x, db') \<longleftrightarrow> eng l db (w db) = None \<and> db' = w db"
  by (auto simp: execute_def split: option.splits)

lemma execute_Inl_iff:
  "execute eng l w db = (Inl e, db') \<longleftrightarrow> db' = db \<and> (\<exists>f. eng l db (w db) = Some f \<and> e = sql_exn f)"
  by (auto simp: execute_def split: option.splits)

lemma transaction_Inr_iff [err_simps]:
  "transaction eng body db = (Inr x, db') \<longleftrightarrow>
     eng ''BEGIN IMMEDIATE'' db db = None \<and> body db = (Inr x, db') \<and> eng ''COMMIT'' db db' = None"
  by (auto simp: transaction_def split: option.splits prod.splits sum.splits)

lemma transaction_raises:
  assumes "transaction eng body db = (Inl e, db')"
  shows "db' = db \<and> ((\<exists>f. e = sql_exn f) \<or> (\<exists>db1. body db = (Inl e, db1)))"
  using assms by (auto simp: transaction_def split: option.splits prod.splits sum.splits)

text \<open>A check that only reads.\<close>

definition checkM :: "bool \<Rightarrow> exn \<Rightarrow> unit statement" where
  "checkM ok e = (if ok then returnM () else raiseM e)"

lemma checkM_Inr_iff [err_simps]: "checkM ok e db = (Inr x, db') \<longleftrightarrow> ok \<and> db' = db"
  by (auto simp: checkM_def)

lemma checkM_Inl_iff: "checkM ok e db = (Inl e', db') \<longleftrightarrow> \<not> ok \<and> e' = e \<and> db' = db"
  by (auto simp: checkM_def)

lemma liftM_Inr_iff [err_simps]: "liftM r db = (Inr x, db') \<longleftrightarrow> r = Inr x \<and> db' = db"
  by auto

subsection \<open>Queries\<close>

fun first :: "'a list \<Rightarrow> 'a option" where
  "first [] = None"
| "first (x # xs) = Some x"

lemma first_SomeD: "first xs = Some x \<Longrightarrow> x \<in> set xs"
  by (cases xs) auto

lemma first_None [simp]: "first xs = None \<longleftrightarrow> xs = []"
  by (cases xs) auto

text \<open>SQL's \<^verbatim>\<open><>\<close> with a possibly null left side: a null is never different.\<close>

definition sql_neq :: "'a option \<Rightarrow> 'a \<Rightarrow> bool" where
  "sql_neq a b = (case a of None \<Rightarrow> False | Some x \<Rightarrow> x \<noteq> b)"

end
