(* ===== verification/Clock.thy ===== *)
theory Clock
  imports JsonText
begin

section \<open>Time stamps\<close>

text \<open>
  \<^verbatim>\<open>(datetime(1970, 1, 1, tzinfo=utc) + timedelta(milliseconds=ms)).isoformat()\<close> for the
  range the code admits (years 1970 to 9999): the proleptic Gregorian date of the day number,
  counted in years that start in March, and the time of day, with six decimals unless they are zero.
\<close>

definition pad :: "nat \<Rightarrow> nat \<Rightarrow> string" where
  "pad k n = replicate (k - length (digits_of n)) (CHR ''0'') @ digits_of n"

definition civil_date :: "nat \<Rightarrow> nat \<times> nat \<times> nat" where
  "civil_date days =
     (let z = days + 719468;
          era = z div 146097;
          doe = z mod 146097;
          yoe = (doe - doe div 1460 + doe div 36524 - doe div 146096) div 365;
          doy = doe - (365 * yoe + yoe div 4 - yoe div 100);
          mp = (5 * doy + 2) div 153;
          d = doy - (153 * mp + 2) div 5 + 1;
          m = (if mp < 10 then mp + 3 else mp - 9)
      in (400 * era + yoe + (if m \<le> 2 then 1 else 0), m, d))"

definition iso_date :: "nat \<Rightarrow> string" where
  "iso_date days = (case civil_date days of (y, m, d) \<Rightarrow> pad 4 y @ ''-'' @ pad 2 m @ ''-'' @ pad 2 d)"

definition iso_time :: "nat \<Rightarrow> string" where
  "iso_time ms =
     pad 2 (ms div 3600000) @ '':'' @ pad 2 (ms div 60000 mod 60) @ '':'' @ pad 2 (ms div 1000 mod 60) @
     (if ms mod 1000 = 0 then [] else ''.'' @ pad 3 (ms mod 1000) @ ''000'')"

definition isoformat :: "int \<Rightarrow> string" where
  "isoformat ms = iso_date (nat ms div 86400000) @ ''T'' @ iso_time (nat ms mod 86400000) @ ''+00:00''"

end
