(* ===== verification/Budgets.thy ===== *)
theory Budgets
  imports Ledger Clock Sha256
begin

section \<open>The budget ledger (budgets.py)\<close>

text \<open>
  Every operation of \<^verbatim>\<open>budgets.py\<close> as a statement on the ledger. What is outside is a
  \<open>budget_env\<close>: the database file as the operating system and SQLite present it, the pinned
  migrations, the deep schema checks, the SLO queries (pairs of a name and "returns a row") and the
  SQL engine's refusals.
\<close>

subsection \<open>Identities and time\<close>

definition required_text :: "string \<Rightarrow> string option \<Rightarrow> exn + string" where
  "required_text label value =
     (case value of
        None \<Rightarrow> Inl (BudgetError (label @ '' must be a non-empty string''))
      | Some s \<Rightarrow>
          (if strip s = [] then Inl (BudgetError (label @ '' must be a non-empty string''))
           else Inr (strip s)))"

definition event_id :: "string \<Rightarrow> string" where
  "event_id key = ''budget-'' @ sha256_hex (utf8 (''agentic-os-budget-event'' @ CHR 0x00 # key))"

definition dedupe_hash :: "string \<Rightarrow> string" where
  "dedupe_hash key = sha256_hex (utf8 (''agentic-os-budget-dedupe'' @ CHR 0x00 # key))"

definition settlement_id :: "string \<Rightarrow> string" where
  "settlement_id key = ''settlement-'' @ sha256_hex (utf8 (''agentic-os-budget-settlement'' @ CHR 0x00 # key))"

definition created_at :: "int \<Rightarrow> exn + string" where
  "created_at ms =
     (if 1 \<le> ms \<and> ms \<le> max_epoch_ms then Inr (isoformat ms)
      else Inl (BudgetError ''created_at_epoch_ms must be an integer in its range''))"

subsection \<open>The environment and the connection\<close>

text \<open>
  \<open>db_path\<close> is \<^verbatim>\<open>Path(database).expanduser().resolve()\<close>; it and the calls that look at the file may
  raise. \<open>db_sidecar False\<close> is the mode of a sidecar file before the connection, \<open>db_sidecar True\<close>
  after it; \<open>db_pragma\<close> answers a pragma with the text of its row.
\<close>

record database_file =
  db_path :: "exn + string"
  db_is_file :: "exn + bool"
  db_parent_mode :: "exn + nat"
  db_mode :: "exn + nat"
  db_sidecar :: "bool \<Rightarrow> string \<Rightarrow> exn + nat option"
  db_opens :: bool
  db_pragma :: "string \<Rightarrow> sql_failure + string option"

record budget_env =
  be_git :: git_env
  be_root :: "exn + string"
  be_file :: database_file
  be_engine :: engine
  be_migrations :: "exn + (int \<times> string \<times> string) list"
  be_deep_checks :: "ledger \<Rightarrow> exn + unit"
  be_slo :: "(string \<times> (ledger \<Rightarrow> bool)) list"

definition sidecar_suffixes :: "string list" where
  "sidecar_suffixes = [''-wal'', ''-shm'', ''-journal'']"

definition check_sidecar :: "database_file \<Rightarrow> bool \<Rightarrow> string \<Rightarrow> exn + unit" where
  "check_sidecar f connected suffix =
     bindE (db_sidecar f connected suffix) (\<lambda>mode.
     if mode \<noteq> None \<and> mode \<noteq> Some 384
     then Inl (BudgetError ''budget database sidecar must have mode 0600'') else Inr ())"

definition check_sidecars :: "database_file \<Rightarrow> bool \<Rightarrow> exn + unit" where
  "check_sidecars f connected =
     bindE (mapE (check_sidecar f connected) sidecar_suffixes) (\<lambda>_. Inr ())"

definition pragma :: "database_file \<Rightarrow> string \<Rightarrow> exn + string option" where
  "pragma f name = (case db_pragma f name of Inl e \<Rightarrow> Inl (sql_exn e) | Inr row \<Rightarrow> Inr row)"

definition privacy_failed :: "exn \<Rightarrow> exn" where
  "privacy_failed e =
     (case e of PrivacyPreflightError _ \<Rightarrow> BudgetError ''budget database privacy preflight failed'' | _ \<Rightarrow> e)"

definition connect :: "budget_env \<Rightarrow> exn + unit" where
  "connect env =
     (let f = be_file env in
      bindE (db_path f) (\<lambda>path.
      bindE (mapErr privacy_failed (bindE (be_root env) (\<lambda>root.
        assert_privacy_preflight (be_git env) root [path]))) (\<lambda>_.
      bindE (db_is_file f) (\<lambda>is_file.
      if \<not> is_file
      then Inl (BudgetError ''budget database must already exist and be a regular file'')
      else
        bindE (db_parent_mode f) (\<lambda>parent_mode.
        bindE (db_mode f) (\<lambda>file_mode.
        if parent_mode \<noteq> 448 \<or> file_mode \<noteq> 384
        then Inl (BudgetError ''budget database requires a 0700 directory and 0600 database file'')
        else
          bindE (check_sidecars f False) (\<lambda>_.
          if \<not> db_opens f then Inl (BudgetError ''budget database must already exist and be writable'')
          else
            bindE (pragma f ''PRAGMA busy_timeout=10000'') (\<lambda>_.
            bindE (pragma f ''PRAGMA journal_mode=WAL'') (\<lambda>mode.
            if map_option casefold mode \<noteq> Some ''wal''
            then Inl (BudgetError ''SQLite WAL journal mode is unavailable'')
            else
              bindE (pragma f ''PRAGMA foreign_keys=ON'') (\<lambda>_.
              bindE (pragma f ''PRAGMA foreign_keys'') (\<lambda>enabled.
              if enabled \<noteq> Some ''1''
              then Inl (BudgetError ''SQLite foreign key enforcement is unavailable'')
              else check_sidecars f True)))))))))))"

definition is_sqlite_error :: "exn \<Rightarrow> bool" where
  "is_sqlite_error e = (case e of SqliteIntegrityError _ \<Rightarrow> True | SqliteError _ \<Rightarrow> True | _ \<Rightarrow> False)"

definition is_migration_error :: "exn \<Rightarrow> bool" where
  "is_migration_error e = (case e of MigrationError _ \<Rightarrow> True | _ \<Rightarrow> False)"

definition schema_check_failed :: "exn \<Rightarrow> exn" where
  "schema_check_failed e =
     (if is_migration_error e \<or> is_sqlite_error e
      then BudgetError ''budget database schema verification failed'' else e)"

definition not_migrated :: "exn \<Rightarrow> exn" where
  "not_migrated e = (if is_sqlite_error e then BudgetError ''budget database is not migrated'' else e)"

definition verify_schema_identity :: "budget_env \<Rightarrow> unit statement" where
  "verify_schema_identity env =
     bindM (liftM (be_migrations env)) (\<lambda>expected.
     bindM (catchM (fetch (be_engine env) ''schema migrations'' schema_migrations) (\<lambda>e. raiseM (not_migrated e))) (\<lambda>actual.
     bindM (checkM (actual = expected) (BudgetError ''budget database migration identity does not match pinned schema'')) (\<lambda>_.
     bindM (readM (be_deep_checks env)) (\<lambda>checks. liftM (mapErr schema_check_failed checks)))))"

subsection \<open>Queries on the bound budget row\<close>

definition clock_contexts_for :: "string \<Rightarrow> string \<Rightarrow> string \<Rightarrow> ledger \<Rightarrow> int list" where
  "clock_contexts_for run transition clock db =
     [clk_now c. c \<leftarrow> clock_contexts db, g \<leftarrow> gate_runs db,
        gate_id g = clk_gate c \<and> gate_clock g = clk_id c \<and> gate_run g = clk_run c \<and>
        gate_transition g = clk_transition c \<and>
        clk_id c = clock \<and> clk_run c = run \<and> clk_transition c = transition \<and>
        clk_gate c = clk_consumer c \<and> clk_bound c = clk_now c \<and> clk_consumed c = clk_now c \<and>
        clk_source c \<noteq> [] \<and> clk_nonce c \<noteq> [] \<and>
        gate_decision g = ''pass'' \<and> gate_completed g = clk_now c]"

definition trusted_created_at :: "budget_env \<Rightarrow> string \<Rightarrow> string \<Rightarrow> string \<Rightarrow> (string \<times> int) statement" where
  "trusted_created_at env run transition clock =
     bindM (fetch (be_engine env) ''clock context'' (\<lambda>db. first (clock_contexts_for run transition clock db))) (\<lambda>row.
     case row of
       None \<Rightarrow> raiseM (BudgetError ''budget event requires a trusted same-run, same-transition gate/order clock context'')
     | Some ms \<Rightarrow> bindM (liftM (created_at ms)) (\<lambda>text. returnM (text, ms)))"

definition bound_rows :: "string \<Rightarrow> string \<Rightarrow> bool \<Rightarrow> ledger \<Rightarrow> budget_selection list" where
  "bound_rows run transition allow_unknown_usage db =
     [\<lparr>sel_binding = rb_selected rb, input_price = reg_input m, output_price = reg_output m\<rparr>.
        rb \<leftarrow> run_budgets db, r \<leftarrow> runs db, t \<leftarrow> transitions db, m \<leftarrow> cost_registry db,
        run_run r = rb_run rb \<and> run_workflow r = rb_workflow rb \<and>
        tr_transition t = rb_transition rb \<and> tr_run t = rb_run rb \<and>
        reg_binding m = rb_selected rb \<and>
        rb_run rb = run \<and> rb_transition rb = transition \<and>
        cost_confidence (rb_selected rb) \<in> {''known'', ''estimated''} \<and>
        (allow_unknown_usage \<or> rb_usage rb \<in> {Known, Estimated})]"

definition selected_binding :: "budget_env \<Rightarrow> string \<Rightarrow> string \<Rightarrow> bool \<Rightarrow> budget_selection statement" where
  "selected_binding env run transition allow_unknown_usage =
     bindM (fetch (be_engine env) ''selected binding'' (\<lambda>db. first (bound_rows run transition allow_unknown_usage db))) (\<lambda>row.
     case row of
       None \<Rightarrow> raiseM (BudgetError ''run budget is absent, unknown, or not exactly bound to the transition/cost row'')
     | Some selection \<Rightarrow> returnM selection)"

subsection \<open>What an event does to the counters\<close>

text \<open>
  The \<^verbatim>\<open>CASE event_type\<close> sums of the queries: \<open>reserved_effect\<close> for the reserved amounts,
  \<open>consumed_effect\<close> for the consumed ones.
\<close>

fun reserved_effect :: "event_type \<Rightarrow> amounts \<Rightarrow> amounts" where
  "reserved_effect Reserve a = a"
| "reserved_effect Release a = - a"
| "reserved_effect Consume a = - only_usage a"
| "reserved_effect RetryDecrement a = - only_retry a"
| "reserved_effect RetryRestore a = only_retry a"
| "reserved_effect HumanAttention a = - only_human a"

fun consumed_effect :: "event_type \<Rightarrow> amounts \<Rightarrow> amounts" where
  "consumed_effect Reserve a = 0"
| "consumed_effect Release a = 0"
| "consumed_effect Consume a = only_usage a"
| "consumed_effect RetryDecrement a = only_retry a"
| "consumed_effect RetryRestore a = - only_retry a"
| "consumed_effect HumanAttention a = only_human a"

subsection \<open>The invariant queries\<close>

definition left_join :: "('a \<Rightarrow> bool) \<Rightarrow> 'a list \<Rightarrow> 'a option list" where
  "left_join P xs = (if filter P xs = [] then [None] else map Some (filter P xs))"

definition budget_invariant_queries :: "string list" where
  "budget_invariant_queries =
    [''Duplicate live dispatch blocked'',
     ''Accepted `sessions_spawn` without exact accepted session identity'',
     ''Unknown usage blocks auto-local'',
     ''Model cost registry numeric bounds'',
     ''Endpoint-bound budget event cost row blocks dispatch'',
     ''Run budget selected cost row mismatch'',
     ''`sessions_spawn` intent without exact strict prior reserve'',
     ''Invalid zero-reserve policy'',
     ''Meaningless `sessions_spawn` reserve'',
     ''Budget event amount malformed or out of range'',
     ''Budget counters outside selected budget'',
     ''Budget ledger reconciles to counters and budgets'',
     ''Budget prefix over-release or over-restore'',
     ''Duplicate or replayed budget events'',
     ''Budget event count bounded for SUM safety'']"

definition unknown_usage_violation :: "ledger \<Rightarrow> bool" where
  "unknown_usage_violation db \<longleftrightarrow>
     list_ex (\<lambda>ev. ev_usage ev = Unknown \<and>
       list_ex (\<lambda>r. run_run r = ev_run ev \<and>
         list_ex (\<lambda>row.
           (case row of None \<Rightarrow> True | Some rb \<Rightarrow> rb_usage rb \<noteq> Unknown) \<or>
           run_state r \<in> {''gate_passed'', ''release_pending'', ''finalized''} \<or>
           \<not> (ev_type ev = Consume \<and> is_zero (ev_amounts ev)))
           (left_join (\<lambda>rb. rb_run rb = ev_run ev) (run_budgets db)))
         (runs db))
       (budget_events db)"

definition binding_columns :: "'a binding \<Rightarrow> 'a list" where
  "binding_columns b =
     [provider b, model b, endpoint_binding_id b, capability_class b,
      cost_registry_id b, cost_effective_at b, cost_registry_hash b, cost_confidence b]"

definition binding_differs :: "string option binding \<Rightarrow> string binding \<Rightarrow> bool" where
  "binding_differs columns selected \<longleftrightarrow>
     list_ex (\<lambda>(c, s). sql_neq c s) (zip (binding_columns columns) (binding_columns selected))"

definition binding_violation :: "ledger \<Rightarrow> bool" where
  "binding_violation db \<longleftrightarrow>
     list_ex (\<lambda>ev. ev_type ev \<noteq> HumanAttention \<and>
       list_ex (\<lambda>sr. list_ex (\<lambda>row.
         ev_spawn ev = None \<or> sr = None \<or>
         (case row of None \<Rightarrow> True
          | Some rb \<Rightarrow> binding_differs (ev_binding ev) (rb_selected rb) \<or> ev_transition ev \<noteq> rb_transition rb))
         (left_join (\<lambda>rb. rb_run rb = ev_run ev) (run_budgets db)))
         (left_join (\<lambda>sr. Some (spawn_id sr) = ev_spawn ev \<and> spawn_run sr = ev_run ev \<and>
           spawn_transition sr = ev_transition ev) (spawn_requests db)))
       (budget_events db)"

definition same_partition :: "event_row \<Rightarrow> event_row \<Rightarrow> bool" where
  "same_partition e e' \<longleftrightarrow>
     ev_run e = ev_run e' \<and> ev_transition e = ev_transition e' \<and> ev_spawn e = ev_spawn e' \<and>
     capability_class (ev_binding e) = capability_class (ev_binding e')"

definition not_after :: "event_row \<Rightarrow> event_row \<Rightarrow> bool" where
  "not_after e e' \<longleftrightarrow>
     ev_sequence e < ev_sequence e' \<or> ev_sequence e = ev_sequence e' \<and> ev_id e \<le> ev_id e'"

definition prefix_of :: "event_row \<Rightarrow> ledger \<Rightarrow> event_row list" where
  "prefix_of ev db = filter (\<lambda>e. same_partition e ev \<and> not_after e ev) (budget_events db)"

definition net_reserved :: "event_row list \<Rightarrow> amounts" where
  "net_reserved evs = (\<Sum>e\<leftarrow>evs. reserved_effect (ev_type e) (ev_amounts e))"

definition net_consumed :: "event_row list \<Rightarrow> amounts" where
  "net_consumed evs = (\<Sum>e\<leftarrow>evs. consumed_effect (ev_type e) (ev_amounts e))"

definition prefix_violation :: "ledger \<Rightarrow> bool" where
  "prefix_violation db \<longleftrightarrow>
     list_ex (\<lambda>ev. \<not> 0 \<le> net_reserved (prefix_of ev db) \<or> retry_units (net_consumed (prefix_of ev db)) < 0)
       (budget_events db)"

definition required_contracts :: "budget_env \<Rightarrow> (string \<times> (ledger \<Rightarrow> bool)) list" where
  "required_contracts env = filter (\<lambda>(name, q). name \<in> set budget_invariant_queries) (be_slo env)"

definition run_contract :: "budget_env \<Rightarrow> string \<Rightarrow> unit statement" where
  "run_contract env name =
     bindM (fetch (be_engine env) name
       (\<lambda>db. case map_of (rev (required_contracts env)) name of None \<Rightarrow> False | Some q \<Rightarrow> q db)) (\<lambda>violated.
     checkM (\<not> violated) (BudgetError (''budget invariant failed: '' @ name)))"

definition assert_budget_invariants :: "budget_env \<Rightarrow> unit statement" where
  "assert_budget_invariants env =
     bindM (fetch (be_engine env) ''unknown usage'' unknown_usage_violation) (\<lambda>unknown_usage.
     bindM (checkM (\<not> unknown_usage) (BudgetError ''unknown usage confidence already exists in budget ledger'')) (\<lambda>_.
     bindM (checkM (set budget_invariant_queries \<subseteq> fst ` set (required_contracts env))
       (BudgetError ''required budget SLO contracts are missing'')) (\<lambda>_.
     bindM (forM (run_contract env) (sort budget_invariant_queries)) (\<lambda>_.
     bindM (fetch (be_engine env) ''invalid binding'' binding_violation) (\<lambda>invalid_binding.
     bindM (checkM (\<not> invalid_binding) (BudgetError ''budget event is not composite-bound to its spawn and cost row'')) (\<lambda>_.
     bindM (fetch (be_engine env) ''invalid spawn prefix'' prefix_violation) (\<lambda>invalid_spawn_prefix.
     checkM (\<not> invalid_spawn_prefix) (BudgetError ''per-spawn budget ledger prefix over-releases a reservation''))))))))"

subsection \<open>Outstanding amounts, policies and replays\<close>

definition spawn_events :: "string \<Rightarrow> string \<Rightarrow> string \<Rightarrow> budget_selection \<Rightarrow> ledger \<Rightarrow> event_row list" where
  "spawn_events spawn run transition selection db =
     filter (\<lambda>ev. ev_spawn ev = Some spawn \<and> ev_run ev = run \<and> ev_transition ev = transition \<and>
       (if ev_type ev = HumanAttention
        then capability_class (ev_binding ev) = Some (capability_class (sel_binding selection))
        else ev_binding ev = map_binding Some (sel_binding selection)))
       (budget_events db)"

definition invalid_outstanding :: "exn \<Rightarrow> exn" where
  "invalid_outstanding e = BudgetError ''spawn request has an invalid outstanding reservation''"

definition spawn_outstanding ::
    "budget_env \<Rightarrow> string \<Rightarrow> string \<Rightarrow> string \<Rightarrow> budget_selection \<Rightarrow> amounts statement" where
  "spawn_outstanding env spawn run transition selection =
     bindM (fetch (be_engine env) ''outstanding'' (\<lambda>db. net_reserved (spawn_events spawn run transition selection db))) (\<lambda>row.
     liftM (mapErr invalid_outstanding (budget_amounts row)))"

definition zero_policy_hash :: "budget_env \<Rightarrow> string option \<Rightarrow> budget_selection \<Rightarrow> string option statement" where
  "zero_policy_hash env policy selection =
     (case policy of
        None \<Rightarrow> returnM None
      | Some p \<Rightarrow>
          bindM (liftM (required_text ''zero_reserve_policy_id'' (Some p))) (\<lambda>policy_id.
          bindM (fetch (be_engine env) ''zero policy'' (\<lambda>db. first (filter (\<lambda>z. pol_id z = policy_id \<and>
            pol_endpoint z = endpoint_binding_id (sel_binding selection) \<and>
            pol_capability z = capability_class (sel_binding selection)) (zero_policies db)))) (\<lambda>row.
          case row of
            None \<Rightarrow> raiseM (BudgetError ''zero-reserve policy does not match the selected endpoint'')
          | Some z \<Rightarrow> returnM (Some (pol_hash z)))))"

text \<open>\<open>event_columns\<close>: the compared columns of a row, \<^verbatim>\<open>_EVENT_COMPARE_COLUMNS\<close>.\<close>

definition event_columns :: "event_row \<Rightarrow> event_row" where
  "event_columns ev = ev\<lparr>ev_key := [], ev_sequence := 0, ev_settlement := None\<rparr>"

record event_result =
  res_id :: string
  res_sequence :: int
  res_replayed :: bool

definition existing_event :: "budget_env \<Rightarrow> string \<Rightarrow> event_row \<Rightarrow> event_result option statement" where
  "existing_event env key expected =
     bindM (fetch (be_engine env) ''existing event'' (\<lambda>db. find (\<lambda>ev. ev_key ev = key) (budget_events db))) (\<lambda>row.
     case row of
       None \<Rightarrow> returnM None
     | Some ev \<Rightarrow>
         (if event_columns ev \<noteq> event_columns expected
          then raiseM (BudgetConflict ''budget event idempotency key was reused with another payload'')
          else returnM (Some \<lparr>res_id = ev_id ev, res_sequence = ev_sequence ev, res_replayed = True\<rparr>)))"

definition reject_settlement_dedupe_collision :: "budget_env \<Rightarrow> string \<Rightarrow> unit statement" where
  "reject_settlement_dedupe_collision env hash =
     bindM (fetch (be_engine env) ''settlement dedupe'' (\<lambda>db. list_ex (\<lambda>s. set_dedupe s = hash) (budget_settlements db))) (\<lambda>found.
     checkM (\<not> found) (BudgetConflict ''dedupe key was already used by a final settlement''))"

definition reject_event_dedupe_collision :: "budget_env \<Rightarrow> string \<Rightarrow> unit statement" where
  "reject_event_dedupe_collision env hash =
     bindM (fetch (be_engine env) ''event dedupe'' (\<lambda>db. list_ex (\<lambda>e. ev_dedupe e = hash) (budget_events db))) (\<lambda>found.
     checkM (\<not> found) (BudgetConflict ''settlement dedupe key was already used by a budget event''))"

definition settled :: "string \<Rightarrow> string \<Rightarrow> string \<Rightarrow> ledger \<Rightarrow> bool" where
  "settled run transition spawn db \<longleftrightarrow>
     list_ex (\<lambda>s. set_run s = run \<and> set_transition s = transition \<and> set_spawn s = spawn) (budget_settlements db)"

definition reject_event_after_final_settlement ::
    "budget_env \<Rightarrow> string \<Rightarrow> string \<Rightarrow> string \<Rightarrow> unit statement" where
  "reject_event_after_final_settlement env run transition spawn =
     bindM (fetch (be_engine env) ''final settlement'' (settled run transition spawn)) (\<lambda>found.
     checkM (\<not> found) (BudgetConflict ''final settlement is terminal for this spawn budget ledger''))"

subsection \<open>The counter updates\<close>

text \<open>An \<^verbatim>\<open>UPDATE run_budgets SET ... WHERE ...\<close> and its row count.\<close>

definition set_rows :: "(budget_row \<Rightarrow> bool) \<Rightarrow> (budget_row \<Rightarrow> budget_row) \<Rightarrow> ledger \<Rightarrow> ledger" where
  "set_rows guard f db = db\<lparr>run_budgets := map (\<lambda>rb. if guard rb then f rb else rb) (run_budgets db)\<rparr>"

definition update_budget_rows ::
    "budget_env \<Rightarrow> (budget_row \<Rightarrow> bool) \<Rightarrow> (budget_row \<Rightarrow> budget_row) \<Rightarrow> nat statement" where
  "update_budget_rows env guard f =
     bindM (readM (\<lambda>db. length (filter guard (run_budgets db)))) (\<lambda>rowcount.
     bindM (execute (be_engine env) ''update counters'' (set_rows guard f)) (\<lambda>_.
     returnM rowcount))"

fun raised_usage :: "confidence \<Rightarrow> confidence \<Rightarrow> confidence" where
  "raised_usage Known Estimated = Estimated"
| "raised_usage current _ = current"

definition exceeds :: exn where
  "exceeds = BudgetExceeded ''event exceeds the selected budget or outstanding reservation''"

definition update_counters ::
    "budget_env \<Rightarrow> event_type \<Rightarrow> string \<Rightarrow> amounts \<Rightarrow> confidence \<Rightarrow> string \<Rightarrow> unit statement" where
  "update_counters env event_type run a usage updated =
     bindM
       (if event_type = Reserve
        then update_budget_rows env
          (\<lambda>rb. rb_run rb = run \<and> rb_reserved rb + rb_consumed rb + a \<le> rb_budget rb)
          (\<lambda>rb. rb\<lparr>rb_reserved := rb_reserved rb + a, rb_usage := raised_usage (rb_usage rb) usage,
                   rb_updated := updated\<rparr>)
        else update_budget_rows env
          (\<lambda>rb. rb_run rb = run \<and> a \<le> rb_reserved rb)
          (\<lambda>rb. rb\<lparr>rb_reserved := rb_reserved rb - a, rb_usage := raised_usage (rb_usage rb) usage,
                   rb_updated := updated\<rparr>)) (\<lambda>rowcount.
     checkM (rowcount = 1) exceeds)"

definition update_post_dispatch_counters ::
    "budget_env \<Rightarrow> event_type \<Rightarrow> string \<Rightarrow> amounts \<Rightarrow> confidence \<Rightarrow> string \<Rightarrow> unit statement" where
  "update_post_dispatch_counters env event_type run a usage updated =
     bindM
       (if event_type = Consume
        then update_budget_rows env
          (\<lambda>rb. rb_run rb = run \<and> only_usage a \<le> only_usage (rb_reserved rb) \<and>
             only_usage (rb_consumed rb + a) \<le> only_usage (rb_budget rb))
          (\<lambda>rb. rb\<lparr>rb_reserved := rb_reserved rb - only_usage a, rb_consumed := rb_consumed rb + only_usage a,
             rb_usage := (if usage = Unknown then Unknown else raised_usage (rb_usage rb) usage),
             rb_updated := updated\<rparr>)
        else if event_type = RetryDecrement
        then update_budget_rows env
          (\<lambda>rb. rb_run rb = run \<and> retry_units a \<le> retry_units (rb_reserved rb) \<and>
             retry_units (rb_consumed rb) + retry_units a \<le> retry_units (rb_budget rb))
          (\<lambda>rb. rb\<lparr>rb_reserved := rb_reserved rb - only_retry a, rb_consumed := rb_consumed rb + only_retry a,
             rb_usage := raised_usage (rb_usage rb) usage, rb_updated := updated\<rparr>)
        else if event_type = RetryRestore
        then update_budget_rows env
          (\<lambda>rb. rb_run rb = run \<and> retry_units a \<le> retry_units (rb_consumed rb) \<and>
             retry_units (rb_reserved rb) + retry_units a \<le> retry_units (rb_budget rb))
          (\<lambda>rb. rb\<lparr>rb_reserved := rb_reserved rb + only_retry a, rb_consumed := rb_consumed rb - only_retry a,
             rb_usage := raised_usage (rb_usage rb) usage, rb_updated := updated\<rparr>)
        else update_budget_rows env
          (\<lambda>rb. rb_run rb = run \<and> human_attention_units a \<le> human_attention_units (rb_reserved rb) \<and>
             human_attention_units (rb_consumed rb) + human_attention_units a \<le> human_attention_units (rb_budget rb))
          (\<lambda>rb. rb\<lparr>rb_reserved := rb_reserved rb - only_human a, rb_consumed := rb_consumed rb + only_human a,
             rb_usage := raised_usage (rb_usage rb) usage, rb_updated := updated\<rparr>)) (\<lambda>rowcount.
     checkM (rowcount = 1) exceeds)"

subsection \<open>Events before the dispatch: reserve and release\<close>

text \<open>The arguments of a call; \<open>None\<close> for a text is any value that is not a string.\<close>

record event_args =
  arg_type :: string
  arg_run :: "string option"
  arg_transition :: "string option"
  arg_selection :: budget_selection
  arg_amounts :: amounts
  arg_key :: "string option"
  arg_dedupe :: "string option"
  arg_source :: "string option"
  arg_usage :: string
  arg_spawn :: "string option"
  arg_policy :: "string option"
  arg_clock :: "string option"

record event_request =
  rq_type :: event_type
  rq_run :: string
  rq_transition :: string
  rq_selection :: budget_selection
  rq_amounts :: amounts
  rq_key :: string
  rq_dedupe :: string
  rq_source :: string
  rq_usage :: confidence
  rq_spawn :: string
  rq_policy :: "string option"
  rq_clock :: string

definition checked_request :: "event_type set \<Rightarrow> confidence set \<Rightarrow> string \<Rightarrow> event_args \<Rightarrow> exn + event_request" where
  "checked_request types usages bad_usage a =
     (case event_type_of (arg_type a) of
        None \<Rightarrow> Inl (BudgetError ''unsupported budget event type'')
      | Some t \<Rightarrow>
          if t \<notin> types then Inl (BudgetError ''unsupported budget event type'')
          else
            bindE (required_text ''run_id'' (arg_run a)) (\<lambda>run.
            bindE (required_text ''transition_id'' (arg_transition a)) (\<lambda>transition.
            bindE (required_text ''idempotency_key'' (arg_key a)) (\<lambda>key.
            bindE (required_text ''dedupe_key'' (arg_dedupe a)) (\<lambda>dedupe.
            bindE (required_text ''source'' (arg_source a)) (\<lambda>source.
            bindE (required_text ''spawn_request_id'' (arg_spawn a)) (\<lambda>spawn.
            bindE (required_text ''clock_context_id'' (arg_clock a)) (\<lambda>clock.
              case confidence_of (arg_usage a) of
                None \<Rightarrow> Inl (BudgetError bad_usage)
              | Some u \<Rightarrow>
                  if u \<notin> usages then Inl (BudgetError bad_usage)
                  else Inr \<lparr>rq_type = t, rq_run = run, rq_transition = transition, rq_selection = arg_selection a,
                    rq_amounts = arg_amounts a, rq_key = key, rq_dedupe = dedupe, rq_source = source,
                    rq_usage = u, rq_spawn = spawn, rq_policy = arg_policy a, rq_clock = clock\<rparr>))))))))"

definition check_budget_event :: "event_request \<Rightarrow> exn + event_request" where
  "check_budget_event rq =
     (let a = rq_amounts rq;
          zero_token_cost = (input_tokens a = 0 \<and> output_tokens a = 0 \<and> cost_microusd a = 0) in
      if is_zero a then Inl (BudgetError ''event must carry a non-zero amount'')
      else if rq_type rq = Reserve \<and> zero_token_cost \<noteq> (rq_policy rq \<noteq> None)
      then Inl (BudgetError ''zero token/cost reserve requires exactly one zero-reserve policy'')
      else if rq_type rq \<noteq> Reserve \<and> rq_policy rq \<noteq> None
      then Inl (BudgetError ''zero-reserve policy is valid only for reserve events'')
      else Inr rq)"

text \<open>The row an event request stands for, before it has its sequence number.\<close>

definition event_of :: "event_request \<Rightarrow> string option \<Rightarrow> string \<times> int \<Rightarrow> string option \<Rightarrow> event_row" where
  "event_of rq policy_hash created clock =
     \<lparr>ev_id = event_id (rq_key rq), ev_key = rq_key rq, ev_dedupe = dedupe_hash (rq_dedupe rq), ev_sequence = 0,
      ev_run = rq_run rq, ev_transition = rq_transition rq, ev_spawn = Some (rq_spawn rq),
      ev_binding = map_binding Some (sel_binding (rq_selection rq)),
      ev_policy = rq_policy rq, ev_policy_hash = policy_hash, ev_type = rq_type rq, ev_amounts = rq_amounts rq,
      ev_usage = rq_usage rq, ev_source = rq_source rq, ev_created = fst created, ev_created_ms = snd created,
      ev_clock = clock, ev_settlement = None\<rparr>"

text \<open>\<^verbatim>\<open>SELECT COALESCE(MAX(event_sequence),0)+1\<close>.\<close>

definition next_sequence :: "string \<Rightarrow> ledger \<Rightarrow> int" where
  "next_sequence run db =
     (let sequences = map ev_sequence (filter (\<lambda>e. ev_run e = run) (budget_events db)) in
      (if sequences = [] then 0 else Max (set sequences)) + 1)"

definition insert_event :: "budget_env \<Rightarrow> event_row \<Rightarrow> int statement" where
  "insert_event env ev =
     bindM (fetch (be_engine env) ''next sequence'' (next_sequence (ev_run ev))) (\<lambda>sequence.
     bindM (checkM (1 \<le> sequence \<and> sequence \<le> max_event_sequence) (BudgetExceeded ''budget event sequence limit reached'')) (\<lambda>_.
     bindM (execute (be_engine env) ''insert event''
       (\<lambda>db. db\<lparr>budget_events := budget_events db @ [ev\<lparr>ev_sequence := sequence\<rparr>]\<rparr>)) (\<lambda>_.
     returnM sequence)))"

text \<open>\<^verbatim>\<open>SELECT sr.state,r.state\<close> of the spawn request and its run.\<close>

definition spawn_states :: "string \<Rightarrow> string \<Rightarrow> string \<Rightarrow> ledger \<Rightarrow> (string \<times> string) list" where
  "spawn_states spawn run transition db =
     [(spawn_state sr, run_state r). sr \<leftarrow> spawn_requests db, r \<leftarrow> runs db,
        run_run r = spawn_run sr \<and> spawn_id sr = spawn \<and> spawn_run sr = run \<and> spawn_transition sr = transition]"

definition has_spawn_intent :: "string \<Rightarrow> string \<Rightarrow> string \<Rightarrow> ledger \<Rightarrow> bool" where
  "has_spawn_intent spawn run transition db \<longleftrightarrow>
     list_ex (\<lambda>i. int_kind i = ''sessions_spawn'' \<and> int_run i = run \<and> int_transition i = transition \<and>
       int_spawn i = Some spawn) (rpc_intents db)"

definition check_selection :: "budget_env \<Rightarrow> string \<Rightarrow> string \<Rightarrow> bool \<Rightarrow> budget_selection \<Rightarrow> unit statement" where
  "check_selection env run transition allow_unknown_usage selection =
     bindM (selected_binding env run transition allow_unknown_usage) (\<lambda>actual.
     checkM (actual = selection)
       (BudgetConflict ''requested budget selection differs from persisted selected cost row''))"

text \<open>A release leaves every dimension covered and the remaining tokens paid for.\<close>

definition check_release :: "budget_env \<Rightarrow> event_request \<Rightarrow> unit statement" where
  "check_release env rq =
     bindM (spawn_outstanding env (rq_spawn rq) (rq_run rq) (rq_transition rq) (rq_selection rq)) (\<lambda>outstanding.
     bindM (checkM (rq_amounts rq \<le> outstanding) (BudgetExceeded ''release exceeds outstanding reservation'')) (\<lambda>_.
     bindM (liftM (budget_amounts (outstanding - rq_amounts rq))) (\<lambda>remaining.
     bindM (liftM (required_cost (rq_selection rq) remaining)) (\<lambda>required.
     checkM (required \<le> cost_microusd remaining)
       (BudgetExceeded ''release would underfund the remaining per-spawn token reservation'')))))"

text \<open>
  The body of the transaction, in the two parts between which a recorded event is answered:
  the proof that the request is well bound, which gives the row it stands for, and the new event.
\<close>

definition budget_event_proof :: "budget_env \<Rightarrow> event_request \<Rightarrow> (event_row \<times> string \<times> string) statement" where
  "budget_event_proof env rq =
     bindM (verify_schema_identity env) (\<lambda>_.
     bindM (check_selection env (rq_run rq) (rq_transition rq) False (rq_selection rq)) (\<lambda>_.
     bindM (fetch (be_engine env) ''spawn identity''
       (\<lambda>db. first (spawn_states (rq_spawn rq) (rq_run rq) (rq_transition rq) db))) (\<lambda>spawn_identity.
     case spawn_identity of
       None \<Rightarrow> raiseM (BudgetError ''budget event requires an exact same-run, same-transition spawn request'')
     | Some states \<Rightarrow>
         bindM (trusted_created_at env (rq_run rq) (rq_transition rq) (rq_clock rq)) (\<lambda>created.
         bindM (liftM (required_cost (rq_selection rq) (rq_amounts rq))) (\<lambda>required.
         bindM (checkM (rq_type rq = Reserve \<longrightarrow> required \<le> cost_microusd (rq_amounts rq))
           (BudgetExceeded ''recorded cost is below the selected registry price for token amounts'')) (\<lambda>_.
         bindM (zero_policy_hash env (rq_policy rq) (rq_selection rq)) (\<lambda>policy_hash.
         returnM (event_of rq policy_hash created None, states))))))))"

definition new_budget_event ::
    "budget_env \<Rightarrow> event_request \<Rightarrow> event_row \<Rightarrow> string \<times> string \<Rightarrow> event_result statement" where
  "new_budget_event env rq expected states =
     bindM (reject_settlement_dedupe_collision env (ev_dedupe expected)) (\<lambda>_.
     bindM (checkM (fst states = ''pending'') (BudgetError ''event requires a pending pre-RPC spawn request'')) (\<lambda>_.
     bindM (checkM (snd states \<in> {''candidate''}) (BudgetError ''event requires an owning run in pre-dispatch state'')) (\<lambda>_.
     bindM (fetch (be_engine env) ''prior intent'' (has_spawn_intent (rq_spawn rq) (rq_run rq) (rq_transition rq))) (\<lambda>prior_intent.
     bindM (checkM (\<not> prior_intent)
       (BudgetError ''event requires no existing sessions_spawn intent for the spawn request'')) (\<lambda>_.
     bindM (if rq_type rq = Release then check_release env rq else returnM ()) (\<lambda>_.
     bindM (insert_event env expected) (\<lambda>sequence.
     bindM (update_counters env (rq_type rq) (rq_run rq) (rq_amounts rq) (rq_usage rq) (ev_created expected)) (\<lambda>_.
     bindM (assert_budget_invariants env) (\<lambda>_.
     returnM \<lparr>res_id = ev_id expected, res_sequence = sequence, res_replayed = False\<rparr>)))))))))"

definition budget_event_body :: "budget_env \<Rightarrow> event_request \<Rightarrow> event_result statement" where
  "budget_event_body env rq =
     bindM (budget_event_proof env rq) (\<lambda>(expected, states).
     bindM (existing_event env (rq_key rq) expected) (\<lambda>replay.
     case replay of
       Some result \<Rightarrow> bindM (assert_budget_invariants env) (\<lambda>_. returnM result)
     | None \<Rightarrow> new_budget_event env rq expected states))"

text \<open>\<^verbatim>\<open>except sqlite3.IntegrityError\<close> and \<^verbatim>\<open>except sqlite3.Error\<close> around the transaction.\<close>

definition ledger_error :: "exn \<Rightarrow> exn" where
  "ledger_error e =
     (case e of
        SqliteIntegrityError s \<Rightarrow> BudgetConflict (''budget event violates ledger contract: '' @ s)
      | SqliteError s \<Rightarrow> BudgetError (''budget transaction failed: '' @ s)
      | _ \<Rightarrow> e)"

definition ledger_transaction :: "budget_env \<Rightarrow> 'a statement \<Rightarrow> 'a statement" where
  "ledger_transaction env body =
     bindM (liftM (connect env)) (\<lambda>_. catchM (transaction (be_engine env) body) (\<lambda>e. raiseM (ledger_error e)))"

definition record_budget_event :: "budget_env \<Rightarrow> event_args \<Rightarrow> event_result statement" where
  "record_budget_event env args =
     bindM (liftM (bindE (checked_request {Reserve, Release} {Known, Estimated}
       ''unknown usage confidence blocks budget mutation'' args) check_budget_event)) (\<lambda>rq.
     ledger_transaction env (budget_event_body env rq))"

definition reserve_budget :: "budget_env \<Rightarrow> event_args \<Rightarrow> event_result statement" where
  "reserve_budget env args = record_budget_event env (args\<lparr>arg_type := ''reserve''\<rparr>)"

definition release_budget :: "budget_env \<Rightarrow> event_args \<Rightarrow> event_result statement" where
  "release_budget env args = record_budget_event env (args\<lparr>arg_type := ''release''\<rparr>)"

subsection \<open>Events after the dispatch\<close>

definition check_post_dispatch_event :: "event_request \<Rightarrow> exn + event_request" where
  "check_post_dispatch_event rq =
     (let a = rq_amounts rq in
      if rq_type rq = Consume then
        (if retry_units a \<noteq> 0 \<or> human_attention_units a \<noteq> 0
         then Inl (BudgetError ''consume cannot carry retry or human-attention units'')
         else if rq_usage rq = Unknown
         then (if \<not> is_zero a then Inl (BudgetError ''unknown usage must use a zero-amount classification'') else Inr rq)
         else if is_zero a then Inl (BudgetError ''known or estimated usage must carry a non-zero amount'')
         else Inr rq)
      else if rq_type rq = RetryDecrement \<or> rq_type rq = RetryRestore then
        (if a \<noteq> only_retry a \<or> retry_units a = 0 then Inl (BudgetError ''retry event must carry retry units only'')
         else if rq_usage rq = Unknown then Inl (BudgetError ''retry events require known or estimated usage'')
         else Inr rq)
      else
        (if a \<noteq> only_human a \<or> human_attention_units a = 0
         then Inl (BudgetError ''human_attention must carry human-attention units only'')
         else if rq_usage rq = Unknown
         then Inl (BudgetError ''human-attention events require known or estimated usage'')
         else Inr rq))"

text \<open>
  The session proof: a spawn request with its run, the accepted \<^verbatim>\<open>sessions_spawn\<close> intent and
  the session of the same identity; \<open>finished\<close> is the additional clause of a final usage.
\<close>

definition intent_proves :: "intent_row \<Rightarrow> spawn_row \<Rightarrow> bool" where
  "intent_proves i sr \<longleftrightarrow>
     int_kind i = ''sessions_spawn'' \<and> int_state i \<in> {''accepted'', ''reconciled''} \<and>
     int_spawn i = Some (spawn_id sr) \<and> int_run i = spawn_run sr \<and> int_transition i = spawn_transition sr \<and>
     int_client i = spawn_client sr \<and> int_key i = spawn_key sr \<and>
     int_phase i = Some (spawn_phase sr) \<and> int_agent i = Some (spawn_agent sr) \<and>
     int_digest i = Some (spawn_digest sr) \<and> spawn_session sr \<noteq> None \<and> int_external i = spawn_session sr"

definition session_proves :: "session_row \<Rightarrow> spawn_row \<Rightarrow> bool" where
  "session_proves s sr \<longleftrightarrow>
     ses_spawn s = spawn_id sr \<and> ses_run s = spawn_run sr \<and> ses_transition s = spawn_transition sr \<and>
     ses_client s = spawn_client sr \<and> ses_key s = spawn_key sr \<and> ses_phase s = spawn_phase sr \<and>
     ses_agent s = spawn_agent sr \<and> ses_digest s = spawn_digest sr \<and> Some (ses_session s) = spawn_session sr"

definition finished :: "spawn_row \<Rightarrow> session_row \<Rightarrow> bool" where
  "finished sr s \<longleftrightarrow>
     spawn_state sr = ''completed'' \<and> ses_state s = ''completed'' \<and>
     ses_completed s \<noteq> None \<and> ses_completed s \<noteq> Some []"

definition session_proofs ::
    "string \<Rightarrow> string \<Rightarrow> string \<Rightarrow> (spawn_row \<Rightarrow> session_row \<Rightarrow> bool) \<Rightarrow> ledger \<Rightarrow> (string \<times> int option \<times> int) list" where
  "session_proofs spawn run transition clause db =
     [(run_state r, int_accepted i, int_requested i).
        sr \<leftarrow> spawn_requests db, r \<leftarrow> runs db, i \<leftarrow> rpc_intents db, s \<leftarrow> sessions db,
        run_run r = spawn_run sr \<and> intent_proves i sr \<and> session_proves s sr \<and>
        spawn_id sr = spawn \<and> spawn_run sr = run \<and> spawn_transition sr = transition \<and> clause sr s]"

definition usage_clause :: "event_type \<Rightarrow> spawn_row \<Rightarrow> session_row \<Rightarrow> bool" where
  "usage_clause event_type sr s \<longleftrightarrow>
     spawn_state sr \<in> {''accepted'', ''completed''} \<and> (event_type \<noteq> Consume \<or> finished sr s)"

definition fresh_clock :: "int \<Rightarrow> int option \<Rightarrow> int \<Rightarrow> bool" where
  "fresh_clock requested accepted created \<longleftrightarrow>
     (case accepted of None \<Rightarrow> False
      | Some acc \<Rightarrow> 1 \<le> requested \<and> requested \<le> max_epoch_ms \<and> requested < acc \<and> acc < created \<and> requested < created)"

definition poisoned :: "string \<Rightarrow> ledger \<Rightarrow> bool" where
  "poisoned run db \<longleftrightarrow>
     list_ex (\<lambda>rb. rb_run rb = run \<and> rb_usage rb = Unknown) (run_budgets db) \<or>
     list_ex (\<lambda>ev. ev_run ev = run \<and> ev_usage ev = Unknown) (budget_events db)"

definition usage_of_run :: "string \<Rightarrow> ledger \<Rightarrow> confidence option" where
  "usage_of_run run db = map_option rb_usage (find (\<lambda>rb. rb_run rb = run) (run_budgets db))"

definition check_usage :: "budget_env \<Rightarrow> event_request \<Rightarrow> unit statement" where
  "check_usage env rq =
     bindM (spawn_outstanding env (rq_spawn rq) (rq_run rq) (rq_transition rq) (rq_selection rq)) (\<lambda>outstanding.
     if rq_type rq = Consume then
       bindM (checkM (only_usage (rq_amounts rq) \<le> only_usage outstanding)
         (BudgetExceeded ''consume exceeds outstanding reservation'')) (\<lambda>_.
       bindM (liftM (budget_amounts (outstanding - rq_amounts rq))) (\<lambda>remaining.
       bindM (liftM (required_cost (rq_selection rq) remaining)) (\<lambda>required.
       checkM (required \<le> cost_microusd remaining)
         (BudgetExceeded ''consume would underfund the remaining per-spawn token reservation''))))
     else if rq_type rq = RetryDecrement \<and> retry_units outstanding < retry_units (rq_amounts rq)
     then raiseM (BudgetExceeded ''retry_decrement exceeds outstanding reservation'')
     else if rq_type rq = HumanAttention \<and> human_attention_units outstanding < human_attention_units (rq_amounts rq)
     then raiseM (BudgetExceeded ''human_attention exceeds outstanding reservation'')
     else returnM ())"

definition usage_proof :: "budget_env \<Rightarrow> event_request \<Rightarrow> (event_row \<times> string) statement" where
  "usage_proof env rq =
     bindM (verify_schema_identity env) (\<lambda>_.
     bindM (check_selection env (rq_run rq) (rq_transition rq) True (rq_selection rq)) (\<lambda>_.
     bindM (fetch (be_engine env) ''session proof''
       (\<lambda>db. first (session_proofs (rq_spawn rq) (rq_run rq) (rq_transition rq) (usage_clause (rq_type rq)) db))) (\<lambda>proof_row.
     case proof_row of
       None \<Rightarrow> raiseM (BudgetError ''post-dispatch budget event requires exact accepted session proof'')
     | Some (state, accepted, requested) \<Rightarrow>
         bindM (trusted_created_at env (rq_run rq) (rq_transition rq) (rq_clock rq)) (\<lambda>created.
         bindM (checkM (fresh_clock requested accepted (snd created))
           (BudgetError ''post-dispatch budget event requires a fresh clock after the sessions_spawn request and accepted session proof'')) (\<lambda>_.
         bindM (if rq_type rq = Consume \<and> rq_usage rq \<noteq> Unknown
                then bindM (liftM (required_cost (rq_selection rq) (rq_amounts rq))) (\<lambda>required.
                     checkM (required \<le> cost_microusd (rq_amounts rq))
                       (BudgetExceeded ''usage cost is below the selected registry price for token amounts''))
                else returnM ()) (\<lambda>_.
         returnM (event_of rq None created (Some (rq_clock rq)), state)))))))"

definition new_usage_event :: "budget_env \<Rightarrow> event_request \<Rightarrow> event_row \<Rightarrow> string \<Rightarrow> event_result statement" where
  "new_usage_event env rq expected state =
     bindM (reject_settlement_dedupe_collision env (ev_dedupe expected)) (\<lambda>_.
     bindM (reject_event_after_final_settlement env (rq_run rq) (rq_transition rq) (rq_spawn rq)) (\<lambda>_.
     bindM (fetch (be_engine env) ''poisoned usage'' (poisoned (rq_run rq))) (\<lambda>poisoned_usage.
     bindM (checkM (\<not> poisoned_usage) (BudgetError ''unknown usage confidence blocks post-dispatch budget mutation'')) (\<lambda>_.
     bindM (fetch (be_engine env) ''usage row'' (usage_of_run (rq_run rq))) (\<lambda>usage_row.
     bindM (checkM (usage_row \<noteq> None \<and> usage_row \<noteq> Some Unknown)
       (BudgetError ''unknown usage confidence blocks post-dispatch budget mutation'')) (\<lambda>_.
     bindM (checkM (state \<in> {''dispatched'', ''first_output_waiting'', ''running'', ''child_completed'',
         ''child_failed'', ''aggregation_completed''})
       (BudgetError ''post-dispatch budget event requires an active post-dispatch run'')) (\<lambda>_.
     bindM (assert_budget_invariants env) (\<lambda>_.
     bindM (check_usage env rq) (\<lambda>_.
     bindM (insert_event env expected) (\<lambda>sequence.
     bindM (update_post_dispatch_counters env (rq_type rq) (rq_run rq) (rq_amounts rq) (rq_usage rq) (ev_created expected)) (\<lambda>_.
     bindM (assert_budget_invariants env) (\<lambda>_.
     returnM \<lparr>res_id = ev_id expected, res_sequence = sequence, res_replayed = False\<rparr>))))))))))))"

definition usage_event_body :: "budget_env \<Rightarrow> event_request \<Rightarrow> event_result statement" where
  "usage_event_body env rq =
     bindM (usage_proof env rq) (\<lambda>(expected, state).
     bindM (existing_event env (rq_key rq) expected) (\<lambda>replay.
     case replay of
       Some result \<Rightarrow> bindM (assert_budget_invariants env) (\<lambda>_. returnM result)
     | None \<Rightarrow> new_usage_event env rq expected state))"

definition record_post_dispatch_event :: "budget_env \<Rightarrow> event_args \<Rightarrow> event_result statement" where
  "record_post_dispatch_event env args =
     bindM (liftM (bindE (checked_request {Consume, RetryDecrement, RetryRestore, HumanAttention}
       {Known, Estimated, Unknown} ''invalid post-dispatch usage confidence'' args) check_post_dispatch_event)) (\<lambda>rq.
     ledger_transaction env (usage_event_body env rq))"

definition consume_budget :: "budget_env \<Rightarrow> event_args \<Rightarrow> event_result statement" where
  "consume_budget env args = record_post_dispatch_event env (args\<lparr>arg_type := ''consume''\<rparr>)"

definition decrement_retry_budget :: "budget_env \<Rightarrow> event_args \<Rightarrow> event_result statement" where
  "decrement_retry_budget env args = record_post_dispatch_event env (args\<lparr>arg_type := ''retry_decrement''\<rparr>)"

definition restore_retry_budget :: "budget_env \<Rightarrow> event_args \<Rightarrow> event_result statement" where
  "restore_retry_budget env args = record_post_dispatch_event env (args\<lparr>arg_type := ''retry_restore''\<rparr>)"

definition consume_human_attention :: "budget_env \<Rightarrow> event_args \<Rightarrow> event_result statement" where
  "consume_human_attention env args = record_post_dispatch_event env (args\<lparr>arg_type := ''human_attention''\<rparr>)"

subsection \<open>Final settlement\<close>

text \<open>The arguments are those of an event; its type is not used.\<close>

definition settlement_request :: "event_args \<Rightarrow> exn + event_request" where
  "settlement_request a =
     checked_request {Consume} {Known, Estimated} ''final settlement requires known or estimated usage''
       (a\<lparr>arg_type := ''consume''\<rparr>)"

record settlement_result =
  sres_id :: string
  sres_events :: "event_result list"
  sres_released :: amounts
  sres_replayed :: bool

definition settlement_of :: "event_request \<Rightarrow> string \<times> int \<Rightarrow> amounts \<Rightarrow> settlement_row" where
  "settlement_of rq created released =
     \<lparr>set_id = settlement_id (rq_key rq), set_key = rq_key rq, set_dedupe = dedupe_hash (rq_dedupe rq),
      set_run = rq_run rq, set_transition = rq_transition rq, set_spawn = rq_spawn rq,
      set_binding = sel_binding (rq_selection rq), set_actual = rq_amounts rq, set_released = released,
      set_usage = rq_usage rq, set_source = rq_source rq, set_created = fst created, set_created_ms = snd created,
      set_clock = rq_clock rq\<rparr>"

definition settlement_columns :: "settlement_row \<Rightarrow> settlement_row" where
  "settlement_columns s = s\<lparr>set_key := [], set_released := 0\<rparr>"

definition settlement_proof :: "budget_env \<Rightarrow> bool \<Rightarrow> event_request \<Rightarrow> (string \<times> string \<times> int) statement" where
  "settlement_proof env schema_verified rq =
     bindM (if schema_verified then returnM () else verify_schema_identity env) (\<lambda>_.
     bindM (check_selection env (rq_run rq) (rq_transition rq) True (rq_selection rq)) (\<lambda>_.
     bindM (fetch (be_engine env) ''session proof''
       (\<lambda>db. first (session_proofs (rq_spawn rq) (rq_run rq) (rq_transition rq) finished db))) (\<lambda>proof_row.
     case proof_row of
       None \<Rightarrow> raiseM (BudgetError ''final settlement requires exact completed session proof'')
     | Some (state, accepted, requested) \<Rightarrow>
         bindM (trusted_created_at env (rq_run rq) (rq_transition rq) (rq_clock rq)) (\<lambda>created.
         bindM (checkM (case accepted of None \<Rightarrow> False
             | Some acc \<Rightarrow> 1 \<le> requested \<and> requested < acc \<and> acc < snd created)
           (BudgetError ''final settlement requires a trusted clock after request acceptance'')) (\<lambda>_.
         let a = rq_amounts rq in
         bindM (if input_tokens a \<noteq> 0 \<or> output_tokens a \<noteq> 0 \<or> cost_microusd a \<noteq> 0
                then bindM (liftM (required_cost (rq_selection rq) a)) (\<lambda>required.
                     checkM (required \<le> cost_microusd a)
                       (BudgetExceeded ''final usage cost is below the selected registry price''))
                else returnM ()) (\<lambda>_.
         returnM (state, created)))))))"

definition settlement_replay ::
    "budget_env \<Rightarrow> event_request \<Rightarrow> string \<times> int \<Rightarrow> settlement_row \<Rightarrow> settlement_result statement" where
  "settlement_replay env rq created row =
     bindM (checkM (settlement_columns row = settlement_columns (settlement_of rq created 0))
       (BudgetConflict ''settlement idempotency key was reused with another payload'')) (\<lambda>_.
     bindM (assert_budget_invariants env) (\<lambda>_.
     bindM (fetch (be_engine env) ''settlement events'' (\<lambda>db.
       map (\<lambda>e. \<lparr>res_id = ev_id e, res_sequence = ev_sequence e, res_replayed = True\<rparr>)
         (sort_key ev_sequence (filter (\<lambda>e. ev_settlement e = Some (settlement_id (rq_key rq))) (budget_events db))))) (\<lambda>events.
     bindM (liftM (budget_amounts (set_released row))) (\<lambda>released.
     returnM \<lparr>sres_id = settlement_id (rq_key rq), sres_events = events, sres_released = released,
       sres_replayed = True\<rparr>))))"

text \<open>\<^verbatim>\<open>insert_event\<close> of the settlement: nothing for a zero amount that is not forced.\<close>

definition linked_event :: "event_request \<Rightarrow> string \<times> int \<Rightarrow> event_type \<Rightarrow> amounts \<Rightarrow> event_row" where
  "linked_event rq created t a =
     (event_of (rq\<lparr>rq_type := t, rq_amounts := a, rq_key := rq_key rq @ CHR 0x00 # event_type_text t,
        rq_dedupe := rq_dedupe rq @ CHR 0x00 # event_type_text t, rq_policy := None\<rparr>)
        None created (Some (rq_clock rq)))
      \<lparr>ev_settlement := Some (settlement_id (rq_key rq))\<rparr>"

definition insert_linked_event ::
    "budget_env \<Rightarrow> event_request \<Rightarrow> string \<times> int \<Rightarrow> event_type \<Rightarrow> amounts \<Rightarrow> bool \<Rightarrow> event_result list statement" where
  "insert_linked_event env rq created t a force_zero_marker =
     (if is_zero a \<and> \<not> force_zero_marker then returnM []
      else
        let ev = linked_event rq created t a in
        bindM (insert_event env ev) (\<lambda>sequence.
        bindM (if t = Release
               then update_counters env Release (rq_run rq) a (rq_usage rq) (fst created)
               else update_post_dispatch_counters env t (rq_run rq) a (rq_usage rq) (fst created)) (\<lambda>_.
        returnM [\<lparr>res_id = ev_id ev, res_sequence = sequence, res_replayed = False\<rparr>])))"

definition new_settlement ::
    "budget_env \<Rightarrow> event_request \<Rightarrow> string \<Rightarrow> string \<times> int \<Rightarrow> settlement_result statement" where
  "new_settlement env rq state created =
     bindM (reject_event_dedupe_collision env (dedupe_hash (rq_dedupe rq))) (\<lambda>_.
     bindM (checkM (state \<in> {''child_completed'', ''child_failed'', ''aggregation_completed''})
       (BudgetError ''final settlement requires a completed post-dispatch run state'')) (\<lambda>_.
     bindM (fetch (be_engine env) ''poisoned usage'' (poisoned (rq_run rq))) (\<lambda>poisoned_usage.
     bindM (checkM (\<not> poisoned_usage) (BudgetError ''unknown usage confidence blocks final settlement'')) (\<lambda>_.
     bindM (assert_budget_invariants env) (\<lambda>_.
     bindM (spawn_outstanding env (rq_spawn rq) (rq_run rq) (rq_transition rq) (rq_selection rq)) (\<lambda>outstanding.
     bindM (checkM (rq_amounts rq \<le> outstanding) (BudgetExceeded ''final usage exceeds outstanding reservation'')) (\<lambda>_.
     bindM (liftM (budget_amounts (outstanding - rq_amounts rq))) (\<lambda>released.
     bindM (execute (be_engine env) ''insert settlement''
       (\<lambda>db. db\<lparr>budget_settlements := budget_settlements db @ [settlement_of rq created released]\<rparr>)) (\<lambda>_.
     bindM (insert_linked_event env rq created Consume (only_usage (rq_amounts rq)) False) (\<lambda>consumed.
     bindM (insert_linked_event env rq created RetryDecrement (only_retry (rq_amounts rq)) False) (\<lambda>retried.
     bindM (insert_linked_event env rq created HumanAttention (only_human (rq_amounts rq)) False) (\<lambda>attended.
     bindM (insert_linked_event env rq created Release released (is_zero (rq_amounts rq) \<and> is_zero released)) (\<lambda>freed.
     bindM (assert_budget_invariants env) (\<lambda>_.
     returnM \<lparr>sres_id = settlement_id (rq_key rq), sres_events = consumed @ retried @ attended @ freed,
       sres_released = released, sres_replayed = False\<rparr>))))))))))))))"

definition settle_budget_on_connection :: "budget_env \<Rightarrow> bool \<Rightarrow> event_args \<Rightarrow> settlement_result statement" where
  "settle_budget_on_connection env schema_verified args =
     bindM (liftM (settlement_request args)) (\<lambda>rq.
     bindM (settlement_proof env schema_verified rq) (\<lambda>(state, created).
     bindM (fetch (be_engine env) ''existing settlement''
       (\<lambda>db. find (\<lambda>s. set_key s = rq_key rq) (budget_settlements db))) (\<lambda>replay.
     case replay of
       Some row \<Rightarrow> settlement_replay env rq created row
     | None \<Rightarrow> new_settlement env rq state created)))"

definition settle_budget :: "budget_env \<Rightarrow> event_args \<Rightarrow> settlement_result statement" where
  "settle_budget env args = ledger_transaction env (settle_budget_on_connection env False args)"

end
