(* ===== verification/BudgetLedger.thy ===== *)
theory BudgetLedger
  imports Budgets
begin

section \<open>What the budget operations guarantee\<close>

text \<open>
  Facts about single statements of the budget operations: which leave the ledger alone, what an
  inserted event and an updated counter are, and the accounts that events run through (the locale
  \<open>account_machine\<close>).
\<close>

subsection \<open>Statements that only read\<close>

definition only_reads :: "'a statement \<Rightarrow> bool" where
  "only_reads m \<longleftrightarrow> (\<forall>db r db'. m db = (r, db') \<longrightarrow> db' = db)"

named_theorems reading \<open>statements that leave the ledger alone\<close>

lemma only_readsD: "only_reads m \<Longrightarrow> m db = (r, db') \<Longrightarrow> db' = db"
  by (auto simp: only_reads_def)

lemma reads_basic [reading]:
  "only_reads (fetch eng l q)" "only_reads (checkM ok e)" "only_reads (liftM v)" "only_reads (readM g)"
  "only_reads (returnM x)" "only_reads (raiseM e)"
  by (auto simp: only_reads_def fetch_def checkM_def split: option.splits)

lemma reads_bind [reading]: "only_reads m \<Longrightarrow> (\<And>x. only_reads (f x)) \<Longrightarrow> only_reads (bindM m f)"
  unfolding only_reads_def bindM_def by (auto split: prod.splits sum.splits) metis+

lemma reads_catch [reading]: "only_reads m \<Longrightarrow> (\<And>e. only_reads (h e)) \<Longrightarrow> only_reads (catchM m h)"
  unfolding only_reads_def catchM_def by (auto split: prod.splits sum.splits) metis+

lemma reads_if [reading]: "only_reads m \<Longrightarrow> only_reads m' \<Longrightarrow> only_reads (if c then m else m')"
  by simp

lemma reads_option [reading]: "only_reads m \<Longrightarrow> (\<And>x. only_reads (f x)) \<Longrightarrow> only_reads (case v of None \<Rightarrow> m | Some x \<Rightarrow> f x)"
  by (cases v) simp_all

lemma reads_prod [reading]: "(\<And>x y. only_reads (f x y)) \<Longrightarrow> only_reads (case v of (x, y) \<Rightarrow> f x y)"
  by (cases v) simp

lemma reads_for [reading]: "(\<And>x. only_reads (f x)) \<Longrightarrow> only_reads (forM f xs)"
  by (induction xs) (auto intro: reading)

lemma reads_let [reading]: "only_reads (f v) \<Longrightarrow> only_reads (let x = v in f x)"
  by simp

lemma reads_verify [reading]: "only_reads (verify_schema_identity env)"
  unfolding verify_schema_identity_def by (intro reading)

lemma reads_clock [reading]: "only_reads (trusted_created_at env run tr clk)"
  unfolding trusted_created_at_def by (intro reading)

lemma reads_selection [reading]: "only_reads (check_selection env run tr allow sel)"
  unfolding check_selection_def selected_binding_def by (intro reading)

lemma reads_invariants [reading]: "only_reads (assert_budget_invariants env)"
  unfolding assert_budget_invariants_def run_contract_def by (intro reading)

lemma reads_outstanding [reading]: "only_reads (spawn_outstanding env spawn run tr sel)"
  unfolding spawn_outstanding_def by (intro reading)

lemma reads_policy [reading]: "only_reads (zero_policy_hash env p sel)"
  unfolding zero_policy_hash_def by (intro reading)

lemma reads_existing [reading]: "only_reads (existing_event env key ev)"
  unfolding existing_event_def by (intro reading)

lemma reads_rejections [reading]:
  "only_reads (reject_settlement_dedupe_collision env h)" "only_reads (reject_event_dedupe_collision env h)"
  "only_reads (reject_event_after_final_settlement env run tr spawn)"
  unfolding reject_settlement_dedupe_collision_def reject_event_dedupe_collision_def
    reject_event_after_final_settlement_def by (intro reading)+

lemma reads_checks [reading]: "only_reads (check_release env rq)" "only_reads (check_usage env rq)"
  unfolding check_release_def check_usage_def by (intro reading)+

lemma reads_proofs [reading]:
  "only_reads (budget_event_proof env rq)" "only_reads (usage_proof env rq)" "only_reads (settlement_proof env v rq)"
  unfolding budget_event_proof_def usage_proof_def settlement_proof_def by (intro reading)+

lemma reads_replay [reading]: "only_reads (settlement_replay env rq created row)"
  unfolding settlement_replay_def by (intro reading)

text \<open>A returning statement that only only_reads may be skipped over.\<close>

lemma bind_reads_Inr_iff:
  "only_reads m \<Longrightarrow> bindM m f db = (Inr y, db') \<longleftrightarrow> (\<exists>x. m db = (Inr x, db) \<and> f x db = (Inr y, db'))"
  by (auto simp: bindM_Inr_iff dest: only_readsD)

subsection \<open>Posting an event\<close>

text \<open>
  \<open>row_allows\<close> is the \<^verbatim>\<open>WHERE\<close> clause of the counter update of an event type, \<open>posted_row\<close>
  what its \<^verbatim>\<open>SET\<close> clause makes of the row; \<open>posts ev db db'\<close> says that the event was appended
  with the next sequence number and the counters of exactly one row were updated.
\<close>

fun row_allows :: "event_type \<Rightarrow> amounts \<Rightarrow> budget_row \<Rightarrow> bool" where
  "row_allows Reserve a rb \<longleftrightarrow> rb_reserved rb + rb_consumed rb + a \<le> rb_budget rb"
| "row_allows Release a rb \<longleftrightarrow> a \<le> rb_reserved rb"
| "row_allows Consume a rb \<longleftrightarrow> only_usage a \<le> only_usage (rb_reserved rb) \<and>
     only_usage (rb_consumed rb + a) \<le> only_usage (rb_budget rb)"
| "row_allows RetryDecrement a rb \<longleftrightarrow> retry_units a \<le> retry_units (rb_reserved rb) \<and>
     retry_units (rb_consumed rb) + retry_units a \<le> retry_units (rb_budget rb)"
| "row_allows RetryRestore a rb \<longleftrightarrow> retry_units a \<le> retry_units (rb_consumed rb) \<and>
     retry_units (rb_reserved rb) + retry_units a \<le> retry_units (rb_budget rb)"
| "row_allows HumanAttention a rb \<longleftrightarrow> human_attention_units a \<le> human_attention_units (rb_reserved rb) \<and>
     human_attention_units (rb_consumed rb) + human_attention_units a \<le> human_attention_units (rb_budget rb)"

definition posted_usage :: "event_type \<Rightarrow> confidence \<Rightarrow> confidence \<Rightarrow> confidence" where
  "posted_usage t usage current = (if t = Consume \<and> usage = Unknown then Unknown else raised_usage current usage)"

definition posted_row :: "event_row \<Rightarrow> budget_row \<Rightarrow> budget_row" where
  "posted_row ev rb =
     rb\<lparr>rb_reserved := rb_reserved rb + reserved_effect (ev_type ev) (ev_amounts ev),
        rb_consumed := rb_consumed rb + consumed_effect (ev_type ev) (ev_amounts ev),
        rb_usage := posted_usage (ev_type ev) (ev_usage ev) (rb_usage rb),
        rb_updated := ev_created ev\<rparr>"

definition allowing :: "event_row \<Rightarrow> budget_row \<Rightarrow> bool" where
  "allowing ev rb \<longleftrightarrow> rb_run rb = ev_run ev \<and> row_allows (ev_type ev) (ev_amounts ev) rb"

definition posts :: "event_row \<Rightarrow> ledger \<Rightarrow> ledger \<Rightarrow> bool" where
  "posts ev db db' \<longleftrightarrow>
     db' = set_rows (allowing ev) (posted_row ev) (db\<lparr>budget_events := budget_events db @ [ev]\<rparr>) \<and>
     length (filter (allowing ev) (run_budgets db)) = 1 \<and>
     ev_sequence ev = next_sequence (ev_run ev) db \<and> 1 \<le> ev_sequence ev \<and> ev_sequence ev \<le> max_event_sequence"

lemma set_rows_fields [simp]:
  "budget_events (set_rows g f db) = budget_events db"
  "run_budgets (set_rows g f db) = map (\<lambda>rb. if g rb then f rb else rb) (run_budgets db)"
  "budget_settlements (set_rows g f db) = budget_settlements db"
  "spawn_requests (set_rows g f db) = spawn_requests db" "runs (set_rows g f db) = runs db"
  "transitions (set_rows g f db) = transitions db" "cost_registry (set_rows g f db) = cost_registry db"
  "clock_contexts (set_rows g f db) = clock_contexts db" "gate_runs (set_rows g f db) = gate_runs db"
  "rpc_intents (set_rows g f db) = rpc_intents db" "sessions (set_rows g f db) = sessions db"
  "zero_policies (set_rows g f db) = zero_policies db"
  "schema_migrations (set_rows g f db) = schema_migrations db"
  by (simp_all add: set_rows_def)

lemma update_rows_Inr:
  "update_budget_rows env g f db = (Inr n, db') \<longleftrightarrow>
     be_engine env ''update counters'' db db' = None \<and> n = length (filter g (run_budgets db)) \<and> db' = set_rows g f db"
  by (auto simp: update_budget_rows_def err_simps)

lemma rows_are_posted:
  assumes "update_budget_rows env g f db1 = (Inr (Suc 0), db')" "db1 = db\<lparr>budget_events := budget_events db @ [ev]\<rparr>"
    "g = allowing ev" "f = posted_row ev" "ev_sequence ev = next_sequence (ev_run ev) db"
    "1 \<le> ev_sequence ev" "ev_sequence ev \<le> max_event_sequence"
  shows "posts ev db db'"
  using assms by (auto simp: update_rows_Inr posts_def)

lemma update_rows_cong:
  "g = g' \<Longrightarrow> f = f' \<Longrightarrow> bindM (update_budget_rows env g f) k = bindM (update_budget_rows env g' f') k"
  by simp

lemma allowing_eq:
  "ev_type ev = t \<Longrightarrow> allowing ev = (\<lambda>rb. rb_run rb = ev_run ev \<and> row_allows t (ev_amounts ev) rb)"
  by (auto simp: allowing_def fun_eq_iff)

lemma posted_row_eq:
  "ev_type ev = t \<Longrightarrow> posted_row ev = (\<lambda>rb. rb\<lparr>rb_reserved := rb_reserved rb + reserved_effect t (ev_amounts ev),
     rb_consumed := rb_consumed rb + consumed_effect t (ev_amounts ev),
     rb_usage := posted_usage t (ev_usage ev) (rb_usage rb), rb_updated := ev_created ev\<rparr>)"
  by (auto simp: posted_row_def fun_eq_iff)

lemma reserve_update_rows:
  assumes "ev_type ev \<in> {Reserve, Release}"
  shows "update_counters env (ev_type ev) (ev_run ev) (ev_amounts ev) (ev_usage ev) (ev_created ev) =
    bindM (update_budget_rows env (allowing ev) (posted_row ev)) (\<lambda>rowcount. checkM (rowcount = 1) exceeds)"
  using assms by (cases "ev_type ev")
    (simp_all add: update_counters_def allowing_eq posted_row_eq posted_usage_def)

lemma usage_update_rows:
  assumes "ev_type ev \<notin> {Reserve, Release}"
  shows "update_post_dispatch_counters env (ev_type ev) (ev_run ev) (ev_amounts ev) (ev_usage ev) (ev_created ev) =
    bindM (update_budget_rows env (allowing ev) (posted_row ev)) (\<lambda>rowcount. checkM (rowcount = 1) exceeds)"
  using assms by (cases "ev_type ev")
    (simp_all add: update_post_dispatch_counters_def allowing_eq posted_row_eq posted_usage_def)

lemma counters_post:
  assumes u: "bindM (update_budget_rows env (allowing ev) (posted_row ev)) (\<lambda>rowcount. checkM (rowcount = 1) exceeds) db1 = (Inr x, db')"
    and db1: "db1 = db\<lparr>budget_events := budget_events db @ [ev]\<rparr>"
    and s: "ev_sequence ev = next_sequence (ev_run ev) db" "1 \<le> ev_sequence ev" "ev_sequence ev \<le> max_event_sequence"
  shows "posts ev db db'"
proof -
  have "update_budget_rows env (allowing ev) (posted_row ev) db1 = (Inr (Suc 0), db')"
    using u by (auto simp: err_simps)
  then show ?thesis using db1 s by (intro rows_are_posted) auto
qed

lemma insert_event_Inr:
  "insert_event env ev db = (Inr n, db1) \<Longrightarrow>
     n = next_sequence (ev_run ev) db \<and> 1 \<le> n \<and> n \<le> max_event_sequence \<and>
     db1 = db\<lparr>budget_events := budget_events db @ [ev\<lparr>ev_sequence := n\<rparr>]\<rparr>"
  by (auto simp: insert_event_def err_simps)

lemma insert_then_update_posts:
  assumes "insert_event env ev db = (Inr n, db1)"
    "(if ev_type ev \<in> {Reserve, Release}
      then update_counters env (ev_type ev) (ev_run ev) (ev_amounts ev) (ev_usage ev) (ev_created ev) db1
      else update_post_dispatch_counters env (ev_type ev) (ev_run ev) (ev_amounts ev) (ev_usage ev) (ev_created ev) db1)
     = (Inr x, db')"
  shows "posts (ev\<lparr>ev_sequence := n\<rparr>) db db'"
proof -
  let ?ev = "ev\<lparr>ev_sequence := n\<rparr>"
  have "bindM (update_budget_rows env (allowing ?ev) (posted_row ?ev)) (\<lambda>rowcount. checkM (rowcount = 1) exceeds) db1 = (Inr x, db')"
    using assms(2) reserve_update_rows [of ?ev env] usage_update_rows [of ?ev env] by (simp split: if_splits)
  then show ?thesis using insert_event_Inr [OF assms(1)] by (intro counters_post) auto
qed

lemma event_of_fields [simp]:
  "ev_id (event_of rq h c k) = event_id (rq_key rq)" "ev_key (event_of rq h c k) = rq_key rq"
  "ev_dedupe (event_of rq h c k) = dedupe_hash (rq_dedupe rq)"
  "ev_run (event_of rq h c k) = rq_run rq" "ev_transition (event_of rq h c k) = rq_transition rq"
  "ev_spawn (event_of rq h c k) = Some (rq_spawn rq)"
  "ev_binding (event_of rq h c k) = map_binding Some (sel_binding (rq_selection rq))"
  "ev_policy (event_of rq h c k) = rq_policy rq" "ev_policy_hash (event_of rq h c k) = h"
  "ev_type (event_of rq h c k) = rq_type rq" "ev_amounts (event_of rq h c k) = rq_amounts rq"
  "ev_usage (event_of rq h c k) = rq_usage rq" "ev_created (event_of rq h c k) = fst c"
  "ev_created_ms (event_of rq h c k) = snd c" "ev_clock (event_of rq h c k) = k"
  "ev_settlement (event_of rq h c k) = None" "ev_sequence (event_of rq h c k) = 0"
  "ev_source (event_of rq h c k) = rq_source rq"
  by (simp_all add: event_of_def)

text \<open>What a call that answers from the ledger, and one that writes a new event, have in common.\<close>

definition answers_replay :: "event_row \<Rightarrow> string \<Rightarrow> event_result \<Rightarrow> ledger \<Rightarrow> bool" where
  "answers_replay expected key res db \<longleftrightarrow>
     (\<exists>ev\<in>set (budget_events db). ev_key ev = key \<and> event_columns ev = event_columns expected \<and>
       res = \<lparr>res_id = ev_id ev, res_sequence = ev_sequence ev, res_replayed = True\<rparr>)"

definition answers_new :: "event_row \<Rightarrow> event_result \<Rightarrow> ledger \<Rightarrow> ledger \<Rightarrow> bool" where
  "answers_new expected res db db' \<longleftrightarrow>
     res = \<lparr>res_id = ev_id expected, res_sequence = next_sequence (ev_run expected) db, res_replayed = False\<rparr> \<and>
     list_all (\<lambda>ev. ev_key ev \<noteq> ev_key expected) (budget_events db) \<and>
     posts (expected\<lparr>ev_sequence := next_sequence (ev_run expected) db\<rparr>) db db'"

lemma existing_event_Inr:
  "existing_event env key expected db = (Inr r, db') \<longleftrightarrow>
     be_engine env ''existing event'' db db = None \<and> db' = db \<and>
     (case find (\<lambda>ev. ev_key ev = key) (budget_events db) of
        None \<Rightarrow> r = None
      | Some ev \<Rightarrow> event_columns ev = event_columns expected \<and>
          r = Some \<lparr>res_id = ev_id ev, res_sequence = ev_sequence ev, res_replayed = True\<rparr>)"
  by (auto simp: existing_event_def err_simps split: option.splits if_splits)

lemma find_None_list_all: "find P xs = None \<longleftrightarrow> list_all (\<lambda>x. \<not> P x) xs"
  by (induction xs) auto

lemmas write_binds =
  bindM_Inr_iff [where m = "insert_event env ev" for env ev]
  bindM_Inr_iff [where m = "update_counters env t run a u s" for env t run a u s]
  bindM_Inr_iff [where m = "update_post_dispatch_counters env t run a u s" for env t run a u s]
  bindM_Inr_iff [where m = "execute eng l w" for eng l w]
  bindM_Inr_iff [where m = "insert_linked_event env rq c t a z" for env rq c t a z]

lemmas take_apart = bind_reads_Inr_iff reading fetch_Inr_iff checkM_Inr_iff write_binds

lemma budget_event_proof_Inr:
  assumes "budget_event_proof env rq db = (Inr (expected, states), db')"
  obtains h c where "expected = event_of rq h c None" "db' = db"
    "check_selection env (rq_run rq) (rq_transition rq) False (rq_selection rq) db = (Inr (), db)"
    "first (spawn_states (rq_spawn rq) (rq_run rq) (rq_transition rq) db) = Some states"
    "trusted_created_at env (rq_run rq) (rq_transition rq) (rq_clock rq) db = (Inr c, db)"
    "zero_policy_hash env (rq_policy rq) (rq_selection rq) db = (Inr h, db)"
    "\<exists>n. required_cost (rq_selection rq) (rq_amounts rq) = Inr n \<and> (rq_type rq = Reserve \<longrightarrow> n \<le> cost_microusd (rq_amounts rq))"
    "verify_schema_identity env db = (Inr (), db)"
  using assms by (auto simp: budget_event_proof_def take_apart
    split: option.splits)

lemma record_budget_event_cases:
  assumes "record_budget_event env args db = (Inr res, db')"
  obtains rq expected states
  where "bindE (checked_request {Reserve, Release} {Known, Estimated}
      ''unknown usage confidence blocks budget mutation'' args) check_budget_event = Inr rq"
    "connect env = Inr ()" "budget_event_proof env rq db = (Inr (expected, states), db)"
    "answers_replay expected (rq_key rq) res db \<and> db' = db \<or>
     new_budget_event env rq expected states db = (Inr res, db') \<and>
     list_all (\<lambda>ev. ev_key ev \<noteq> rq_key rq) (budget_events db)"
proof -
  from assms obtain rq where rq: "bindE (checked_request {Reserve, Release} {Known, Estimated}
      ''unknown usage confidence blocks budget mutation'' args) check_budget_event = Inr rq"
    and c: "connect env = Inr ()" and b: "budget_event_body env rq db = (Inr res, db')"
    by (auto simp: record_budget_event_def ledger_transaction_def bindM_Inr_iff liftM_Inr_iff
      catchM_raise_Inr_iff transaction_Inr_iff)
  then obtain expected states replay where p: "budget_event_proof env rq db = (Inr (expected, states), db)"
    and e: "existing_event env (rq_key rq) expected db = (Inr replay, db)"
    and n: "(case replay of Some result \<Rightarrow> bindM (assert_budget_invariants env) (\<lambda>_. returnM result)
      | None \<Rightarrow> new_budget_event env rq expected states) db = (Inr res, db')"
    by (auto simp: budget_event_body_def bind_reads_Inr_iff reading)
  from e n have "answers_replay expected (rq_key rq) res db \<and> db' = db \<or>
     new_budget_event env rq expected states db = (Inr res, db') \<and>
     list_all (\<lambda>ev. ev_key ev \<noteq> rq_key rq) (budget_events db)"
    by (auto simp: existing_event_Inr answers_replay_def find_None_list_all bind_reads_Inr_iff reading
      dest: find_SomeD split: option.splits)
  with rq c p that show ?thesis by blast
qed

lemma checked_request_Inr:
  assumes "checked_request types usages m args = Inr rq"
  shows "rq_type rq \<in> types" "rq_usage rq \<in> usages" "rq_amounts rq = arg_amounts args"
    "rq_selection rq = arg_selection args" "rq_policy rq = arg_policy args"
    "event_type_of (arg_type args) = Some (rq_type rq)"
  using assms by (auto simp: checked_request_def err_simps split: option.splits if_splits)

lemma check_budget_event_Inr:
  "check_budget_event rq = Inr rq' \<longleftrightarrow>
     rq' = rq \<and> \<not> is_zero (rq_amounts rq) \<and>
     (rq_type rq = Reserve \<longrightarrow> (input_tokens (rq_amounts rq) = 0 \<and> output_tokens (rq_amounts rq) = 0 \<and>
        cost_microusd (rq_amounts rq) = 0) = (rq_policy rq \<noteq> None)) \<and>
     (rq_type rq \<noteq> Reserve \<longrightarrow> rq_policy rq = None)"
  by (auto simp: check_budget_event_def Let_def)

lemma new_budget_event_Inr:
  assumes "new_budget_event env rq expected states db = (Inr res, db')"
    and t: "rq_type rq \<in> {Reserve, Release}" and ex: "expected = event_of rq h c None"
    and fresh: "list_all (\<lambda>ev. ev_key ev \<noteq> rq_key rq) (budget_events db)"
  shows "answers_new expected res db db'"
    and "fst states = ''pending''" "snd states = ''candidate''"
    and "\<not> has_spawn_intent (rq_spawn rq) (rq_run rq) (rq_transition rq) db"
    and "rq_type rq = Release \<Longrightarrow> check_release env rq db = (Inr (), db)"
    and "assert_budget_invariants env db' = (Inr (), db')"
    and "\<not> list_ex (\<lambda>s. set_dedupe s = dedupe_hash (rq_dedupe rq)) (budget_settlements db)"
proof -
  from assms(1) obtain n db1 where s: "fst states = ''pending''" "snd states = ''candidate''"
      "\<not> has_spawn_intent (rq_spawn rq) (rq_run rq) (rq_transition rq) db"
      "rq_type rq = Release \<Longrightarrow> check_release env rq db = (Inr (), db)"
      "reject_settlement_dedupe_collision env (ev_dedupe expected) db = (Inr (), db)"
    and i: "insert_event env expected db = (Inr n, db1)"
    and u: "update_counters env (rq_type rq) (rq_run rq) (rq_amounts rq) (rq_usage rq) (ev_created expected) db1 = (Inr (), db')"
    and a: "assert_budget_invariants env db' = (Inr (), db')"
    and r: "res = \<lparr>res_id = ev_id expected, res_sequence = n, res_replayed = False\<rparr>"
    by (auto simp: new_budget_event_def take_apart split: if_splits)
  have "posts (expected\<lparr>ev_sequence := n\<rparr>) db db'"
    using i u t ex by (intro insert_then_update_posts) (auto split: if_splits)
  then show "answers_new expected res db db'"
    using insert_event_Inr [OF i] fresh ex r by (auto simp: answers_new_def)
  show "\<not> list_ex (\<lambda>s. set_dedupe s = dedupe_hash (rq_dedupe rq)) (budget_settlements db)"
    using s(5) ex by (auto simp: reject_settlement_dedupe_collision_def err_simps)
qed (use assms(1) in \<open>auto simp: new_budget_event_def take_apart split: if_splits\<close>)

lemma usage_proof_Inr:
  assumes "usage_proof env rq db = (Inr (expected, state), db')"
  obtains c acc req where "expected = event_of rq None c (Some (rq_clock rq))" "db' = db"
    "check_selection env (rq_run rq) (rq_transition rq) True (rq_selection rq) db = (Inr (), db)"
    "first (session_proofs (rq_spawn rq) (rq_run rq) (rq_transition rq) (usage_clause (rq_type rq)) db) = Some (state, acc, req)"
    "trusted_created_at env (rq_run rq) (rq_transition rq) (rq_clock rq) db = (Inr c, db)"
    "fresh_clock req acc (snd c)"
    "verify_schema_identity env db = (Inr (), db)"
  using assms by (auto simp: usage_proof_def take_apart
    split: option.splits if_splits)

lemma record_post_dispatch_event_cases:
  assumes "record_post_dispatch_event env args db = (Inr res, db')"
  obtains rq expected state
  where "bindE (checked_request {Consume, RetryDecrement, RetryRestore, HumanAttention}
       {Known, Estimated, Unknown} ''invalid post-dispatch usage confidence'' args) check_post_dispatch_event = Inr rq"
    "connect env = Inr ()" "usage_proof env rq db = (Inr (expected, state), db)"
    "answers_replay expected (rq_key rq) res db \<and> db' = db \<or>
     new_usage_event env rq expected state db = (Inr res, db') \<and>
     list_all (\<lambda>ev. ev_key ev \<noteq> rq_key rq) (budget_events db)"
proof -
  from assms obtain rq where rq: "bindE (checked_request {Consume, RetryDecrement, RetryRestore, HumanAttention}
       {Known, Estimated, Unknown} ''invalid post-dispatch usage confidence'' args) check_post_dispatch_event = Inr rq"
    and c: "connect env = Inr ()" and b: "usage_event_body env rq db = (Inr res, db')"
    by (auto simp: record_post_dispatch_event_def ledger_transaction_def bindM_Inr_iff liftM_Inr_iff
      catchM_raise_Inr_iff transaction_Inr_iff)
  then obtain expected state replay where p: "usage_proof env rq db = (Inr (expected, state), db)"
    and e: "existing_event env (rq_key rq) expected db = (Inr replay, db)"
    and n: "(case replay of Some result \<Rightarrow> bindM (assert_budget_invariants env) (\<lambda>_. returnM result)
      | None \<Rightarrow> new_usage_event env rq expected state) db = (Inr res, db')"
    by (auto simp: usage_event_body_def bind_reads_Inr_iff reading)
  from e n have "answers_replay expected (rq_key rq) res db \<and> db' = db \<or>
     new_usage_event env rq expected state db = (Inr res, db') \<and>
     list_all (\<lambda>ev. ev_key ev \<noteq> rq_key rq) (budget_events db)"
    by (auto simp: existing_event_Inr answers_replay_def find_None_list_all bind_reads_Inr_iff reading
      dest: find_SomeD split: option.splits)
  with rq c p that show ?thesis by blast
qed

lemma new_usage_event_Inr:
  assumes "new_usage_event env rq expected state db = (Inr res, db')"
    and t: "rq_type rq \<notin> {Reserve, Release}" and ex: "expected = event_of rq h c k"
    and fresh: "list_all (\<lambda>ev. ev_key ev \<noteq> rq_key rq) (budget_events db)"
  shows "answers_new expected res db db'"
    and "\<not> settled (rq_run rq) (rq_transition rq) (rq_spawn rq) db" "\<not> poisoned (rq_run rq) db"
    and "check_usage env rq db = (Inr (), db)"
    and "assert_budget_invariants env db' = (Inr (), db')"
proof -
  from assms(1) obtain n db1 where s: "reject_event_after_final_settlement env (rq_run rq) (rq_transition rq) (rq_spawn rq) db = (Inr (), db)"
    and i: "insert_event env expected db = (Inr n, db1)"
    and u: "update_post_dispatch_counters env (rq_type rq) (rq_run rq) (rq_amounts rq) (rq_usage rq) (ev_created expected) db1 = (Inr (), db')"
    and r: "res = \<lparr>res_id = ev_id expected, res_sequence = n, res_replayed = False\<rparr>"
    by (auto simp: new_usage_event_def take_apart)
  have "posts (expected\<lparr>ev_sequence := n\<rparr>) db db'"
    using i u t ex by (intro insert_then_update_posts) (auto split: if_splits)
  then show "answers_new expected res db db'"
    using insert_event_Inr [OF i] fresh ex r by (auto simp: answers_new_def)
  show "\<not> settled (rq_run rq) (rq_transition rq) (rq_spawn rq) db"
    using s by (auto simp: reject_event_after_final_settlement_def err_simps)
qed (use assms(1) in \<open>auto simp: new_usage_event_def take_apart\<close>)

subsection \<open>Settlements as posts\<close>

definition linked_post :: "event_request \<Rightarrow> string \<times> int \<Rightarrow> event_type \<Rightarrow> amounts \<Rightarrow> ledger \<Rightarrow> ledger \<Rightarrow> bool" where
  "linked_post rq c t a db db' \<longleftrightarrow>
     a = 0 \<and> db' = db \<or> (\<exists>n. posts ((linked_event rq c t a)\<lparr>ev_sequence := n\<rparr>) db db')"

lemma linked_event_fields [simp]:
  "ev_run (linked_event rq c t a) = rq_run rq" "ev_transition (linked_event rq c t a) = rq_transition rq"
  "ev_spawn (linked_event rq c t a) = Some (rq_spawn rq)"
  "ev_binding (linked_event rq c t a) = map_binding Some (sel_binding (rq_selection rq))"
  "ev_type (linked_event rq c t a) = t" "ev_amounts (linked_event rq c t a) = a"
  "ev_usage (linked_event rq c t a) = rq_usage rq" "ev_created (linked_event rq c t a) = fst c"
  "ev_settlement (linked_event rq c t a) = Some (settlement_id (rq_key rq))"
  by (simp_all add: linked_event_def)

lemma insert_linked_event_Inr:
  assumes "insert_linked_event env rq c t a z db = (Inr rs, db')" "t \<noteq> Reserve"
  shows "linked_post rq c t a db db'"
proof (cases "is_zero a \<and> \<not> z")
  case True
  then show ?thesis using assms by (simp add: insert_linked_event_def linked_post_def is_zero_def)
next
  case False
  let ?ev = "linked_event rq c t a"
  from False assms(1) obtain n db1 where i: "insert_event env ?ev db = (Inr n, db1)"
    and u: "(if t = Release then update_counters env Release (rq_run rq) a (rq_usage rq) (fst c)
             else update_post_dispatch_counters env t (rq_run rq) a (rq_usage rq) (fst c)) db1 = (Inr (), db')"
    by (auto simp: insert_linked_event_def Let_def bindM_Inr_iff)
  have "posts (?ev\<lparr>ev_sequence := n\<rparr>) db db'"
    using i u assms(2) by (intro insert_then_update_posts) (auto split: if_splits)
  then show ?thesis by (auto simp: linked_post_def)
qed

lemma spawn_outstanding_Inr:
  "spawn_outstanding env spawn run tr sel db = (Inr a, db') \<longleftrightarrow>
     be_engine env ''outstanding'' db db = None \<and> db' = db \<and>
     a = net_reserved (spawn_events spawn run tr sel db) \<and> 0 \<le> a \<and> a \<le> limits"
  by (auto simp: spawn_outstanding_def err_simps)

lemma new_settlement_Inr:
  assumes "new_settlement env rq state created db = (Inr res, db')"
  obtains outstanding released db1 db2 db3 where
    "outstanding = net_reserved (spawn_events (rq_spawn rq) (rq_run rq) (rq_transition rq) (rq_selection rq) db)"
    "0 \<le> outstanding" "rq_amounts rq \<le> outstanding" "released = outstanding - rq_amounts rq" "0 \<le> released"
    "\<not> poisoned (rq_run rq) db" "state \<in> {''child_completed'', ''child_failed'', ''aggregation_completed''}"
    "sres_released res = released" "\<not> sres_replayed res" "sres_id res = settlement_id (rq_key rq)"
    "linked_post rq created Consume (only_usage (rq_amounts rq))
       (db\<lparr>budget_settlements := budget_settlements db @ [settlement_of rq created released]\<rparr>) db1"
    "linked_post rq created RetryDecrement (only_retry (rq_amounts rq)) db1 db2"
    "linked_post rq created HumanAttention (only_human (rq_amounts rq)) db2 db3"
    "linked_post rq created Release released db3 db'"
    "assert_budget_invariants env db' = (Inr (), db')"
  using assms by (auto simp: new_settlement_def take_apart spawn_outstanding_Inr execute_Inr_iff budget_amounts_Inr_iff
    dest!: insert_linked_event_Inr)

definition settlement_answers_replay :: "event_request \<Rightarrow> string \<times> int \<Rightarrow> settlement_result \<Rightarrow> ledger \<Rightarrow> bool" where
  "settlement_answers_replay rq created res db \<longleftrightarrow>
     (\<exists>row\<in>set (budget_settlements db). set_key row = rq_key rq \<and>
       settlement_columns row = settlement_columns (settlement_of rq created 0) \<and>
       sres_id res = settlement_id (rq_key rq) \<and> sres_released res = set_released row \<and> sres_replayed res)"

lemma settle_on_connection_cases:
  assumes "settle_budget_on_connection env v args db = (Inr res, db')"
  obtains rq state created
  where "settlement_request args = Inr rq" "settlement_proof env v rq db = (Inr (state, created), db)"
    "settlement_answers_replay rq created res db \<and> db' = db \<or>
     new_settlement env rq state created db = (Inr res, db') \<and>
     list_all (\<lambda>s. set_key s \<noteq> rq_key rq) (budget_settlements db)"
proof -
  from assms obtain rq state created replay where rq: "settlement_request args = Inr rq"
    and p: "settlement_proof env v rq db = (Inr (state, created), db)"
    and r: "replay = find (\<lambda>s. set_key s = rq_key rq) (budget_settlements db)"
    and n: "(case replay of Some row \<Rightarrow> settlement_replay env rq created row
      | None \<Rightarrow> new_settlement env rq state created) db = (Inr res, db')"
    by (auto simp: settle_budget_on_connection_def take_apart)
  show ?thesis
  proof (cases replay)
    case None
    then have "new_settlement env rq state created db = (Inr res, db')"
      "list_all (\<lambda>s. set_key s \<noteq> rq_key rq) (budget_settlements db)"
      using n r by (simp_all add: find_None_list_all [symmetric])
    then show ?thesis using rq p that by blast
  next
    case (Some row)
    with r have "set_key row = rq_key rq" "row \<in> set (budget_settlements db)"
      using find_SomeD by fastforce+
    then have "settlement_answers_replay rq created res db \<and> db' = db"
      using n Some by (auto simp: settlement_replay_def take_apart budget_amounts_Inr_iff settlement_answers_replay_def)
    then show ?thesis using rq p that by blast
  qed
qed

lemma settle_budget_cases:
  assumes "settle_budget env args db = (Inr res, db')"
  shows "connect env = Inr () \<and> settle_budget_on_connection env False args db = (Inr res, db')"
  using assms by (auto simp: settle_budget_def ledger_transaction_def bindM_Inr_iff liftM_Inr_iff
      catchM_raise_Inr_iff transaction_Inr_iff)

subsection \<open>The account of a run\<close>

text \<open>
  The abstract specification of a budget: what is held, what is spent, and a total that the two
  never exceed. \<open>account_step\<close> allows an event exactly when the result is a safe account.
\<close>

record account =
  held :: amounts
  spent :: amounts
  total :: amounts

definition safe :: "account \<Rightarrow> bool" where
  "safe acc \<longleftrightarrow> 0 \<le> held acc \<and> 0 \<le> spent acc \<and> held acc + spent acc \<le> total acc"

definition account_step :: "event_type \<times> amounts \<Rightarrow> account \<Rightarrow> account option" where
  "account_step ev acc =
     (let acc' = acc\<lparr>held := held acc + reserved_effect (fst ev) (snd ev),
                     spent := spent acc + consumed_effect (fst ev) (snd ev)\<rparr> in
      if safe acc' then Some acc' else None)"

definition account_of :: "budget_row \<Rightarrow> account" where
  "account_of rb = \<lparr>held = rb_reserved rb, spent = rb_consumed rb, total = rb_budget rb\<rparr>"

lemma more_fields [simp]:
  "time_seconds (- a) = - time_seconds a" "input_tokens (- a) = - input_tokens a"
  "output_tokens (- a) = - output_tokens a" "cost_microusd (- a) = - cost_microusd a"
  "retry_units (- a) = - retry_units a" "human_attention_units (- a) = - human_attention_units a"
  "time_seconds 0 = 0" "input_tokens 0 = 0" "output_tokens 0 = 0" "cost_microusd 0 = 0"
  "retry_units 0 = 0" "human_attention_units 0 = 0"
  "time_seconds (a - b) = time_seconds a - time_seconds b" "retry_units (a - b) = retry_units a - retry_units b"
  "human_attention_units (a - b) = human_attention_units a - human_attention_units b"
  by (cases a; cases b; simp add: zero_amounts_def)+

lemma only_fields [simp]:
  "time_seconds (only_usage a) = time_seconds a" "input_tokens (only_usage a) = input_tokens a"
  "output_tokens (only_usage a) = output_tokens a" "cost_microusd (only_usage a) = cost_microusd a"
  "retry_units (only_usage a) = 0" "human_attention_units (only_usage a) = 0"
  "time_seconds (only_retry a) = 0" "input_tokens (only_retry a) = 0" "output_tokens (only_retry a) = 0"
  "cost_microusd (only_retry a) = 0" "retry_units (only_retry a) = retry_units a" "human_attention_units (only_retry a) = 0"
  "time_seconds (only_human a) = 0" "input_tokens (only_human a) = 0" "output_tokens (only_human a) = 0"
  "cost_microusd (only_human a) = 0" "retry_units (only_human a) = 0"
  "human_attention_units (only_human a) = human_attention_units a"
  by (simp_all add: only_usage_def only_retry_def only_human_def)

lemma row_allows_iff:
  assumes "safe (account_of rb)" "0 \<le> a"
  shows "row_allows t a rb \<longleftrightarrow> account_step (t, a) (account_of rb) \<noteq> None"
  using assms
  by (cases t) (auto simp: account_step_def account_of_def safe_def Let_def amounts_le_iff)

lemma posted_account:
  assumes "safe (account_of rb)" "0 \<le> ev_amounts ev" "row_allows (ev_type ev) (ev_amounts ev) rb"
  shows "account_step (ev_type ev, ev_amounts ev) (account_of rb) = Some (account_of (posted_row ev rb))"
  using row_allows_iff [OF assms(1,2)] assms(3)
  by (auto simp: account_step_def account_of_def posted_row_def Let_def split: if_splits)

subsection \<open>Accounts replayed from their events\<close>

text \<open>
  A machine that refuses or performs steps, each with a known effect on a balance and keeping an
  account good: whatever the steps, the balance is the sum of their effects.
\<close>

fun run_all :: "('op \<Rightarrow> 'acc \<Rightarrow> 'acc option) \<Rightarrow> 'op list \<Rightarrow> 'acc \<Rightarrow> 'acc option" where
  "run_all step [] acc = Some acc"
| "run_all step (op # ops) acc = Option.bind (step op acc) (run_all step ops)"

lemma run_all_append: "run_all step (xs @ ys) acc = Option.bind (run_all step xs acc) (run_all step ys)"
  by (induction xs arbitrary: acc) (auto split: Option.bind_split)

locale account_machine =
  fixes step :: "'op \<Rightarrow> 'acc \<Rightarrow> 'acc option"
    and balance :: "'acc \<Rightarrow> amounts"
    and effect :: "'op \<Rightarrow> amounts"
    and good :: "'acc \<Rightarrow> bool"
  assumes step_balance: "step op acc = Some acc' \<Longrightarrow> balance acc' = balance acc + effect op"
    and step_good: "step op acc = Some acc' \<Longrightarrow> good acc'"
begin

lemma run_balance: "run_all step ops acc = Some acc' \<Longrightarrow> balance acc' = balance acc + sum_list (map effect ops)"
proof (induction ops arbitrary: acc)
  case (Cons op ops)
  then obtain mid where "step op acc = Some mid" "run_all step ops mid = Some acc'"
    by (auto split: Option.bind_splits)
  with Cons.IH [of mid] step_balance show ?case by (simp add: add.assoc)
qed simp

lemma run_good: "run_all step ops acc = Some acc' \<Longrightarrow> good acc \<Longrightarrow> good acc'"
proof (induction ops arbitrary: acc)
  case (Cons op ops)
  then obtain mid where "step op acc = Some mid" "run_all step ops mid = Some acc'"
    by (auto split: Option.bind_splits)
  with Cons.IH [of mid] step_good show ?case by blast
qed simp

lemma run_prefix_good:
  assumes "run_all step (xs @ ys) acc = Some acc'" "good acc"
  shows "\<exists>mid. run_all step xs acc = Some mid \<and> good mid"
  using assms run_good [of xs acc] by (auto simp: run_all_append split: Option.bind_splits)

end

interpretation held_account: account_machine account_step held "\<lambda>ev. reserved_effect (fst ev) (snd ev)" safe
  by unfold_locales (auto simp: account_step_def Let_def split: if_splits)

interpretation spent_account: account_machine account_step spent "\<lambda>ev. consumed_effect (fst ev) (snd ev)" safe
  by unfold_locales (auto simp: account_step_def Let_def split: if_splits)

interpretation total_account: account_machine account_step total "\<lambda>ev. 0" safe
  by unfold_locales (auto simp: account_step_def Let_def split: if_splits)

definition events_of :: "string \<Rightarrow> ledger \<Rightarrow> event_row list" where
  "events_of run db = filter (\<lambda>e. ev_run e = run) (budget_events db)"

definition account_events :: "string \<Rightarrow> ledger \<Rightarrow> (event_type \<times> amounts) list" where
  "account_events run db = map (\<lambda>e. (ev_type e, ev_amounts e)) (events_of run db)"

definition new_account :: "amounts \<Rightarrow> account" where
  "new_account budget = \<lparr>held = 0, spent = 0, total = budget\<rparr>"

text \<open>The counters of every budget row are what its run's events make of an empty account.\<close>

definition replays_accounts :: "ledger \<Rightarrow> bool" where
  "replays_accounts db \<longleftrightarrow>
     distinct (map rb_run (run_budgets db)) \<and>
     list_all (\<lambda>rb. 0 \<le> rb_budget rb \<and>
       run_all account_step (account_events (rb_run rb) db) (new_account (rb_budget rb)) = Some (account_of rb))
       (run_budgets db)"

lemma safe_new_account: "0 \<le> b \<Longrightarrow> safe (new_account b)"
  by (simp add: safe_def new_account_def)

lemma replays_safe: "replays_accounts db \<Longrightarrow> rb \<in> set (run_budgets db) \<Longrightarrow> safe (account_of rb)"
  using held_account.run_good safe_new_account by (fastforce simp: replays_accounts_def list_all_iff)

lemma posts_budgets:
  assumes "posts ev db db'"
  shows "run_budgets db' = map (\<lambda>rb. if allowing ev rb then posted_row ev rb else rb) (run_budgets db)"
    "budget_events db' = budget_events db @ [ev]"
  using assms by (auto simp: posts_def)

lemma posted_row_keys [simp]:
  "rb_run (posted_row ev rb) = rb_run rb" "rb_budget (posted_row ev rb) = rb_budget rb"
  "rb_selected (posted_row ev rb) = rb_selected rb" "rb_transition (posted_row ev rb) = rb_transition rb"
  "rb_workflow (posted_row ev rb) = rb_workflow rb"
  by (simp_all add: posted_row_def)

lemma map_posted_rows:
  assumes "\<And>rb. g (posted_row ev rb) = g rb"
  shows "map g (map (\<lambda>rb. if c rb then posted_row ev rb else rb) rbs) = map g rbs"
  using assms by (induction rbs) auto

lemma posts_target:
  assumes "posts ev db db'" "distinct (map rb_run (run_budgets db))" "rb \<in> set (run_budgets db)"
    "rb_run rb = ev_run ev"
  shows "allowing ev rb"
proof -
  have "length (filter (allowing ev) (run_budgets db)) = 1" using assms(1) by (simp add: posts_def)
  then obtain rb' where f: "filter (allowing ev) (run_budgets db) = [rb']" by (auto simp: length_Suc_conv)
  have "rb' \<in> set (filter (allowing ev) (run_budgets db))" unfolding f by simp
  then have "rb' \<in> set (run_budgets db)" "allowing ev rb'" by auto
  moreover from this have "rb_run rb' = rb_run rb" using assms(4) by (simp add: allowing_def)
  ultimately show ?thesis using assms(2,3) by (metis distinct_map inj_onD)
qed

lemma posts_replays:
  assumes p: "posts ev db db'" and a: "0 \<le> ev_amounts ev" and r: "replays_accounts db"
  shows "replays_accounts db'"
proof -
  have keys: "map rb_run (run_budgets db') = map rb_run (run_budgets db)"
    unfolding posts_budgets [OF p] by (rule map_posted_rows) simp
  have "0 \<le> rb_budget rb' \<and>
      run_all account_step (account_events (rb_run rb') db') (new_account (rb_budget rb')) = Some (account_of rb')"
    if "rb' \<in> set (run_budgets db')" for rb'
  proof -
    from that obtain rb where rb: "rb \<in> set (run_budgets db)" "rb' = (if allowing ev rb then posted_row ev rb else rb)"
      unfolding posts_budgets [OF p] by auto
    have ok: "0 \<le> rb_budget rb"
        "run_all account_step (account_events (rb_run rb) db) (new_account (rb_budget rb)) = Some (account_of rb)"
      using r rb(1) by (auto simp: replays_accounts_def list_all_iff)
    show ?thesis
    proof (cases "rb_run rb = ev_run ev")
      case True
      then have al: "allowing ev rb" using posts_target [OF p] r rb(1) by (auto simp: replays_accounts_def)
      have "account_step (ev_type ev, ev_amounts ev) (account_of rb) = Some (account_of (posted_row ev rb))"
        using al replays_safe [OF r rb(1)] a by (intro posted_account) (auto simp: allowing_def)
      then show ?thesis using al rb(2) ok True
        by (simp add: account_events_def events_of_def posts_budgets(2) [OF p] run_all_append)
    next
      case False
      then have "\<not> allowing ev rb" by (simp add: allowing_def)
      then show ?thesis using False rb(2) ok
        by (simp add: account_events_def events_of_def posts_budgets(2) [OF p])
    qed
  qed
  then show ?thesis using r keys by (simp add: replays_accounts_def list_all_iff)
qed

subsection \<open>Calls and their errors\<close>

definition budget_error :: "exn \<Rightarrow> bool" where
  "budget_error e \<longleftrightarrow> (\<exists>m. e = BudgetError m \<or> e = BudgetConflict m \<or> e = BudgetExceeded m)"

datatype budget_call = RecordEvent event_args | RecordUsage event_args | Settle event_args

fun call_args :: "budget_call \<Rightarrow> event_args" where
  "call_args (RecordEvent a) = a"
| "call_args (RecordUsage a) = a"
| "call_args (Settle a) = a"

text \<open>The exception of a call, if it raises, and the ledger it leaves.\<close>

definition outcome :: "(exn + 'a) \<times> ledger \<Rightarrow> exn option \<times> ledger" where
  "outcome r = (case fst r of Inl e \<Rightarrow> Some e | Inr _ \<Rightarrow> None, snd r)"

fun call_budget :: "budget_env \<Rightarrow> budget_call \<Rightarrow> ledger \<Rightarrow> exn option \<times> ledger" where
  "call_budget env (RecordEvent a) db = outcome (record_budget_event env a db)"
| "call_budget env (RecordUsage a) db = outcome (record_post_dispatch_event env a db)"
| "call_budget env (Settle a) db = outcome (settle_budget env a db)"

lemma outcome_iff:
  "outcome r = (Some e, db) \<longleftrightarrow> r = (Inl e, db)"
  "outcome r = (None, db) \<longleftrightarrow> (\<exists>x. r = (Inr x, db))"
  by (cases r; cases "fst r"; auto simp: outcome_def)+

lemma ledger_transaction_raises:
  assumes "ledger_transaction env body db = (Inl e, db')"
  shows "db' = db"
  using assms by (auto simp: ledger_transaction_def bindM_Inl_iff catchM_raise_Inl_iff dest: transaction_raises)

lemma failed_call_keeps_ledger:
  assumes "call_budget env c db = (Some e, db')"
  shows "db' = db"
  using assms by (cases c) (auto simp: outcome_iff record_budget_event_def record_post_dispatch_event_def
    settle_budget_def bindM_Inl_iff dest: ledger_transaction_raises)

text \<open>The calls of the library, interleaved with writers of other tables.\<close>

inductive budget_reaches :: "ledger \<Rightarrow> ledger \<Rightarrow> bool" where
  Start: "budget_reaches db db"
| Call: "budget_reaches db0 db \<Longrightarrow> budget_amounts (arg_amounts (call_args c)) = Inr a \<Longrightarrow>
    call_budget env c db = (r, db') \<Longrightarrow> budget_reaches db0 db'"
| Elsewhere: "budget_reaches db0 db \<Longrightarrow> run_budgets db' = run_budgets db \<Longrightarrow>
    budget_events db' = budget_events db \<Longrightarrow> budget_reaches db0 db'"

lemma linked_post_replays:
  "linked_post rq c t a db db' \<Longrightarrow> 0 \<le> a \<Longrightarrow> replays_accounts db \<Longrightarrow> replays_accounts db'"
  by (auto simp: linked_post_def intro: posts_replays)

lemma replays_settlements [simp]:
  "replays_accounts (db\<lparr>budget_settlements := s\<rparr>) = replays_accounts db"
  by (simp add: replays_accounts_def account_events_def events_of_def)

lemma only_nonneg: "0 \<le> a \<Longrightarrow> 0 \<le> only_usage a \<and> 0 \<le> only_retry a \<and> 0 \<le> only_human a"
  by (simp add: amounts_le_iff)

lemma settlement_request_amounts: "settlement_request args = Inr rq \<Longrightarrow> rq_amounts rq = arg_amounts args"
  using checked_request_Inr(3) by (fastforce simp: settlement_request_def)

lemma new_settlement_replays:
  assumes n: "new_settlement env rq state created db = (Inr res, db')" and r: "replays_accounts db" and a: "0 \<le> rq_amounts rq"
  shows "replays_accounts db'"
proof (rule new_settlement_Inr [OF n])
  fix outstanding released db1 db2 db3
  assume rel: "0 \<le> released"
    and l1: "linked_post rq created Consume (only_usage (rq_amounts rq))
       (db\<lparr>budget_settlements := budget_settlements db @ [settlement_of rq created released]\<rparr>) db1"
    and l2: "linked_post rq created RetryDecrement (only_retry (rq_amounts rq)) db1 db2"
    and l3: "linked_post rq created HumanAttention (only_human (rq_amounts rq)) db2 db3"
    and l4: "linked_post rq created Release released db3 db'"
  have "replays_accounts db1" using linked_post_replays [OF l1] r only_nonneg [OF a] by simp
  then have "replays_accounts db2" using linked_post_replays [OF l2] only_nonneg [OF a] by simp
  then have "replays_accounts db3" using linked_post_replays [OF l3] only_nonneg [OF a] by simp
  then show ?thesis using linked_post_replays [OF l4] rel by simp
qed

lemma answers_new_replays:
  "answers_new expected res db db' \<Longrightarrow> 0 \<le> ev_amounts expected \<Longrightarrow> replays_accounts db \<Longrightarrow> replays_accounts db'"
  by (auto simp: answers_new_def intro: posts_replays)

lemma record_budget_event_answers:
  assumes "record_budget_event env args db = (Inr res, db')"
  obtains expected where "ev_amounts expected = arg_amounts args"
    "Some (ev_type expected) = event_type_of (arg_type args)" "ev_type expected \<in> {Reserve, Release}"
    "answers_replay expected (ev_key expected) res db \<and> db' = db \<or> answers_new expected res db db'"
proof (rule record_budget_event_cases [OF assms])
  fix rq expected states
  assume rq: "bindE (checked_request {Reserve, Release} {Known, Estimated}
      ''unknown usage confidence blocks budget mutation'' args) check_budget_event = Inr rq"
    and p: "budget_event_proof env rq db = (Inr (expected, states), db)"
    and n: "answers_replay expected (rq_key rq) res db \<and> db' = db \<or>
     new_budget_event env rq expected states db = (Inr res, db') \<and>
     list_all (\<lambda>ev. ev_key ev \<noteq> rq_key rq) (budget_events db)"
  obtain h c where ex: "expected = event_of rq h c None" using budget_event_proof_Inr [OF p] by metis
  have t: "rq_type rq \<in> {Reserve, Release}" "rq_amounts rq = arg_amounts args"
      "event_type_of (arg_type args) = Some (rq_type rq)"
    using rq checked_request_Inr by (fastforce simp: bindE_Inr_iff check_budget_event_Inr)+
  from n have "answers_replay expected (ev_key expected) res db \<and> db' = db \<or> answers_new expected res db db'"
    using new_budget_event_Inr(1) [where env = env and states = states and db = db and res = res and db' = db', OF _ t(1) ex] ex
    by auto
  then show ?thesis using that [of expected] t ex by simp
qed

lemma record_post_dispatch_event_answers:
  assumes "record_post_dispatch_event env args db = (Inr res, db')"
  obtains expected where "ev_amounts expected = arg_amounts args"
    "Some (ev_type expected) = event_type_of (arg_type args)" "ev_type expected \<notin> {Reserve, Release}"
    "answers_replay expected (ev_key expected) res db \<and> db' = db \<or> answers_new expected res db db'"
proof (rule record_post_dispatch_event_cases [OF assms])
  fix rq expected state
  assume rq: "bindE (checked_request {Consume, RetryDecrement, RetryRestore, HumanAttention}
       {Known, Estimated, Unknown} ''invalid post-dispatch usage confidence'' args) check_post_dispatch_event = Inr rq"
    and p: "usage_proof env rq db = (Inr (expected, state), db)"
    and n: "answers_replay expected (rq_key rq) res db \<and> db' = db \<or>
     new_usage_event env rq expected state db = (Inr res, db') \<and>
     list_all (\<lambda>ev. ev_key ev \<noteq> rq_key rq) (budget_events db)"
  obtain c where ex: "expected = event_of rq None c (Some (rq_clock rq))" using usage_proof_Inr [OF p] by metis
  have same: "check_post_dispatch_event rq1 = Inr rq2 \<Longrightarrow> rq2 = rq1" for rq1 rq2
    by (auto simp: check_post_dispatch_event_def Let_def split: if_splits)
  have t: "rq_type rq \<in> {Consume, RetryDecrement, RetryRestore, HumanAttention}" "rq_amounts rq = arg_amounts args"
      "event_type_of (arg_type args) = Some (rq_type rq)"
    using rq checked_request_Inr by (fastforce simp: bindE_Inr_iff dest!: same)+
  then have t': "rq_type rq \<notin> {Reserve, Release}" by auto
  from n have "answers_replay expected (ev_key expected) res db \<and> db' = db \<or> answers_new expected res db db'"
    using new_usage_event_Inr(1) [OF _ t' ex] ex by auto
  then show ?thesis using that [of expected] t t' ex by simp
qed

lemma call_replays:
  assumes c: "call_budget env c db = (None, db')" and a: "budget_amounts (arg_amounts (call_args c)) = Inr a"
    and r: "replays_accounts db"
  shows "replays_accounts db'"
proof (cases c)
  case (RecordEvent args)
  with c obtain res where "record_budget_event env args db = (Inr res, db')" by (auto simp: outcome_iff)
  then show ?thesis using a r RecordEvent
    by (rule_tac record_budget_event_answers) (auto intro: answers_new_replays simp: budget_amounts_Inr_iff)
next
  case (RecordUsage args)
  with c obtain res where "record_post_dispatch_event env args db = (Inr res, db')" by (auto simp: outcome_iff)
  then show ?thesis using a r RecordUsage
    by (rule_tac record_post_dispatch_event_answers) (auto intro: answers_new_replays simp: budget_amounts_Inr_iff)
next
  case (Settle args)
  with c obtain res where "settle_budget env args db = (Inr res, db')" by (auto simp: outcome_iff)
  then have s: "settle_budget_on_connection env False args db = (Inr res, db')" by (simp add: settle_budget_cases)
  then show ?thesis
    using a r Settle settlement_request_amounts new_settlement_replays
    by (rule_tac settle_on_connection_cases [OF s]) (auto simp: budget_amounts_Inr_iff)
qed

lemma reaches_replays: "budget_reaches db0 db \<Longrightarrow> replays_accounts db0 \<Longrightarrow> replays_accounts db"
proof (induction rule: budget_reaches.induct)
  case (Call db0 db c a env r db')
  then show ?case by (cases r) (auto dest: call_replays failed_call_keeps_ledger)
next
  case (Elsewhere db0 db db')
  then show ?case by (simp add: replays_accounts_def account_events_def events_of_def)
qed simp

end
