(* ===== verification/BudgetFacts.thy ===== *)
theory BudgetFacts
  imports BudgetLedger
begin

section \<open>Facts about whole budget calls\<close>

text \<open>
  What every returning budget call does to events, accounts and settlements, from the facts about single
  statements; the claims are short consequences.
\<close>

subsection \<open>Events only grow, and accounts follow them\<close>

definition ledger_extends :: "ledger \<Rightarrow> ledger \<Rightarrow> bool" where
  "ledger_extends db db' \<longleftrightarrow>
     (\<exists>evs. budget_events db' = budget_events db @ evs) \<and>
     map (\<lambda>rb. (rb_run rb, rb_budget rb)) (run_budgets db') = map (\<lambda>rb. (rb_run rb, rb_budget rb)) (run_budgets db)"

lemma ledger_extends_refl [simp]: "ledger_extends db db"
  by (simp add: ledger_extends_def)

lemma ledger_extends_trans: "ledger_extends a b \<Longrightarrow> ledger_extends b c \<Longrightarrow> ledger_extends a c"
  by (auto simp: ledger_extends_def)

lemma posts_extends: "posts ev db db' \<Longrightarrow> ledger_extends db db'"
  by (auto simp: ledger_extends_def posts_budgets intro!: map_posted_rows)

lemma linked_post_extends: "linked_post rq c t a db db' \<Longrightarrow> ledger_extends db db'"
  by (auto simp: linked_post_def intro: posts_extends)

lemma answers_new_extends: "answers_new expected res db db' \<Longrightarrow> ledger_extends db db'"
  by (auto simp: answers_new_def intro: posts_extends)

lemma new_settlement_extends:
  assumes "new_settlement env rq state created db = (Inr res, db')"
  shows "ledger_extends db db'"
  by (rule new_settlement_Inr [OF assms])
    (auto simp: ledger_extends_def dest!: linked_post_extends)

lemma call_extends:
  assumes "call_budget env c db = (None, db')"
  shows "ledger_extends db db'"
proof (cases c)
  case (RecordEvent args)
  with assms obtain res where "record_budget_event env args db = (Inr res, db')" by (auto simp: outcome_iff)
  then show ?thesis by (rule record_budget_event_answers) (auto intro: answers_new_extends)
next
  case (RecordUsage args)
  with assms obtain res where "record_post_dispatch_event env args db = (Inr res, db')" by (auto simp: outcome_iff)
  then show ?thesis by (rule record_post_dispatch_event_answers) (auto intro: answers_new_extends)
next
  case (Settle args)
  with assms obtain res where "settle_budget_on_connection env False args db = (Inr res, db')"
    by (auto simp: outcome_iff dest: settle_budget_cases)
  then show ?thesis by (rule settle_on_connection_cases) (auto intro: new_settlement_extends)
qed

lemma net_reserved_effects: "net_reserved evs = sum_list (map (\<lambda>ev. reserved_effect (fst ev) (snd ev)) (map (\<lambda>e. (ev_type e, ev_amounts e)) evs))"
  by (simp add: net_reserved_def comp_def)

lemma net_consumed_effects: "net_consumed evs = sum_list (map (\<lambda>ev. consumed_effect (fst ev) (snd ev)) (map (\<lambda>e. (ev_type e, ev_amounts e)) evs))"
  by (simp add: net_consumed_def comp_def)

lemma account_bounds:
  assumes "run_all account_step (map (\<lambda>e. (ev_type e, ev_amounts e)) evs) (new_account budget) = Some acc" "0 \<le> budget"
  shows "held acc = net_reserved evs" "spent acc = net_consumed evs" "total acc = budget" "safe acc"
  using held_account.run_balance [OF assms(1)] spent_account.run_balance [OF assms(1)]
    total_account.run_balance [OF assms(1)] held_account.run_good [OF assms(1) safe_new_account [OF assms(2)]]
  by (simp_all add: net_reserved_effects net_consumed_effects new_account_def sum_list_const_mult comp_def)

lemma replays_row:
  assumes "replays_accounts db" "rb \<in> set (run_budgets db)"
  shows "0 \<le> rb_budget rb"
    "run_all account_step (map (\<lambda>e. (ev_type e, ev_amounts e)) (events_of (rb_run rb) db)) (new_account (rb_budget rb)) =
       Some (account_of rb)"
  using assms by (auto simp: replays_accounts_def list_all_iff account_events_def)

lemma events_of_bounds:
  assumes "replays_accounts db" "rb \<in> set (run_budgets db)"
  shows "rb_reserved rb = net_reserved (events_of (rb_run rb) db)"
    "rb_consumed rb = net_consumed (events_of (rb_run rb) db)"
    "0 \<le> rb_reserved rb \<and> 0 \<le> rb_consumed rb \<and> rb_reserved rb + rb_consumed rb \<le> rb_budget rb"
  using account_bounds [OF replays_row(2) [OF assms] replays_row(1) [OF assms]]
  by (auto simp: account_of_def safe_def)

lemma prefix_bounds:
  assumes "replays_accounts db" "rb \<in> set (run_budgets db)"
  shows "0 \<le> net_reserved (take n (events_of (rb_run rb) db)) \<and> 0 \<le> net_consumed (take n (events_of (rb_run rb) db)) \<and>
    net_reserved (take n (events_of (rb_run rb) db)) + net_consumed (take n (events_of (rb_run rb) db)) \<le> rb_budget rb"
proof -
  let ?f = "map (\<lambda>e. (ev_type e, ev_amounts e))" and ?evs = "events_of (rb_run rb) db"
  have "run_all account_step (?f (take n ?evs) @ ?f (drop n ?evs)) (new_account (rb_budget rb)) = Some (account_of rb)"
    using replays_row(2) [OF assms] by (simp flip: map_append)
  then obtain mid where mid: "run_all account_step (?f (take n ?evs)) (new_account (rb_budget rb)) = Some mid" "safe mid"
    using held_account.run_prefix_good safe_new_account [OF replays_row(1) [OF assms]] by blast
  show ?thesis using account_bounds [OF mid(1) replays_row(1) [OF assms]] mid(2) by (auto simp: safe_def)
qed

lemma call_simulates:
  assumes r: "replays_accounts db" and a: "budget_amounts (arg_amounts (call_args c)) = Inr a"
    and c: "call_budget env c db = (r, db')"
  shows "\<exists>evs. budget_events db' = budget_events db @ evs \<and>
    list_all2 (\<lambda>rb rb'. rb_run rb' = rb_run rb \<and>
      run_all account_step (map (\<lambda>e. (ev_type e, ev_amounts e)) (filter (\<lambda>e. ev_run e = rb_run rb) evs)) (account_of rb)
        = Some (account_of rb')) (run_budgets db) (run_budgets db')"
proof (cases r)
  case (Some e)
  then have "db' = db" using c failed_call_keeps_ledger by auto
  then show ?thesis by (auto simp: list_all2_conv_all_nth intro!: exI [of _ "[]"])
next
  case None
  with c have c': "call_budget env c db = (None, db')" by simp
  have r': "replays_accounts db'" by (rule call_replays [OF c' a r])
  from call_extends [OF c'] obtain evs where evs: "budget_events db' = budget_events db @ evs"
    and keys: "map (\<lambda>rb. (rb_run rb, rb_budget rb)) (run_budgets db') = map (\<lambda>rb. (rb_run rb, rb_budget rb)) (run_budgets db)"
    by (auto simp: ledger_extends_def)
  have len: "length (run_budgets db') = length (run_budgets db)" using keys by (metis length_map)
  have "rb_run (run_budgets db' ! i) = rb_run (run_budgets db ! i) \<and>
      run_all account_step (map (\<lambda>e. (ev_type e, ev_amounts e)) (filter (\<lambda>e. ev_run e = rb_run (run_budgets db ! i)) evs))
        (account_of (run_budgets db ! i)) = Some (account_of (run_budgets db' ! i))"
    if i: "i < length (run_budgets db)" for i
  proof -
    let ?rb = "run_budgets db ! i" and ?rb' = "run_budgets db' ! i"
    have k: "rb_run ?rb' = rb_run ?rb" "rb_budget ?rb' = rb_budget ?rb"
      using arg_cong [OF keys, of "\<lambda>xs. xs ! i"] i len by simp_all
    show ?thesis
      using replays_row(2) [OF r, of ?rb] replays_row(2) [OF r', of ?rb'] i len k evs
      by (auto simp: events_of_def run_all_append split: Option.bind_splits)
  qed
  then show ?thesis using evs len by (auto simp: list_all2_conv_all_nth)
qed

subsection \<open>Which exceptions a call raises\<close>

definition raises_only :: "(exn \<Rightarrow> bool) \<Rightarrow> 'a statement \<Rightarrow> bool" where
  "raises_only P m \<longleftrightarrow> (\<forall>db e db'. m db = (Inl e, db') \<longrightarrow> P e)"

text \<open>
  What a budget call lets escape: the exceptions of the calls that stand outside every \<^verbatim>\<open>try\<close> of the
  code, or that its \<^verbatim>\<open>except\<close> clauses do not name. In \<^verbatim>\<open>_connect\<close> these are resolving the
  path, the preflight apart from \<^verbatim>\<open>PrivacyPreflightError\<close>, the file's type and modes, and the pragmas;
  in the transaction they are loading the pinned migrations and, apart from migration and SQLite errors,
  the deep schema checks.
\<close>

definition preflight_lets_escape :: "git_env \<Rightarrow> exn \<Rightarrow> bool" where
  "preflight_lets_escape git e \<longleftrightarrow>
     (\<exists>p. env_resolve git p = Inl e) \<or> (\<exists>p. env_expand_resolve git p = Inl e) \<or> (\<exists>root. env_git_entry git root = Inl e) \<or>
     \<not> is_os_error e \<and> (env_ls_files git = Inl e \<or> (\<exists>paths. env_check_ignore git paths = Inl e))"

definition connect_lets_escape :: "budget_env \<Rightarrow> exn \<Rightarrow> bool" where
  "connect_lets_escape env e \<longleftrightarrow>
     db_path (be_file env) = Inl e \<or> be_root env = Inl e \<or> preflight_lets_escape (be_git env) e \<or>
     db_is_file (be_file env) = Inl e \<or> db_parent_mode (be_file env) = Inl e \<or> db_mode (be_file env) = Inl e \<or>
     (\<exists>connected suffix. db_sidecar (be_file env) connected suffix = Inl e) \<or>
     (\<exists>name failure. db_pragma (be_file env) name = Inl failure \<and> e = sql_exn failure)"

definition body_lets_escape :: "budget_env \<Rightarrow> exn \<Rightarrow> bool" where
  "body_lets_escape env e \<longleftrightarrow>
     be_migrations env = Inl e \<or>
     (\<exists>db. be_deep_checks env db = Inl e \<and> \<not> is_migration_error e \<and> \<not> is_sqlite_error e)"

definition inner_error :: "budget_env \<Rightarrow> exn \<Rightarrow> bool" where
  "inner_error env e \<longleftrightarrow> budget_error e \<or> is_sqlite_error e \<or> body_lets_escape env e"

lemma inner_simps [simp]: "inner_error env (sql_exn f)"
  by (cases f) (simp_all add: inner_error_def is_sqlite_error_def)

lemma error_simps [simp]:
  "budget_error (BudgetError m)" "budget_error (BudgetConflict m)" "budget_error (BudgetExceeded m)"
  "budget_error exceeds" "budget_error e \<Longrightarrow> inner_error env e"
  by (auto simp: budget_error_def inner_error_def exceeds_def)

lemma sqlite_sql_exn [simp]: "is_sqlite_error (sql_exn f)"
  by (cases f) (simp_all add: is_sqlite_error_def)

named_theorems raising \<open>which exceptions a statement raises\<close>

lemma raises_basic [raising]:
  "raises_only (inner_error env) (fetch eng l q)" "raises_only (inner_error env) (execute eng l w)"
  "raises_only (inner_error env) (readM g)" "raises_only (inner_error env) (returnM x)"
  "budget_error e \<Longrightarrow> raises_only (inner_error env) (checkM ok e)"
  "budget_error e \<Longrightarrow> raises_only (inner_error env) (raiseM e)"
  by (auto simp: raises_only_def fetch_Inl_iff execute_Inl_iff checkM_Inl_iff)

lemma raises_lift [raising]: "(\<And>e. v = Inl e \<Longrightarrow> budget_error e) \<Longrightarrow> raises_only (inner_error env) (liftM v)"
  by (auto simp: raises_only_def)

lemma raises_bind [raising]:
  "raises_only P m \<Longrightarrow> (\<And>x. raises_only P (f x)) \<Longrightarrow> raises_only P (bindM m f)"
  unfolding raises_only_def bindM_Inl_iff by blast

lemma raises_if [raising]: "raises_only P m \<Longrightarrow> raises_only P m' \<Longrightarrow> raises_only P (if c then m else m')"
  by simp

lemma raises_option [raising]:
  "raises_only P m \<Longrightarrow> (\<And>x. raises_only P (f x)) \<Longrightarrow> raises_only P (case v of None \<Rightarrow> m | Some x \<Rightarrow> f x)"
  by (cases v) simp_all

lemma raises_prod [raising]: "(\<And>x y. raises_only P (f x y)) \<Longrightarrow> raises_only P (case v of (x, y) \<Rightarrow> f x y)"
  by (cases v) simp

lemma raises_let [raising]: "raises_only P (f v) \<Longrightarrow> raises_only P (let x = v in f x)"
  by simp

lemma raises_for [raising]: "(\<And>x. raises_only (inner_error env) (f x)) \<Longrightarrow> raises_only (inner_error env) (forM f xs)"
  by (induction xs) (auto intro: raising)

lemma value_errors:
  "required_text l v = Inl e \<Longrightarrow> budget_error e" "created_at ms = Inl e \<Longrightarrow> budget_error e"
  "budget_amounts a = Inl e \<Longrightarrow> budget_error e" "required_cost s a = Inl e \<Longrightarrow> budget_error e"
  "checked_request ts us m args = Inl e \<Longrightarrow> budget_error e" "check_budget_event rq = Inl e \<Longrightarrow> budget_error e"
  "check_post_dispatch_event rq = Inl e \<Longrightarrow> budget_error e" "settlement_request args = Inl e \<Longrightarrow> budget_error e"
proof -
  show t: "required_text l v = Inl e \<Longrightarrow> budget_error e" for l v
    by (auto simp: required_text_def raise_simps split: option.splits if_splits)
  show c: "checked_request ts us m args = Inl e \<Longrightarrow> budget_error e" for ts us m args
    by (auto simp: checked_request_def raise_simps dest: t split: option.splits if_splits)
  show "settlement_request args = Inl e \<Longrightarrow> budget_error e" by (auto simp: settlement_request_def dest: c)
qed (auto simp: created_at_def budget_amounts_def required_cost_def rounded_up_def check_budget_event_def
      check_post_dispatch_event_def Let_def raise_simps split: if_splits)

lemma git_outputs_error:
  assumes "git_outputs git paths = Inl e"
  shows "(\<exists>m. e = PrivacyPreflightError m) \<or> preflight_lets_escape git e"
proof -
  from assms obtain e' where e': "env_ls_files git = Inl e' \<or> env_check_ignore git paths = Inl e'" "e = git_not_executed e'"
    by (auto simp: git_outputs_def mapErr_Inl_iff bindE_Inl_iff)
  show ?thesis
  proof (cases "is_os_error e'")
    case False
    then have "e = e'" using e'(2) by (simp add: git_not_executed_def)
    then show ?thesis using e'(1) False unfolding preflight_lets_escape_def by blast
  qed (use e'(2) in \<open>simp add: git_not_executed_def\<close>)
qed

lemma relative_to_error: "relative_to parts root = Inl e \<Longrightarrow> \<exists>m. e = PrivacyPreflightError m"
  by (auto simp: relative_to_def split: if_splits)

lemma preflight_error:
  assumes "assert_privacy_preflight git root dbs = Inl e"
  shows "(\<exists>m. e = PrivacyPreflightError m) \<or> preflight_lets_escape git e"
proof -
  have rel: "(\<exists>m. e' = PrivacyPreflightError m) \<or> preflight_lets_escape git e'" if "repo_relative_paths git r ps = Inl e'" for r ps e'
    using that by (auto simp: repo_relative_paths_def preflight_lets_escape_def raise_simps dest!: mapE_error relative_to_error)
  have env: "env_resolve git p = Inl e' \<Longrightarrow> preflight_lets_escape git e'" "env_git_entry git r = Inl e' \<Longrightarrow> preflight_lets_escape git e'" for p r e'
    unfolding preflight_lets_escape_def by blast+
  show ?thesis
    using assms
    by (auto simp: assert_privacy_preflight_def Let_def raise_simps dest: env dest!: rel git_outputs_error split: if_splits prod.splits)
qed

definition fails_only :: "(exn \<Rightarrow> bool) \<Rightarrow> exn + 'a \<Rightarrow> bool" where
  "fails_only P v \<longleftrightarrow> (\<forall>e. v = Inl e \<longrightarrow> P e)"

lemma fails_only_rules:
  "fails_only P v \<Longrightarrow> (\<And>x. fails_only P (f x)) \<Longrightarrow> fails_only P (bindE v f)"
  "fails_only P v \<Longrightarrow> fails_only P v' \<Longrightarrow> fails_only P (if c then v else v')"
  "P e \<Longrightarrow> fails_only P (Inl e)" "fails_only P (Inr x)"
  by (auto simp: fails_only_def bindE_Inl_iff)

lemma connect_error:
  assumes "connect env = Inl e"
  shows "budget_error e \<or> connect_lets_escape env e"
proof -
  let ?P = "\<lambda>e. budget_error e \<or> connect_lets_escape env e" and ?f = "be_file env"
  have p: "fails_only ?P (pragma ?f name)" for name
    by (auto simp: fails_only_def pragma_def connect_lets_escape_def split: sum.splits)
  have m: "fails_only ?P (check_sidecar ?f b x)" for b x
    by (auto simp: fails_only_def check_sidecar_def connect_lets_escape_def bindE_Inl_iff split: if_splits)
  have "fails_only ?P (mapE (check_sidecar ?f b) xs)" for b xs
    using m by (auto simp: fails_only_def dest!: mapE_error)
  then have s: "fails_only ?P (check_sidecars ?f b)" for b
    by (auto simp: check_sidecars_def fails_only_def bindE_Inl_iff)
  have v: "fails_only ?P (db_path ?f)" "fails_only ?P (db_is_file ?f)" "fails_only ?P (db_parent_mode ?f)"
      "fails_only ?P (db_mode ?f)"
    by (auto simp: fails_only_def connect_lets_escape_def)
  have pre: "fails_only ?P (mapErr privacy_failed (bindE (be_root env) (\<lambda>root.
      assert_privacy_preflight (be_git env) root [path])))" for path
  proof -
    have "?P (privacy_failed e)" if "be_root env = Inl e" for e
      using that by (auto simp: privacy_failed_def connect_lets_escape_def split: exn.splits)
    moreover have "?P (privacy_failed e)" if "assert_privacy_preflight (be_git env) root [path] = Inl e" for e root
      using preflight_error [OF that] by (auto simp: privacy_failed_def connect_lets_escape_def split: exn.splits)
    ultimately show ?thesis by (auto simp: fails_only_def mapErr_Inl_iff bindE_Inl_iff)
  qed
  have "fails_only ?P (connect env)"
    unfolding connect_def Let_def by (intro fails_only_rules p s v pre disjI1 error_simps)
  then show ?thesis using assms by (simp add: fails_only_def)
qed

lemma raises_catch:
  "raises_only Q m \<Longrightarrow> (\<And>e. Q e \<Longrightarrow> P (f e)) \<Longrightarrow> raises_only P (catchM m (\<lambda>e. raiseM (f e)))"
  by (auto simp: raises_only_def catchM_raise_Inl_iff)

lemma fetch_raises_sqlite: "raises_only is_sqlite_error (fetch eng l q)"
  by (auto simp: raises_only_def fetch_Inl_iff)

lemma raises_verify [raising]: "raises_only (inner_error env) (verify_schema_identity env)"
proof -
  have c: "raises_only (inner_error env) (catchM (fetch (be_engine env) l q) (\<lambda>e. raiseM (not_migrated e)))" for l and q :: "ledger \<Rightarrow> 'b"
    by (rule raises_catch [OF fetch_raises_sqlite]) (simp add: not_migrated_def)
  have m: "raises_only (inner_error env) (liftM (be_migrations env))"
    by (auto simp: raises_only_def inner_error_def body_lets_escape_def)
  have d: "raises_only (inner_error env) (bindM (readM (be_deep_checks env)) (\<lambda>checks. liftM (mapErr schema_check_failed checks)))"
    by (auto simp: raises_only_def bindM_Inl_iff mapErr_Inl_iff schema_check_failed_def inner_error_def body_lets_escape_def)
  show ?thesis
    unfolding verify_schema_identity_def by (intro raises_bind c m d raises_basic error_simps)
qed

lemma raises_queries [raising]:
  "raises_only (inner_error env) (trusted_created_at env run tr clk)" "raises_only (inner_error env) (check_selection env run tr al sel)"
  "raises_only (inner_error env) (assert_budget_invariants env)" "raises_only (inner_error env) (zero_policy_hash env p sel)"
  "raises_only (inner_error env) (existing_event env key ev)" "raises_only (inner_error env) (reject_settlement_dedupe_collision env h)"
  "raises_only (inner_error env) (reject_event_dedupe_collision env h)"
  "raises_only (inner_error env) (reject_event_after_final_settlement env run tr spawn)"
  unfolding trusted_created_at_def check_selection_def selected_binding_def assert_budget_invariants_def run_contract_def
    zero_policy_hash_def existing_event_def reject_settlement_dedupe_collision_def reject_event_dedupe_collision_def
    reject_event_after_final_settlement_def
  by (intro raising error_simps; erule value_errors)+

lemma raises_outstanding [raising]: "raises_only (inner_error env) (spawn_outstanding env spawn run tr sel)"
  unfolding spawn_outstanding_def by (intro raising error_simps) (auto simp: mapErr_Inl_iff invalid_outstanding_def)

lemma raises_writes [raising]:
  "raises_only (inner_error env) (insert_event env ev)" "raises_only (inner_error env) (update_counters env t run a u s)"
  "raises_only (inner_error env) (update_post_dispatch_counters env t run a u s)"
  unfolding insert_event_def update_counters_def update_post_dispatch_counters_def update_budget_rows_def
  by (intro raising error_simps)+

lemma raises_checks [raising]:
  "raises_only (inner_error env) (check_release env rq)" "raises_only (inner_error env) (check_usage env rq)"
  unfolding check_release_def check_usage_def by (intro raising error_simps; erule value_errors)+

lemma raises_values [raising]:
  "raises_only (inner_error env) (liftM (required_cost s a))" "raises_only (inner_error env) (liftM (budget_amounts a))"
  by (intro raising; erule value_errors)+

lemma raises_bodies: "raises_only (inner_error env) (budget_event_body env rq)" "raises_only (inner_error env) (usage_event_body env rq)"
    "raises_only (inner_error env) (settle_budget_on_connection env v args)"
proof -
  have l: "raises_only (inner_error env) (insert_linked_event env rq c t a z)" for rq c t a z
    unfolding insert_linked_event_def by (intro raising error_simps)
  have s: "raises_only (inner_error env) (settlement_proof env b r)" for b r
    unfolding settlement_proof_def by (intro raising error_simps)
  have n: "raises_only (inner_error env) (new_settlement env r st c)" for r st c
    unfolding new_settlement_def by (intro l raising error_simps)
  have r: "raises_only (inner_error env) (settlement_replay env r c row)" for r c row
    unfolding settlement_replay_def by (intro raising error_simps)
  show "raises_only (inner_error env) (settle_budget_on_connection env v args)"
    unfolding settle_budget_on_connection_def by (intro s n r raising error_simps; erule value_errors)
  show "raises_only (inner_error env) (budget_event_body env rq)"
    unfolding budget_event_body_def budget_event_proof_def new_budget_event_def by (intro raising error_simps)
  show "raises_only (inner_error env) (usage_event_body env rq)"
    unfolding usage_event_body_def usage_proof_def new_usage_event_def by (intro raising error_simps)
qed

lemma ledger_error_inner: "inner_error env e \<Longrightarrow> budget_error (ledger_error e) \<or> body_lets_escape env (ledger_error e)"
  by (auto simp: inner_error_def budget_error_def is_sqlite_error_def ledger_error_def split: exn.splits)

definition call_lets_escape :: "budget_env \<Rightarrow> exn \<Rightarrow> bool" where
  "call_lets_escape env e \<longleftrightarrow> connect_lets_escape env e \<or> body_lets_escape env e"

lemma transaction_errors:
  assumes "raises_only (inner_error env) body" "ledger_transaction env body db = (Inl e, db')"
  shows "budget_error e \<or> call_lets_escape env e"
proof -
  from assms(2) consider "connect env = Inl e"
    | e' where "transaction (be_engine env) body db = (Inl e', db')" "e = ledger_error e'"
    by (auto simp: ledger_transaction_def bindM_Inl_iff catchM_raise_Inl_iff)
  then show ?thesis
  proof cases
    case 1
    then show ?thesis using connect_error unfolding call_lets_escape_def by blast
  next
    case 2
    then have "inner_error env e'" using transaction_raises [OF 2(1)] assms(1) by (auto simp: raises_only_def)
    then show ?thesis using 2(2) ledger_error_inner unfolding call_lets_escape_def by blast
  qed
qed

lemma call_errors:
  assumes "call_budget env c db = (Some e, db')"
  shows "budget_error e \<or> call_lets_escape env e"
  using assms
  by (cases c) (auto simp: outcome_iff record_budget_event_def record_post_dispatch_event_def settle_budget_def
    bindM_Inl_iff bindE_Inl_iff dest: value_errors transaction_errors [OF raises_bodies(1)]
    transaction_errors [OF raises_bodies(2)] transaction_errors [OF raises_bodies(3)])

subsection \<open>Outstanding amounts after an operation\<close>

definition outstanding_of :: "event_request \<Rightarrow> ledger \<Rightarrow> amounts" where
  "outstanding_of rq db = net_reserved (spawn_events (rq_spawn rq) (rq_run rq) (rq_transition rq) (rq_selection rq) db)"

definition used_by :: "event_request \<Rightarrow> ledger \<Rightarrow> amounts" where
  "used_by rq db = net_consumed (spawn_events (rq_spawn rq) (rq_run rq) (rq_transition rq) (rq_selection rq) db)"

lemma posts_outstanding:
  assumes "posts ev db db'" "ev_spawn ev = Some (rq_spawn rq)" "ev_run ev = rq_run rq" "ev_transition ev = rq_transition rq"
    "ev_binding ev = map_binding Some (sel_binding (rq_selection rq))"
  shows "outstanding_of rq db' = outstanding_of rq db + reserved_effect (ev_type ev) (ev_amounts ev)"
    "used_by rq db' = used_by rq db + consumed_effect (ev_type ev) (ev_amounts ev)"
  using assms posts_budgets(2) [OF assms(1)]
  by (auto simp: outstanding_of_def used_by_def spawn_events_def net_reserved_def net_consumed_def binding.map_sel)

lemma answers_new_outstanding:
  assumes "answers_new (event_of rq h c k) res db db'"
  shows "outstanding_of rq db' = outstanding_of rq db + reserved_effect (rq_type rq) (rq_amounts rq)"
    "used_by rq db' = used_by rq db + consumed_effect (rq_type rq) (rq_amounts rq)"
  using assms posts_outstanding [of _ db db' rq] by (fastforce simp: answers_new_def)+

lemma linked_outstanding:
  assumes "linked_post rq c t a db db'"
  shows "outstanding_of rq db' = outstanding_of rq db + reserved_effect t a"
    "used_by rq db' = used_by rq db + consumed_effect t a"
  using assms posts_outstanding [of _ db db' rq] by (cases t; fastforce simp: linked_post_def)+

lemma outstanding_settlements [simp]:
  "outstanding_of rq (db\<lparr>budget_settlements := s\<rparr>) = outstanding_of rq db"
  "used_by rq (db\<lparr>budget_settlements := s\<rparr>) = used_by rq db"
  by (simp_all add: outstanding_of_def used_by_def spawn_events_def)

lemma only_only [simp]:
  "only_usage (only_usage a) = only_usage a" "only_retry (only_retry a) = only_retry a" "only_human (only_human a) = only_human a"
  by (simp_all add: only_usage_def only_retry_def only_human_def)

lemma new_settlement_empties:
  assumes "new_settlement env rq state created db = (Inr res, db')"
  shows "outstanding_of rq db' = 0 \<and> used_by rq db' = used_by rq db + rq_amounts rq \<and>
    rq_amounts rq + sres_released res = outstanding_of rq db \<and> 0 \<le> sres_released res"
proof (rule new_settlement_Inr [OF assms])
  fix out released db1 db2 db3
  assume o: "out = net_reserved (spawn_events (rq_spawn rq) (rq_run rq) (rq_transition rq) (rq_selection rq) db)"
    "released = out - rq_amounts rq" "0 \<le> released" "sres_released res = released"
    and l1: "linked_post rq created Consume (only_usage (rq_amounts rq))
       (db\<lparr>budget_settlements := budget_settlements db @ [settlement_of rq created released]\<rparr>) db1"
    and l2: "linked_post rq created RetryDecrement (only_retry (rq_amounts rq)) db1 db2"
    and l3: "linked_post rq created HumanAttention (only_human (rq_amounts rq)) db2 db3"
    and l4: "linked_post rq created Release released db3 db'"
  have parts: "only_usage (rq_amounts rq) + only_retry (rq_amounts rq) + only_human (rq_amounts rq) = rq_amounts rq"
    by (rule only_parts)
  let ?u = "only_usage (rq_amounts rq)" and ?r = "only_retry (rq_amounts rq)" and ?h = "only_human (rq_amounts rq)"
  have o1: "outstanding_of rq db = out" using o(1) by (simp add: outstanding_of_def)
  have "outstanding_of rq db1 = out - ?u" "used_by rq db1 = used_by rq db + ?u"
    using linked_outstanding [OF l1] o1 by simp_all
  then have "outstanding_of rq db2 = out - ?u - ?r" "used_by rq db2 = used_by rq db + ?u + ?r"
    using linked_outstanding [OF l2] by simp_all
  then have "outstanding_of rq db3 = out - ?u - ?r - ?h" "used_by rq db3 = used_by rq db + ?u + ?r + ?h"
    using linked_outstanding [OF l3] by simp_all
  then have "outstanding_of rq db' = out - ?u - ?r - ?h - released" "used_by rq db' = used_by rq db + ?u + ?r + ?h"
    using linked_outstanding [OF l4] by simp_all
  moreover have "out - ?u - ?r - ?h = released"
    unfolding diff_diff_eq parts o(2) by (rule refl)
  ultimately show ?thesis using parts o(2-4) o1 by (simp add: add.assoc)
qed

subsection \<open>Calls on closed ledgers\<close>

lemma checked_request_texts:
  assumes "checked_request ts us m args = Inr rq"
  shows "map_option strip (arg_run args) = Some (rq_run rq)"
    "map_option strip (arg_transition args) = Some (rq_transition rq)"
    "map_option strip (arg_spawn args) = Some (rq_spawn rq)"
    "map_option strip (arg_key args) = Some (rq_key rq)"
  using assms by (auto simp: checked_request_def required_text_def err_simps split: option.splits if_splits)

lemma check_post_dispatch_same: "check_post_dispatch_event rq = Inr rq' \<Longrightarrow> rq' = rq"
  by (auto simp: check_post_dispatch_event_def Let_def split: if_splits)

lemma replay_result: "answers_replay expected key res db \<Longrightarrow> res_replayed res"
  by (auto simp: answers_replay_def)

lemma checked_request_policy: "checked_request ts us m args = Inr rq \<Longrightarrow> rq_policy rq = arg_policy args"
  by (auto simp: checked_request_def err_simps split: option.splits if_splits)

definition policy_matches :: "string \<Rightarrow> budget_selection \<Rightarrow> policy_row \<Rightarrow> bool" where
  "policy_matches p selection z \<longleftrightarrow> pol_id z = p \<and>
     pol_endpoint z = endpoint_binding_id (sel_binding selection) \<and>
     pol_capability z = capability_class (sel_binding selection)"

lemma zero_policy_found:
  assumes "zero_policy_hash env policy selection db = (Inr h, db')"
  shows "case policy of None \<Rightarrow> True | Some p \<Rightarrow> list_ex (policy_matches (strip p) selection) (zero_policies db)"
proof (cases policy)
  case (Some p)
  then obtain z where "first (filter (policy_matches (strip p) selection) (zero_policies db)) = Some z"
    using assms by (auto simp: zero_policy_hash_def required_text_def policy_matches_def [abs_def] take_apart err_simps split: option.splits if_splits)
  from first_SomeD [OF this] show ?thesis using Some by (auto simp: list_ex_iff)
qed simp

lemma frozen_usage:
  assumes c: "record_post_dispatch_event env args db = (Inr res, db')"
    and t: "map_option strip (arg_run args) = Some run" "map_option strip (arg_transition args) = Some tr"
      "map_option strip (arg_spawn args) = Some spawn"
    and f: "poisoned run db \<or> settled run tr spawn db"
  shows "res_replayed res \<and> db' = db"
proof (rule record_post_dispatch_event_cases [OF c])
  fix rq expected state
  assume rq: "bindE (checked_request {Consume, RetryDecrement, RetryRestore, HumanAttention}
       {Known, Estimated, Unknown} ''invalid post-dispatch usage confidence'' args) check_post_dispatch_event = Inr rq"
    and p: "usage_proof env rq db = (Inr (expected, state), db)"
    and n: "answers_replay expected (rq_key rq) res db \<and> db' = db \<or>
     new_usage_event env rq expected state db = (Inr res, db') \<and>
     list_all (\<lambda>ev. ev_key ev \<noteq> rq_key rq) (budget_events db)"
  obtain c where ex: "expected = event_of rq None c (Some (rq_clock rq))" using usage_proof_Inr [OF p] by metis
  have k: "checked_request {Consume, RetryDecrement, RetryRestore, HumanAttention}
       {Known, Estimated, Unknown} ''invalid post-dispatch usage confidence'' args = Inr rq"
    using rq by (auto simp: bindE_Inr_iff dest!: check_post_dispatch_same)
  have id: "rq_run rq = run" "rq_transition rq = tr" "rq_spawn rq = spawn"
    using checked_request_texts [OF k] t by auto
  have ty: "rq_type rq \<notin> {Reserve, Release}" using checked_request_Inr(1) [OF k] by auto
  have "\<not> (new_usage_event env rq expected state db = (Inr res, db') \<and>
     list_all (\<lambda>ev. ev_key ev \<noteq> rq_key rq) (budget_events db))"
    using new_usage_event_Inr(2,3) [OF _ ty ex] f id by blast
  then show ?thesis using n replay_result by blast
qed

lemma frozen_settlement:
  assumes c: "settle_budget env args db = (Inr res, db')"
    and t: "map_option strip (arg_run args) = Some run" and f: "poisoned run db"
  shows "sres_replayed res \<and> db' = db"
proof (rule settle_on_connection_cases [OF conjunct2 [OF settle_budget_cases [OF c]]])
  fix rq state created
  assume rq: "settlement_request args = Inr rq"
    and n: "settlement_answers_replay rq created res db \<and> db' = db \<or>
     new_settlement env rq state created db = (Inr res, db') \<and>
     list_all (\<lambda>s. set_key s \<noteq> rq_key rq) (budget_settlements db)"
  have "rq_run rq = run" using rq t checked_request_texts(1) by (fastforce simp: settlement_request_def)
  then have "\<not> new_settlement env rq state created db = (Inr res, db')"
    using f new_settlement_Inr [of env rq state created db res db'] by blast
  then show ?thesis using n by (auto simp: settlement_answers_replay_def)
qed

text \<open>
  Reservations and releases carry no check of their own for a settlement or for unknown usage. They
  are stopped by the \<^verbatim>\<open>sessions_spawn\<close> intent that a settlement has proved, and by the selection and the
  invariants: one budget row per run is the primary key of the table.
\<close>

definition settlements_proved :: "ledger \<Rightarrow> bool" where
  "settlements_proved db \<longleftrightarrow>
     list_all (\<lambda>s. has_spawn_intent (set_spawn s) (set_run s) (set_transition s) db) (budget_settlements db)"

definition replays_only :: "('a \<Rightarrow> bool) \<Rightarrow> 'a statement \<Rightarrow> ledger \<Rightarrow> bool" where
  "replays_only replayed m db \<longleftrightarrow>
     snd (m db) = db \<and> (case fst (m db) of Inl e \<Rightarrow> True | Inr res \<Rightarrow> replayed res)"

lemma replays_onlyI:
  assumes "\<And>e db'. m db = (Inl e, db') \<Longrightarrow> db' = db" "\<And>res db'. m db = (Inr res, db') \<Longrightarrow> replayed res \<and> db' = db"
  shows "replays_only replayed m db"
  using assms by (cases "m db"; cases "fst (m db)") (auto simp: replays_only_def)

lemma settled_has_intent: "settlements_proved db \<Longrightarrow> settled run tr spawn db \<Longrightarrow> has_spawn_intent spawn run tr db"
  by (auto simp: settlements_proved_def settled_def list_all_iff list_ex_iff)

lemma posts_tables:
  assumes "posts ev db db'"
  shows "runs db' = runs db" "rpc_intents db' = rpc_intents db" "budget_settlements db' = budget_settlements db"
  using assms by (auto simp: posts_def)

lemma linked_post_tables:
  assumes "linked_post rq c t a db db'"
  shows "rpc_intents db' = rpc_intents db" "budget_settlements db' = budget_settlements db"
  using assms by (auto simp: linked_post_def posts_tables)

lemma unknown_event_violates:
  assumes "ev \<in> set (budget_events db)" "ev_usage ev = Unknown" "r \<in> set (runs db)" "run_run r = ev_run ev"
    "rb \<in> set (run_budgets db)" "rb_run rb = ev_run ev" "rb_usage rb \<noteq> Unknown"
  shows "unknown_usage_violation db"
proof -
  have "Some rb \<in> set (left_join (\<lambda>rb. rb_run rb = ev_run ev) (run_budgets db))"
    using assms(5,6) by (auto simp: left_join_def filter_empty_conv)
  then show ?thesis
    using assms unfolding unknown_usage_violation_def list_ex_iff
    by (intro bexI [of _ ev] conjI bexI [of _ r] bexI [of _ "Some rb"] disjI1) auto
qed

lemma posted_usage_known: "rb_usage rb \<noteq> Unknown \<Longrightarrow> ev_type ev \<noteq> Consume \<Longrightarrow> rb_usage (posted_row ev rb) \<noteq> Unknown"
  by (cases "rb_usage rb"; cases "ev_usage ev"; cases "ev_type ev") (auto simp: posted_row_def posted_usage_def)

lemma selected_row:
  assumes "check_selection env run tr False sel db = (Inr (), db)"
  shows "\<exists>rb\<in>set (run_budgets db). rb_run rb = run \<and> rb_usage rb \<noteq> Unknown"
proof -
  obtain s where "first (bound_rows run tr False db) = Some s"
    using assms by (auto simp: check_selection_def selected_binding_def take_apart split: option.splits)
  then show ?thesis using first_SomeD by (fastforce simp: bound_rows_def)
qed

lemma poisoned_refuses_event:
  assumes d: "distinct (map rb_run (run_budgets db))" and p: "poisoned run db"
    and s: "check_selection env run tr False sel db = (Inr (), db)" and r: "r \<in> set (runs db)" "run_run r = run"
    and n: "answers_new expected res db db'" "ev_type expected \<noteq> Consume"
    and i: "assert_budget_invariants env db' = (Inr (), db')"
  shows False
proof -
  from selected_row [OF s] obtain rb where rb: "rb \<in> set (run_budgets db)" "rb_run rb = run" "rb_usage rb \<noteq> Unknown" by blast
  have "rb' = rb" if "rb' \<in> set (run_budgets db)" "rb_run rb' = run" for rb'
    using inj_onD [of rb_run "set (run_budgets db)" rb' rb] d rb(1,2) that by (simp add: distinct_map)
  then have "\<not> list_ex (\<lambda>rb. rb_run rb = run \<and> rb_usage rb = Unknown) (run_budgets db)"
    using rb(3) unfolding list_ex_iff by blast
  then obtain ev where ev: "ev \<in> set (budget_events db)" "ev_run ev = run" "ev_usage ev = Unknown"
    using p by (auto simp: poisoned_def list_ex_iff)
  from n obtain e where e: "posts e db db'" "ev_type e \<noteq> Consume" by (auto simp: answers_new_def)
  let ?rb = "if allowing e rb then posted_row e rb else rb"
  have "?rb \<in> set (run_budgets db')" using rb(1) posts_budgets(1) [OF e(1)] by simp
  then have "unknown_usage_violation db'"
    using ev r rb posted_usage_known [OF rb(3) e(2)] posts_budgets(2) [OF e(1)] posts_tables [OF e(1)]
    by (intro unknown_event_violates [of ev db' r ?rb]) auto
  then show False using i by (auto simp: assert_budget_invariants_def take_apart)
qed

lemma frozen_event:
  assumes c: "record_budget_event env args db = (Inr res, db')"
    and t: "map_option strip (arg_run args) = Some run" "map_option strip (arg_transition args) = Some tr"
      "map_option strip (arg_spawn args) = Some spawn"
    and f: "poisoned run db \<and> distinct (map rb_run (run_budgets db)) \<or> settled run tr spawn db \<and> settlements_proved db"
  shows "res_replayed res \<and> db' = db"
proof (rule record_budget_event_cases [OF c])
  fix rq expected states
  assume rq: "bindE (checked_request {Reserve, Release} {Known, Estimated}
      ''unknown usage confidence blocks budget mutation'' args) check_budget_event = Inr rq"
    and p: "budget_event_proof env rq db = (Inr (expected, states), db)"
    and n: "answers_replay expected (rq_key rq) res db \<and> db' = db \<or>
     new_budget_event env rq expected states db = (Inr res, db') \<and>
     list_all (\<lambda>ev. ev_key ev \<noteq> rq_key rq) (budget_events db)"
  from budget_event_proof_Inr [OF p] obtain h k where ex: "expected = event_of rq h k None"
    and sel: "check_selection env (rq_run rq) (rq_transition rq) False (rq_selection rq) db = (Inr (), db)"
    and st: "first (spawn_states (rq_spawn rq) (rq_run rq) (rq_transition rq) db) = Some states"
    by metis
  have k: "checked_request {Reserve, Release} {Known, Estimated}
      ''unknown usage confidence blocks budget mutation'' args = Inr rq"
    using rq by (auto simp: bindE_Inr_iff check_budget_event_Inr)
  have id: "rq_run rq = run" "rq_transition rq = tr" "rq_spawn rq = spawn"
    using checked_request_texts [OF k] t by auto
  have ty: "rq_type rq \<in> {Reserve, Release}" using checked_request_Inr(1) [OF k] by auto
  have "\<not> (new_budget_event env rq expected states db = (Inr res, db') \<and>
     list_all (\<lambda>ev. ev_key ev \<noteq> rq_key rq) (budget_events db))"
  proof
    assume new: "new_budget_event env rq expected states db = (Inr res, db') \<and>
       list_all (\<lambda>ev. ev_key ev \<noteq> rq_key rq) (budget_events db)"
    note facts = new_budget_event_Inr [OF conjunct1 [OF new] ty ex conjunct2 [OF new]]
    from st obtain r where r: "r \<in> set (runs db)" "run_run r = run"
      using first_SomeD id by (fastforce simp: spawn_states_def)
    have "ev_type expected \<noteq> Consume" using ty ex by (auto simp: event_of_def)
    then show False
      using f facts(4) id settled_has_intent poisoned_refuses_event [OF _ _ sel [unfolded id] r facts(1) _ facts(6)] by blast
  qed
  then show ?thesis using n replay_result by blast
qed

text \<open>The schema's \<^verbatim>\<open>UNIQUE(run_id, transition_id, spawn_request_id)\<close> of the settlements.\<close>

definition one_settlement_per_spawn :: "engine \<Rightarrow> bool" where
  "one_settlement_per_spawn eng \<longleftrightarrow>
     (\<forall>db s. settled (set_run s) (set_transition s) (set_spawn s) db \<longrightarrow>
        eng ''insert settlement'' db (db\<lparr>budget_settlements := budget_settlements db @ [s]\<rparr>) \<noteq> None)"

lemma new_settlement_inserted:
  assumes "new_settlement env rq state created db = (Inr res, db')"
  shows "\<exists>released. be_engine env ''insert settlement'' db
    (db\<lparr>budget_settlements := budget_settlements db @ [settlement_of rq created released]\<rparr>) = None"
  using assms by (auto simp: new_settlement_def take_apart spawn_outstanding_Inr execute_Inr_iff)

lemma second_settlement:
  assumes c: "settle_budget env args db = (Inr res, db')"
    and t: "map_option strip (arg_run args) = Some run" "map_option strip (arg_transition args) = Some tr"
      "map_option strip (arg_spawn args) = Some spawn"
    and f: "settled run tr spawn db" "one_settlement_per_spawn (be_engine env)"
  shows "sres_replayed res \<and> db' = db"
proof (rule settle_on_connection_cases [OF conjunct2 [OF settle_budget_cases [OF c]]])
  fix rq state created
  assume rq: "settlement_request args = Inr rq"
    and n: "settlement_answers_replay rq created res db \<and> db' = db \<or>
     new_settlement env rq state created db = (Inr res, db') \<and>
     list_all (\<lambda>s. set_key s \<noteq> rq_key rq) (budget_settlements db)"
  note k = rq [unfolded settlement_request_def]
  have "rq_run rq = run" "rq_transition rq = tr" "rq_spawn rq = spawn"
    using checked_request_texts [OF k] t by auto
  then have again: "settled (set_run (settlement_of rq created released)) (set_transition (settlement_of rq created released))
      (set_spawn (settlement_of rq created released)) db" for released
    using f(1) by (simp add: settlement_of_def)
  have "be_engine env ''insert settlement'' db
      (db\<lparr>budget_settlements := budget_settlements db @ [settlement_of rq created released]\<rparr>) \<noteq> None" for released
    using f(2) again [of released] unfolding one_settlement_per_spawn_def by simp
  then have "\<not> new_settlement env rq state created db = (Inr res, db')"
    using new_settlement_inserted [of env rq state created db res db'] by blast
  then show ?thesis using n by (auto simp: settlement_answers_replay_def)
qed

lemma new_settlement_tables:
  assumes "new_settlement env rq state created db = (Inr res, db')"
  shows "rpc_intents db' = rpc_intents db \<and>
    (\<exists>released. budget_settlements db' = budget_settlements db @ [settlement_of rq created released])"
proof (rule new_settlement_Inr [OF assms])
  fix out released db1 db2 db3
  assume "linked_post rq created Consume (only_usage (rq_amounts rq))
       (db\<lparr>budget_settlements := budget_settlements db @ [settlement_of rq created released]\<rparr>) db1"
    "linked_post rq created RetryDecrement (only_retry (rq_amounts rq)) db1 db2"
    "linked_post rq created HumanAttention (only_human (rq_amounts rq)) db2 db3"
    "linked_post rq created Release released db3 db'"
  from linked_post_tables [OF this(1)] linked_post_tables [OF this(2)] linked_post_tables [OF this(3)]
    linked_post_tables [OF this(4)] show ?thesis by (intro conjI exI [of _ released]) simp_all
qed

lemma settlement_proof_intent:
  assumes "settlement_proof env v rq db = (Inr x, db')"
  shows "has_spawn_intent (rq_spawn rq) (rq_run rq) (rq_transition rq) db"
proof -
  obtain p where "first (session_proofs (rq_spawn rq) (rq_run rq) (rq_transition rq) finished db) = Some p"
    using assms by (cases v) (auto simp: settlement_proof_def take_apart split: option.splits)
  then show ?thesis using first_SomeD
    by (fastforce simp: session_proofs_def intent_proves_def has_spawn_intent_def list_ex_iff)
qed

text \<open>Every budget call keeps \<open>settlements_proved\<close>.\<close>

lemma settlements_proved_kept:
  assumes "call_budget env c db = (r, db')" "settlements_proved db"
  shows "settlements_proved db'"
proof (cases r)
  case (Some e)
  then show ?thesis using failed_call_keeps_ledger assms by metis
next
  case None
  have keep: "settlements_proved d'" if "posts ev db d'" for ev d'
    using assms(2) posts_tables [OF that] by (simp add: settlements_proved_def has_spawn_intent_def)
  show ?thesis
  proof (cases c)
    case (RecordEvent args)
    with None assms(1) obtain res where "record_budget_event env args db = (Inr res, db')" by (auto simp: outcome_iff)
    then show ?thesis by (rule record_budget_event_answers) (use assms(2) keep in \<open>auto simp: answers_new_def\<close>)
  next
    case (RecordUsage args)
    with None assms(1) obtain res where "record_post_dispatch_event env args db = (Inr res, db')" by (auto simp: outcome_iff)
    then show ?thesis by (rule record_post_dispatch_event_answers) (use assms(2) keep in \<open>auto simp: answers_new_def\<close>)
  next
    case (Settle args)
    with None assms(1) obtain res where "settle_budget_on_connection env False args db = (Inr res, db')"
      by (auto simp: outcome_iff dest: settle_budget_cases)
    then show ?thesis
    proof (rule settle_on_connection_cases)
      fix rq state created
      assume p: "settlement_proof env False rq db = (Inr (state, created), db)"
        and n: "settlement_answers_replay rq created res db \<and> db' = db \<or>
          new_settlement env rq state created db = (Inr res, db') \<and>
          list_all (\<lambda>s. set_key s \<noteq> rq_key rq) (budget_settlements db)"
      show ?thesis
      proof (cases "db' = db")
        case False
        then have "new_settlement env rq state created db = (Inr res, db')" using n by blast
        from new_settlement_tables [OF this] show ?thesis
          using assms(2) settlement_proof_intent [OF p]
          by (auto simp: settlements_proved_def has_spawn_intent_def settlement_of_def)
      qed (use assms(2) in simp)
    qed
  qed
qed

subsection \<open>What a new event has been checked for\<close>

lemma check_release_funds:
  assumes "check_release env rq db = (Inr (), db)"
  shows "rq_amounts rq \<le> outstanding_of rq db \<and>
    (\<exists>n. required_cost (rq_selection rq) (outstanding_of rq db - rq_amounts rq) = Inr n \<and>
       n \<le> cost_microusd (outstanding_of rq db - rq_amounts rq))"
  using assms by (auto simp: check_release_def take_apart spawn_outstanding_Inr budget_amounts_Inr_iff outstanding_of_def)

lemma check_usage_funds:
  assumes "check_usage env rq db = (Inr (), db)" "rq_type rq = Consume" "only_usage (rq_amounts rq) = rq_amounts rq"
  shows "rq_amounts rq \<le> outstanding_of rq db \<and>
    (\<exists>n. required_cost (rq_selection rq) (outstanding_of rq db - rq_amounts rq) = Inr n \<and>
       n \<le> cost_microusd (outstanding_of rq db - rq_amounts rq))"
  using assms by (auto simp: check_usage_def take_apart spawn_outstanding_Inr budget_amounts_Inr_iff outstanding_of_def)

definition funded :: "event_request \<Rightarrow> ledger \<Rightarrow> bool" where
  "funded rq db \<longleftrightarrow> 0 \<le> outstanding_of rq db \<and>
     (case required_cost (rq_selection rq) (outstanding_of rq db) of
        Inl e \<Rightarrow> False | Inr n \<Rightarrow> n \<le> cost_microusd (outstanding_of rq db))"

lemma release_funded:
  assumes c: "record_budget_event env args db = (Inr res, db')" and n: "\<not> res_replayed res"
    and r: "arg_type args = ''release''"
  obtains rq where "checked_request {Reserve, Release} {Known, Estimated}
      ''unknown usage confidence blocks budget mutation'' args = Inr rq" "funded rq db'"
    "outstanding_of rq db' = outstanding_of rq db - rq_amounts rq"
proof (rule record_budget_event_cases [OF c])
  fix rq expected states
  assume rq: "bindE (checked_request {Reserve, Release} {Known, Estimated}
      ''unknown usage confidence blocks budget mutation'' args) check_budget_event = Inr rq"
    and p: "budget_event_proof env rq db = (Inr (expected, states), db)"
    and d: "answers_replay expected (rq_key rq) res db \<and> db' = db \<or>
     new_budget_event env rq expected states db = (Inr res, db') \<and>
     list_all (\<lambda>ev. ev_key ev \<noteq> rq_key rq) (budget_events db)"
  obtain h k where ex: "expected = event_of rq h k None" using budget_event_proof_Inr [OF p] by metis
  have ck: "checked_request {Reserve, Release} {Known, Estimated}
      ''unknown usage confidence blocks budget mutation'' args = Inr rq"
    using rq by (auto simp: bindE_Inr_iff check_budget_event_Inr)
  have ty: "rq_type rq = Release" "rq_type rq \<in> {Reserve, Release}"
    using checked_request_Inr(1,6) [OF ck] r by (auto simp: event_type_of_def)
  have new: "new_budget_event env rq expected states db = (Inr res, db')"
      "list_all (\<lambda>ev. ev_key ev \<noteq> rq_key rq) (budget_events db)"
    using d n replay_result by blast+
  have o: "outstanding_of rq db' = outstanding_of rq db - rq_amounts rq"
    using answers_new_outstanding(1) new_budget_event_Inr(1) [OF new(1) ty(2) ex new(2)] ex ty(1) by fastforce
  have "funded rq db'"
    using check_release_funds [OF new_budget_event_Inr(5) [OF new(1) ty(2) ex new(2) ty(1)]] o
    by (auto simp: funded_def)
  then show ?thesis using that ck o by blast
qed

lemma consume_funded:
  assumes c: "record_post_dispatch_event env args db = (Inr res, db')" and n: "\<not> res_replayed res"
    and r: "arg_type args = ''consume''"
  obtains rq where "checked_request {Consume, RetryDecrement, RetryRestore, HumanAttention}
       {Known, Estimated, Unknown} ''invalid post-dispatch usage confidence'' args = Inr rq" "funded rq db'"
    "outstanding_of rq db' = outstanding_of rq db - rq_amounts rq"
proof (rule record_post_dispatch_event_cases [OF c])
  fix rq expected state
  assume rq: "bindE (checked_request {Consume, RetryDecrement, RetryRestore, HumanAttention}
       {Known, Estimated, Unknown} ''invalid post-dispatch usage confidence'' args) check_post_dispatch_event = Inr rq"
    and p: "usage_proof env rq db = (Inr (expected, state), db)"
    and d: "answers_replay expected (rq_key rq) res db \<and> db' = db \<or>
     new_usage_event env rq expected state db = (Inr res, db') \<and>
     list_all (\<lambda>ev. ev_key ev \<noteq> rq_key rq) (budget_events db)"
  obtain k where ex: "expected = event_of rq None k (Some (rq_clock rq))" using usage_proof_Inr [OF p] by metis
  have ck: "checked_request {Consume, RetryDecrement, RetryRestore, HumanAttention}
       {Known, Estimated, Unknown} ''invalid post-dispatch usage confidence'' args = Inr rq"
    and ck': "check_post_dispatch_event rq = Inr rq"
    using rq check_post_dispatch_same by (auto simp: bindE_Inr_iff)
  have ty: "rq_type rq = Consume" "rq_type rq \<notin> {Reserve, Release}"
    using checked_request_Inr(1,6) [OF ck] r by (auto simp: event_type_of_def)
  have u: "only_usage (rq_amounts rq) = rq_amounts rq"
    using ck' ty(1) by (cases "rq_amounts rq") (auto simp: check_post_dispatch_event_def only_usage_def Let_def split: if_splits)
  have new: "new_usage_event env rq expected state db = (Inr res, db')"
      "list_all (\<lambda>ev. ev_key ev \<noteq> rq_key rq) (budget_events db)"
    using d n replay_result by blast+
  have o: "outstanding_of rq db' = outstanding_of rq db - rq_amounts rq"
    using answers_new_outstanding(1) new_usage_event_Inr(1) [OF new(1) ty(2) ex new(2)] ex ty(1) u by fastforce
  have "funded rq db'"
    using check_usage_funds [OF new_usage_event_Inr(4) [OF new(1) ty(2) ex new(2)] ty(1) u] o
    by (auto simp: funded_def)
  then show ?thesis using that ck o by blast
qed

subsection \<open>Replays\<close>

lemma posted_usage_open:
  "t \<noteq> Consume \<Longrightarrow> posted_usage t u c \<in> {Known, Estimated} \<longleftrightarrow> c \<in> {Known, Estimated}"
  by (cases c; cases u) (auto simp: posted_usage_def)

lemma concat_map_rows:
  "(\<And>rb. rb \<in> set rbs \<Longrightarrow> f (g rb) = f rb) \<Longrightarrow> concat (map f (map g rbs)) = concat (map f rbs)"
  by (induction rbs) auto

lemma posts_same_tables:
  assumes "posts ev db db'"
  shows "runs db' = runs db" "transitions db' = transitions db" "cost_registry db' = cost_registry db"
    "clock_contexts db' = clock_contexts db" "gate_runs db' = gate_runs db" "spawn_requests db' = spawn_requests db"
    "zero_policies db' = zero_policies db" "schema_migrations db' = schema_migrations db"
    "rpc_intents db' = rpc_intents db" "sessions db' = sessions db" "budget_settlements db' = budget_settlements db"
  using assms by (auto simp: posts_def)

lemma posts_bound_rows:
  assumes p: "posts ev db db'" and t: "ev_type ev \<in> {Reserve, Release}"
  shows "bound_rows run tr al db' = bound_rows run tr al db"
proof -
  have "posted_usage (ev_type ev) (ev_usage ev) u \<in> {Known, Estimated} \<longleftrightarrow> u \<in> {Known, Estimated}" for u
    using t by (intro posted_usage_open) auto
  then have u: "rb_usage (posted_row ev rb) \<in> {Known, Estimated} \<longleftrightarrow> rb_usage rb \<in> {Known, Estimated}" for rb
    by (simp add: posted_row_def)
  show ?thesis
    unfolding bound_rows_def posts_same_tables [OF p] posts_budgets(1) [OF p]
    using u by (intro concat_map_rows) (auto cong: if_cong)
qed

lemma replayed_proof:
  assumes p: "budget_event_proof env rq db = (Inr x, db)" and po: "posts ev db db'" "ev_type ev \<in> {Reserve, Release}"
    and e: "\<And>l a b. be_engine env l a b = None" and d: "be_deep_checks env db' = Inr ()"
  shows "budget_event_proof env rq db' = (Inr x, db')"
proof -
  have v: "verify_schema_identity env db' = (Inr (), db')" if "verify_schema_identity env db = (Inr (), db)"
    using that e d posts_same_tables(8) [OF po(1)]
    by (auto simp: verify_schema_identity_def catchM_def bindM_def fetch_def mapErr_def checkM_def split: sum.splits if_splits)
  have q: "fetch (be_engine env) l f d = (Inr (f d), d)" for l d and f :: "ledger \<Rightarrow> 'x"
    using e by (simp add: fetch_def)
  have s: "check_selection env run tr al sel db' = (fst (check_selection env run tr al sel db), db')" for run tr al sel
    by (simp add: check_selection_def selected_binding_def bindM_def q posts_bound_rows [OF po] checkM_def
        split: option.splits prod.splits sum.splits)
  have c: "trusted_created_at env run tr clk db' = (fst (trusted_created_at env run tr clk db), db')" for run tr clk
    by (simp add: trusted_created_at_def bindM_def q clock_contexts_for_def posts_same_tables [OF po(1)]
        split: option.splits prod.splits sum.splits)
  have z: "zero_policy_hash env pol sel db' = (fst (zero_policy_hash env pol sel db), db')" for pol sel
    by (simp add: zero_policy_hash_def bindM_def q posts_same_tables [OF po(1)] split: option.splits prod.splits sum.splits)
  have st: "spawn_states sp run tr db' = spawn_states sp run tr db" for sp run tr
    by (simp add: spawn_states_def posts_same_tables [OF po(1)])
  show ?thesis
    using p v by (auto simp: budget_event_proof_def take_apart st s c z e split: option.splits)
qed

lemma find_snoc: "list_all (\<lambda>x. \<not> P x) xs \<Longrightarrow> P y \<Longrightarrow> find P (xs @ [y]) = Some y"
  by (induction xs) auto

lemma repeated_event:
  assumes c: "record_budget_event env args db = (Inr res, db')"
    and e: "\<And>l a b. be_engine env l a b = None" and d: "be_deep_checks env db' = Inr ()"
  shows "record_budget_event env args db' = (Inr (res\<lparr>res_replayed := True\<rparr>), db')"
proof (rule record_budget_event_cases [OF c])
  fix rq expected states
  assume rq: "bindE (checked_request {Reserve, Release} {Known, Estimated}
      ''unknown usage confidence blocks budget mutation'' args) check_budget_event = Inr rq"
    and co: "connect env = Inr ()" and p: "budget_event_proof env rq db = (Inr (expected, states), db)"
    and n: "answers_replay expected (rq_key rq) res db \<and> db' = db \<or>
     new_budget_event env rq expected states db = (Inr res, db') \<and>
     list_all (\<lambda>ev. ev_key ev \<noteq> rq_key rq) (budget_events db)"
  obtain h k where ex: "expected = event_of rq h k None" using budget_event_proof_Inr [OF p] by metis
  have ty: "rq_type rq \<in> {Reserve, Release}"
    using rq checked_request_Inr(1) by (fastforce simp: bindE_Inr_iff check_budget_event_Inr)
  from n show ?thesis
  proof
    assume "answers_replay expected (rq_key rq) res db \<and> db' = db"
    then show ?thesis using c by (auto simp: answers_replay_def)
  next
    assume new: "new_budget_event env rq expected states db = (Inr res, db') \<and>
     list_all (\<lambda>ev. ev_key ev \<noteq> rq_key rq) (budget_events db)"
    note facts = new_budget_event_Inr [OF conjunct1 [OF new] ty ex conjunct2 [OF new]]
    let ?ev = "expected\<lparr>ev_sequence := next_sequence (ev_run expected) db\<rparr>"
    have po: "posts ?ev db db'" and r: "res = \<lparr>res_id = ev_id expected,
        res_sequence = next_sequence (ev_run expected) db, res_replayed = False\<rparr>"
      using facts(1) by (auto simp: answers_new_def)
    have p': "budget_event_proof env rq db' = (Inr (expected, states), db')"
      using replayed_proof [OF p po _ e d] ty ex by simp
    have f: "find (\<lambda>ev. ev_key ev = rq_key rq) (budget_events db') = Some ?ev"
      using conjunct2 [OF new] posts_budgets(2) [OF po] ex by (simp add: find_snoc)
    have x: "existing_event env (rq_key rq) expected db' = (Inr (Some (res\<lparr>res_replayed := True\<rparr>)), db')"
      using f r e by (simp add: existing_event_def bindM_def fetch_def event_columns_def)
    have b: "budget_event_body env rq db' = (Inr (res\<lparr>res_replayed := True\<rparr>), db')"
      using p' x facts(6) by (simp add: budget_event_body_def bindM_def)
    then show ?thesis
      using rq co e by (simp add: record_budget_event_def ledger_transaction_def transaction_def catchM_def)
  qed
qed

end
