(* ===== verification/BudgetDemo.thy ===== *)
theory BudgetDemo
  imports BudgetFacts
begin

section \<open>A small ledger to try the budget operations on\<close>

text \<open>
  One run \<^verbatim>\<open>r\<close> with a spawn request \<^verbatim>\<open>s\<close> on the transition \<^verbatim>\<open>t\<close>, a consumed gate clock and
  a database file that passes every check; \<open>ledger_open\<close> is before the dispatch,
  \<open>ledger_done\<close> after the child has completed, with a reservation.
\<close>

definition demo_env :: budget_env where
  "demo_env = \<lparr>be_git = demo_git_env, be_root = Inr ''w'',
     be_file = \<lparr>db_path = Inr ''w/my.db'', db_is_file = Inr True, db_parent_mode = Inr 448, db_mode = Inr 384,
       db_sidecar = (\<lambda>_ _. Inr None), db_opens = True,
       db_pragma = (\<lambda>name. Inr (Some (if name = ''PRAGMA foreign_keys'' then ''1'' else ''wal'')))\<rparr>,
     be_engine = (\<lambda>_ _ _. None), be_migrations = Inr [(1, ''one'', ''h'')], be_deep_checks = (\<lambda>_. Inr ()),
     be_slo = map (\<lambda>name. (name, \<lambda>_. False)) budget_invariant_queries\<rparr>"

definition demo_selection :: budget_selection where
  "demo_selection = \<lparr>sel_binding = Binding ''p'' ''m'' ''e'' ''c'' ''reg'' ''t0'' ''h'' ''known'',
     input_price = 2000000, output_price = 3000000\<rparr>"

definition demo_spawn :: "string \<Rightarrow> string option \<Rightarrow> spawn_row" where
  "demo_spawn state session = \<lparr>spawn_id = ''s'', spawn_run = ''r'', spawn_phase = ''ph'', spawn_agent = ''a'',
     spawn_transition = ''t'', spawn_client = ''cl'', spawn_key = ''sk'', spawn_digest = ''d'',
     spawn_state = state, spawn_session = session\<rparr>"

definition demo_budget :: "amounts \<Rightarrow> budget_row" where
  "demo_budget reserved = \<lparr>rb_run = ''r'', rb_workflow = ''w'', rb_selected = sel_binding demo_selection,
     rb_transition = ''t'', rb_budget = Amounts 100 100 100 1000 10 10, rb_reserved = reserved, rb_consumed = 0,
     rb_usage = Known, rb_updated = []\<rparr>"

definition ledger_open :: ledger where
  "ledger_open = \<lparr>runs = [\<lparr>run_run = ''r'', run_workflow = ''w'', run_state = ''candidate''\<rparr>],
     transitions = [\<lparr>tr_transition = ''t'', tr_run = ''r''\<rparr>],
     cost_registry = [\<lparr>reg_binding = sel_binding demo_selection, reg_input = 2000000, reg_output = 3000000\<rparr>],
     run_budgets = [demo_budget 0],
     clock_contexts = [\<lparr>clk_id = ''k'', clk_gate = ''g'', clk_consumer = ''g'', clk_run = ''r'', clk_transition = ''t'',
       clk_nonce = ''n'', clk_now = 5000, clk_bound = 5000, clk_consumed = 5000, clk_source = ''src''\<rparr>],
     gate_runs = [\<lparr>gate_id = ''g'', gate_run = ''r'', gate_transition = ''t'', gate_clock = ''k'',
       gate_decision = ''pass'', gate_completed = 5000\<rparr>],
     spawn_requests = [demo_spawn ''pending'' None], rpc_intents = [], sessions = [], zero_policies = [],
     budget_events = [], budget_settlements = [], schema_migrations = [(1, ''one'', ''h'')]\<rparr>"

definition demo_args :: "string \<Rightarrow> amounts \<Rightarrow> event_args" where
  "demo_args event_type a = \<lparr>arg_type = event_type, arg_run = Some '' r'', arg_transition = Some ''t'',
     arg_selection = demo_selection, arg_amounts = a, arg_key = Some (''key-'' @ event_type), arg_dedupe = Some ''dk'',
     arg_source = Some ''src'', arg_usage = ''known'', arg_spawn = Some ''s'', arg_policy = None, arg_clock = Some ''k''\<rparr>"

definition demo_reserve_row :: event_row where
  "demo_reserve_row = \<lparr>ev_id = ''e1'', ev_key = ''first'', ev_dedupe = ''x'', ev_sequence = 1, ev_run = ''r'',
     ev_transition = ''t'', ev_spawn = Some ''s'', ev_binding = map_binding Some (sel_binding demo_selection),
     ev_policy = None, ev_policy_hash = None, ev_type = Reserve, ev_amounts = Amounts 10 10 10 90 2 1,
     ev_usage = Known, ev_source = ''src'', ev_created = [], ev_created_ms = 1, ev_clock = None, ev_settlement = None\<rparr>"

definition ledger_reserved :: ledger where
  "ledger_reserved = ledger_open\<lparr>run_budgets := [demo_budget (Amounts 10 10 10 90 2 1)], budget_events := [demo_reserve_row]\<rparr>"

definition ledger_done :: ledger where
  "ledger_done = ledger_reserved\<lparr>runs := [\<lparr>run_run = ''r'', run_workflow = ''w'', run_state = ''child_completed''\<rparr>],
     spawn_requests := [demo_spawn ''completed'' (Some ''sess'')],
     rpc_intents := [\<lparr>int_id = ''i'', int_run = ''r'', int_transition = ''t'', int_kind = ''sessions_spawn'',
       int_spawn = Some ''s'', int_client = ''cl'', int_key = ''sk'', int_phase = Some ''ph'', int_agent = Some ''a'',
       int_digest = Some ''d'', int_state = ''accepted'', int_external = Some ''sess'', int_requested = 100, int_accepted = Some 200\<rparr>],
     sessions := [\<lparr>ses_spawn = ''s'', ses_run = ''r'', ses_transition = ''t'', ses_phase = ''ph'', ses_agent = ''a'',
       ses_client = ''cl'', ses_key = ''sk'', ses_session = ''sess'', ses_digest = ''d'', ses_state = ''completed'',
       ses_completed = Some ''now''\<rparr>]\<rparr>"

lemma demo_connect: "connect demo_env = Inr ()"
proof -
  have "casefold ''wal'' = ''wal''" by code_simp
  then show ?thesis
    using demo_preflight
    by (simp add: connect_def demo_env_def check_sidecars_def check_sidecar_def sidecar_suffixes_def pragma_def mapErr_def)
qed

lemma demo_env_fields [simp]:
  "be_engine demo_env = (\<lambda>_ _ _. None)" "be_migrations demo_env = Inr [(1, ''one'', ''h'')]"
  "be_deep_checks demo_env = (\<lambda>_. Inr ())"
  by (simp_all add: demo_env_def)

lemma forM_returns: "(\<And>x. f x db = (Inr (), db)) \<Longrightarrow> forM f xs db = (Inr (), db)"
  by (induction xs) (simp_all add: bindM_def)

lemma demo_contracts: "required_contracts demo_env = map (\<lambda>name. (name, \<lambda>_. False)) budget_invariant_queries"
  by (auto simp: required_contracts_def demo_env_def filter_id_conv)

lemma map_of_constant: "map_of (map (\<lambda>x. (x, c)) xs) y = (if y \<in> set xs then Some c else None)"
  by (induction xs) auto

lemma demo_contract: "run_contract demo_env name db = (Inr (), db)"
proof -
  have "map_of (rev (required_contracts demo_env)) name \<in> {None, Some (\<lambda>_. False)}"
    unfolding demo_contracts by (simp add: rev_map map_of_constant)
  then show ?thesis by (auto simp: run_contract_def bindM_def fetch_def checkM_def)
qed

lemma reads_contract: "only_reads (run_contract env name)"
  unfolding run_contract_def by (intro reading)

lemma demo_invariants:
  "\<not> unknown_usage_violation db \<Longrightarrow> \<not> binding_violation db \<Longrightarrow> \<not> prefix_violation db \<Longrightarrow>
     assert_budget_invariants demo_env db = (Inr (), db)"
  by (auto simp: assert_budget_invariants_def take_apart reads_contract forM_returns [OF demo_contract] demo_contracts image_image)

lemmas demo_defs = ledger_open_def ledger_reserved_def ledger_done_def demo_budget_def demo_spawn_def demo_reserve_row_def
  demo_args_def demo_selection_def

lemma demo_schema: "schema_migrations db = [(1, ''one'', ''h'')] \<Longrightarrow> verify_schema_identity demo_env db = (Inr (), db)"
  by (simp add: verify_schema_identity_def bindM_def fetch_def catchM_def checkM_def mapErr_def)

lemma strip_demo: "strip '' r'' = ''r''" "strip ''t'' = ''t''" "strip ''dk'' = ''dk''" "strip ''src'' = ''src''" "strip ''s'' = ''s''"
  "strip ''k'' = ''k''" "strip ''key-reserve'' = ''key-reserve''" "strip ''key-release'' = ''key-release''"
  "strip ''key-consume'' = ''key-consume''"
  by code_simp+

definition demo_request :: "event_type \<Rightarrow> amounts \<Rightarrow> event_request" where
  "demo_request t a = \<lparr>rq_type = t, rq_run = ''r'', rq_transition = ''t'', rq_selection = demo_selection, rq_amounts = a,
     rq_key = ''key-'' @ event_type_text t, rq_dedupe = ''dk'', rq_source = ''src'', rq_usage = Known, rq_spawn = ''s'',
     rq_policy = None, rq_clock = ''k''\<rparr>"

lemma demo_checked:
  "t \<in> {Reserve, Release, Consume} \<Longrightarrow> t \<in> ts \<Longrightarrow> Known \<in> us \<Longrightarrow>
     checked_request ts us m (demo_args (event_type_text t) a) = Inr (demo_request t a)"
  by (cases t) (simp_all add: checked_request_def demo_args_def demo_request_def event_type_of_def confidence_of_def
    required_text_def strip_demo)

lemma demo_open_proof:
  assumes "db \<in> {ledger_open, ledger_reserved}"
    and r: "required_cost demo_selection a = Inr n" "t = Reserve \<Longrightarrow> n \<le> cost_microusd a"
  shows "budget_event_proof demo_env (demo_request t a) db =
    (Inr (event_of (demo_request t a) None (isoformat 5000, 5000) None, ''pending'', ''candidate''), db)"
proof -
  have "verify_schema_identity demo_env db = (Inr (), db)" using assms(1) by (intro demo_schema) (auto simp: demo_defs)
  moreover have "check_selection demo_env ''r'' ''t'' False demo_selection db = (Inr (), db)"
    using assms(1) by (auto simp: check_selection_def selected_binding_def bindM_def fetch_def checkM_def bound_rows_def demo_defs)
  moreover have "trusted_created_at demo_env ''r'' ''t'' ''k'' db = (Inr (isoformat 5000, 5000), db)"
    using assms(1) by (auto simp: trusted_created_at_def bindM_def fetch_def clock_contexts_for_def created_at_def
      max_epoch_ms_def demo_defs)
  moreover have "spawn_states ''s'' ''r'' ''t'' db = [(''pending'', ''candidate'')]"
    using assms(1) by (auto simp: spawn_states_def demo_defs)
  ultimately show ?thesis
    using r by (simp add: budget_event_proof_def take_apart demo_request_def zero_policy_hash_def)
qed

text \<open>A reservation on the open ledger.\<close>

definition demo_amounts :: amounts where "demo_amounts = Amounts 10 10 10 90 2 1"

lemma demo_price: "required_cost demo_selection demo_amounts = Inr 50"
  by (simp add: required_cost_def rounded_up_def demo_selection_def limits_def demo_amounts_def)

definition demo_event :: "event_type \<Rightarrow> amounts \<Rightarrow> int \<Rightarrow> event_row" where
  "demo_event t a n = (event_of (demo_request t a) None (isoformat 5000, 5000) None)\<lparr>ev_sequence := n\<rparr>"

definition demo_posted :: "event_row \<Rightarrow> ledger \<Rightarrow> ledger" where
  "demo_posted ev db = set_rows (allowing ev) (posted_row ev) (db\<lparr>budget_events := budget_events db @ [ev]\<rparr>)"

lemma demo_event_fields [simp]:
  "ev_run (demo_event t a n) = ''r''" "ev_transition (demo_event t a n) = ''t''" "ev_spawn (demo_event t a n) = Some ''s''"
  "ev_binding (demo_event t a n) = map_binding Some (sel_binding demo_selection)"
  "ev_type (demo_event t a n) = t" "ev_amounts (demo_event t a n) = a" "ev_usage (demo_event t a n) = Known"
  "ev_sequence (demo_event t a n) = n" "ev_created (demo_event t a n) = isoformat 5000"
  by (simp_all add: demo_event_def demo_request_def)

lemma binding_same: "\<not> binding_differs (map_binding Some b) b"
  by (cases b) (simp add: binding_differs_def binding_columns_def sql_neq_def)

lemma demo_reserve_ok:
  defines "db' \<equiv> demo_posted (demo_event Reserve demo_amounts 1) ledger_open"
  shows "assert_budget_invariants demo_env db' = (Inr (), db')"
  by (intro demo_invariants)
    (simp_all add: db'_def demo_posted_def unknown_usage_violation_def binding_violation_def prefix_violation_def
      prefix_of_def same_partition_def not_after_def net_reserved_def net_consumed_def left_join_def
      ledger_open_def demo_spawn_def demo_budget_def binding_same posted_row_def allowing_def
      demo_amounts_def zero_amounts_def)

lemma demo_request_fields [simp]:
  "rq_type (demo_request t a) = t" "rq_run (demo_request t a) = ''r''" "rq_transition (demo_request t a) = ''t''"
  "rq_selection (demo_request t a) = demo_selection" "rq_amounts (demo_request t a) = a"
  "rq_key (demo_request t a) = ''key-'' @ event_type_text t" "rq_usage (demo_request t a) = Known"
  "rq_spawn (demo_request t a) = ''s''" "rq_policy (demo_request t a) = None" "rq_clock (demo_request t a) = ''k''"
  by (simp_all add: demo_request_def)

lemma demo_lists:
  "rpc_intents ledger_open = []" "budget_settlements ledger_open = []" "budget_events ledger_open = []"
  "rpc_intents ledger_reserved = []" "budget_settlements ledger_reserved = []"
  "budget_events ledger_reserved = [demo_reserve_row]" "budget_settlements ledger_done = []"
  "budget_events ledger_done = [demo_reserve_row]"
  by (simp_all add: ledger_open_def ledger_reserved_def ledger_done_def)

lemma demo_reserve:
  "record_budget_event demo_env (demo_args ''reserve'' demo_amounts) ledger_open =
     (Inr \<lparr>res_id = event_id ''key-reserve'', res_sequence = 1, res_replayed = False\<rparr>,
      demo_posted (demo_event Reserve demo_amounts 1) ledger_open)"
proof -
  let ?rq = "demo_request Reserve demo_amounts"
  have c: "bindE (checked_request {Reserve, Release} {Known, Estimated}
      ''unknown usage confidence blocks budget mutation'' (demo_args ''reserve'' demo_amounts)) check_budget_event = Inr ?rq"
    using demo_checked [of Reserve "{Reserve, Release}" "{Known, Estimated}" _ demo_amounts]
    by (simp add: check_budget_event_def demo_request_def demo_amounts_def is_zero_def zero_amounts_def)
  have "new_budget_event demo_env ?rq (event_of ?rq None (isoformat 5000, 5000) None) (''pending'', ''candidate'') ledger_open =
     (Inr \<lparr>res_id = event_id ''key-reserve'', res_sequence = 1, res_replayed = False\<rparr>,
      demo_posted (demo_event Reserve demo_amounts 1) ledger_open)"
  proof -
    have i: "insert_event demo_env (event_of ?rq None (isoformat 5000, 5000) None) ledger_open =
        (Inr 1, ledger_open\<lparr>budget_events := [demo_event Reserve demo_amounts 1]\<rparr>)"
      by (simp add: insert_event_def bindM_def fetch_def execute_def checkM_def next_sequence_def ledger_open_def
        max_event_sequence_def demo_event_def)
    have u: "update_counters demo_env Reserve ''r'' demo_amounts Known (isoformat 5000)
        (ledger_open\<lparr>budget_events := [demo_event Reserve demo_amounts 1]\<rparr>) =
        (Inr (), demo_posted (demo_event Reserve demo_amounts 1) ledger_open)"
      using reserve_update_rows [of "demo_event Reserve demo_amounts 1" demo_env]
      by (simp add: bindM_def update_budget_rows_def execute_def checkM_def demo_posted_def)
        (simp add: ledger_open_def demo_budget_def allowing_def demo_amounts_def zero_amounts_def)
    show ?thesis
      using i u demo_reserve_ok
      by (simp add: new_budget_event_def bindM_def reject_settlement_dedupe_collision_def fetch_def checkM_def
        has_spawn_intent_def demo_lists)
  qed
  then show ?thesis
    using c demo_connect demo_open_proof [of ledger_open demo_amounts 50 Reserve] demo_price
    by (simp add: record_budget_event_def ledger_transaction_def catchM_def transaction_def budget_event_body_def bindM_def
      existing_event_def fetch_def ledger_open_def demo_amounts_def)
qed

subsection \<open>A release on the reserved ledger\<close>

definition demo_part :: amounts where "demo_part = Amounts 5 5 5 40 1 1"

lemma demo_outstanding:
  "db \<in> {ledger_reserved, ledger_done} \<Longrightarrow>
     spawn_outstanding demo_env ''s'' ''r'' ''t'' demo_selection db = (Inr demo_amounts, db)"
  by (auto simp: spawn_outstanding_def bindM_def fetch_def mapErr_def spawn_events_def demo_lists net_reserved_def
    demo_reserve_row_def demo_amounts_def budget_amounts_def zero_amounts_def limits_def)

lemma demo_release_ok:
  defines "db' \<equiv> demo_posted (demo_event Release demo_part 2) ledger_reserved"
  shows "assert_budget_invariants demo_env db' = (Inr (), db')"
  by (intro demo_invariants)
    (simp_all add: db'_def demo_posted_def unknown_usage_violation_def binding_violation_def prefix_violation_def
      prefix_of_def same_partition_def not_after_def net_reserved_def net_consumed_def left_join_def demo_lists
      ledger_reserved_def ledger_open_def demo_spawn_def demo_budget_def binding_same posted_row_def allowing_def
      demo_reserve_row_def demo_part_def zero_amounts_def)

lemma demo_release_event:
  "record_budget_event demo_env (demo_args ''release'' demo_part) ledger_reserved =
     (Inr \<lparr>res_id = event_id ''key-release'', res_sequence = 2, res_replayed = False\<rparr>,
      demo_posted (demo_event Release demo_part 2) ledger_reserved)"
proof -
  let ?rq = "demo_request Release demo_part" and ?ev = "event_of (demo_request Release demo_part) None (isoformat 5000, 5000) None"
  have price: "required_cost demo_selection demo_part = Inr 25" "required_cost demo_selection (demo_amounts - demo_part) = Inr 25"
    by (simp_all add: required_cost_def rounded_up_def demo_selection_def limits_def demo_amounts_def demo_part_def)
  have c: "bindE (checked_request {Reserve, Release} {Known, Estimated}
      ''unknown usage confidence blocks budget mutation'' (demo_args ''release'' demo_part)) check_budget_event = Inr ?rq"
    using demo_checked [of Release "{Reserve, Release}" "{Known, Estimated}" _ demo_part]
    by (simp add: check_budget_event_def demo_part_def is_zero_def zero_amounts_def)
  have r: "check_release demo_env ?rq ledger_reserved = (Inr (), ledger_reserved)"
  proof -
    have "demo_part \<le> demo_amounts" "budget_amounts (demo_amounts - demo_part) = Inr (demo_amounts - demo_part)"
        "25 \<le> cost_microusd (demo_amounts - demo_part)"
      by (simp_all add: demo_amounts_def demo_part_def budget_amounts_def zero_amounts_def limits_def)
    then show ?thesis
      using demo_outstanding [of ledger_reserved] price by (simp add: check_release_def bindM_def checkM_def)
  qed
  have i: "insert_event demo_env ?ev ledger_reserved =
      (Inr 2, ledger_reserved\<lparr>budget_events := [demo_reserve_row, demo_event Release demo_part 2]\<rparr>)"
  proof -
    have "ev_run demo_reserve_row = ''r''" "ev_sequence demo_reserve_row = 1" by (simp_all add: demo_reserve_row_def)
    then have "next_sequence ''r'' ledger_reserved = 2" by (simp add: next_sequence_def demo_lists)
    then show ?thesis
      by (simp add: insert_event_def bindM_def fetch_def execute_def checkM_def demo_lists max_event_sequence_def demo_event_def)
  qed
  have u: "update_counters demo_env Release ''r'' demo_part Known (isoformat 5000)
      (ledger_reserved\<lparr>budget_events := [demo_reserve_row, demo_event Release demo_part 2]\<rparr>) =
      (Inr (), demo_posted (demo_event Release demo_part 2) ledger_reserved)"
    using reserve_update_rows [of "demo_event Release demo_part 2" demo_env]
    by (simp add: bindM_def update_budget_rows_def execute_def checkM_def demo_posted_def demo_lists)
      (simp add: ledger_reserved_def demo_budget_def allowing_def demo_part_def zero_amounts_def)
  have n: "new_budget_event demo_env ?rq ?ev (''pending'', ''candidate'') ledger_reserved =
     (Inr \<lparr>res_id = event_id ''key-release'', res_sequence = 2, res_replayed = False\<rparr>,
      demo_posted (demo_event Release demo_part 2) ledger_reserved)"
    using i u r demo_release_ok
    by (simp add: new_budget_event_def bindM_def reject_settlement_dedupe_collision_def fetch_def checkM_def
      has_spawn_intent_def demo_lists)
  have "ev_key demo_reserve_row \<noteq> ''key-release''" by (simp add: demo_reserve_row_def)
  then show ?thesis
    using c n demo_connect demo_open_proof [of ledger_reserved demo_part 25 Release] price
    by (simp add: record_budget_event_def ledger_transaction_def catchM_def transaction_def budget_event_body_def bindM_def
      existing_event_def fetch_def demo_lists)
qed

subsection \<open>A settlement without further usage\<close>

definition demo_final :: event_row where
  "demo_final = (linked_event (demo_request Consume 0) (isoformat 5000, 5000) Release demo_amounts)\<lparr>ev_sequence := 2\<rparr>"

definition demo_settling :: ledger where
  "demo_settling = ledger_done\<lparr>budget_settlements := [settlement_of (demo_request Consume 0) (isoformat 5000, 5000) demo_amounts]\<rparr>"

lemma demo_final_fields [simp]:
  "ev_run demo_final = ''r''" "ev_transition demo_final = ''t''" "ev_spawn demo_final = Some ''s''"
  "ev_binding demo_final = map_binding Some (sel_binding demo_selection)" "ev_type demo_final = Release"
  "ev_amounts demo_final = demo_amounts" "ev_usage demo_final = Known" "ev_sequence demo_final = 2"
  "ev_created demo_final = isoformat 5000"
  by (simp_all add: demo_final_def)

lemma demo_settled_ok:
  defines "db' \<equiv> demo_posted demo_final demo_settling"
  shows "assert_budget_invariants demo_env db' = (Inr (), db')"
  by (intro demo_invariants)
    (simp_all add: db'_def demo_posted_def unknown_usage_violation_def binding_violation_def prefix_violation_def
      prefix_of_def same_partition_def not_after_def net_reserved_def net_consumed_def left_join_def demo_lists
      demo_settling_def ledger_done_def ledger_reserved_def ledger_open_def demo_spawn_def demo_budget_def binding_same
      posted_row_def allowing_def demo_reserve_row_def demo_amounts_def zero_amounts_def)

lemma demo_done_ok: "assert_budget_invariants demo_env ledger_done = (Inr (), ledger_done)"
  by (intro demo_invariants)
    (simp_all add: unknown_usage_violation_def binding_violation_def prefix_violation_def
      prefix_of_def same_partition_def not_after_def net_reserved_def net_consumed_def left_join_def demo_lists
      ledger_done_def ledger_reserved_def ledger_open_def demo_spawn_def demo_budget_def binding_same
      demo_reserve_row_def zero_amounts_def)

lemma demo_settlement_proof:
  "settlement_proof demo_env False (demo_request Consume 0) ledger_done = (Inr (''child_completed'', isoformat 5000, 5000), ledger_done)"
proof -
  have "verify_schema_identity demo_env ledger_done = (Inr (), ledger_done)" by (intro demo_schema) (simp add: demo_defs)
  moreover have "check_selection demo_env ''r'' ''t'' True demo_selection ledger_done = (Inr (), ledger_done)"
    by (simp add: check_selection_def selected_binding_def bindM_def fetch_def checkM_def bound_rows_def demo_defs)
  moreover have "trusted_created_at demo_env ''r'' ''t'' ''k'' ledger_done = (Inr (isoformat 5000, 5000), ledger_done)"
    by (simp add: trusted_created_at_def bindM_def fetch_def clock_contexts_for_def created_at_def max_epoch_ms_def demo_defs)
  moreover have "session_proofs ''s'' ''r'' ''t'' finished ledger_done = [(''child_completed'', Some 200, 100)]"
    by (simp add: session_proofs_def intent_proves_def session_proves_def finished_def demo_defs)
  ultimately show ?thesis by (simp add: settlement_proof_def take_apart)
qed

lemma demo_insert_final:
  "insert_linked_event demo_env (demo_request Consume 0) (isoformat 5000, 5000) Release demo_amounts False demo_settling =
     (Inr [\<lparr>res_id = ev_id demo_final, res_sequence = 2, res_replayed = False\<rparr>], demo_posted demo_final demo_settling)"
proof -
  let ?l = "linked_event (demo_request Consume 0) (isoformat 5000, 5000) Release demo_amounts"
  have "ev_run demo_reserve_row = ''r''" "ev_sequence demo_reserve_row = 1" by (simp_all add: demo_reserve_row_def)
  then have "next_sequence ''r'' demo_settling = 2" by (simp add: next_sequence_def demo_lists demo_settling_def)
  then have i: "insert_event demo_env ?l demo_settling =
      (Inr 2, demo_settling\<lparr>budget_events := budget_events demo_settling @ [demo_final]\<rparr>)"
    by (simp add: insert_event_def bindM_def fetch_def execute_def checkM_def max_event_sequence_def demo_final_def)
  have u: "update_counters demo_env Release ''r'' demo_amounts Known (isoformat 5000)
      (demo_settling\<lparr>budget_events := budget_events demo_settling @ [demo_final]\<rparr>) = (Inr (), demo_posted demo_final demo_settling)"
    using reserve_update_rows [of demo_final demo_env]
    by (simp add: bindM_def update_budget_rows_def execute_def checkM_def demo_posted_def)
      (simp add: demo_settling_def ledger_done_def ledger_reserved_def demo_budget_def allowing_def demo_amounts_def zero_amounts_def)
  have "\<not> is_zero demo_amounts" by (simp add: is_zero_def demo_amounts_def zero_amounts_def)
  then show ?thesis using i u by (simp add: insert_linked_event_def bindM_def Let_def) (simp add: demo_final_def)
qed

lemma demo_settle:
  "settle_budget demo_env (demo_args ''consume'' 0) ledger_done =
     (Inr \<lparr>sres_id = settlement_id ''key-consume'', sres_events = [\<lparr>res_id = ev_id demo_final, res_sequence = 2, res_replayed = False\<rparr>],
        sres_released = demo_amounts, sres_replayed = False\<rparr>, demo_posted demo_final demo_settling)"
proof -
  let ?rq = "demo_request Consume 0"
  have c: "settlement_request (demo_args ''consume'' 0) = Inr ?rq"
    using demo_checked [of Consume "{Consume}" "{Known, Estimated}" _ 0] by (simp add: settlement_request_def demo_args_def)
  have p: "\<not> poisoned ''r'' ledger_done" by (simp add: poisoned_def demo_defs)
  have b: "budget_amounts demo_amounts = Inr demo_amounts" "0 \<le> demo_amounts" "\<not> is_zero demo_amounts"
    by (simp_all add: budget_amounts_def demo_amounts_def zero_amounts_def limits_def is_zero_def)
  have ins: "ledger_done\<lparr>budget_settlements := budget_settlements ledger_done @
      [settlement_of ?rq (isoformat 5000, 5000) demo_amounts]\<rparr> = demo_settling"
    by (simp add: demo_settling_def demo_lists)
  have d: "reject_event_dedupe_collision demo_env (dedupe_hash (rq_dedupe ?rq)) ledger_done = (Inr (), ledger_done)"
  proof -
    have "length (dedupe_hash (rq_dedupe ?rq)) = 64"
      using sha256_hex_text by (simp add: dedupe_hash_def is_sha256_text_def)
    moreover have "length (ev_dedupe demo_reserve_row) = 1" by (simp add: demo_reserve_row_def)
    ultimately have "ev_dedupe demo_reserve_row \<noteq> dedupe_hash (rq_dedupe ?rq)"
      by (intro notI) (drule arg_cong [where f = length], simp)
    then show ?thesis by (simp add: reject_event_dedupe_collision_def bindM_def fetch_def checkM_def demo_lists)
  qed
  have "new_settlement demo_env ?rq ''child_completed'' (isoformat 5000, 5000) ledger_done =
     (Inr \<lparr>sres_id = settlement_id ''key-consume'', sres_events = [\<lparr>res_id = ev_id demo_final, res_sequence = 2, res_replayed = False\<rparr>],
        sres_released = demo_amounts, sres_replayed = False\<rparr>, demo_posted demo_final demo_settling)"
    using p b d demo_done_ok demo_outstanding [of ledger_done] demo_insert_final demo_settled_ok
    by (simp add: new_settlement_def bindM_def fetch_def execute_def checkM_def ins insert_linked_event_def [where a = 0] is_zero_def)
  then show ?thesis
    using c demo_connect demo_settlement_proof
    by (simp add: settle_budget_def ledger_transaction_def catchM_def transaction_def settle_budget_on_connection_def
      bindM_def fetch_def demo_lists)
qed

end
