(* ===== verification/BudgetClaims.thy ===== *)
theory BudgetClaims
  imports BudgetDemo
begin

section \<open>Properties of the budget ledger\<close>

text \<open>
  The claims about \<^verbatim>\<open>budgets.py\<close>: the counters are what the ledger says and never exceed the
  budget, every call is a sequence of allowed account steps or changes nothing, replays change
  nothing, and a settlement leaves nothing outstanding.
\<close>

text \<open>
  C5: however the library's calls, failing ones included, interleave with each other and with
  writers of other tables, every budget row's reserved and consumed counters are exactly the sums
  of its run's ledger events, and after every prefix of those events what is reserved and what is
  consumed were non-negative and together within the budget.
\<close>

theorem counters_reconcile:
  assumes "budget_reaches db0 db" "replays_accounts db0"
  shows "list_all (\<lambda>rb. rb_reserved rb = net_reserved (events_of (rb_run rb) db) \<and>
      rb_consumed rb = net_consumed (events_of (rb_run rb) db) \<and>
      (\<forall>n. 0 \<le> net_reserved (take n (events_of (rb_run rb) db)) \<and>
        0 \<le> net_consumed (take n (events_of (rb_run rb) db)) \<and>
        net_reserved (take n (events_of (rb_run rb) db)) + net_consumed (take n (events_of (rb_run rb) db)) \<le> rb_budget rb))
    (run_budgets db)"
  using events_of_bounds [OF reaches_replays [OF assms]] prefix_bounds [OF reaches_replays [OF assms]]
  by (auto simp: list_all_iff)

lemma demo_replays: "replays_accounts ledger_open"
  by (simp add: replays_accounts_def ledger_open_def account_events_def events_of_def new_account_def account_of_def
      demo_budget_def zero_amounts_def)

lemma demo_valid: "budget_amounts demo_amounts = Inr demo_amounts"
  by (simp add: budget_amounts_def demo_amounts_def zero_amounts_def limits_def)

lemma counters_reconcile_witness:
  "list_all (\<lambda>rb. rb_reserved rb = net_reserved (events_of (rb_run rb) (demo_posted (demo_event Reserve demo_amounts 1) ledger_open)))
     (run_budgets (demo_posted (demo_event Reserve demo_amounts 1) ledger_open))"
proof -
  have "call_budget demo_env (RecordEvent (demo_args ''reserve'' demo_amounts)) ledger_open =
      (None, demo_posted (demo_event Reserve demo_amounts 1) ledger_open)"
    using demo_reserve by (simp add: outcome_def)
  then have "budget_reaches ledger_open (demo_posted (demo_event Reserve demo_amounts 1) ledger_open)"
    using demo_valid by (intro budget_reaches.Call [OF budget_reaches.Start, of "RecordEvent (demo_args ''reserve'' demo_amounts)"])
      (auto simp: demo_args_def)
  from counters_reconcile [OF this demo_replays] show ?thesis by (simp add: list_all_iff)
qed

text \<open>
  C14: a call refines the abstract accounts: it appends events to the ledger, and the account of
  every budget row is the one that the appended events of its run make of it, each of them a step
  the account allows; a call that raises appends none.
\<close>

theorem calls_refine_accounts:
  assumes "replays_accounts db" "budget_amounts (arg_amounts (call_args c)) = Inr a" "call_budget env c db = (r, db')"
  shows "\<exists>evs. budget_events db' = budget_events db @ evs \<and>
    list_all2 (\<lambda>rb rb'. rb_run rb' = rb_run rb \<and>
      run_all account_step (map (\<lambda>e. (ev_type e, ev_amounts e)) (filter (\<lambda>e. ev_run e = rb_run rb) evs)) (account_of rb)
        = Some (account_of rb')) (run_budgets db) (run_budgets db')"
  using assms by (rule call_simulates)

lemma calls_refine_accounts_witness:
  "\<exists>evs. budget_events (demo_posted (demo_event Reserve demo_amounts 1) ledger_open) = budget_events ledger_open @ evs"
proof -
  have "call_budget demo_env (RecordEvent (demo_args ''reserve'' demo_amounts)) ledger_open =
      (None, demo_posted (demo_event Reserve demo_amounts 1) ledger_open)"
    using demo_reserve by (simp add: outcome_def)
  from calls_refine_accounts [OF demo_replays _ this] demo_valid show ?thesis by (auto simp: demo_args_def)
qed

text \<open>
  C19: a call that raises leaves the ledger as it was. The exception is a \<^verbatim>\<open>BudgetError\<close> or one of
  its subclasses, unless it is one that the code does not catch, and then it is exactly what that outside
  call raised: resolving the path, the preflight's file and git calls (\<^verbatim>\<open>OSError\<close> of git is caught),
  the file's type and modes, a pragma, loading the pinned migrations, or a deep schema check (whose
  migration and SQLite errors are caught).
\<close>

theorem budget_calls_fail_cleanly:
  assumes "call_budget env c db = (Some e, db')"
  shows "db' = db \<and> (budget_error e \<or> connect_lets_escape env e \<or> body_lets_escape env e)"
  using call_errors [OF assms] failed_call_keeps_ledger [OF assms] by (simp add: call_lets_escape_def)

lemma budget_calls_fail_cleanly_witness:
  "budget_error (BudgetError ''unsupported budget event type'') \<or>
     connect_lets_escape demo_env (BudgetError ''unsupported budget event type'') \<or>
     body_lets_escape demo_env (BudgetError ''unsupported budget event type'')"
proof -
  have "call_budget demo_env (RecordEvent (demo_args ''steal'' demo_amounts)) ledger_open =
      (Some (BudgetError ''unsupported budget event type''), ledger_open)"
    by (simp add: outcome_def record_budget_event_def checked_request_def demo_args_def event_type_of_def bindM_def)
  from budget_calls_fail_cleanly [OF this] show ?thesis by (rule conjunct2)
qed

text \<open>
  C33: a reserve or release call that is repeated on the ledger it left returns the same event and
  sequence number, marked as replayed, and changes nothing. The side conditions are that the SQL engine
  refuses no statement and that the deep schema checks pass on the ledger the first call left (they
  are code outside this model, and the second call runs them again).
\<close>

theorem repeated_event_is_replay:
  assumes "record_budget_event env args db = (Inr res, db')" "be_engine env = (\<lambda>_ _ _. None)"
    "be_deep_checks env db' = Inr ()"
  shows "record_budget_event env args db' = (Inr (res\<lparr>res_replayed := True\<rparr>), db')"
  using assms(1,3) by (rule_tac repeated_event) (simp_all add: assms(2))

lemma repeated_event_is_replay_witness:
  "record_budget_event demo_env (demo_args ''reserve'' demo_amounts) (demo_posted (demo_event Reserve demo_amounts 1) ledger_open) =
     (Inr \<lparr>res_id = event_id ''key-reserve'', res_sequence = 1, res_replayed = True\<rparr>,
      demo_posted (demo_event Reserve demo_amounts 1) ledger_open)"
  using repeated_event_is_replay [OF demo_reserve] by simp

text \<open>
  C7: a new settlement splits what the spawn request has outstanding exactly into the final usage
  and a non-negative release: afterwards nothing is outstanding, and what the spawn request
  has used grew by the final usage, which is the amount the settlement row records.
\<close>

theorem settlement_exact:
  assumes "settle_budget env args db = (Inr res, db')" "\<not> sres_replayed res"
  shows "\<exists>rq. settlement_request args = Inr rq \<and> rq_amounts rq = arg_amounts args \<and>
    outstanding_of rq db' = 0 \<and> used_by rq db' = used_by rq db + rq_amounts rq \<and>
    rq_amounts rq + sres_released res = outstanding_of rq db \<and> 0 \<le> sres_released res"
proof (rule settle_on_connection_cases [OF conjunct2 [OF settle_budget_cases [OF assms(1)]]])
  fix rq state created
  assume rq: "settlement_request args = Inr rq"
    and n: "settlement_answers_replay rq created res db \<and> db' = db \<or>
     new_settlement env rq state created db = (Inr res, db') \<and>
     list_all (\<lambda>s. set_key s \<noteq> rq_key rq) (budget_settlements db)"
  have "new_settlement env rq state created db = (Inr res, db')"
    using n assms(2) by (auto simp: settlement_answers_replay_def)
  from new_settlement_empties [OF this] rq settlement_request_amounts [OF rq] show ?thesis by blast
qed

lemma settlement_exact_witness:
  "\<exists>rq. settlement_request (demo_args ''consume'' 0) = Inr rq \<and> outstanding_of rq ledger_done = demo_amounts \<and>
     outstanding_of rq (demo_posted demo_final demo_settling) = 0"
  using settlement_exact [OF demo_settle] by (auto simp: demo_args_def)

text \<open>
  C9: a new release or consumption takes exactly its amount from what the spawn request has
  outstanding, and what remains is non-negative in every dimension and still pays for the
  remaining tokens at the selected price.
\<close>

theorem remaining_tokens_stay_funded:
  assumes "arg_type args = ''release'' \<and> record_budget_event env args db = (Inr res, db') \<or>
      arg_type args = ''consume'' \<and> record_post_dispatch_event env args db = (Inr res, db')"
    "\<not> res_replayed res"
  shows "\<exists>rq types usages m. checked_request types usages m args = Inr rq \<and> funded rq db' \<and>
    outstanding_of rq db' = outstanding_of rq db - rq_amounts rq"
  using assms(1)
proof
  assume "arg_type args = ''release'' \<and> record_budget_event env args db = (Inr res, db')"
  then show ?thesis using release_funded [OF _ assms(2)] by metis
next
  assume "arg_type args = ''consume'' \<and> record_post_dispatch_event env args db = (Inr res, db')"
  then show ?thesis using consume_funded [OF _ assms(2)] by metis
qed

lemma remaining_tokens_stay_funded_witness:
  "\<exists>rq types usages m. checked_request types usages m (demo_args ''release'' demo_part) = Inr rq \<and>
     funded rq (demo_posted (demo_event Release demo_part 2) ledger_reserved)"
  using remaining_tokens_stay_funded [of "demo_args ''release'' demo_part" demo_env ledger_reserved] demo_release_event
  by (fastforce simp: demo_args_def)

text \<open>
  C35: a ledger is closed for a run once unknown usage is recorded for it, and for a spawn request
  once its final settlement is: whatever call names them raises or is answered as a replay, and the
  ledger does not change. For usage, retry and attention events this needs nothing else. A reserve or
  release is stopped by the run's single budget row in the first case (the primary key of the table), and
  in the second by the intent every settlement has proved, which budget calls preserve
  (\<open>settlements_proved_kept\<close>). A second settlement of a spawn request is stopped by the
  unique key of the settlement table.
\<close>

theorem closed_ledgers_are_frozen:
  assumes "map_option strip (arg_run args) = Some run" "map_option strip (arg_transition args) = Some tr"
    "map_option strip (arg_spawn args) = Some spawn"
  shows "(poisoned run db \<or> settled run tr spawn db \<longrightarrow>
      replays_only res_replayed (record_post_dispatch_event env args) db) \<and>
    (poisoned run db \<and> distinct (map rb_run (run_budgets db)) \<or> settled run tr spawn db \<and> settlements_proved db \<longrightarrow>
      replays_only res_replayed (record_budget_event env args) db) \<and>
    (poisoned run db \<or> settled run tr spawn db \<and> one_settlement_per_spawn (be_engine env) \<longrightarrow>
      replays_only sres_replayed (settle_budget env args) db)"
proof (intro conjI impI)
  have raises: "db' = db" if "record_post_dispatch_event env args db = (Inl e, db') \<or> record_budget_event env args db = (Inl e, db') \<or>
      settle_budget env args db = (Inl e, db')" for e db'
    using that failed_call_keeps_ledger [of env "RecordUsage args" db e db'] failed_call_keeps_ledger [of env "RecordEvent args" db e db']
      failed_call_keeps_ledger [of env "Settle args" db e db'] by (auto simp: outcome_iff)
  show "replays_only res_replayed (record_post_dispatch_event env args) db" if "poisoned run db \<or> settled run tr spawn db"
    using raises frozen_usage [OF _ assms that] by (intro replays_onlyI) blast+
  show "replays_only res_replayed (record_budget_event env args) db"
    if "poisoned run db \<and> distinct (map rb_run (run_budgets db)) \<or> settled run tr spawn db \<and> settlements_proved db"
    using raises frozen_event [OF _ assms that] by (intro replays_onlyI) blast+
  show "replays_only sres_replayed (settle_budget env args) db"
    if "poisoned run db \<or> settled run tr spawn db \<and> one_settlement_per_spawn (be_engine env)"
    using raises frozen_settlement [OF _ assms(1)] second_settlement [OF _ assms] that by (intro replays_onlyI) blast+
qed

text \<open>An engine that enforces the unique key of the settlements.\<close>

definition strict_env :: budget_env where
  "strict_env = demo_env\<lparr>be_engine := \<lambda>label db db'.
     if distinct (map (\<lambda>s. (set_run s, set_transition s, set_spawn s)) (budget_settlements db')) then None
     else Some (IntegrityFailure ''UNIQUE constraint failed'')\<rparr>"

lemma strict_engine: "one_settlement_per_spawn (be_engine strict_env)"
  by (auto simp: one_settlement_per_spawn_def strict_env_def settled_def list_ex_iff intro: rev_image_eqI)

lemma closed_ledgers_are_frozen_witness:
  "replays_only res_replayed (record_post_dispatch_event strict_env (demo_args ''consume'' 0)) (demo_posted demo_final demo_settling) \<and>
   replays_only res_replayed (record_budget_event strict_env (demo_args ''consume'' 0)) (demo_posted demo_final demo_settling) \<and>
   replays_only sres_replayed (settle_budget strict_env (demo_args ''consume'' 0)) (demo_posted demo_final demo_settling)"
proof -
  let ?db = "demo_posted demo_final demo_settling"
  have "settled ''r'' ''t'' ''s'' ?db"
    by (simp add: settled_def demo_posted_def demo_settling_def settlement_of_def demo_request_def)
  moreover have "settlements_proved ?db"
    by (simp add: settlements_proved_def has_spawn_intent_def demo_posted_def demo_settling_def settlement_of_def
      demo_request_def ledger_done_def ledger_reserved_def ledger_open_def)
  ultimately show ?thesis
    using closed_ledgers_are_frozen [of "demo_args ''consume'' 0" "''r''" "''t''" "''s''" ?db strict_env] strict_engine
    by (simp add: demo_args_def strip_demo)
qed

text \<open>
  C34: a new reservation was made for the run, transition and spawn request that the call names: the
  spawn request is pending, its run a candidate, and there is no \<^verbatim>\<open>sessions_spawn\<close> intent for it
  yet. The cost covers the selected price of the tokens, the call names a zero-reserve policy exactly
  when it carries neither tokens nor cost, a policy named is one of the selected endpoint and
  capability class, and the amounts fitted what the run's budget had left.
\<close>

theorem reservation_preconditions:
  assumes "reserve_budget env args db = (Inr res, db')" "\<not> res_replayed res"
  shows "\<exists>run tr spawn n. map_option strip (arg_run args) = Some run \<and>
    map_option strip (arg_transition args) = Some tr \<and> map_option strip (arg_spawn args) = Some spawn \<and>
    (''pending'', ''candidate'') \<in> set (spawn_states spawn run tr db) \<and> \<not> has_spawn_intent spawn run tr db \<and>
    required_cost (arg_selection args) (arg_amounts args) = Inr n \<and> n \<le> cost_microusd (arg_amounts args) \<and>
    (arg_policy args \<noteq> None) = (input_tokens (arg_amounts args) = 0 \<and> output_tokens (arg_amounts args) = 0 \<and>
      cost_microusd (arg_amounts args) = 0) \<and>
    (case arg_policy args of None \<Rightarrow> True | Some p \<Rightarrow> list_ex (policy_matches (strip p) (arg_selection args)) (zero_policies db)) \<and>
    list_ex (\<lambda>rb. rb_run rb = run \<and> rb_reserved rb + rb_consumed rb + arg_amounts args \<le> rb_budget rb) (run_budgets db)"
proof (rule record_budget_event_cases [OF assms(1) [unfolded reserve_budget_def]])
  fix rq expected states
  assume rq: "bindE (checked_request {Reserve, Release} {Known, Estimated}
      ''unknown usage confidence blocks budget mutation'' (args\<lparr>arg_type := ''reserve''\<rparr>)) check_budget_event = Inr rq"
    and p: "budget_event_proof env rq db = (Inr (expected, states), db)"
    and d: "answers_replay expected (rq_key rq) res db \<and> db' = db \<or>
     new_budget_event env rq expected states db = (Inr res, db') \<and>
     list_all (\<lambda>ev. ev_key ev \<noteq> rq_key rq) (budget_events db)"
  from budget_event_proof_Inr [OF p] obtain h k n where ex: "expected = event_of rq h k None"
    and st: "first (spawn_states (rq_spawn rq) (rq_run rq) (rq_transition rq) db) = Some states"
    and pol: "zero_policy_hash env (rq_policy rq) (rq_selection rq) db = (Inr h, db)"
    and n: "required_cost (rq_selection rq) (rq_amounts rq) = Inr n" "rq_type rq = Reserve \<longrightarrow> n \<le> cost_microusd (rq_amounts rq)"
    by metis
  have ck: "checked_request {Reserve, Release} {Known, Estimated}
      ''unknown usage confidence blocks budget mutation'' (args\<lparr>arg_type := ''reserve''\<rparr>) = Inr rq" "check_budget_event rq = Inr rq"
    using rq by (auto simp: bindE_Inr_iff check_budget_event_Inr)
  have ty: "rq_type rq = Reserve" "rq_type rq \<in> {Reserve, Release}" and same: "rq_amounts rq = arg_amounts args" "rq_selection rq = arg_selection args"
    using checked_request_Inr [OF ck(1)] by (auto simp: event_type_of_def)
  have pl: "rq_policy rq = arg_policy args" using checked_request_policy [OF ck(1)] by simp
  have new: "new_budget_event env rq expected states db = (Inr res, db')"
      "list_all (\<lambda>ev. ev_key ev \<noteq> rq_key rq) (budget_events db)"
    using d assms(2) replay_result by blast+
  note facts = new_budget_event_Inr [OF new(1) ty(2) ex new(2)]
  have "states = (''pending'', ''candidate'')" using facts(2,3) by (cases states) simp
  then have "(''pending'', ''candidate'') \<in> set (spawn_states (rq_spawn rq) (rq_run rq) (rq_transition rq) db)"
    using first_SomeD [OF st] by simp
  moreover have "list_ex (\<lambda>rb. rb_run rb = rq_run rq \<and> rb_reserved rb + rb_consumed rb + arg_amounts args \<le> rb_budget rb) (run_budgets db)"
    using facts(1) ex ty(1) same
    by (auto simp: answers_new_def posts_def allowing_def list_ex_iff length_Suc_conv filter_eq_Cons_iff)
  moreover have "(arg_policy args \<noteq> None) = (input_tokens (arg_amounts args) = 0 \<and> output_tokens (arg_amounts args) = 0 \<and>
      cost_microusd (arg_amounts args) = 0)"
    using ck(2) ty(1) same pl by (simp add: check_budget_event_Inr)
  moreover have "case arg_policy args of None \<Rightarrow> True | Some p \<Rightarrow> list_ex (policy_matches (strip p) (arg_selection args)) (zero_policies db)"
    using zero_policy_found [OF pol] unfolding same(2) pl .
  moreover have "n \<le> cost_microusd (arg_amounts args)" using n(2) ty(1) same by simp
  moreover have "map_option strip (arg_run args) = Some (rq_run rq)" "map_option strip (arg_transition args) = Some (rq_transition rq)"
      "map_option strip (arg_spawn args) = Some (rq_spawn rq)"
    using checked_request_texts [OF ck(1)] by simp_all
  moreover have "required_cost (arg_selection args) (arg_amounts args) = Inr n" using n(1) same by simp
  ultimately show ?thesis using facts(4)
    by - (intro exI [of _ "rq_run rq"] exI [of _ "rq_transition rq"] exI [of _ "rq_spawn rq"] exI [of _ n] conjI; assumption)
qed

lemma reservation_preconditions_witness:
  "\<not> has_spawn_intent ''s'' ''r'' ''t'' ledger_open \<and> (''pending'', ''candidate'') \<in> set (spawn_states ''s'' ''r'' ''t'' ledger_open)"
  using reservation_preconditions [of demo_env "demo_args ''reserve'' demo_amounts" ledger_open] demo_reserve
  by (fastforce simp: reserve_budget_def demo_args_def strip_demo)

end
