(* ===== verification/DispatchStore.thy ===== *)
theory DispatchStore
  imports Metadata Clock Ledger
begin

section \<open>What a runtime dispatch works on (\<^verbatim>\<open>runtime_dispatch.py\<close>)\<close>

text \<open>
  A dispatch writes six tables, reads the clock and calls a gateway adapter. The tables hold the
  columns it reads or writes; the copies of external metadata that every table keeps are one
  nested record. States and kinds are the vocabularies of the schema's check constraints. As in the
  budget ledger, a statement succeeds or is refused by the engine, about which nothing is assumed.
\<close>

subsection \<open>Tables\<close>

datatype rpc_kind = AcquireRpc | SpawnRpc | ReleaseRpc

datatype rpc_state = RpcPending | RpcAccepted | RpcUnknown | RpcFailed | RpcReconciled | RpcReview

datatype lease_state =
  AcquirePending | Acquired | ReleasePending | Released | ReleaseNotRequired | Expired | LeaseReview

datatype spawn_state = SpawnPending | SpawnAccepted | SpawnUnknown | SpawnFailed | SpawnReview | SpawnCompleted

text \<open>The columns \<^verbatim>\<open>external_run_id\<close>, \<^verbatim>\<open>external_phase\<close> and so on.\<close>

record observed_columns =
  ob_run :: "string option"
  ob_transition :: "string option"
  ob_client :: "string option"
  ob_key :: "string option"
  ob_phase :: "string option"
  ob_agent :: "string option"
  ob_requester :: "string option"
  ob_digest :: "string option"
  ob_ttl :: "int option"

definition nothing_observed :: observed_columns where
  "nothing_observed = \<lparr>ob_run = None, ob_transition = None, ob_client = None, ob_key = None, ob_phase = None,
     ob_agent = None, ob_requester = None, ob_digest = None, ob_ttl = None\<rparr>"

record request_row =
  sr_id :: string
  sr_run :: string
  sr_phase :: string
  sr_agent :: string
  sr_transition :: string
  sr_client :: string
  sr_key :: string
  sr_digest :: string
  sr_state :: spawn_state
  sr_session :: "string option"
  sr_dispatch_run :: "string option"
  sr_version :: "string option"
  sr_observed_at :: "string option"
  sr_json :: "string option"
  sr_reason :: "string option"
  sr_created :: string
  sr_updated :: string

record rpc_row =
  ri_id :: string
  ri_run :: string
  ri_transition :: string
  ri_kind :: rpc_kind
  ri_spawn :: "string option"
  ri_reserve :: "string option"
  ri_client :: string
  ri_key :: string
  ri_phase :: "string option"
  ri_agent :: "string option"
  ri_requester :: "string option"
  ri_ttl :: "int option"
  ri_digest :: "string option"
  ri_metadata :: "string option"
  ri_state :: rpc_state
  ri_requested_at :: string
  ri_requested_ms :: int
  ri_version :: "string option"
  ri_json :: "string option"
  ri_observed :: observed_columns
  ri_external :: "string option"
  ri_accepted_at :: "string option"
  ri_accepted_ms :: "int option"
  ri_resolved_at :: "string option"
  ri_resolved_ms :: "int option"

record lease_row =
  le_id :: string
  le_run :: string
  le_phase :: string
  le_transition :: string
  le_agent :: string
  le_requester :: string
  le_state :: lease_state
  le_gateway :: "string option"
  le_client :: string
  le_acquire :: string
  le_release :: "string option"
  le_ttl :: int
  le_version :: "string option"
  le_observed_at :: "string option"
  le_json :: "string option"
  le_observed :: observed_columns
  le_requested_at :: "string option"
  le_acquired_at :: "string option"
  le_release_requested :: "string option"
  le_released_at :: "string option"
  le_expires_at :: string
  le_expires_ms :: int
  le_status :: string

text \<open>\<^verbatim>\<open>runtime_dispatch_bindings\<close> without its time stamp, and the row.\<close>

record dispatch_identity =
  bd_spawn :: string
  bd_lease :: string
  bd_run :: string
  bd_transition :: string
  bd_phase :: string
  bd_agent :: string
  bd_requester :: string
  bd_digest :: string
  bd_client_lease :: string
  bd_acquire :: string
  bd_release :: string
  bd_client :: string
  bd_key :: string
  bd_reserve :: string

type_synonym binding_row = "dispatch_identity \<times> string"

record runtime_session =
  rs_id :: string
  rs_spawn :: string
  rs_run :: string
  rs_transition :: string
  rs_phase :: string
  rs_agent :: string
  rs_client :: string
  rs_key :: string
  rs_session :: string
  rs_digest :: string
  rs_status :: "string option"
  rs_state :: string
  rs_spawned :: string

record dispatch_tables =
  dt_spawns :: "request_row list"
  dt_intents :: "rpc_row list"
  dt_leases :: "lease_row list"
  dt_bindings :: "binding_row list"
  dt_sessions :: "runtime_session list"
  dt_reserves :: "(string \<times> int) list"

subsection \<open>The world of a dispatch\<close>

datatype rpc_call = AcquireCall pydict | SpawnCall pydict | ReleaseCall pydict

text \<open>
  The database, how often the clock was read, the state of the adapter (its sessions, the gateway),
  and the calls made to it so far.
\<close>

record 'a world =
  w_db :: dispatch_tables
  w_ticks :: nat
  w_adapter :: 'a
  w_calls :: "rpc_call list"

type_synonym ('a, 'b) operation = "('a world, exn, 'b) action"

type_synonym 'a rpc = "pydict \<Rightarrow> 'a \<Rightarrow> (exn + observation) \<times> 'a"

text \<open>
  The parameters: the SQL engine, the reading of \<^verbatim>\<open>time.time()\<close> in milliseconds, the resolved path of
  the database, the repository root and what git answers to the privacy preflight, what opening the
  database and its pragmas answer, then \<^verbatim>\<open>verify_database_connection\<close>, and the three adapter methods.
\<close>

record 'a dispatch_env =
  dp_engine :: "string \<Rightarrow> dispatch_tables \<Rightarrow> dispatch_tables \<Rightarrow> sql_failure option"
  dp_time :: "nat \<Rightarrow> int"
  dp_path :: "exn + string"
  dp_root :: "exn + string"
  dp_git :: git_env
  dp_open :: "sql_failure option"
  dp_pragma :: "string \<Rightarrow> sql_failure + string option"
  dp_verify :: "exn + unit"
  dp_acquire :: "'a rpc"
  dp_spawn :: "'a rpc"
  dp_release :: "'a rpc"

subsection \<open>Statements and transactions\<close>

definition query :: "'a dispatch_env \<Rightarrow> string \<Rightarrow> (dispatch_tables \<Rightarrow> 'b) \<Rightarrow> ('a, 'b) operation" where
  "query env label q w =
     (case dp_engine env label (w_db w) (w_db w) of
        None \<Rightarrow> (Inr (q (w_db w)), w) | Some f \<Rightarrow> (Inl (sql_exn f), w))"

definition modify :: "'a dispatch_env \<Rightarrow> string \<Rightarrow> (dispatch_tables \<Rightarrow> dispatch_tables) \<Rightarrow> ('a, unit) operation" where
  "modify env label f w =
     (case dp_engine env label (w_db w) (f (w_db w)) of
        None \<Rightarrow> (Inr (), w\<lparr>w_db := f (w_db w)\<rparr>) | Some e \<Rightarrow> (Inl (sql_exn e), w))"

definition requireM :: "bool \<Rightarrow> string \<Rightarrow> ('a, unit) operation" where
  "requireM ok message = (if ok then returnM () else raiseM (RuntimeDispatchError message))"

text \<open>
  \<^verbatim>\<open>immediate_transaction\<close>: the tables, and only they, go back when the body raises; a
  \<^verbatim>\<open>ROLLBACK\<close> that fails replaces the exception.
\<close>

definition immediate_transaction :: "'a dispatch_env \<Rightarrow> ('a, 'b) operation \<Rightarrow> ('a, 'b) operation" where
  "immediate_transaction env body w =
     (case dp_engine env ''BEGIN IMMEDIATE'' (w_db w) (w_db w) of
        Some f \<Rightarrow> (Inl (sql_exn f), w)
      | None \<Rightarrow>
          (case body w of
             (Inl e, w') \<Rightarrow>
               (case dp_engine env ''ROLLBACK'' (w_db w') (w_db w) of
                  None \<Rightarrow> (Inl e, w'\<lparr>w_db := w_db w\<rparr>)
                | Some f \<Rightarrow> (Inl (sql_exn f), w'\<lparr>w_db := w_db w\<rparr>))
           | (Inr x, w') \<Rightarrow>
               (case dp_engine env ''COMMIT'' (w_db w) (w_db w') of
                  Some f \<Rightarrow> (Inl (sql_exn f), w'\<lparr>w_db := w_db w\<rparr>)
                | None \<Rightarrow> (Inr x, w'))))"

text \<open>An \<^verbatim>\<open>UPDATE ... WHERE\<close> answers how many rows it matched.\<close>

definition update_where :: "('r \<Rightarrow> bool) \<Rightarrow> ('r \<Rightarrow> 'r) \<Rightarrow> 'r list \<Rightarrow> 'r list" where
  "update_where P f rows = map (\<lambda>r. if P r then f r else r) rows"

definition update_intents ::
    "'a dispatch_env \<Rightarrow> string \<Rightarrow> (rpc_row \<Rightarrow> bool) \<Rightarrow> (rpc_row \<Rightarrow> rpc_row) \<Rightarrow> ('a, nat) operation" where
  "update_intents env label P f =
     bindM (readM (\<lambda>w. length (filter P (dt_intents (w_db w))))) (\<lambda>n.
     bindM (modify env label (\<lambda>db. db\<lparr>dt_intents := update_where P f (dt_intents db)\<rparr>)) (\<lambda>_. returnM n))"

definition update_leases ::
    "'a dispatch_env \<Rightarrow> string \<Rightarrow> (lease_row \<Rightarrow> bool) \<Rightarrow> (lease_row \<Rightarrow> lease_row) \<Rightarrow> ('a, nat) operation" where
  "update_leases env label P f =
     bindM (readM (\<lambda>w. length (filter P (dt_leases (w_db w))))) (\<lambda>n.
     bindM (modify env label (\<lambda>db. db\<lparr>dt_leases := update_where P f (dt_leases db)\<rparr>)) (\<lambda>_. returnM n))"

definition update_spawns ::
    "'a dispatch_env \<Rightarrow> string \<Rightarrow> (request_row \<Rightarrow> bool) \<Rightarrow> (request_row \<Rightarrow> request_row) \<Rightarrow> ('a, nat) operation" where
  "update_spawns env label P f =
     bindM (readM (\<lambda>w. length (filter P (dt_spawns (w_db w))))) (\<lambda>n.
     bindM (modify env label (\<lambda>db. db\<lparr>dt_spawns := update_where P f (dt_spawns db)\<rparr>)) (\<lambda>_. returnM n))"

subsection \<open>Clock and adapter\<close>

text \<open>\<^verbatim>\<open>time.strftime("%Y-%m-%dT%H:%M:%SZ", time.gmtime(ms / 1000))\<close> for the years 1970 to 9999.\<close>

definition utc_from_epoch_ms :: "int \<Rightarrow> string" where
  "utc_from_epoch_ms ms =
     (let s = nat ms div 1000 in iso_date (s div 86400) @ ''T'' @ iso_time (s mod 86400 * 1000) @ ''Z'')"

definition now_utc :: "'a dispatch_env \<Rightarrow> ('a, string \<times> int) operation" where
  "now_utc env w =
     (let ms = dp_time env (w_ticks w) in (Inr (utc_from_epoch_ms ms, ms), w\<lparr>w_ticks := Suc (w_ticks w)\<rparr>))"

definition call_adapter :: "(pydict \<Rightarrow> rpc_call) \<Rightarrow> 'a rpc \<Rightarrow> pydict \<Rightarrow> ('a, observation) operation" where
  "call_adapter call f params w =
     (let r = f params (w_adapter w) in (fst r, w\<lparr>w_adapter := snd r, w_calls := w_calls w @ [call params]\<rparr>))"

subsection \<open>Exception classes\<close>

definition sqlite_error :: "exn \<Rightarrow> bool" where
  "sqlite_error e = (case e of SqliteIntegrityError _ \<Rightarrow> True | SqliteError _ \<Rightarrow> True | _ \<Rightarrow> False)"

text \<open>\<^verbatim>\<open>METADATA_RUNTIME_ERRORS\<close>, where \<^verbatim>\<open>AdapterAmbiguousOutcomeError\<close> is an \<^verbatim>\<open>AdapterContractError\<close>.\<close>

definition metadata_runtime_error :: "exn \<Rightarrow> bool" where
  "metadata_runtime_error e \<longleftrightarrow> sqlite_error e \<or>
     (case e of AdapterContractError _ \<Rightarrow> True | AdapterAmbiguousOutcomeError _ _ \<Rightarrow> True
      | MetadataContractError _ \<Rightarrow> True | RuntimeDispatchError _ \<Rightarrow> True | _ \<Rightarrow> False)"

text \<open>\<^verbatim>\<open>AMBIGUOUS_TRANSPORT_ERRORS\<close>, with the subclasses of \<^verbatim>\<open>OSError\<close>.\<close>

definition ambiguous_transport_error :: "exn \<Rightarrow> bool" where
  "ambiguous_transport_error e =
     (case e of AdapterAmbiguousOutcomeError _ _ \<Rightarrow> True | TimeoutError _ \<Rightarrow> True | OSError _ \<Rightarrow> True
      | FileNotFoundError _ \<Rightarrow> True | NotADirectoryError _ \<Rightarrow> True | TimeoutExpired _ \<Rightarrow> True | _ \<Rightarrow> False)"

definition release_failure_error :: "exn \<Rightarrow> bool" where
  "release_failure_error e \<longleftrightarrow> metadata_runtime_error e \<or> ambiguous_transport_error e"

text \<open>\<^verbatim>\<open>except MetadataContractError\<close>.\<close>

definition contract_failure :: "exn \<Rightarrow> bool" where
  "contract_failure e = (case e of MetadataContractError _ \<Rightarrow> True | _ \<Rightarrow> False)"

text \<open>\<^verbatim>\<open>getattr(exc, "candidate_observation", None)\<close>.\<close>

definition candidate_of :: "exn \<Rightarrow> observation option" where
  "candidate_of e = (case e of AdapterAmbiguousOutcomeError _ c \<Rightarrow> c | _ \<Rightarrow> None)"

end
