(* ===== verification/DispatchRequest.thy ===== *)
theory DispatchRequest
  imports DispatchStore Sha256
begin

section \<open>Dispatch requests and the metadata built from them (\<^verbatim>\<open>runtime_dispatch.py\<close>)\<close>

text \<open>
  A caller may put any value into the fields of a \<^verbatim>\<open>DispatchRequest\<close>, so a raw request maps field
  names to Python values. \<open>validate_dispatch_request\<close> checks them and gives the typed
  request that the rest of the code reads; the fields of the transient spawn descriptor stay Python
  values, since they are checked only when the session is spawned.
\<close>

type_synonym raw_request = "string \<Rightarrow> pyval"

record dispatch_request =
  dr_run :: string
  dr_transition :: string
  dr_phase :: string
  dr_agent :: string
  dr_requester :: string
  dr_digest :: string
  dr_spawn :: string
  dr_reserve :: string
  dr_client_lease :: string
  dr_acquire :: string
  dr_release :: string
  dr_ttl :: int
  dr_client :: string
  dr_key :: string
  dr_task :: pyval
  dr_task_name :: pyval
  dr_runtime :: pyval
  dr_mode :: pyval
  dr_cleanup :: pyval
  dr_context :: pyval
  dr_light :: pyval
  dr_lease :: "string option"

record dispatch_result =
  res_session :: string
  res_gateway :: string
  res_status :: string

definition required_request_fields :: "string list" where
  "required_request_fields =
     [''run_id'', ''transition_id'', ''phase'', ''agent_id'', ''requester_agent_id'', ''task_digest'',
      ''spawn_request_id'', ''reserve_budget_event_id'', ''client_lease_id'', ''acquire_idempotency_key'',
      ''release_idempotency_key'', ''spawn_client_request_id'', ''spawn_idempotency_key'']"

text \<open>The typed reading of a field that passed the checks.\<close>

definition text_of :: "pyval \<Rightarrow> string" where
  "text_of v = (case v of PStr s \<Rightarrow> s | _ \<Rightarrow> [])"

definition typed_request :: "raw_request \<Rightarrow> dispatch_request" where
  "typed_request r =
     \<lparr>dr_run = text_of (r ''run_id''), dr_transition = text_of (r ''transition_id''),
      dr_phase = text_of (r ''phase''), dr_agent = text_of (r ''agent_id''),
      dr_requester = text_of (r ''requester_agent_id''), dr_digest = text_of (r ''task_digest''),
      dr_spawn = text_of (r ''spawn_request_id''), dr_reserve = text_of (r ''reserve_budget_event_id''),
      dr_client_lease = text_of (r ''client_lease_id''), dr_acquire = text_of (r ''acquire_idempotency_key''),
      dr_release = text_of (r ''release_idempotency_key''),
      dr_ttl = (case r ''ttl_ms'' of PInt i \<Rightarrow> i | _ \<Rightarrow> 0),
      dr_client = text_of (r ''spawn_client_request_id''), dr_key = text_of (r ''spawn_idempotency_key''),
      dr_task = r ''spawn_task'', dr_task_name = r ''spawn_task_name'', dr_runtime = r ''spawn_runtime'',
      dr_mode = r ''spawn_mode'', dr_cleanup = r ''spawn_cleanup'', dr_context = r ''spawn_context'',
      dr_light = r ''spawn_light_context'', dr_lease = nonempty_str (r ''lease_id'')\<rparr>"

definition validate_dispatch_request :: "raw_request \<Rightarrow> exn + dispatch_request" where
  "validate_dispatch_request r =
     bindE (forE (\<lambda>field. if nonempty_str (r field) = None
                          then Inl (RuntimeDispatchError (field @ '' must be a non-empty string'')) else Inr ())
              required_request_fields) (\<lambda>_.
     if r ''lease_id'' \<noteq> PNone \<and> nonempty_str (r ''lease_id'') = None
     then Inl (RuntimeDispatchError ''lease_id must be a non-empty string when provided'')
     else
       case int_value (r ''ttl_ms'') of
         None \<Rightarrow> Inl (RuntimeDispatchError ''ttl_ms must be an integer in [1,31536000000]'')
       | Some ttl \<Rightarrow>
           (if \<not> (1 \<le> ttl \<and> ttl \<le> max_lease_ttl_ms)
            then Inl (RuntimeDispatchError ''ttl_ms must be an integer in [1,31536000000]'')
            else Inr (typed_request r)))"

text \<open>\<^verbatim>\<open>request.lease_id or request.client_lease_id\<close>.\<close>

definition lease_id_of :: "dispatch_request \<Rightarrow> string" where
  "lease_id_of rq = (case dr_lease rq of None \<Rightarrow> dr_client_lease rq | Some l \<Rightarrow> l)"

subsection \<open>Metadata\<close>

definition lease_metadata :: "dispatch_request \<Rightarrow> string \<Rightarrow> pydict" where
  "lease_metadata rq gateway_lease_id =
     [(''client_lease_id'', PStr (dr_client_lease rq)), (''idempotency_key'', PStr (dr_acquire rq)),
      (''run_id'', PStr (dr_run rq)), (''phase'', PStr (dr_phase rq)), (''transition_id'', PStr (dr_transition rq)),
      (''agent_id'', PStr (dr_agent rq)), (''requester_agent_id'', PStr (dr_requester rq)),
      (''ttl_ms'', PInt (dr_ttl rq)), (''gateway_lease_id'', PStr gateway_lease_id)]"

definition release_rpc_metadata :: "dispatch_request \<Rightarrow> string \<Rightarrow> pydict" where
  "release_rpc_metadata rq gateway_lease_id =
     [(''client_lease_id'', PStr (dr_client_lease rq)), (''release_idempotency_key'', PStr (dr_release rq)),
      (''run_id'', PStr (dr_run rq)), (''phase'', PStr (dr_phase rq)), (''transition_id'', PStr (dr_transition rq)),
      (''agent_id'', PStr (dr_agent rq)), (''requester_agent_id'', PStr (dr_requester rq)),
      (''gateway_lease_id'', PStr gateway_lease_id)]"

definition release_storage_metadata_json :: "string \<Rightarrow> string \<Rightarrow> exn + string" where
  "release_storage_metadata_json raw_json release_idempotency_key =
     bindE (json_loads_plain raw_json) (\<lambda>storage.
       case storage of
         PDict d \<Rightarrow> Inr (dumps (PDict (dict_set ''idempotency_key'' (PStr release_idempotency_key) d)))
       | _ \<Rightarrow> Inl (RuntimeDispatchError ''allow_lease_release raw metadata is not an object''))"

definition spawn_metadata :: "dispatch_request \<Rightarrow> pydict" where
  "spawn_metadata rq =
     [(''run_id'', PStr (dr_run rq)), (''transition_id'', PStr (dr_transition rq)),
      (''client_request_id'', PStr (dr_client rq)), (''idempotency_key'', PStr (dr_key rq)),
      (''phase'', PStr (dr_phase rq)), (''agent_id'', PStr (dr_agent rq)), (''task_digest'', PStr (dr_digest rq))]"

subsection \<open>The transient spawn descriptor\<close>

definition required_spawn_string :: "pyval \<Rightarrow> string \<Rightarrow> exn + string" where
  "required_spawn_string value label =
     (case nonempty_str value of
        None \<Rightarrow> Inl (RuntimeDispatchError (''sessions_spawn transient '' @ label @ '' must be a non-empty string''))
      | Some s \<Rightarrow> Inr s)"

text \<open>\<^verbatim>\<open>value in {...}\<close> for a set of strings: an unhashable value raises.\<close>

definition in_texts :: "pyval \<Rightarrow> string list \<Rightarrow> exn + bool" where
  "in_texts value texts =
     (case value of
        PList _ \<Rightarrow> Inl (TypeError ''unhashable type: list'')
      | PDict _ \<Rightarrow> Inl (TypeError ''unhashable type: dict'')
      | PStr s \<Rightarrow> Inr (s \<in> set texts)
      | _ \<Rightarrow> Inr False)"

definition validate_transient_spawn_descriptor :: "dispatch_request \<Rightarrow> exn + unit" where
  "validate_transient_spawn_descriptor rq =
     bindE (required_spawn_string (dr_task rq) ''task'') (\<lambda>task.
     bindE (required_spawn_string (dr_task_name rq) ''taskName'') (\<lambda>_.
       if sha256_hex (utf8 task) \<noteq> dr_digest rq
       then Inl (RuntimeDispatchError ''sessions_spawn transient task must match persisted task_digest'')
       else if dr_runtime rq \<noteq> PStr ''subagent''
       then Inl (RuntimeDispatchError (''sessions_spawn transient runtime must be '' @ quote ''subagent''))
       else if dr_mode rq \<noteq> PStr ''run''
       then Inl (RuntimeDispatchError (''sessions_spawn transient mode must be '' @ quote ''run''))
       else
         bindE (in_texts (dr_cleanup rq) [''delete'', ''keep'']) (\<lambda>cleanup_ok.
         if \<not> cleanup_ok then Inl (RuntimeDispatchError ''sessions_spawn transient cleanup is invalid'')
         else
           bindE (in_texts (dr_context rq) [''fork'', ''isolated'']) (\<lambda>context_ok.
           if \<not> context_ok then Inl (RuntimeDispatchError ''sessions_spawn transient context is invalid'')
           else if bool_value (dr_light rq) = None
           then Inl (RuntimeDispatchError ''sessions_spawn transient lightContext must be a boolean'')
           else Inr ()))))"

definition spawn_descriptor_metadata :: "dispatch_request \<Rightarrow> exn + pydict" where
  "spawn_descriptor_metadata rq =
     bindE (validate_transient_spawn_descriptor rq) (\<lambda>_.
       Inr (spawn_metadata rq @
         [(''taskName'', dr_task_name rq), (''runtime'', dr_runtime rq), (''mode'', dr_mode rq),
          (''cleanup'', dr_cleanup rq), (''context'', dr_context rq), (''lightContext'', dr_light rq)]))"

definition replay_transient_descriptor_supplied :: "dispatch_request \<Rightarrow> bool" where
  "replay_transient_descriptor_supplied rq \<longleftrightarrow>
     dr_task rq \<noteq> PNone \<or> dr_task_name rq \<noteq> PNone \<or> dr_runtime rq \<noteq> PStr ''subagent'' \<or>
     dr_mode rq \<noteq> PStr ''run'' \<or> dr_cleanup rq \<noteq> PStr ''keep'' \<or> dr_context rq \<noteq> PStr ''isolated'' \<or>
     bool_value (dr_light rq) = None \<or> dr_light rq \<noteq> PBool False"

definition descriptor_keys :: "string list" where
  "descriptor_keys = [''taskName'', ''runtime'', ''mode'', ''cleanup'', ''context'', ''lightContext'']"

text \<open>Only a \<^verbatim>\<open>JSONDecodeError\<close> is caught.\<close>

definition stored_spawn_descriptor_requires_transient_descriptor :: "string option \<Rightarrow> exn + bool" where
  "stored_spawn_descriptor_requires_transient_descriptor metadata_json =
     (case metadata_json of
        None \<Rightarrow> Inr False
      | Some s \<Rightarrow>
          (case json_loads_plain s of
             Inl (JSONDecodeError _) \<Rightarrow> Inr True
           | Inl e \<Rightarrow> Inl e
           | Inr (PDict d) \<Rightarrow> Inr (list_ex (has_key d) descriptor_keys)
           | Inr _ \<Rightarrow> Inr True))"

definition spawn_rpc_params :: "dispatch_request \<Rightarrow> string \<Rightarrow> exn + pydict" where
  "spawn_rpc_params rq gateway_lease_id =
     bindE (validate_transient_spawn_descriptor rq) (\<lambda>_.
       Inr [(''task'', dr_task rq), (''taskName'', dr_task_name rq), (''runtime'', dr_runtime rq),
         (''mode'', dr_mode rq), (''agentId'', PStr (dr_agent rq)), (''cleanup'', dr_cleanup rq),
         (''context'', dr_context rq), (''lightContext'', dr_light rq),
         (''client_request_id'', PStr (dr_client rq)), (''idempotency_key'', PStr (dr_key rq)),
         (''gateway_lease_id'', PStr gateway_lease_id), (''metadata'', PDict (spawn_metadata rq))])"

definition acquire_rpc_params :: "dispatch_request \<Rightarrow> pydict" where
  "acquire_rpc_params rq =
     [(''run_id'', PStr (dr_run rq)), (''transition_id'', PStr (dr_transition rq)), (''phase'', PStr (dr_phase rq)),
      (''agent_id'', PStr (dr_agent rq)), (''requester_agent_id'', PStr (dr_requester rq)),
      (''client_lease_id'', PStr (dr_client_lease rq)), (''idempotency_key'', PStr (dr_acquire rq)),
      (''ttl_ms'', PInt (dr_ttl rq))]"

text \<open>The identity a binding row keeps.\<close>

definition binding_of :: "dispatch_request \<Rightarrow> dispatch_identity" where
  "binding_of rq =
     \<lparr>bd_spawn = dr_spawn rq, bd_lease = lease_id_of rq, bd_run = dr_run rq, bd_transition = dr_transition rq,
      bd_phase = dr_phase rq, bd_agent = dr_agent rq, bd_requester = dr_requester rq, bd_digest = dr_digest rq,
      bd_client_lease = dr_client_lease rq, bd_acquire = dr_acquire rq, bd_release = dr_release rq,
      bd_client = dr_client rq, bd_key = dr_key rq, bd_reserve = dr_reserve rq\<rparr>"

text \<open>The columns of external metadata, from what a validator returned: \<^verbatim>\<open>observed[...]\<close>.\<close>

definition text_column :: "pydict \<Rightarrow> string \<Rightarrow> exn + string option" where
  "text_column observed key =
     bindE (getitem observed key) (\<lambda>v.
       case str_value v of None \<Rightarrow> Inl (OutsideModel key) | Some s \<Rightarrow> Inr (Some s))"

definition lease_columns :: "pydict \<Rightarrow> exn + observed_columns" where
  "lease_columns d =
     bindE (text_column d ''run_id'') (\<lambda>run. bindE (text_column d ''transition_id'') (\<lambda>transition.
     bindE (text_column d ''client_lease_id'') (\<lambda>client. bindE (text_column d ''idempotency_key'') (\<lambda>key.
     bindE (text_column d ''phase'') (\<lambda>phase. bindE (text_column d ''agent_id'') (\<lambda>agent.
     bindE (text_column d ''requester_agent_id'') (\<lambda>requester. bindE (getitem d ''ttl_ms'') (\<lambda>ttl.
       Inr \<lparr>ob_run = run, ob_transition = transition, ob_client = client, ob_key = key, ob_phase = phase,
         ob_agent = agent, ob_requester = requester, ob_digest = None, ob_ttl = int_value ttl\<rparr>))))))))"

definition session_columns :: "pydict \<Rightarrow> exn + observed_columns" where
  "session_columns d =
     bindE (text_column d ''run_id'') (\<lambda>run. bindE (text_column d ''transition_id'') (\<lambda>transition.
     bindE (text_column d ''client_request_id'') (\<lambda>client. bindE (text_column d ''idempotency_key'') (\<lambda>key.
     bindE (text_column d ''phase'') (\<lambda>phase. bindE (text_column d ''agent_id'') (\<lambda>agent.
     bindE (text_column d ''task_digest'') (\<lambda>digest.
       Inr \<lparr>ob_run = run, ob_transition = transition, ob_client = client, ob_key = key, ob_phase = phase,
         ob_agent = agent, ob_requester = None, ob_digest = digest, ob_ttl = None\<rparr>)))))))"

definition release_columns :: "pydict \<Rightarrow> exn + observed_columns" where
  "release_columns d =
     bindE (text_column d ''run_id'') (\<lambda>run. bindE (text_column d ''transition_id'') (\<lambda>transition.
     bindE (text_column d ''client_lease_id'') (\<lambda>client. bindE (text_column d ''idempotency_key'') (\<lambda>key.
     bindE (text_column d ''phase'') (\<lambda>phase. bindE (text_column d ''agent_id'') (\<lambda>agent.
     bindE (text_column d ''requester_agent_id'') (\<lambda>requester.
       Inr \<lparr>ob_run = run, ob_transition = transition, ob_client = client, ob_key = key, ob_phase = phase,
         ob_agent = agent, ob_requester = requester, ob_digest = None, ob_ttl = None\<rparr>)))))))"

end
