(* ===== verification/DispatchSteps.thy ===== *)
theory DispatchSteps
  imports DispatchRequest
begin

section \<open>The database operations of a dispatch (\<^verbatim>\<open>runtime_dispatch.py\<close>)\<close>

text \<open>
  One definition per function of the source, in its order, each a sequence of queries,
  checks and writes. A request has passed \<open>validate_dispatch_request\<close> before any of them runs.
\<close>

subsection \<open>Replay of a spawn\<close>

definition session_proof :: "dispatch_request \<Rightarrow> string option \<Rightarrow> dispatch_tables \<Rightarrow> (string option \<times> string) option" where
  "session_proof rq external_id db =
     first (concat (map (\<lambda>sr. map (\<lambda>s. (sr_session sr, rs_session s))
       (filter (\<lambda>s. rs_spawn s = sr_id sr \<and> rs_run s = sr_run sr \<and> rs_transition s = sr_transition sr \<and>
          rs_client s = sr_client sr \<and> rs_key s = sr_key sr \<and> rs_phase s = sr_phase sr \<and> rs_agent s = sr_agent sr \<and>
          rs_digest s = sr_digest sr \<and> Some (rs_session s) = sr_session sr) (dt_sessions db)))
       (filter (\<lambda>sr. sr_id sr = dr_spawn rq \<and> sr_run sr = dr_run rq \<and> sr_transition sr = dr_transition rq \<and>
          sr_client sr = dr_client rq \<and> sr_key sr = dr_key rq \<and> sr_phase sr = dr_phase rq \<and> sr_agent sr = dr_agent rq \<and>
          sr_digest sr = dr_digest rq \<and> sr_state sr \<in> {SpawnAccepted, SpawnCompleted} \<and>
          external_id \<noteq> None \<and> sr_session sr = external_id) (dt_spawns db))))"

definition accepted_spawn_replay_session_key ::
    "'a dispatch_env \<Rightarrow> dispatch_request \<Rightarrow> string option \<Rightarrow> ('a, string) operation" where
  "accepted_spawn_replay_session_key env rq external_id =
     bindM (query env ''session proof'' (session_proof rq external_id)) (\<lambda>row.
     case row of
       None \<Rightarrow> raiseM (RuntimeDispatchError ''accepted sessions_spawn replay lacks local session proof'')
     | Some (requested_key, session_key) \<Rightarrow>
         liftM (validate_accepted_session_identity external_id requested_key (Some session_key) None))"

definition dispatch_lease :: "dispatch_request \<Rightarrow> dispatch_tables \<Rightarrow> string option" where
  "dispatch_lease rq db =
     (case find (\<lambda>l. le_run l = dr_run rq \<and> le_transition l = dr_transition rq \<and> le_phase l = dr_phase rq \<and>
        le_agent l = dr_agent rq \<and> le_requester l = dr_requester rq \<and> le_client l = dr_client_lease rq \<and>
        le_acquire l = dr_acquire rq \<and> le_release l = Some (dr_release rq) \<and>
        le_gateway l \<noteq> None \<and> le_gateway l \<noteq> Some []) (dt_leases db) of
        None \<Rightarrow> None | Some l \<Rightarrow> le_gateway l)"

definition same_spawn :: "dispatch_request \<Rightarrow> rpc_row \<Rightarrow> bool" where
  "same_spawn rq i \<longleftrightarrow>
     ri_run i = dr_run rq \<and> ri_transition i = dr_transition rq \<and> ri_spawn i = Some (dr_spawn rq) \<and>
     ri_reserve i = Some (dr_reserve rq) \<and> ri_client i = dr_client rq \<and> ri_phase i = Some (dr_phase rq) \<and>
     ri_agent i = Some (dr_agent rq) \<and> ri_digest i = Some (dr_digest rq)"

fun rpc_state_text :: "rpc_state \<Rightarrow> string" where
  "rpc_state_text RpcPending = ''pending''"
| "rpc_state_text RpcAccepted = ''accepted''"
| "rpc_state_text RpcUnknown = ''unknown''"
| "rpc_state_text RpcFailed = ''failed''"
| "rpc_state_text RpcReconciled = ''reconciled''"
| "rpc_state_text RpcReview = ''human_review_required''"

definition spawn_intent_of :: "string \<Rightarrow> dispatch_tables \<Rightarrow> rpc_row option" where
  "spawn_intent_of key db = find (\<lambda>i. ri_kind i = SpawnRpc \<and> ri_key i = key) (dt_intents db)"

definition check_replayed_descriptor :: "dispatch_request \<Rightarrow> rpc_row \<Rightarrow> exn + unit" where
  "check_replayed_descriptor rq i =
     bindE (stored_spawn_descriptor_requires_transient_descriptor (ri_metadata i)) (\<lambda>descriptor_required.
     bindE (if replay_transient_descriptor_supplied rq \<or> descriptor_required
            then validate_transient_spawn_descriptor rq else Inr ()) (\<lambda>_.
     if \<not> same_spawn rq i
     then Inl (RuntimeDispatchError ''conflicting reuse of sessions_spawn idempotency key'')
     else if replay_transient_descriptor_supplied rq \<or> descriptor_required
     then bindE (spawn_descriptor_metadata rq) (\<lambda>descriptor.
            if ri_metadata i \<noteq> Some (dumps (PDict descriptor))
            then Inl (RuntimeDispatchError ''conflicting reuse of sessions_spawn execution descriptor'')
            else Inr ())
     else Inr ()))"

definition existing_spawn_replay_result ::
    "'a dispatch_env \<Rightarrow> dispatch_request \<Rightarrow> ('a, dispatch_result option) operation" where
  "existing_spawn_replay_result env rq =
     bindM (query env ''spawn intent'' (spawn_intent_of (dr_key rq))) (\<lambda>row.
     case row of
       None \<Rightarrow> returnM None
     | Some i \<Rightarrow>
         bindM (liftM (check_replayed_descriptor rq i)) (\<lambda>_.
         if ri_state i \<in> {RpcAccepted, RpcReconciled} then
           bindM (query env ''dispatch binding'' (\<lambda>db. find (\<lambda>b. bd_spawn (fst b) = dr_spawn rq) (dt_bindings db))) (\<lambda>b.
           bindM (requireM (map_option fst b = Some (binding_of rq))
             ''conflicting reuse of sessions_spawn allow lease identity binding'') (\<lambda>_.
           bindM (accepted_spawn_replay_session_key env rq (ri_external i)) (\<lambda>session_key.
           bindM (query env ''dispatch lease'' (dispatch_lease rq)) (\<lambda>lease.
           case lease of
             None \<Rightarrow> raiseM (RuntimeDispatchError ''conflicting reuse of sessions_spawn allow lease identity'')
           | Some g \<Rightarrow> returnM (Some \<lparr>res_session = session_key, res_gateway = g, res_status = ''replayed''\<rparr>)))))
         else if ri_state i \<in> {RpcPending, RpcUnknown, RpcFailed, RpcReview} then
           raiseM (RuntimeDispatchError (''sessions_spawn replay is already '' @ rpc_state_text (ri_state i) @
             ''; external RPC will not be retried''))
         else returnM None))"

subsection \<open>Checks and inserts of a pending dispatch\<close>

definition assert_no_conflicting_spawn_replay :: "'a dispatch_env \<Rightarrow> dispatch_request \<Rightarrow> ('a, unit) operation" where
  "assert_no_conflicting_spawn_replay env rq =
     bindM (query env ''spawn intents'' (\<lambda>db. filter (\<lambda>i. ri_kind i = SpawnRpc \<and>
       (ri_client i = dr_client rq \<or> ri_key i = dr_key rq)) (dt_intents db))) (\<lambda>rows.
     requireM (list_all (\<lambda>i. same_spawn rq i \<and> ri_key i = dr_key rq) rows)
       ''conflicting reuse of sessions_spawn idempotency key'')"

definition assert_or_insert_spawn_request ::
    "'a dispatch_env \<Rightarrow> dispatch_request \<Rightarrow> string \<Rightarrow> ('a, unit) operation" where
  "assert_or_insert_spawn_request env rq now =
     bindM (query env ''spawn request'' (\<lambda>db. find (\<lambda>sr. sr_id sr = dr_spawn rq) (dt_spawns db))) (\<lambda>row.
     case row of
       Some sr \<Rightarrow>
         requireM (sr_run sr = dr_run rq \<and> sr_phase sr = dr_phase rq \<and> sr_agent sr = dr_agent rq \<and>
           sr_transition sr = dr_transition rq \<and> sr_client sr = dr_client rq \<and> sr_key sr = dr_key rq \<and>
           sr_digest sr = dr_digest rq \<and> sr_state sr = SpawnPending) ''conflicting reuse of spawn_request_id''
     | None \<Rightarrow>
         modify env ''insert spawn request'' (\<lambda>db. db\<lparr>dt_spawns := dt_spawns db @
           [\<lparr>sr_id = dr_spawn rq, sr_run = dr_run rq, sr_phase = dr_phase rq, sr_agent = dr_agent rq,
             sr_transition = dr_transition rq, sr_client = dr_client rq, sr_key = dr_key rq, sr_digest = dr_digest rq,
             sr_state = SpawnPending, sr_session = None, sr_dispatch_run = None, sr_version = None,
             sr_observed_at = None, sr_json = None, sr_reason = None, sr_created = now, sr_updated = now\<rparr>]\<rparr>))"

definition pending_lease :: "dispatch_request \<Rightarrow> string \<Rightarrow> lease_row \<Rightarrow> bool" where
  "pending_lease rq lease_id l \<longleftrightarrow>
     le_id l = lease_id \<and> le_run l = dr_run rq \<and> le_phase l = dr_phase rq \<and> le_transition l = dr_transition rq \<and>
     le_agent l = dr_agent rq \<and> le_requester l = dr_requester rq \<and> le_state l = AcquirePending \<and>
     le_client l = dr_client_lease rq \<and> le_acquire l = dr_acquire rq \<and> le_release l = Some (dr_release rq) \<and>
     le_ttl l = dr_ttl rq"

definition assert_or_insert_lease ::
    "'a dispatch_env \<Rightarrow> dispatch_request \<Rightarrow> string \<Rightarrow> string \<Rightarrow> int \<Rightarrow> string \<Rightarrow> ('a, unit) operation" where
  "assert_or_insert_lease env rq now expires expires_ms lease_id =
     bindM (query env ''leases'' (\<lambda>db. filter (\<lambda>l. le_id l = lease_id \<or> le_client l = dr_client_lease rq \<or>
       le_acquire l = dr_acquire rq) (dt_leases db))) (\<lambda>rows.
     if rows \<noteq> []
     then requireM (length rows = 1 \<and> pending_lease rq lease_id (hd rows)) ''conflicting reuse of allow lease identity''
     else
       modify env ''insert lease'' (\<lambda>db. db\<lparr>dt_leases := dt_leases db @
         [\<lparr>le_id = lease_id, le_run = dr_run rq, le_phase = dr_phase rq, le_transition = dr_transition rq,
           le_agent = dr_agent rq, le_requester = dr_requester rq, le_state = AcquirePending, le_gateway = None,
           le_client = dr_client_lease rq, le_acquire = dr_acquire rq, le_release = Some (dr_release rq),
           le_ttl = dr_ttl rq, le_version = None, le_observed_at = None, le_json = None,
           le_observed = nothing_observed, le_requested_at = Some now, le_acquired_at = None,
           le_release_requested = None, le_released_at = None, le_expires_at = expires,
           le_expires_ms = expires_ms, le_status = ''not_needed''\<rparr>]\<rparr>))"

text \<open>A new row of \<^verbatim>\<open>external_rpc_intents\<close>: what the three inserts have in common.\<close>

definition new_intent :: "dispatch_request \<Rightarrow> string \<Rightarrow> rpc_kind \<Rightarrow> string \<Rightarrow> string \<Rightarrow> pydict \<Rightarrow> string \<times> int \<Rightarrow> rpc_row" where
  "new_intent rq intent_id kind client key metadata requested =
     \<lparr>ri_id = intent_id, ri_run = dr_run rq, ri_transition = dr_transition rq, ri_kind = kind, ri_spawn = None,
      ri_reserve = None, ri_client = client, ri_key = key, ri_phase = Some (dr_phase rq),
      ri_agent = Some (dr_agent rq), ri_requester = None, ri_ttl = None, ri_digest = None,
      ri_metadata = Some (dumps (PDict metadata)), ri_state = RpcPending, ri_requested_at = fst requested,
      ri_requested_ms = snd requested, ri_version = None, ri_json = None, ri_observed = nothing_observed,
      ri_external = None, ri_accepted_at = None, ri_accepted_ms = None, ri_resolved_at = None, ri_resolved_ms = None\<rparr>"

definition insert_intent :: "'a dispatch_env \<Rightarrow> rpc_row \<Rightarrow> ('a, unit) operation" where
  "insert_intent env i = modify env ''insert intent'' (\<lambda>db. db\<lparr>dt_intents := dt_intents db @ [i]\<rparr>)"

definition assert_or_insert_acquire_intent ::
    "'a dispatch_env \<Rightarrow> dispatch_request \<Rightarrow> string \<times> int \<Rightarrow> ('a, unit) operation" where
  "assert_or_insert_acquire_intent env rq now =
     (let expected = (new_intent rq (''acquire:'' @ dr_acquire rq) AcquireRpc (dr_client_lease rq) (dr_acquire rq)
            (lease_metadata rq ''pending'') now)\<lparr>ri_requester := Some (dr_requester rq), ri_ttl := Some (dr_ttl rq)\<rparr>
      in bindM (query env ''acquire intents'' (\<lambda>db. filter (\<lambda>i. ri_kind i = AcquireRpc \<and>
           (ri_client i = dr_client_lease rq \<or> ri_key i = dr_acquire rq)) (dt_intents db))) (\<lambda>rows.
         if rows \<noteq> []
         then requireM (length rows = 1 \<and> ri_id (hd rows) = ri_id expected \<and> ri_run (hd rows) = ri_run expected \<and>
            ri_transition (hd rows) = ri_transition expected \<and> ri_client (hd rows) = ri_client expected \<and>
            ri_key (hd rows) = ri_key expected \<and> ri_phase (hd rows) = ri_phase expected \<and>
            ri_agent (hd rows) = ri_agent expected \<and> ri_requester (hd rows) = ri_requester expected \<and>
            ri_ttl (hd rows) = ri_ttl expected \<and> ri_metadata (hd rows) = ri_metadata expected \<and>
            ri_state (hd rows) = RpcPending) ''conflicting reuse of allow_lease_acquire identity''
         else insert_intent env expected))"

definition assert_no_release_key_collision :: "'a dispatch_env \<Rightarrow> dispatch_request \<Rightarrow> ('a, unit) operation" where
  "assert_no_release_key_collision env rq =
     bindM (requireM (dr_release rq \<notin> {dr_client_lease rq, dr_acquire rq, dr_client rq, dr_key rq})
       ''conflicting reuse of allow_lease_release identity'') (\<lambda>_.
     bindM (query env ''release key'' (\<lambda>db. list_ex (\<lambda>i. ri_client i = dr_release rq \<or> ri_key i = dr_release rq)
       (dt_intents db))) (\<lambda>taken.
     requireM (\<not> taken) ''conflicting reuse of allow_lease_release identity''))"

definition shares_binding_key :: "dispatch_identity \<Rightarrow> dispatch_identity \<Rightarrow> bool" where
  "shares_binding_key b c \<longleftrightarrow>
     bd_spawn b = bd_spawn c \<or> bd_lease b = bd_lease c \<or> bd_client_lease b = bd_client_lease c \<or>
     bd_acquire b = bd_acquire c \<or> bd_release b = bd_release c \<or> bd_client b = bd_client c \<or> bd_key b = bd_key c"

definition assert_or_insert_dispatch_binding ::
    "'a dispatch_env \<Rightarrow> dispatch_request \<Rightarrow> string \<Rightarrow> ('a, unit) operation" where
  "assert_or_insert_dispatch_binding env rq now =
     bindM (query env ''dispatch bindings'' (\<lambda>db. filter (\<lambda>b. shares_binding_key (fst b) (binding_of rq)) (dt_bindings db))) (\<lambda>rows.
     if rows \<noteq> []
     then requireM (length rows = 1 \<and> fst (hd rows) = binding_of rq) ''conflicting reuse of runtime dispatch binding''
     else modify env ''insert binding'' (\<lambda>db. db\<lparr>dt_bindings := dt_bindings db @ [(binding_of rq, now)]\<rparr>))"

definition strictly_after_requested_time ::
    "'a dispatch_env \<Rightarrow> rpc_kind \<Rightarrow> string \<Rightarrow> ('a, string \<times> int) operation" where
  "strictly_after_requested_time env kind key =
     bindM (query env ''requested time'' (\<lambda>db. find (\<lambda>i. ri_kind i = kind \<and> ri_key i = key) (dt_intents db))) (\<lambda>requested.
     case requested of
       None \<Rightarrow> raiseM (RuntimeDispatchError ''missing requested timestamp for accepted RPC'')
     | Some i \<Rightarrow>
         bindM (now_utc env) (\<lambda>now.
         returnM (utc_from_epoch_ms (max (snd now) (ri_requested_ms i + 1)), max (snd now) (ri_requested_ms i + 1))))"

definition spawn_intent_requested_time ::
    "'a dispatch_env \<Rightarrow> dispatch_request \<Rightarrow> int \<Rightarrow> ('a, string \<times> int) operation" where
  "spawn_intent_requested_time env rq now_ms =
     bindM (query env ''reserve time'' (\<lambda>db. map_of (dt_reserves db) (dr_reserve rq))) (\<lambda>reserve.
     case reserve of
       None \<Rightarrow> raiseM (RuntimeDispatchError ''missing reserve budget event timestamp'')
     | Some created \<Rightarrow> returnM (utc_from_epoch_ms (max now_ms (created + 1)), max now_ms (created + 1)))"

subsection \<open>At most one live dispatch\<close>

text \<open>SQL's \<^verbatim>\<open>LIKE 'p%'\<close> folds the letter case of ASCII.\<close>

definition ascii_lower :: "string \<Rightarrow> string" where
  "ascii_lower s = map (\<lambda>c. let n = (of_char c :: nat) in if 65 \<le> n \<and> n \<le> 90 then char_of (n + 32) else c) s"

definition like_prefix :: "string \<Rightarrow> string \<Rightarrow> bool" where
  "like_prefix s p \<longleftrightarrow> starts_with (ascii_lower s) (ascii_lower p)"

text \<open>The join of an intent with its spawn request, binding and lease.\<close>

definition joined :: "rpc_row \<Rightarrow> request_row \<Rightarrow> dispatch_identity \<Rightarrow> lease_row \<Rightarrow> bool" where
  "joined i sr b l \<longleftrightarrow>
     ri_spawn i = Some (sr_id sr) \<and> sr_run sr = ri_run i \<and> sr_transition sr = ri_transition i \<and>
     ri_phase i = Some (sr_phase sr) \<and> ri_agent i = Some (sr_agent sr) \<and> ri_digest i = Some (sr_digest sr) \<and>
     sr_client sr = ri_client i \<and> sr_key sr = ri_key i \<and>
     bd_spawn b = sr_id sr \<and> bd_run b = sr_run sr \<and> bd_transition b = sr_transition sr \<and> bd_phase b = sr_phase sr \<and>
     bd_agent b = sr_agent sr \<and> bd_digest b = sr_digest sr \<and> ri_reserve i = Some (bd_reserve b) \<and>
     bd_client b = sr_client sr \<and> bd_key b = sr_key sr \<and>
     le_id l = bd_lease b \<and> le_run l = bd_run b \<and> le_transition l = bd_transition b \<and> le_phase l = bd_phase b \<and>
     le_agent l = bd_agent b \<and> le_requester l = bd_requester b \<and> le_client l = bd_client_lease b \<and>
     le_acquire l = bd_acquire b \<and> le_release l = Some (bd_release b)"

text \<open>
  A dispatch in review is not live when it was blocked before its spawn and its lease is gone. With
  a null \<^verbatim>\<open>ambiguity_reason\<close> the negated condition is null, so the row is not live either.
\<close>

definition blocked_before_spawn :: "request_row \<Rightarrow> lease_row \<Rightarrow> bool" where
  "blocked_before_spawn sr l \<longleftrightarrow>
     sr_state sr = SpawnReview \<and> le_state l \<in> {Released, ReleaseNotRequired, Expired} \<and>
     (case sr_reason sr of None \<Rightarrow> True | Some r \<Rightarrow> like_prefix r ''spawn blocked by allow lease'')"

definition live_row :: "rpc_row \<Rightarrow> request_row \<Rightarrow> lease_row \<Rightarrow> bool" where
  "live_row i sr l \<longleftrightarrow>
     ri_state i \<in> {RpcPending, RpcUnknown, RpcAccepted, RpcReconciled} \<or>
     ri_state i = RpcReview \<and> \<not> blocked_before_spawn sr l"

definition potentially_live :: "dispatch_tables \<Rightarrow> rpc_row \<Rightarrow> bool" where
  "potentially_live db i \<longleftrightarrow>
     ri_kind i = SpawnRpc \<and>
     list_ex (\<lambda>sr. list_ex (\<lambda>b. list_ex (\<lambda>l. joined i sr (fst b) l \<and> live_row i sr l) (dt_leases db))
       (dt_bindings db)) (dt_spawns db)"

definition duplicate_live :: "dispatch_request \<Rightarrow> dispatch_tables \<Rightarrow> bool" where
  "duplicate_live rq db =
     list_ex (\<lambda>i. potentially_live db i \<and> ri_run i = dr_run rq \<and> ri_phase i = Some (dr_phase rq) \<and>
       ri_agent i = Some (dr_agent rq) \<and> sql_neq (ri_spawn i) (dr_spawn rq)) (dt_intents db)"

definition assert_no_potentially_live_dispatch :: "'a dispatch_env \<Rightarrow> dispatch_request \<Rightarrow> ('a, unit) operation" where
  "assert_no_potentially_live_dispatch env rq =
     bindM (query env ''live dispatches'' (duplicate_live rq)) (\<lambda>duplicate.
     requireM (\<not> duplicate) ''duplicate live dispatch for run, phase, and agent is blocked'')"

definition insert_pending_dispatch :: "'a dispatch_env \<Rightarrow> dispatch_request \<Rightarrow> ('a, unit) operation" where
  "insert_pending_dispatch env rq =
     bindM (assert_no_conflicting_spawn_replay env rq) (\<lambda>_.
     bindM (assert_no_release_key_collision env rq) (\<lambda>_.
     bindM (assert_no_potentially_live_dispatch env rq) (\<lambda>_.
     bindM (now_utc env) (\<lambda>now.
     bindM (spawn_intent_requested_time env rq (snd now)) (\<lambda>spawn_requested.
     bindM (assert_or_insert_spawn_request env rq (fst now)) (\<lambda>_.
     bindM (assert_or_insert_lease env rq (fst now) (utc_from_epoch_ms (snd now + dr_ttl rq))
       (snd now + dr_ttl rq) (lease_id_of rq)) (\<lambda>_.
     bindM (assert_or_insert_acquire_intent env rq now) (\<lambda>_.
     bindM (assert_or_insert_dispatch_binding env rq (fst now)) (\<lambda>_.
     bindM (liftM (spawn_descriptor_metadata rq)) (\<lambda>descriptor.
     insert_intent env ((new_intent rq (''spawn:'' @ dr_key rq) SpawnRpc (dr_client rq) (dr_key rq) descriptor
       spawn_requested)\<lparr>ri_spawn := Some (dr_spawn rq), ri_reserve := Some (dr_reserve rq),
         ri_digest := Some (dr_digest rq)\<rparr>)))))))))))"

end
