(* ===== verification/DispatchPersist.thy ===== *)
theory DispatchPersist
  imports DispatchSteps
begin

section \<open>Recording outcomes of a dispatch (\<^verbatim>\<open>runtime_dispatch.py\<close>)\<close>

text \<open>
  What is written after the adapter answered or failed: acceptance, review, uncertainty, and the
  release of the lease. A write that leaves some columns of external metadata alone keeps them.
\<close>

definition observe_lease :: "observed_columns \<Rightarrow> observed_columns \<Rightarrow> observed_columns" where
  "observe_lease c old = c\<lparr>ob_digest := ob_digest old\<rparr>"

definition observe_session :: "observed_columns \<Rightarrow> observed_columns \<Rightarrow> observed_columns" where
  "observe_session c old = c\<lparr>ob_requester := ob_requester old, ob_ttl := ob_ttl old\<rparr>"

definition observe_release :: "observed_columns \<Rightarrow> observed_columns \<Rightarrow> observed_columns" where
  "observe_release c old = c\<lparr>ob_digest := ob_digest old, ob_ttl := ob_ttl old\<rparr>"

text \<open>\<^verbatim>\<open>COALESCE(column, value)\<close>.\<close>

definition coalesce :: "'c option \<Rightarrow> 'c option \<Rightarrow> 'c option" where
  "coalesce a b = (case a of None \<Rightarrow> b | Some _ \<Rightarrow> a)"

definition is_open :: "rpc_state \<Rightarrow> bool" where
  "is_open s \<longleftrightarrow> s = RpcPending \<or> s = RpcUnknown"

definition lease_observed ::
    "dispatch_request \<Rightarrow> observation \<Rightarrow> string \<Rightarrow> exn + observed_columns" where
  "lease_observed rq obs gateway_lease_id =
     bindE (validate_allow_lease_observation (lease_metadata rq gateway_lease_id) (obs_normalized obs)
              (obs_raw_json obs) (obs_version obs)) lease_columns"

definition persist_acquired_lease ::
    "'a dispatch_env \<Rightarrow> dispatch_request \<Rightarrow> observation \<Rightarrow> string \<Rightarrow> bool \<Rightarrow> ('a, unit) operation" where
  "persist_acquired_lease env rq obs gateway_lease_id reconciled =
     bindM (strictly_after_requested_time env AcquireRpc (dr_acquire rq)) (\<lambda>now.
     bindM (liftM (lease_observed rq obs gateway_lease_id)) (\<lambda>observed.
     bindM (update_intents env ''accept acquire''
       (\<lambda>i. ri_kind i = AcquireRpc \<and> ri_key i = dr_acquire rq \<and> is_open (ri_state i))
       (\<lambda>i. i\<lparr>ri_state := (if reconciled then RpcReconciled else RpcAccepted), ri_version := obs_version obs,
          ri_json := obs_raw_json obs, ri_observed := observe_lease observed (ri_observed i),
          ri_external := Some gateway_lease_id, ri_accepted_at := coalesce (ri_accepted_at i) (Some (fst now)),
          ri_accepted_ms := coalesce (ri_accepted_ms i) (Some (snd now))\<rparr>)) (\<lambda>n.
     bindM (requireM (n = 1) ''allow_lease_acquire intent update did not match exactly one row'') (\<lambda>_.
     bindM (update_leases env ''acquire lease''
       (\<lambda>l. le_client l = dr_client_lease rq \<and> le_state l = AcquirePending \<and> le_gateway l = None)
       (\<lambda>l. l\<lparr>le_state := Acquired, le_gateway := Some gateway_lease_id, le_version := obs_version obs,
          le_observed_at := Some (fst now), le_json := obs_raw_json obs,
          le_observed := observe_lease observed (le_observed l), le_acquired_at := Some (fst now)\<rparr>)) (\<lambda>m.
     requireM (m = 1) ''allow_lease_acquire lease update did not match exactly one row'')))))"

definition persist_unknown_acquired_lease_candidate ::
    "'a dispatch_env \<Rightarrow> dispatch_request \<Rightarrow> observation \<Rightarrow> string \<Rightarrow> string \<Rightarrow> ('a, unit) operation" where
  "persist_unknown_acquired_lease_candidate env rq obs gateway_lease_id reason =
     bindM (now_utc env) (\<lambda>now.
     bindM (liftM (lease_observed rq obs gateway_lease_id)) (\<lambda>observed.
     bindM (update_intents env ''unknown acquire candidate''
       (\<lambda>i. ri_kind i = AcquireRpc \<and> ri_key i = dr_acquire rq \<and>
          ri_state i \<notin> {RpcAccepted, RpcReconciled, RpcReview, RpcFailed})
       (\<lambda>i. i\<lparr>ri_state := RpcUnknown, ri_resolved_at := Some (fst now), ri_resolved_ms := Some (snd now),
          ri_version := obs_version obs, ri_json := obs_raw_json obs,
          ri_observed := observe_lease observed (ri_observed i), ri_external := Some gateway_lease_id\<rparr>)) (\<lambda>_.
     bindM (update_leases env ''unknown lease candidate''
       (\<lambda>l. le_client l = dr_client_lease rq \<and> le_gateway l = None \<and> le_state l = AcquirePending)
       (\<lambda>l. l\<lparr>le_status := reason\<rparr>)) (\<lambda>_. returnM ()))))"

definition rpc_key :: "dispatch_request \<Rightarrow> rpc_kind \<Rightarrow> string" where
  "rpc_key rq kind = (if kind = AcquireRpc then dr_acquire rq else dr_key rq)"

definition mark_human_review ::
    "'a dispatch_env \<Rightarrow> dispatch_request \<Rightarrow> rpc_kind \<Rightarrow> string \<Rightarrow> ('a, unit) operation" where
  "mark_human_review env rq kind reason =
     bindM (now_utc env) (\<lambda>now.
     bindM (update_intents env ''intent in review''
       (\<lambda>i. ri_kind i = kind \<and> ri_key i = rpc_key rq kind \<and>
          ri_state i \<notin> {RpcAccepted, RpcReconciled, RpcReview, RpcFailed})
       (\<lambda>i. i\<lparr>ri_state := RpcReview, ri_resolved_at := Some (fst now), ri_resolved_ms := Some (snd now)\<rparr>)) (\<lambda>_.
     if kind = SpawnRpc then
       bindM (update_spawns env ''spawn in review''
         (\<lambda>sr. sr_id sr = dr_spawn rq \<and> sr_state sr \<notin> {SpawnAccepted, SpawnCompleted, SpawnReview, SpawnFailed})
         (\<lambda>sr. sr\<lparr>sr_state := SpawnReview, sr_reason := Some reason, sr_updated := fst now\<rparr>)) (\<lambda>_. returnM ())
     else
       bindM (update_leases env ''lease in review''
         (\<lambda>l. le_client l = dr_client_lease rq \<and> le_gateway l = None \<and>
            le_state l \<notin> {Acquired, Released, LeaseReview})
         (\<lambda>l. l\<lparr>le_state := LeaseReview, le_status := reason\<rparr>)) (\<lambda>_. returnM ())))"

definition expire_locally_expired_lease_before_spawn ::
    "'a dispatch_env \<Rightarrow> dispatch_request \<Rightarrow> string \<Rightarrow> ('a, bool) operation" where
  "expire_locally_expired_lease_before_spawn env rq gateway_lease_id =
     (let owned = (\<lambda>l. le_client l = dr_client_lease rq \<and> le_run l = dr_run rq \<and> le_transition l = dr_transition rq \<and>
            le_gateway l = Some gateway_lease_id \<and> le_state l = Acquired)
      in bindM (query env ''lease expiry'' (\<lambda>db. find owned (dt_leases db))) (\<lambda>row.
         case row of
           None \<Rightarrow> raiseM (RuntimeDispatchError ''missing acquired lease expiry before sessions_spawn'')
         | Some lease \<Rightarrow>
             bindM (now_utc env) (\<lambda>now.
             if le_expires_ms lease > snd now then returnM False
             else
               bindM (update_leases env ''expire lease'' owned
                 (\<lambda>l. l\<lparr>le_state := Expired, le_status := ''lease expired before sessions_spawn''\<rparr>)) (\<lambda>n.
               bindM (requireM (n = 1) ''expired lease update did not match exactly one row'') (\<lambda>_.
               bindM (mark_human_review env rq SpawnRpc ''spawn blocked by locally expired allow lease'') (\<lambda>_.
               returnM True))))))"

definition session_observed :: "dispatch_request \<Rightarrow> observation \<Rightarrow> exn + observed_columns" where
  "session_observed rq obs =
     bindE (validate_session_observation (spawn_metadata rq) (obs_normalized obs) (obs_raw_json obs) (obs_version obs))
       (\<lambda>d. session_columns (str_dict d))"

definition persist_spawn_acceptance ::
    "'a dispatch_env \<Rightarrow> dispatch_request \<Rightarrow> observation \<Rightarrow> string \<Rightarrow> bool \<Rightarrow> ('a, unit) operation" where
  "persist_spawn_acceptance env rq obs session_key reconciled =
     bindM (assert_no_potentially_live_dispatch env rq) (\<lambda>_.
     bindM (strictly_after_requested_time env SpawnRpc (dr_key rq)) (\<lambda>now.
     bindM (liftM (session_observed rq obs)) (\<lambda>observed.
     bindM (update_intents env ''accept spawn''
       (\<lambda>i. ri_kind i = SpawnRpc \<and> ri_key i = dr_key rq \<and> is_open (ri_state i))
       (\<lambda>i. i\<lparr>ri_state := (if reconciled then RpcReconciled else RpcAccepted), ri_version := obs_version obs,
          ri_json := obs_raw_json obs, ri_observed := observe_session observed (ri_observed i),
          ri_external := Some session_key, ri_accepted_at := coalesce (ri_accepted_at i) (Some (fst now)),
          ri_accepted_ms := coalesce (ri_accepted_ms i) (Some (snd now))\<rparr>)) (\<lambda>n.
     bindM (requireM (n = 1) ''sessions_spawn intent update did not match exactly one row'') (\<lambda>_.
     bindM (update_spawns env ''spawn session key''
       (\<lambda>sr. sr_id sr = dr_spawn rq \<and> sr_state sr \<in> {SpawnPending, SpawnUnknown} \<and>
          (sr_session sr = None \<or> sr_session sr = Some []))
       (\<lambda>sr. sr\<lparr>sr_session := Some session_key, sr_dispatch_run := Some session_key, sr_version := obs_version obs,
          sr_observed_at := Some (fst now), sr_json := obs_raw_json obs, sr_updated := fst now\<rparr>)) (\<lambda>m.
     bindM (requireM (m = 1) ''sessions_spawn request update did not match exactly one row'') (\<lambda>_.
     bindM (modify env ''insert session'' (\<lambda>db. db\<lparr>dt_sessions := dt_sessions db @
       [\<lparr>rs_id = ''session:'' @ session_key, rs_spawn = dr_spawn rq, rs_run = dr_run rq,
         rs_transition = dr_transition rq, rs_phase = dr_phase rq, rs_agent = dr_agent rq, rs_client = dr_client rq,
         rs_key = dr_key rq, rs_session = session_key, rs_digest = dr_digest rq, rs_status = obs_status_json obs,
         rs_state = ''running'', rs_spawned = fst now\<rparr>]\<rparr>)) (\<lambda>_.
     bindM (update_spawns env ''accept spawn request''
       (\<lambda>sr. sr_id sr = dr_spawn rq \<and> sr_state sr \<in> {SpawnPending, SpawnUnknown} \<and> sr_session sr = Some session_key)
       (\<lambda>sr. sr\<lparr>sr_state := SpawnAccepted, sr_updated := fst now\<rparr>)) (\<lambda>k.
     requireM (k = 1) ''sessions_spawn acceptance did not match exactly one row'')))))))))"

definition persist_ambiguous_spawn_candidate ::
    "'a dispatch_env \<Rightarrow> dispatch_request \<Rightarrow> observation \<Rightarrow> ('a, unit) operation" where
  "persist_ambiguous_spawn_candidate env rq obs =
     (if obs_external_id obs = None \<or> obs_external_id obs = Some [] then returnM ()
      else
        bindM (liftM (case session_observed rq obs of
                        Inr c \<Rightarrow> Inr (Some c)
                      | Inl e \<Rightarrow> (if contract_failure e then Inr None else Inl e))) (\<lambda>observed.
        bindM (update_intents env ''spawn candidate''
          (\<lambda>i. ri_kind i = SpawnRpc \<and> ri_key i = dr_key rq \<and> ri_state i = RpcReview)
          (\<lambda>i. i\<lparr>ri_version := coalesce (obs_version obs) (ri_version i),
             ri_json := (if observed = None then ri_json i else coalesce (obs_raw_json obs) (ri_json i)),
             ri_observed := (case observed of None \<Rightarrow> ri_observed i | Some c \<Rightarrow> observe_session c (ri_observed i)),
             ri_external := obs_external_id obs\<rparr>)) (\<lambda>_. returnM ())))"

definition mark_unknown ::
    "'a dispatch_env \<Rightarrow> dispatch_request \<Rightarrow> rpc_kind \<Rightarrow> string \<Rightarrow> ('a, unit) operation" where
  "mark_unknown env rq kind reason =
     bindM (now_utc env) (\<lambda>now.
     bindM (update_intents env ''intent unknown''
       (\<lambda>i. ri_kind i = kind \<and> ri_key i = rpc_key rq kind \<and>
          ri_state i \<notin> {RpcAccepted, RpcReconciled, RpcReview, RpcFailed})
       (\<lambda>i. i\<lparr>ri_state := RpcUnknown, ri_resolved_at := Some (fst now), ri_resolved_ms := Some (snd now)\<rparr>)) (\<lambda>_.
     if kind = SpawnRpc then
       bindM (update_spawns env ''spawn unknown''
         (\<lambda>sr. sr_id sr = dr_spawn rq \<and> sr_state sr \<notin> {SpawnAccepted, SpawnCompleted, SpawnReview, SpawnFailed})
         (\<lambda>sr. sr\<lparr>sr_state := SpawnUnknown, sr_reason := Some reason, sr_updated := fst now\<rparr>)) (\<lambda>_. returnM ())
     else
       bindM (update_leases env ''lease unknown''
         (\<lambda>l. le_client l = dr_client_lease rq \<and> le_gateway l = None)
         (\<lambda>l. l\<lparr>le_status := reason\<rparr>)) (\<lambda>_. returnM ())))"

subsection \<open>Releasing the lease\<close>

definition owned_lease :: "dispatch_request \<Rightarrow> string \<Rightarrow> lease_row \<Rightarrow> bool" where
  "owned_lease rq gateway_lease_id l \<longleftrightarrow>
     le_client l = dr_client_lease rq \<and> le_run l = dr_run rq \<and> le_transition l = dr_transition rq \<and>
     le_gateway l = Some gateway_lease_id"

definition mark_owned_lease_release_review ::
    "'a dispatch_env \<Rightarrow> dispatch_request \<Rightarrow> string \<Rightarrow> string \<Rightarrow> ('a, unit) operation" where
  "mark_owned_lease_release_review env rq gateway_lease_id reason =
     bindM (now_utc env) (\<lambda>now.
     bindM (update_intents env ''release in review''
       (\<lambda>i. ri_kind i = ReleaseRpc \<and> ri_key i = dr_release rq \<and> ri_state i \<notin> {RpcAccepted, RpcReconciled})
       (\<lambda>i. i\<lparr>ri_state := RpcReview, ri_resolved_at := Some (fst now), ri_resolved_ms := Some (snd now)\<rparr>)) (\<lambda>_.
     bindM (update_leases env ''lease release in review'' (owned_lease rq gateway_lease_id)
       (\<lambda>l. l\<lparr>le_release := Some (dr_release rq), le_release_requested := Some (fst now), le_status := reason\<rparr>))
       (\<lambda>_. returnM ())))"

definition mark_owned_lease_release_unknown ::
    "'a dispatch_env \<Rightarrow> dispatch_request \<Rightarrow> string \<Rightarrow> string \<Rightarrow> ('a, unit) operation" where
  "mark_owned_lease_release_unknown env rq gateway_lease_id reason =
     bindM (now_utc env) (\<lambda>now.
     bindM (update_intents env ''release unknown''
       (\<lambda>i. ri_kind i = ReleaseRpc \<and> ri_key i = dr_release rq \<and>
          ri_state i \<notin> {RpcAccepted, RpcReconciled, RpcReview, RpcFailed})
       (\<lambda>i. i\<lparr>ri_state := RpcUnknown, ri_resolved_at := Some (fst now), ri_resolved_ms := Some (snd now)\<rparr>)) (\<lambda>_.
     bindM (update_leases env ''lease release unknown''
       (\<lambda>l. owned_lease rq gateway_lease_id l \<and> le_state l \<in> {Acquired, ReleasePending})
       (\<lambda>l. l\<lparr>le_state := ReleasePending, le_release := Some (dr_release rq),
          le_release_requested := coalesce (le_release_requested l) (Some (fst now)), le_status := reason\<rparr>))
       (\<lambda>_. returnM ())))"

definition prepare_owned_lease_release ::
    "'a dispatch_env \<Rightarrow> dispatch_request \<Rightarrow> string \<Rightarrow> ('a, unit) operation" where
  "prepare_owned_lease_release env rq gateway_lease_id =
     bindM (query env ''owned lease'' (\<lambda>db. find (\<lambda>l. le_client l = dr_client_lease rq \<and> le_run l = dr_run rq \<and>
       le_transition l = dr_transition rq) (dt_leases db))) (\<lambda>row.
     bindM (requireM (map_option (\<lambda>l. (le_state l, le_gateway l)) row = Some (Acquired, Some gateway_lease_id))
       ''refusing to release a lease not exactly owned by this run'') (\<lambda>_.
     bindM (now_utc env) (\<lambda>now.
     bindM (update_leases env ''lease release pending''
       (\<lambda>l. owned_lease rq gateway_lease_id l \<and> le_state l = Acquired)
       (\<lambda>l. l\<lparr>le_state := ReleasePending, le_release := Some (dr_release rq), le_release_requested := Some (fst now),
          le_status := ''release_pending''\<rparr>)) (\<lambda>n.
     bindM (requireM (n = 1) ''release_pending lease update did not match exactly one row'') (\<lambda>_.
     insert_intent env ((new_intent rq (''release:'' @ dr_release rq) ReleaseRpc (dr_release rq) (dr_release rq)
       (release_rpc_metadata rq gateway_lease_id) now)\<lparr>ri_requester := Some (dr_requester rq)\<rparr>))))))"

definition persist_released_lease ::
    "'a dispatch_env \<Rightarrow> dispatch_request \<Rightarrow> observation \<Rightarrow> string \<Rightarrow> bool \<Rightarrow> ('a, unit) operation" where
  "persist_released_lease env rq obs gateway_lease_id reconciled =
     bindM (liftM (validate_allow_lease_release_observation (release_rpc_metadata rq gateway_lease_id)
       (obs_normalized obs) (obs_raw_json obs) (obs_version obs))) (\<lambda>d.
     bindM (strictly_after_requested_time env ReleaseRpc (dr_release rq)) (\<lambda>now.
     bindM (liftM (case obs_raw_json obs of
                     None \<Rightarrow> Inl (TypeError ''the JSON object must be str'')
                   | Some raw \<Rightarrow> release_storage_metadata_json raw (dr_release rq))) (\<lambda>storage.
     bindM (liftM (release_columns (str_dict d))) (\<lambda>observed.
     bindM (liftM (text_column (str_dict d) ''gateway_lease_id'')) (\<lambda>gateway.
     bindM (update_intents env ''accept release''
       (\<lambda>i. ri_kind i = ReleaseRpc \<and> ri_key i = dr_release rq \<and> is_open (ri_state i))
       (\<lambda>i. i\<lparr>ri_state := (if reconciled then RpcReconciled else RpcAccepted), ri_version := obs_version obs,
          ri_json := Some storage, ri_observed := observe_release observed (ri_observed i),
          ri_external := gateway, ri_accepted_at := Some (fst now), ri_accepted_ms := Some (snd now)\<rparr>)) (\<lambda>n.
     bindM (requireM (n = 1) ''allow_lease_release intent update did not match exactly one row'') (\<lambda>_.
     bindM (update_leases env ''release lease''
       (\<lambda>l. owned_lease rq gateway_lease_id l \<and> le_state l = ReleasePending)
       (\<lambda>l. l\<lparr>le_state := Released, le_released_at := Some (fst now), le_status := ''not_needed''\<rparr>)) (\<lambda>m.
     requireM (m = 1) ''released lease update did not match exactly one row''))))))))"

definition release_owned_lease ::
    "'a dispatch_env \<Rightarrow> dispatch_request \<Rightarrow> string \<Rightarrow> ('a, unit) operation" where
  "release_owned_lease env rq gateway_lease_id =
     bindM (immediate_transaction env (prepare_owned_lease_release env rq gateway_lease_id)) (\<lambda>_.
     bindM (call_adapter ReleaseCall (dp_release env) (release_rpc_metadata rq gateway_lease_id)) (\<lambda>obs.
     immediate_transaction env (persist_released_lease env rq obs gateway_lease_id False)))"

end
