(* ===== verification/RuntimeDispatch.thy ===== *)
theory RuntimeDispatch
  imports DispatchPersist
begin

section \<open>Dispatching with metadata (\<^verbatim>\<open>runtime_dispatch.py\<close>)\<close>

text \<open>
  \<open>dispatch_with_metadata\<close> composes the transactions and the adapter calls: the pending rows are
  committed first, then the lease is acquired, then the session is spawned; each outcome is
  recorded in a transaction of its own. An \<^verbatim>\<open>except\<close> clause is a function of the exception.
\<close>

subsection \<open>Opening the database\<close>

definition open_pragma :: "'a dispatch_env \<Rightarrow> string \<Rightarrow> exn + string option" where
  "open_pragma env name = (case dp_pragma env name of Inl e \<Rightarrow> Inl (sql_exn e) | Inr row \<Rightarrow> Inr row)"

definition verification_failed :: "exn \<Rightarrow> exn" where
  "verification_failed e =
     (if sqlite_error e \<or> (case e of MigrationError _ \<Rightarrow> True | _ \<Rightarrow> False)
      then RuntimeDispatchError ''runtime dispatch database schema verification failed'' else e)"

definition connect_runtime_db :: "'a dispatch_env \<Rightarrow> exn + unit" where
  "connect_runtime_db env =
     bindE (dp_path env) (\<lambda>database.
     bindE (mapErr (\<lambda>e. case e of
         PrivacyPreflightError _ \<Rightarrow> RuntimeDispatchError ''runtime dispatch database privacy preflight failed''
       | _ \<Rightarrow> e) (bindE (dp_root env) (\<lambda>root. assert_privacy_preflight (dp_git env) root [database]))) (\<lambda>_.
     if dp_open env \<noteq> None then Inl (RuntimeDispatchError ''runtime dispatch database open failed'')
     else
       bindE (open_pragma env ''PRAGMA busy_timeout=10000'') (\<lambda>_.
       bindE (open_pragma env ''PRAGMA journal_mode=WAL'') (\<lambda>mode.
       if map_option casefold mode \<noteq> Some ''wal''
       then Inl (RuntimeDispatchError ''SQLite WAL journal mode is unavailable'')
       else
         bindE (open_pragma env ''PRAGMA foreign_keys=ON'') (\<lambda>_.
         bindE (open_pragma env ''PRAGMA foreign_keys'') (\<lambda>enabled.
         case enabled of
           None \<Rightarrow> Inl (TypeError ''NoneType object is not subscriptable'')
         | Some value \<Rightarrow>
             if value \<noteq> ''1'' then Inl (RuntimeDispatchError ''SQLite foreign key enforcement is unavailable'')
             else mapErr verification_failed (dp_verify env)))))))"

subsection \<open>The lease\<close>

text \<open>\<^verbatim>\<open>except MetadataContractError\<close> around a write that validates first.\<close>

definition on_contract_failure ::
    "('a, unit) operation \<Rightarrow> (exn \<Rightarrow> ('a, unit) operation) \<Rightarrow> ('a, unit) operation" where
  "on_contract_failure m h = catchM m (\<lambda>e. if contract_failure e then h e else raiseM e)"

definition record_ambiguous_acquire ::
    "'a dispatch_env \<Rightarrow> dispatch_request \<Rightarrow> exn \<Rightarrow> ('a, unit) operation" where
  "record_ambiguous_acquire env rq e =
     bindM (case candidate_of e of
              Some candidate \<Rightarrow>
                on_contract_failure
                  (bindM (liftM (validate_accepted_lease_identity (obs_external_id candidate) None)) (\<lambda>g.
                   persist_unknown_acquired_lease_candidate env rq candidate g
                     (''ambiguous allow lease candidate preserved for human reconciliation: '' @ exn_text e)))
                  (\<lambda>_. mark_unknown env rq AcquireRpc (exn_text e))
            | None \<Rightarrow> mark_unknown env rq AcquireRpc (exn_text e)) (\<lambda>_.
     mark_human_review env rq SpawnRpc ''spawn blocked by allow lease transport uncertainty'')"

text \<open>\<open>acquired\<close> is the observation and the lease identity, when the failure came after both.\<close>

definition record_failed_acquire ::
    "'a dispatch_env \<Rightarrow> dispatch_request \<Rightarrow> (observation \<times> string) option \<Rightarrow> exn \<Rightarrow> ('a, unit) operation" where
  "record_failed_acquire env rq acquired e =
     bindM (case acquired of
              Some (obs, g) \<Rightarrow>
                on_contract_failure
                  (persist_unknown_acquired_lease_candidate env rq obs g
                     (''validated allow lease candidate after local persistence failure: '' @ exn_text e))
                  (\<lambda>_. mark_human_review env rq AcquireRpc (exn_text e))
            | None \<Rightarrow> mark_human_review env rq AcquireRpc (exn_text e)) (\<lambda>_.
     mark_human_review env rq SpawnRpc ''spawn blocked by allow lease metadata failure'')"

definition acquire_failed ::
    "'a dispatch_env \<Rightarrow> dispatch_request \<Rightarrow> (observation \<times> string) option \<Rightarrow> exn \<Rightarrow> ('a, 'b) operation" where
  "acquire_failed env rq acquired e =
     (if ambiguous_transport_error e then
        bindM (immediate_transaction env (record_ambiguous_acquire env rq e)) (\<lambda>_.
        raiseM (RuntimeDispatchError ''allow lease transport outcome unknown''))
      else if metadata_runtime_error e then
        bindM (immediate_transaction env (record_failed_acquire env rq acquired e)) (\<lambda>_.
        raiseM (RuntimeDispatchError ''allow lease metadata validation failed''))
      else raiseM e)"

definition acquire_lease :: "'a dispatch_env \<Rightarrow> dispatch_request \<Rightarrow> ('a, string) operation" where
  "acquire_lease env rq =
     bindM (catchM (call_adapter AcquireCall (dp_acquire env) (acquire_rpc_params rq))
              (acquire_failed env rq None)) (\<lambda>obs.
     bindM (catchM (liftM (validate_accepted_lease_identity (obs_external_id obs) None))
              (acquire_failed env rq None)) (\<lambda>g.
     bindM (catchM (immediate_transaction env (persist_acquired_lease env rq obs g False))
              (acquire_failed env rq (Some (obs, g)))) (\<lambda>_. returnM g)))"

subsection \<open>The session\<close>

text \<open>A contract failure after the spawn call becomes an ambiguous outcome.\<close>

definition accept_spawn ::
    "'a dispatch_env \<Rightarrow> dispatch_request \<Rightarrow> observation \<Rightarrow> ('a, string) operation" where
  "accept_spawn env rq obs =
     catchM
       (bindM (liftM (validate_accepted_session_identity (obs_external_id obs) (obs_spawn_session_key obs)
                (obs_session_key obs) None)) (\<lambda>session_key.
        bindM (immediate_transaction env (persist_spawn_acceptance env rq obs session_key False)) (\<lambda>_.
        returnM session_key)))
       (\<lambda>e. if contract_failure e
            then raiseM (AdapterAmbiguousOutcomeError (''sessions_spawn returned unverifiable metadata after the '' @
              ''application RPC; observed candidate requires human reconciliation'') (Some obs))
            else raiseM e)"

definition spawn_session_once ::
    "'a dispatch_env \<Rightarrow> dispatch_request \<Rightarrow> string \<Rightarrow> ('a, string) operation" where
  "spawn_session_once env rq g =
     bindM (liftM (spawn_rpc_params rq g)) (\<lambda>params.
     bindM (call_adapter SpawnCall (dp_spawn env) params) (accept_spawn env rq))"

definition release_failed ::
    "'a dispatch_env \<Rightarrow> dispatch_request \<Rightarrow> string \<Rightarrow> exn \<Rightarrow> ('a, unit) operation" where
  "release_failed env rq g e =
     (if ambiguous_transport_error e then
        bindM (immediate_transaction env (mark_owned_lease_release_unknown env rq g (exn_text e))) (\<lambda>_.
        raiseM (RuntimeDispatchError (''sessions_spawn metadata validation failed; '' @
          ''owned lease release outcome unknown'')))
      else if release_failure_error e then
        bindM (immediate_transaction env (mark_owned_lease_release_review env rq g (exn_text e))) (\<lambda>_.
        raiseM (RuntimeDispatchError (''sessions_spawn metadata validation failed; '' @
          ''owned lease release requires human review'')))
      else raiseM e)"

definition record_ambiguous_spawn ::
    "'a dispatch_env \<Rightarrow> dispatch_request \<Rightarrow> exn \<Rightarrow> ('a, unit) operation" where
  "record_ambiguous_spawn env rq e =
     bindM (mark_human_review env rq SpawnRpc (exn_text e)) (\<lambda>_.
       case candidate_of e of
         None \<Rightarrow> returnM ()
       | Some candidate \<Rightarrow> persist_ambiguous_spawn_candidate env rq candidate)"

definition spawn_failed ::
    "'a dispatch_env \<Rightarrow> dispatch_request \<Rightarrow> string \<Rightarrow> exn \<Rightarrow> ('a, 'b) operation" where
  "spawn_failed env rq g e =
     (if ambiguous_transport_error e then
        bindM (immediate_transaction env (record_ambiguous_spawn env rq e)) (\<lambda>_.
        raiseM (RuntimeDispatchError ''sessions_spawn transport outcome unknown; human review required''))
      else if contract_failure e \<or> (case e of AdapterContractError _ \<Rightarrow> True | _ \<Rightarrow> False) then
        bindM (immediate_transaction env (mark_human_review env rq SpawnRpc (exn_text e))) (\<lambda>_.
        bindM (catchM (release_owned_lease env rq g) (release_failed env rq g)) (\<lambda>_.
        raiseM (RuntimeDispatchError (''sessions_spawn failed closed ('' @ exn_text e @ ''); owned lease released''))))
      else if metadata_runtime_error e then
        bindM (immediate_transaction env (mark_human_review env rq SpawnRpc (exn_text e))) (\<lambda>_.
        raiseM (RuntimeDispatchError (''sessions_spawn local persistence failed; '' @
          ''owned lease requires human review'')))
      else raiseM e)"

subsection \<open>The dispatch\<close>

definition begin_dispatch ::
    "'a dispatch_env \<Rightarrow> dispatch_request \<Rightarrow> ('a, dispatch_result option) operation" where
  "begin_dispatch env rq =
     bindM (existing_spawn_replay_result env rq) (\<lambda>existing.
     case existing of
       Some result \<Rightarrow> returnM (Some result)
     | None \<Rightarrow>
         bindM (liftM (validate_transient_spawn_descriptor rq)) (\<lambda>_.
         bindM (insert_pending_dispatch env rq) (\<lambda>_. returnM None)))"

definition dispatch_new ::
    "'a dispatch_env \<Rightarrow> dispatch_request \<Rightarrow> ('a, dispatch_result) operation" where
  "dispatch_new env rq =
     bindM (acquire_lease env rq) (\<lambda>g.
     bindM (immediate_transaction env (expire_locally_expired_lease_before_spawn env rq g)) (\<lambda>expired.
     if expired then raiseM (RuntimeDispatchError ''allow lease expired before sessions_spawn'')
     else
       bindM (catchM (spawn_session_once env rq g) (spawn_failed env rq g)) (\<lambda>session_key.
       returnM \<lparr>res_session = session_key, res_gateway = g, res_status = ''accepted''\<rparr>)))"

definition dispatch_with_metadata ::
    "'a dispatch_env \<Rightarrow> raw_request \<Rightarrow> ('a, dispatch_result) operation" where
  "dispatch_with_metadata env raw =
     bindM (liftM (validate_dispatch_request raw)) (\<lambda>rq.
     bindM (liftM (connect_runtime_db env)) (\<lambda>_.
     bindM (immediate_transaction env (begin_dispatch env rq)) (\<lambda>existing.
     case existing of
       Some result \<Rightarrow> returnM result
     | None \<Rightarrow> dispatch_new env rq)))"

end
