(* ===== verification/DispatchFacts.thy ===== *)
theory DispatchFacts
  imports RuntimeDispatch
begin

section \<open>How a dispatch changes the tables\<close>

text \<open>
  After its first transaction a dispatch only moves rows along fixed state machines and appends
  sessions and release intents (\<open>moves\<close>); its first transaction appends the pending rows. The rules
  that carry such a relation through sequencing, \<^verbatim>\<open>except\<close> clauses and transactions are proved once,
  in a locale.
\<close>

subsection \<open>Relations every operation keeps\<close>

definition keeps :: "('a world \<Rightarrow> 'a world \<Rightarrow> bool) \<Rightarrow> ('a, 'b) operation \<Rightarrow> bool" where
  "keeps R m \<longleftrightarrow> (\<forall>w r w'. m w = (r, w') \<longrightarrow> R w w')"

lemma keepsI: "(\<And>w r w'. m w = (r, w') \<Longrightarrow> R w w') \<Longrightarrow> keeps R m"
  by (auto simp: keeps_def)

lemma keepsD: "keeps R m \<Longrightarrow> m w = (r, w') \<Longrightarrow> R w w'"
  by (auto simp: keeps_def)

locale world_relation =
  fixes R :: "'a world \<Rightarrow> 'a world \<Rightarrow> bool"
  assumes refl: "R w w"
    and trans: "R w1 w2 \<Longrightarrow> R w2 w3 \<Longrightarrow> R w1 w3"
    and tick: "R w (w\<lparr>w_ticks := n\<rparr>)"
    and rollback: "R w w' \<Longrightarrow> R w (w'\<lparr>w_db := w_db w\<rparr>)"
begin

lemma keeps_basic:
  "keeps R (returnM x)" "keeps R (raiseM e)" "keeps R (liftM v)" "keeps R (readM f)"
  "keeps R (requireM ok m)" "keeps R (query env l q)" "keeps R (now_utc env)"
  using refl tick
  by (auto simp: keeps_def requireM_def query_def now_utc_def Let_def split: option.splits if_splits)

lemma keeps_bind:
  assumes "keeps R m" "\<And>x. keeps R (f x)"
  shows "keeps R (bindM m f)"
proof (rule keepsI)
  fix w r w' assume run: "bindM m f w = (r, w')"
  obtain r1 w1 where first: "m w = (r1, w1)" by (cases "m w") auto
  have before: "R w w1" using assms(1) first by (rule keepsD)
  show "R w w'"
  proof (cases r1)
    case (Inl e)
    then show ?thesis using run first before by (simp add: bindM_def)
  next
    case (Inr x)
    then have "R w1 w'" using run first keepsD [OF assms(2)] by (simp add: bindM_def)
    with before show ?thesis by (rule trans)
  qed
qed

lemma keeps_catch:
  assumes "keeps R m" "\<And>e. keeps R (h e)"
  shows "keeps R (catchM m h)"
proof (rule keepsI)
  fix w r w' assume run: "catchM m h w = (r, w')"
  obtain r1 w1 where first: "m w = (r1, w1)" by (cases "m w") auto
  have before: "R w w1" using assms(1) first by (rule keepsD)
  show "R w w'"
  proof (cases r1)
    case (Inl e)
    then have "R w1 w'" using run first keepsD [OF assms(2)] by (simp add: catchM_def)
    with before show ?thesis by (rule trans)
  next
    case (Inr x)
    then show ?thesis using run first before by (simp add: catchM_def)
  qed
qed

lemma keeps_transaction:
  assumes "keeps R m"
  shows "keeps R (immediate_transaction env m)"
proof (rule keepsI)
  fix w r w' assume run: "immediate_transaction env m w = (r, w')"
  obtain r1 w1 where body: "m w = (r1, w1)" by (cases "m w") auto
  have "R w w1" using assms body by (rule keepsD)
  then show "R w w'" using run refl rollback [of w w1]
    by (auto simp: immediate_transaction_def body split: sum.splits option.splits)
qed

lemma keeps_if: "keeps R m \<Longrightarrow> keeps R m' \<Longrightarrow> keeps R (if c then m else m')"
  by simp

lemma keeps_option: "keeps R m \<Longrightarrow> (\<And>x. keeps R (f x)) \<Longrightarrow> keeps R (case v of None \<Rightarrow> m | Some x \<Rightarrow> f x)"
  by (cases v) auto

lemma keeps_prod: "(\<And>x y. keeps R (f x y)) \<Longrightarrow> keeps R (case v of (x, y) \<Rightarrow> f x y)"
  by (cases v) auto

lemma keeps_modify:
  assumes "\<And>w. R w (w\<lparr>w_db := f (w_db w)\<rparr>)"
  shows "keeps R (modify env l f)"
  using assms refl by (auto simp: keeps_def modify_def split: option.splits)

lemmas keeps_rules = keeps_basic keeps_bind keeps_catch keeps_transaction keeps_if keeps_option keeps_prod

end

subsection \<open>The state machines of the rows\<close>

text \<open>An RPC intent: an open one is settled, or stays unknown; only a release may go to review later.\<close>

inductive rpc_step :: "rpc_kind \<Rightarrow> rpc_state \<Rightarrow> rpc_state \<Rightarrow> bool" for k where
  rpc_settles: "is_open s \<Longrightarrow> s' \<in> {RpcAccepted, RpcReconciled, RpcUnknown, RpcReview} \<Longrightarrow> rpc_step k s s'"
| release_in_review: "k = ReleaseRpc \<Longrightarrow> s \<notin> {RpcAccepted, RpcReconciled} \<Longrightarrow> rpc_step k s RpcReview"

text \<open>A lease: its gateway identity and its state.\<close>

inductive lease_step :: "string option \<times> lease_state \<Rightarrow> string option \<times> lease_state \<Rightarrow> bool" where
  lease_acquired: "lease_step (None, AcquirePending) (Some g, Acquired)"
| lease_expires: "lease_step (Some g, Acquired) (Some g, Expired)"
| lease_releasing: "lease_step (Some g, Acquired) (Some g, ReleasePending)"
| lease_released: "lease_step (Some g, ReleasePending) (Some g, Released)"
| lease_in_review: "s \<notin> {Acquired, Released, LeaseReview} \<Longrightarrow> lease_step (None, s) (None, LeaseReview)"

inductive spawn_step :: "spawn_state \<Rightarrow> spawn_state \<Rightarrow> bool" where
  spawn_settles: "s \<in> {SpawnPending, SpawnUnknown} \<Longrightarrow> s' \<in> {SpawnUnknown, SpawnReview, SpawnAccepted} \<Longrightarrow> spawn_step s s'"

inductive_cases rpc_stepE: "rpc_step k s s'"
inductive_cases lease_stepE: "lease_step (g, s) (g', s')"
inductive_cases spawn_stepE: "spawn_step s s'"

abbreviation rpc_moves where "rpc_moves k \<equiv> (rpc_step k)\<^sup>*\<^sup>*"
abbreviation lease_moves where "lease_moves \<equiv> lease_step\<^sup>*\<^sup>*"
abbreviation spawn_moves where "spawn_moves \<equiv> spawn_step\<^sup>*\<^sup>*"

lemma is_open_simps [simp]:
  "is_open RpcPending" "is_open RpcUnknown" "\<not> is_open RpcAccepted" "\<not> is_open RpcReconciled"
  "\<not> is_open RpcReview" "\<not> is_open RpcFailed"
  by (simp_all add: is_open_def)

lemma settled_rpc_stays:
  assumes "rpc_moves k s s'" "\<not> is_open s" "k \<noteq> ReleaseRpc \<or> s \<in> {RpcAccepted, RpcReconciled}"
  shows "s' = s"
  using assms by (induction) (auto simp: is_open_def elim!: rpc_stepE)

lemma settled_spawn_stays:
  assumes "spawn_moves s s'" "s \<notin> {SpawnPending, SpawnUnknown}"
  shows "s' = s"
  using assms by (induction) (auto elim!: spawn_stepE)

definition gone :: "lease_state \<Rightarrow> bool" where
  "gone s \<longleftrightarrow> s \<in> {Released, ReleaseNotRequired, Expired}"

definition lease_ok :: "string option \<times> lease_state \<Rightarrow> bool" where
  "lease_ok gs \<longleftrightarrow> (gone (snd gs) \<longrightarrow> fst gs \<noteq> None)"

lemma lease_step_ok: "lease_step gs gs' \<Longrightarrow> lease_ok gs'"
  by (cases rule: lease_step.cases) (auto simp: lease_ok_def gone_def)

lemma lease_moves_ok: "lease_moves gs gs' \<Longrightarrow> lease_ok gs \<Longrightarrow> lease_ok gs'"
  by (induction rule: rtranclp_induct) (auto intro: lease_step_ok)

lemma gone_lease_stays:
  assumes "lease_moves gs gs'" "lease_ok gs" "gone (snd gs)"
  shows "gs' = gs"
  using assms by (induction) (auto simp: lease_ok_def gone_def elim!: lease_step.cases)

text \<open>What an update leaves alone, besides the state; an accepted or settled row does not change at all.\<close>

definition intent_moves :: "rpc_row \<Rightarrow> rpc_row \<Rightarrow> bool" where
  "intent_moves i j \<longleftrightarrow>
     ri_id j = ri_id i \<and> ri_run j = ri_run i \<and> ri_transition j = ri_transition i \<and> ri_kind j = ri_kind i \<and>
     ri_spawn j = ri_spawn i \<and> ri_reserve j = ri_reserve i \<and> ri_client j = ri_client i \<and> ri_key j = ri_key i \<and>
     ri_phase j = ri_phase i \<and> ri_agent j = ri_agent i \<and> ri_requester j = ri_requester i \<and> ri_ttl j = ri_ttl i \<and>
     ri_digest j = ri_digest i \<and> ri_metadata j = ri_metadata i \<and>
     ri_requested_at j = ri_requested_at i \<and> ri_requested_ms j = ri_requested_ms i \<and>
     rpc_moves (ri_kind i) (ri_state i) (ri_state j) \<and> (ri_state i \<in> {RpcAccepted, RpcReconciled} \<longrightarrow> j = i)"

text \<open>A lease keeps its identity; a release writes the request's release key again.\<close>

definition lease_row_moves :: "dispatch_request \<Rightarrow> lease_row \<Rightarrow> lease_row \<Rightarrow> bool" where
  "lease_row_moves rq l m \<longleftrightarrow>
     le_id m = le_id l \<and> le_run m = le_run l \<and> le_phase m = le_phase l \<and> le_transition m = le_transition l \<and>
     le_agent m = le_agent l \<and> le_requester m = le_requester l \<and> le_client m = le_client l \<and>
     le_acquire m = le_acquire l \<and> le_ttl m = le_ttl l \<and> le_expires_ms m = le_expires_ms l \<and>
     (le_release m = le_release l \<or> le_client l = dr_client_lease rq \<and> le_release m = Some (dr_release rq)) \<and>
     lease_moves (le_gateway l, le_state l) (le_gateway m, le_state m)"

definition request_moves :: "request_row \<Rightarrow> request_row \<Rightarrow> bool" where
  "request_moves a b \<longleftrightarrow>
     sr_id b = sr_id a \<and> sr_run b = sr_run a \<and> sr_phase b = sr_phase a \<and> sr_agent b = sr_agent a \<and>
     sr_transition b = sr_transition a \<and> sr_client b = sr_client a \<and> sr_key b = sr_key a \<and> sr_digest b = sr_digest a \<and>
     spawn_moves (sr_state a) (sr_state b) \<and> (sr_state a \<notin> {SpawnPending, SpawnUnknown} \<longrightarrow> b = a)"

lemma lease_gateway_stays: "lease_moves gs gs' \<Longrightarrow> fst gs = Some g \<Longrightarrow> fst gs' = Some g"
  by (induction rule: rtranclp_induct) (auto elim!: lease_step.cases)

lemma row_moves_refl [simp, intro]: "intent_moves i i" "lease_row_moves rq l l" "request_moves a a"
  by (auto simp: intent_moves_def lease_row_moves_def request_moves_def)

lemma intent_moves_trans: "intent_moves i j \<Longrightarrow> intent_moves j k \<Longrightarrow> intent_moves i k"
  unfolding intent_moves_def by (auto intro: rtranclp_trans)

lemma lease_row_moves_trans: "lease_row_moves rq l m \<Longrightarrow> lease_row_moves rq m n \<Longrightarrow> lease_row_moves rq l n"
  unfolding lease_row_moves_def by (auto intro: rtranclp_trans)

lemma request_moves_trans: "request_moves a b \<Longrightarrow> request_moves b c \<Longrightarrow> request_moves a c"
  unfolding request_moves_def
  by (auto intro: rtranclp_trans dest: settled_spawn_stays)

subsection \<open>Tables that grow\<close>

text \<open>Old rows move in place, in order; new rows satisfy \<open>P\<close> and come last.\<close>

definition grows :: "('r \<Rightarrow> 'r \<Rightarrow> bool) \<Rightarrow> ('r \<Rightarrow> bool) \<Rightarrow> 'r list \<Rightarrow> 'r list \<Rightarrow> bool" where
  "grows Q P xs ys \<longleftrightarrow> (\<exists>old new. ys = old @ new \<and> list_all2 Q xs old \<and> list_all P new)"

lemma grows_refl: "(\<And>x. Q x x) \<Longrightarrow> grows Q P xs xs"
  unfolding grows_def by (intro exI [of _ xs] exI [of _ "[]"]) (simp add: list_all2_refl)

lemma grows_trans:
  assumes "grows Q P xs ys" "grows Q P ys zs"
    and "\<And>x y z. Q x y \<Longrightarrow> Q y z \<Longrightarrow> Q x z" "\<And>x y. P x \<Longrightarrow> Q x y \<Longrightarrow> P y"
  shows "grows Q P xs zs"
proof -
  obtain old new where ys: "ys = old @ new" and old: "list_all2 Q xs old" and new: "list_all P new"
    using assms(1) by (auto simp: grows_def)
  obtain old' new' where zs: "zs = old' @ new'" and old': "list_all2 Q ys old'" and new': "list_all P new'"
    using assms(2) by (auto simp: grows_def)
  obtain o1 o2 where split: "old' = o1 @ o2" "list_all2 Q old o1" "list_all2 Q new o2"
    using old' unfolding ys list_all2_append1 by auto
  have "list_all2 Q xs o1" using assms(3) old split(2) by (rule list_all2_trans)
  moreover have "list_all P (o2 @ new')"
  proof -
    have "list_all P o2" using split(3) new by induction (use assms(4) in auto)
    then show ?thesis using new' by simp
  qed
  ultimately show ?thesis unfolding grows_def zs split(1) by (intro exI [of _ o1] exI [of _ "o2 @ new'"]) simp
qed

lemma grows_append: "(\<And>x. Q x x) \<Longrightarrow> list_all P new \<Longrightarrow> grows Q P xs (xs @ new)"
  unfolding grows_def by (intro exI [of _ xs] exI [of _ new]) (simp add: list_all2_refl)

lemma grows_update:
  assumes "\<And>x. Q x x" "\<And>x. C x \<Longrightarrow> Q x (f x)"
  shows "grows Q P xs (update_where C f xs)"
  unfolding grows_def
  by (intro exI [of _ "update_where C f xs"] exI [of _ "[]"])
    (auto simp: update_where_def list_all2_conv_all_nth assms)

lemma list_all2_old: "list_all2 Q xs ys \<Longrightarrow> x \<in> set xs \<Longrightarrow> \<exists>y\<in>set ys. Q x y"
  by (induction rule: list_all2_induct) auto

lemma list_all2_new: "list_all2 Q xs ys \<Longrightarrow> y \<in> set ys \<Longrightarrow> \<exists>x\<in>set xs. Q x y"
  by (induction rule: list_all2_induct) auto

lemma grows_old: "grows Q P xs ys \<Longrightarrow> x \<in> set xs \<Longrightarrow> \<exists>y\<in>set ys. Q x y"
  unfolding grows_def using list_all2_old by fastforce

lemma grows_new: "grows Q P xs ys \<Longrightarrow> y \<in> set ys \<Longrightarrow> P y \<or> (\<exists>x\<in>set xs. Q x y)"
  unfolding grows_def list_all_iff using list_all2_new by fastforce

lemma grows_filter:
  assumes "grows Q P xs ys" "\<And>x y. Q x y \<Longrightarrow> C' y \<Longrightarrow> C x" "\<And>y. P y \<Longrightarrow> \<not> C' y"
  shows "length (filter C' ys) \<le> length (filter C xs)"
proof -
  obtain old new where ys: "ys = old @ new" and old: "list_all2 Q xs old" and new: "list_all P new"
    using assms(1) by (auto simp: grows_def)
  have "filter C' new = []" using new assms(3) by (auto simp: list_all_iff filter_empty_conv)
  moreover have "length (filter C' old) \<le> length (filter C xs)"
    using old by induction (use assms(2) in auto)
  ultimately show ?thesis by (simp add: ys)
qed

lemma grows_map:
  assumes "grows Q (\<lambda>_. False) xs ys" "\<And>x y. Q x y \<Longrightarrow> f y = f x"
  shows "map f ys = map f xs"
proof -
  have "list_all2 Q xs ys" using assms(1) by (auto simp: grows_def list_all_iff)
  then show ?thesis by induction (use assms(2) in auto)
qed

text \<open>What a dispatch does to the tables after its first transaction.\<close>

definition moves :: "dispatch_request \<Rightarrow> dispatch_tables \<Rightarrow> dispatch_tables \<Rightarrow> bool" where
  "moves rq db db' \<longleftrightarrow>
     grows request_moves (\<lambda>_. False) (dt_spawns db) (dt_spawns db') \<and>
     grows intent_moves (\<lambda>i. ri_kind i = ReleaseRpc) (dt_intents db) (dt_intents db') \<and>
     grows (lease_row_moves rq) (\<lambda>_. False) (dt_leases db) (dt_leases db') \<and>
     grows (=) (\<lambda>_. True) (dt_sessions db) (dt_sessions db') \<and>
     dt_bindings db' = dt_bindings db \<and> dt_reserves db' = dt_reserves db"

definition world_moves :: "dispatch_request \<Rightarrow> 'a world \<Rightarrow> 'a world \<Rightarrow> bool" where
  "world_moves rq w w' \<longleftrightarrow> moves rq (w_db w) (w_db w') \<and> w_calls w' = w_calls w \<and> w_adapter w' = w_adapter w"

lemma moves_refl [simp]: "moves rq db db"
  by (simp add: moves_def grows_refl)

lemma moves_trans:
  assumes "moves rq a b" "moves rq b c"
  shows "moves rq a c"
proof -
  have "grows request_moves (\<lambda>_. False) (dt_spawns a) (dt_spawns c)"
    using assms by (auto simp: moves_def intro: grows_trans request_moves_trans)
  moreover have "grows intent_moves (\<lambda>i. ri_kind i = ReleaseRpc) (dt_intents a) (dt_intents c)"
    using assms by (auto simp: moves_def intro: intent_moves_trans elim!: grows_trans) (simp add: intent_moves_def)
  moreover have "grows (lease_row_moves rq) (\<lambda>_. False) (dt_leases a) (dt_leases c)"
    using assms by (auto simp: moves_def intro: grows_trans lease_row_moves_trans)
  moreover have "grows (=) (\<lambda>_. True) (dt_sessions a) (dt_sessions c)"
    using assms by (auto simp: moves_def intro: grows_trans)
  ultimately show ?thesis using assms by (simp add: moves_def)
qed

interpretation mv: world_relation "world_moves rq"
  by unfold_locales (auto simp: world_moves_def intro: moves_trans)

text \<open>The writes.\<close>

lemma keeps_update_intents:
  assumes "\<And>i. C i \<Longrightarrow> intent_moves i (f i)"
  shows "keeps (world_moves rq) (update_intents env l C f)"
  unfolding update_intents_def
  by (intro mv.keeps_rules mv.keeps_modify) (auto simp: world_moves_def moves_def assms intro!: grows_refl grows_update)

lemma keeps_update_leases:
  assumes "\<And>x. C x \<Longrightarrow> lease_row_moves rq x (f x)"
  shows "keeps (world_moves rq) (update_leases env l C f)"
  unfolding update_leases_def
  by (intro mv.keeps_rules mv.keeps_modify) (auto simp: world_moves_def moves_def assms intro!: grows_refl grows_update)

lemma keeps_update_spawns:
  assumes "\<And>x. C x \<Longrightarrow> request_moves x (f x)"
  shows "keeps (world_moves rq) (update_spawns env l C f)"
  unfolding update_spawns_def
  by (intro mv.keeps_rules mv.keeps_modify) (auto simp: world_moves_def moves_def assms intro!: grows_refl grows_update)

lemma keeps_insert_release:
  "ri_kind i = ReleaseRpc \<Longrightarrow> keeps (world_moves rq) (insert_intent env i)"
  unfolding insert_intent_def
  by (intro mv.keeps_modify) (auto simp: world_moves_def moves_def intro!: grows_refl grows_append)

lemma keeps_insert_session:
  "keeps (world_moves rq) (modify env l (\<lambda>db. db\<lparr>dt_sessions := dt_sessions db @ [s]\<rparr>))"
  by (intro mv.keeps_modify) (auto simp: world_moves_def moves_def intro!: grows_refl grows_append)

subsection \<open>The transactions after the first\<close>

lemmas row_steps = r_into_rtranclp rpc_settles lease_step.intros spawn_settles

lemma open_states: "s \<notin> {RpcAccepted, RpcReconciled, RpcReview, RpcFailed} \<longleftrightarrow> is_open s"
  by (cases s) (auto simp: is_open_def)

lemma keeps_strictly_after: "keeps (world_moves rq) (strictly_after_requested_time env kind key)"
  unfolding strictly_after_requested_time_def by (intro mv.keeps_rules)

lemma keeps_persist_acquired: "keeps (world_moves rq) (persist_acquired_lease env rq obs g rec)"
  unfolding persist_acquired_lease_def
  by (intro mv.keeps_rules keeps_strictly_after keeps_update_intents keeps_update_leases)
    (auto simp: intent_moves_def lease_row_moves_def intro!: row_steps)

lemma keeps_unknown_candidate: "keeps (world_moves rq) (persist_unknown_acquired_lease_candidate env rq obs g reason)"
  unfolding persist_unknown_acquired_lease_candidate_def open_states
  by (intro mv.keeps_rules keeps_update_intents keeps_update_leases)
    (auto simp: intent_moves_def lease_row_moves_def intro!: row_steps)

lemma keeps_human_review: "keeps (world_moves rq) (mark_human_review env rq kind reason)"
  unfolding mark_human_review_def open_states
  by (intro mv.keeps_rules keeps_update_intents keeps_update_leases keeps_update_spawns)
    (auto simp: intent_moves_def lease_row_moves_def request_moves_def
      intro!: row_steps intro: spawn_state.exhaust)

lemma keeps_unknown: "keeps (world_moves rq) (mark_unknown env rq kind reason)"
  unfolding mark_unknown_def open_states
  by (intro mv.keeps_rules keeps_update_intents keeps_update_leases keeps_update_spawns)
    (auto simp: intent_moves_def lease_row_moves_def request_moves_def
      intro!: row_steps intro: spawn_state.exhaust)

lemma keeps_expire: "keeps (world_moves rq) (expire_locally_expired_lease_before_spawn env rq g)"
  unfolding expire_locally_expired_lease_before_spawn_def Let_def
  by (intro mv.keeps_rules keeps_update_leases keeps_human_review)
    (auto simp: lease_row_moves_def intro!: row_steps)

lemma keeps_live_check: "keeps (world_moves rq) (assert_no_potentially_live_dispatch env rq)"
  unfolding assert_no_potentially_live_dispatch_def by (intro mv.keeps_rules)

lemma keeps_acceptance: "keeps (world_moves rq) (persist_spawn_acceptance env rq obs k rec)"
  unfolding persist_spawn_acceptance_def
  by (intro mv.keeps_rules keeps_live_check keeps_strictly_after keeps_update_intents keeps_update_spawns keeps_insert_session)
    (auto simp: intent_moves_def request_moves_def intro!: row_steps)

lemma keeps_candidate: "keeps (world_moves rq) (persist_ambiguous_spawn_candidate env rq obs)"
  unfolding persist_ambiguous_spawn_candidate_def
  by (intro mv.keeps_rules keeps_update_intents) (auto simp: intent_moves_def)

lemma keeps_release_review: "keeps (world_moves rq) (mark_owned_lease_release_review env rq g reason)"
  unfolding mark_owned_lease_release_review_def
  by (intro mv.keeps_rules keeps_update_intents keeps_update_leases)
    (auto simp: intent_moves_def lease_row_moves_def owned_lease_def intro!: r_into_rtranclp release_in_review)

lemma lease_moves_releasing: "s \<in> {Acquired, ReleasePending} \<Longrightarrow> lease_moves (Some g, s) (Some g, ReleasePending)"
  by (cases s) (auto intro: r_into_rtranclp lease_releasing)

lemma keeps_release_unknown: "keeps (world_moves rq) (mark_owned_lease_release_unknown env rq g reason)"
  unfolding mark_owned_lease_release_unknown_def open_states
  by (intro mv.keeps_rules keeps_update_intents keeps_update_leases)
    (auto simp: intent_moves_def lease_row_moves_def owned_lease_def
      intro!: lease_moves_releasing rpc_settles r_into_rtranclp [of "rpc_step ReleaseRpc"])

lemma keeps_prepare_release: "keeps (world_moves rq) (prepare_owned_lease_release env rq g)"
  unfolding prepare_owned_lease_release_def
  by (intro mv.keeps_rules keeps_update_leases keeps_insert_release)
    (auto simp: lease_row_moves_def owned_lease_def new_intent_def intro!: row_steps)

lemma keeps_released: "keeps (world_moves rq) (persist_released_lease env rq obs g rec)"
  unfolding persist_released_lease_def
  by (intro mv.keeps_rules mv.keeps_option keeps_strictly_after keeps_update_intents keeps_update_leases)
    (auto simp: intent_moves_def lease_row_moves_def owned_lease_def intro!: row_steps)

subsection \<open>Operations that return\<close>

lemma query_Inr_iff [err_simps]:
  "query env l q w = (Inr x, w') \<longleftrightarrow> dp_engine env l (w_db w) (w_db w) = None \<and> x = q (w_db w) \<and> w' = w"
  by (auto simp: query_def split: option.splits)

lemma modify_Inr_iff [err_simps]:
  "modify env l f w = (Inr u, w') \<longleftrightarrow>
     dp_engine env l (w_db w) (f (w_db w)) = None \<and> w' = w\<lparr>w_db := f (w_db w)\<rparr>"
  by (auto simp: modify_def split: option.splits)

lemma requireM_Inr_iff [err_simps]: "requireM ok m w = (Inr u, w') \<longleftrightarrow> ok \<and> w' = w"
  by (auto simp: requireM_def)

lemma now_utc_Inr_iff [err_simps]:
  "now_utc env w = (Inr now, w') \<longleftrightarrow>
     now = (utc_from_epoch_ms (dp_time env (w_ticks w)), dp_time env (w_ticks w)) \<and> w' = w\<lparr>w_ticks := Suc (w_ticks w)\<rparr>"
  by (auto simp: now_utc_def Let_def)

lemma transaction_cases:
  assumes "immediate_transaction env m w = (r, w')"
  obtains (unchanged) "w_db w' = w_db w"
    | (committed) x where "r = Inr x" "m w = (Inr x, w')"
  using assms by (auto simp: immediate_transaction_def split: option.splits prod.splits sum.splits)

lemma transaction_Inr:
  "immediate_transaction env m w = (Inr x, w') \<Longrightarrow> m w = (Inr x, w')"
  by (auto simp: immediate_transaction_def split: option.splits prod.splits sum.splits)

lemma update_Inr:
  "update_intents env l C f w = (Inr n, w') \<Longrightarrow>
     n = length (filter C (dt_intents (w_db w))) \<and> w' = w\<lparr>w_db := (w_db w)\<lparr>dt_intents := update_where C f (dt_intents (w_db w))\<rparr>\<rparr>"
  "update_leases env l C' f' w = (Inr n, w') \<Longrightarrow>
     n = length (filter C' (dt_leases (w_db w))) \<and> w' = w\<lparr>w_db := (w_db w)\<lparr>dt_leases := update_where C' f' (dt_leases (w_db w))\<rparr>\<rparr>"
  "update_spawns env l C'' f'' w = (Inr n, w') \<Longrightarrow>
     n = length (filter C'' (dt_spawns (w_db w))) \<and> w' = w\<lparr>w_db := (w_db w)\<lparr>dt_spawns := update_where C'' f'' (dt_spawns (w_db w))\<rparr>\<rparr>"
  by (auto simp: update_intents_def update_leases_def update_spawns_def err_simps)

end
