(* ===== verification/ReconcileScans.thy ===== *)
theory ReconcileScans
  imports RuntimeDispatch
begin

section \<open>What a reconciliation looks at (\<^verbatim>\<open>reconciliation.py\<close>)\<close>

text \<open>
  The six selections of rows that need reconciliation, each a join over the tables, and the three
  comparisons of a request with what the gateway lists. Rows come in the order of the tables. A
  request rebuilt from a row has the defaults of \<^verbatim>\<open>DispatchRequest\<close> in its transient fields.
\<close>

record reconciliation_summary =
  reconciled_count :: nat
  human_review_count :: nat

record release_pending_request =
  pr_request :: dispatch_request
  pr_gateway :: string

text \<open>\<^verbatim>\<open>MatchScan\<close> and \<^verbatim>\<open>ReleaseMatchScan\<close>.\<close>

record 'm match_scan =
  ms_matches :: "'m list"
  ms_malformed :: nat

definition pending_rpc_reconcile_grace_ms :: int where
  "pending_rpc_reconcile_grace_ms = 300000"

definition pending_reconcile_cutoff_epoch_ms :: "'a dispatch_env \<Rightarrow> ('a, int) operation" where
  "pending_reconcile_cutoff_epoch_ms env =
     bindM (now_utc env) (\<lambda>now. returnM (snd now - pending_rpc_reconcile_grace_ms))"

definition pending_or_unknown_clause :: "int \<Rightarrow> rpc_row \<Rightarrow> bool" where
  "pending_or_unknown_clause cutoff i \<longleftrightarrow>
     ri_state i = RpcUnknown \<or> ri_state i = RpcPending \<and> ri_requested_ms i < cutoff"

subsection \<open>Joins\<close>

text \<open>A lease with its binding, a spawn request with its binding, and a spawn intent with its binding.\<close>

definition lease_bound :: "dispatch_identity \<Rightarrow> lease_row \<Rightarrow> bool" where
  "lease_bound b l \<longleftrightarrow>
     le_id l = bd_lease b \<and> le_run l = bd_run b \<and> le_transition l = bd_transition b \<and> le_phase l = bd_phase b \<and>
     le_agent l = bd_agent b \<and> le_requester l = bd_requester b \<and> le_client l = bd_client_lease b \<and>
     le_acquire l = bd_acquire b \<and> le_release l = Some (bd_release b)"

definition request_bound :: "dispatch_identity \<Rightarrow> request_row \<Rightarrow> bool" where
  "request_bound b sr \<longleftrightarrow>
     sr_id sr = bd_spawn b \<and> sr_run sr = bd_run b \<and> sr_transition sr = bd_transition b \<and> sr_phase sr = bd_phase b \<and>
     sr_agent sr = bd_agent b \<and> sr_digest sr = bd_digest b \<and> sr_client sr = bd_client b \<and> sr_key sr = bd_key b"

definition spawn_bound :: "dispatch_identity \<Rightarrow> rpc_row \<Rightarrow> bool" where
  "spawn_bound b i \<longleftrightarrow>
     ri_kind i = SpawnRpc \<and> ri_spawn i = Some (bd_spawn b) \<and> ri_run i = bd_run b \<and> ri_transition i = bd_transition b \<and>
     ri_phase i = Some (bd_phase b) \<and> ri_agent i = Some (bd_agent b) \<and> ri_digest i = Some (bd_digest b) \<and>
     ri_client i = bd_client b \<and> ri_key i = bd_key b"

definition live_gateway :: "lease_row \<Rightarrow> bool" where
  "live_gateway l \<longleftrightarrow> le_gateway l \<noteq> None \<and> le_gateway l \<noteq> Some []"

text \<open>An accepted acquire intent that proves the identity of an acquired lease.\<close>

definition acquire_proof :: "dispatch_identity \<Rightarrow> lease_row \<Rightarrow> rpc_row \<Rightarrow> bool" where
  "acquire_proof b l a \<longleftrightarrow>
     ri_kind a = AcquireRpc \<and> ri_run a = bd_run b \<and> ri_transition a = bd_transition b \<and>
     ri_phase a = Some (bd_phase b) \<and> ri_agent a = Some (bd_agent b) \<and> ri_requester a = Some (bd_requester b) \<and>
     ri_client a = bd_client_lease b \<and> ri_key a = bd_acquire b \<and> ri_ttl a = Some (le_ttl l) \<and>
     ri_state a \<in> {RpcAccepted, RpcReconciled} \<and> le_gateway l \<noteq> None \<and> ri_external a = le_gateway l \<and>
     ob_client (ri_observed a) = Some (le_client l) \<and> ob_key (ri_observed a) = Some (le_acquire l) \<and>
     ob_run (ri_observed a) = Some (le_run l) \<and> ob_transition (ri_observed a) = Some (le_transition l) \<and>
     ob_phase (ri_observed a) = Some (le_phase l) \<and> ob_agent (ri_observed a) = Some (le_agent l) \<and>
     ob_requester (ri_observed a) = Some (le_requester l)"

text \<open>An acquire intent with its binding, and with a lease of its own identity.\<close>

definition acquire_bound :: "dispatch_identity \<Rightarrow> rpc_row \<Rightarrow> bool" where
  "acquire_bound b i \<longleftrightarrow>
     ri_kind i = AcquireRpc \<and> ri_run i = bd_run b \<and> ri_transition i = bd_transition b \<and> ri_phase i = Some (bd_phase b) \<and>
     ri_agent i = Some (bd_agent b) \<and> ri_requester i = Some (bd_requester b) \<and> ri_client i = bd_client_lease b \<and>
     ri_key i = bd_acquire b"

definition lease_of_intent :: "rpc_row \<Rightarrow> lease_row \<Rightarrow> bool" where
  "lease_of_intent i l \<longleftrightarrow>
     le_run l = ri_run i \<and> le_transition l = ri_transition i \<and> ri_phase i = Some (le_phase l) \<and>
     ri_agent i = Some (le_agent l) \<and> ri_requester i = Some (le_requester l) \<and> le_client l = ri_client i \<and>
     le_acquire l = ri_key i \<and> ri_ttl i = Some (le_ttl l)"

subsection \<open>Requests rebuilt from rows\<close>

definition stored_request where
  "stored_request run transition phase agent requester digest spawn reserve client_lease acquire release ttl client key lease =
     \<lparr>dr_run = run, dr_transition = transition, dr_phase = phase, dr_agent = agent, dr_requester = requester,
      dr_digest = digest, dr_spawn = spawn, dr_reserve = reserve, dr_client_lease = client_lease, dr_acquire = acquire,
      dr_release = release, dr_ttl = ttl, dr_client = client, dr_key = key, dr_task = PNone, dr_task_name = PNone,
      dr_runtime = PStr ''subagent'', dr_mode = PStr ''run'', dr_cleanup = PStr ''keep'', dr_context = PStr ''isolated'',
      dr_light = PBool False, dr_lease = lease\<rparr>"

text \<open>
  A null that a join does not exclude reads as the empty text, or zero; no statement compares it.
  \<^verbatim>\<open>row[10] or f"reconcile-release:..."\<close> replaces a null and an empty release key.
\<close>

definition text_or_empty :: "string option \<Rightarrow> string" where
  "text_or_empty v = (case v of None \<Rightarrow> [] | Some s \<Rightarrow> s)"

definition release_key_or :: "string option \<Rightarrow> string \<Rightarrow> string" where
  "release_key_or key client_lease =
     (if text_or_empty key = [] then ''reconcile-release:'' @ client_lease else text_or_empty key)"

definition spawn_request_from :: "rpc_row \<Rightarrow> lease_row \<Rightarrow> dispatch_request" where
  "spawn_request_from i l =
     stored_request (ri_run i) (ri_transition i) (text_or_empty (ri_phase i)) (text_or_empty (ri_agent i)) (le_requester l)
       (text_or_empty (ri_digest i)) (text_or_empty (ri_spawn i)) (text_or_empty (ri_reserve i)) (le_client l) (le_acquire l)
       (release_key_or (le_release l) (le_client l)) (le_ttl l) (ri_client i) (ri_key i) (Some (le_id l))"

definition unknown_spawn_requests :: "int \<Rightarrow> dispatch_tables \<Rightarrow> dispatch_request list" where
  "unknown_spawn_requests cutoff db =
     [spawn_request_from i l. i \<leftarrow> dt_intents db, b \<leftarrow> map fst (dt_bindings db), l \<leftarrow> dt_leases db, a \<leftarrow> dt_intents db,
        spawn_bound b i \<and> ri_reserve i = Some (bd_reserve b) \<and> lease_bound b l \<and> acquire_proof b l a \<and>
        pending_or_unknown_clause cutoff i \<and> le_state l = Acquired \<and> live_gateway l]"

definition spawn_requests_without_acquired_lease_proof :: "int \<Rightarrow> dispatch_tables \<Rightarrow> dispatch_request list" where
  "spawn_requests_without_acquired_lease_proof cutoff db =
     [spawn_request_from i l. i \<leftarrow> dt_intents db, b \<leftarrow> map fst (dt_bindings db), l \<leftarrow> dt_leases db,
        spawn_bound b i \<and> ri_reserve i = Some (bd_reserve b) \<and> lease_bound b l \<and> pending_or_unknown_clause cutoff i \<and>
        \<not> list_ex (\<lambda>a. acquire_proof b l a \<and> le_state l = Acquired \<and> live_gateway l) (dt_intents db)]"

definition unknown_lease_requests :: "int \<Rightarrow> dispatch_tables \<Rightarrow> dispatch_request list" where
  "unknown_lease_requests cutoff db =
     [stored_request (ri_run i) (ri_transition i) (text_or_empty (ri_phase i)) (text_or_empty (ri_agent i))
        (text_or_empty (ri_requester i)) (sr_digest sr) (sr_id sr) (text_or_empty (ri_reserve i)) (ri_client i) (ri_key i)
        (release_key_or (le_release l) (ri_client i)) (le_ttl l) (sr_client sr) (sr_key sr) (Some (le_id l)).
        i \<leftarrow> dt_intents db, b \<leftarrow> map fst (dt_bindings db), l \<leftarrow> dt_leases db, sr \<leftarrow> dt_spawns db,
        acquire_bound b i \<and> lease_bound b l \<and> ri_ttl i = Some (le_ttl l) \<and> request_bound b sr \<and>
        pending_or_unknown_clause cutoff i]"

text \<open>\<^verbatim>\<open>LEFT JOIN\<close>: a row without partner has a null partner, whose columns fall back to constants.\<close>

definition left_join :: "'r list \<Rightarrow> 'r option list" where
  "left_join rows = (if rows = [] then [None] else map Some rows)"

definition spawn_column :: "(request_row \<Rightarrow> string) \<Rightarrow> string \<Rightarrow> request_row option \<Rightarrow> string" where
  "spawn_column f absent sr = (case sr of None \<Rightarrow> absent | Some r \<Rightarrow> f r)"

definition orphan_unknown_lease_requests :: "int \<Rightarrow> dispatch_tables \<Rightarrow> dispatch_request list" where
  "orphan_unknown_lease_requests cutoff db =
     [stored_request (ri_run i) (ri_transition i) (text_or_empty (ri_phase i)) (text_or_empty (ri_agent i))
        (text_or_empty (ri_requester i)) (spawn_column sr_digest ''unknown-task'' sr) (spawn_column sr_id ''unknown-spawn'' sr)
        (text_or_empty (ri_reserve i)) (ri_client i) (ri_key i) (''reconcile-release:'' @ ri_client i)
        (case ri_ttl i of None \<Rightarrow> 0 | Some ttl \<Rightarrow> ttl) (spawn_column sr_client ''unknown-client'' sr)
        (spawn_column sr_key ''unknown-spawn-idem'' sr) None.
        i \<leftarrow> dt_intents db,
        sr \<leftarrow> left_join (filter (\<lambda>sr. sr_run sr = ri_run i \<and> sr_transition sr = ri_transition i) (dt_spawns db)),
        ri_kind i = AcquireRpc \<and> pending_or_unknown_clause cutoff i \<and> \<not> list_ex (lease_of_intent i) (dt_leases db)]"

definition release_pending_requests :: "int \<Rightarrow> dispatch_tables \<Rightarrow> release_pending_request list" where
  "release_pending_requests cutoff db =
     [\<lparr>pr_request = stored_request (ri_run i) (ri_transition i) (text_or_empty (ri_phase i)) (text_or_empty (ri_agent i))
         (text_or_empty (ri_requester i)) (sr_digest sr) (sr_id sr) [] (le_client l) (le_acquire l) (ri_key i) (le_ttl l)
         (sr_client sr) (sr_key sr) (Some (le_id l)),
       pr_gateway = text_or_empty (le_gateway l)\<rparr>.
        i \<leftarrow> dt_intents db, l \<leftarrow> dt_leases db, b \<leftarrow> map fst (dt_bindings db), sr \<leftarrow> dt_spawns db,
        ri_kind i = ReleaseRpc \<and> le_run l = ri_run i \<and> le_transition l = ri_transition i \<and>
        le_release l = Some (ri_key i) \<and> live_gateway l \<and> le_state l = ReleasePending \<and> lease_bound b l \<and>
        request_bound b sr \<and> pending_or_unknown_clause cutoff i]"

text \<open>
  Here \<^verbatim>\<open>COALESCE\<close> replaces only a null release key. A null \<^verbatim>\<open>ambiguity_reason\<close> does not match
  the \<^verbatim>\<open>LIKE\<close>.
\<close>

definition cleanup_release_key :: "lease_row \<Rightarrow> string" where
  "cleanup_release_key l = (case le_release l of None \<Rightarrow> ''reconcile-release:'' @ le_client l | Some k \<Rightarrow> k)"

definition acquire_only_cleanup_requests :: "dispatch_tables \<Rightarrow> release_pending_request list" where
  "acquire_only_cleanup_requests db =
     [\<lparr>pr_request = stored_request (le_run l) (le_transition l) (le_phase l) (le_agent l) (le_requester l) (sr_digest sr)
         (sr_id sr) (text_or_empty (ri_reserve i)) (le_client l) (le_acquire l) (cleanup_release_key l) (le_ttl l)
         (sr_client sr) (sr_key sr) (Some (le_id l)),
       pr_gateway = text_or_empty (le_gateway l)\<rparr>.
        l \<leftarrow> dt_leases db, b \<leftarrow> map fst (dt_bindings db), sr \<leftarrow> dt_spawns db, i \<leftarrow> dt_intents db,
        lease_bound b l \<and> request_bound b sr \<and> spawn_bound b i \<and> le_state l = Acquired \<and> live_gateway l \<and>
        ri_state i \<in> {RpcFailed, RpcReview} \<and>
        (case sr_reason sr of None \<Rightarrow> False | Some r \<Rightarrow> like_prefix r ''spawn blocked by allow lease'') \<and>
        \<not> list_ex (\<lambda>r. ri_kind r = ReleaseRpc \<and> ri_key r = cleanup_release_key l) (dt_intents db)]"

end
