(* ===== verification/Reconciliation.thy ===== *)
theory Reconciliation
  imports ReconcileScans
begin

section \<open>Reconciling unknown outcomes (\<^verbatim>\<open>reconciliation.py\<close>)\<close>

text \<open>
  \<open>reconcile_unknown_metadata\<close> compares what the gateway lists with the intents whose outcome is
  unknown, and accepts them or puts them in review, one transaction each. The parameters are the
  environment of a dispatch and three more methods of the adapter: its two listings and
  \<^verbatim>\<open>adopt_verified_lease_ownership\<close>.
\<close>

record 'a reconcile_env =
  rc_dispatch :: "'a dispatch_env"
  rc_sessions :: "'a \<Rightarrow> (exn + observation list) \<times> 'a"
  rc_leases :: "'a \<Rightarrow> (exn + observation list) \<times> 'a"
  rc_adopt :: "pydict \<Rightarrow> observation \<Rightarrow> 'a \<Rightarrow> (exn + unit) \<times> 'a"

subsection \<open>Comparing a request with the listed observations\<close>

text \<open>Every compared field of \<open>local\<close> is a string, so Python's equality is equality here.\<close>

definition normalized_identity_matches :: "pydict \<Rightarrow> pydict option \<Rightarrow> string list \<Rightarrow> bool" where
  "normalized_identity_matches local normalized identity =
     (case normalized of
        None \<Rightarrow> False
      | Some d \<Rightarrow> list_all (\<lambda>f. dict_get d f = dict_get local f) identity)"

text \<open>
  The loop the three comparisons share: \<open>check\<close> answers a match, or nothing for an observation
  without external identity; a contract failure, or nothing, counts as malformed when it \<open>looks\<close>
  like the request.
\<close>

fun scan_observations ::
    "(observation \<Rightarrow> exn + 'm option) \<Rightarrow> (observation \<Rightarrow> bool) \<Rightarrow> observation list \<Rightarrow> exn + 'm match_scan" where
  "scan_observations check looks [] = Inr \<lparr>ms_matches = [], ms_malformed = 0\<rparr>"
| "scan_observations check looks (obs # rest) =
     (case check obs of
        Inr (Some m) \<Rightarrow>
          bindE (scan_observations check looks rest) (\<lambda>s. Inr (s\<lparr>ms_matches := m # ms_matches s\<rparr>))
      | Inr None \<Rightarrow>
          bindE (scan_observations check looks rest) (\<lambda>s. Inr (s\<lparr>ms_malformed := of_bool (looks obs) + ms_malformed s\<rparr>))
      | Inl e \<Rightarrow>
          (if contract_failure e then
             bindE (scan_observations check looks rest) (\<lambda>s. Inr (s\<lparr>ms_malformed := of_bool (looks obs) + ms_malformed s\<rparr>))
           else Inl e))"

definition session_match :: "dispatch_request \<Rightarrow> observation \<Rightarrow> exn + (observation \<times> string) option" where
  "session_match rq obs =
     bindE (validate_session_observation (spawn_metadata rq) (obs_normalized obs) (obs_raw_json obs) (obs_version obs)) (\<lambda>_.
     bindE (validate_accepted_session_identity (obs_external_id obs) (obs_spawn_session_key obs) (obs_session_key obs) None)
       (\<lambda>session_key. Inr (Some (obs, session_key))))"

definition matching_sessions ::
    "dispatch_request \<Rightarrow> observation list \<Rightarrow> exn + (observation \<times> string) match_scan" where
  "matching_sessions rq =
     scan_observations (session_match rq)
       (\<lambda>obs. normalized_identity_matches (spawn_metadata rq) (obs_normalized obs) session_fields)"

definition lease_match :: "dispatch_request \<Rightarrow> observation \<Rightarrow> exn + (observation \<times> string) option" where
  "lease_match rq obs =
     (if text_or_empty (obs_external_id obs) = [] then Inr None
      else
        bindE (validate_allow_lease_observation (lease_metadata rq (text_or_empty (obs_external_id obs)))
                 (obs_normalized obs) (obs_raw_json obs) (obs_version obs)) (\<lambda>_.
        Inr (Some (obs, text_or_empty (obs_external_id obs)))))"

definition matching_leases ::
    "dispatch_request \<Rightarrow> observation list \<Rightarrow> exn + (observation \<times> string) match_scan" where
  "matching_leases rq =
     scan_observations (lease_match rq)
       (\<lambda>obs. normalized_identity_matches (lease_metadata rq (text_or_empty (obs_external_id obs)))
          (obs_normalized obs) allow_lease_identity_fields)"

definition release_match :: "dispatch_request \<Rightarrow> string \<Rightarrow> observation \<Rightarrow> exn + observation option" where
  "release_match rq gateway_lease_id obs =
     bindE (validate_allow_lease_release_observation (release_rpc_metadata rq gateway_lease_id)
              (obs_normalized obs) (obs_raw_json obs) (obs_version obs)) (\<lambda>_. Inr (Some obs))"

definition matching_releases ::
    "dispatch_request \<Rightarrow> string \<Rightarrow> observation list \<Rightarrow> exn + observation match_scan" where
  "matching_releases rq gateway_lease_id =
     scan_observations (release_match rq gateway_lease_id)
       (\<lambda>obs. normalized_identity_matches (release_rpc_metadata rq gateway_lease_id) (obs_normalized obs)
          allow_lease_release_fields)"

subsection \<open>One request of each kind\<close>

text \<open>A loop adds up what its rounds count.\<close>

definition counted :: "nat \<Rightarrow> nat \<Rightarrow> reconciliation_summary" where
  "counted r h = \<lparr>reconciled_count = r, human_review_count = h\<rparr>"

abbreviation one_reconciled :: reconciliation_summary where "one_reconciled \<equiv> counted 1 0"
abbreviation one_in_review :: reconciliation_summary where "one_in_review \<equiv> counted 0 1"

definition add_counts :: "reconciliation_summary \<Rightarrow> reconciliation_summary \<Rightarrow> reconciliation_summary" where
  "add_counts s t = counted (reconciled_count s + reconciled_count t) (human_review_count s + human_review_count t)"

fun for_each ::
    "('x \<Rightarrow> ('a, reconciliation_summary) operation) \<Rightarrow> 'x list \<Rightarrow> ('a, reconciliation_summary) operation" where
  "for_each f [] = returnM (counted 0 0)"
| "for_each f (x # xs) = bindM (f x) (\<lambda>s. bindM (for_each f xs) (\<lambda>t. returnM (add_counts s t)))"

definition in_review :: "('a, unit) operation \<Rightarrow> ('a, reconciliation_summary) operation" where
  "in_review m = bindM m (\<lambda>_. returnM one_in_review)"

definition reconcile_orphan :: "'a dispatch_env \<Rightarrow> dispatch_request \<Rightarrow> ('a, reconciliation_summary) operation" where
  "reconcile_orphan env rq =
     immediate_transaction env (in_review (mark_human_review env rq AcquireRpc ''missing-local-lease-row''))"

definition release_review_reason :: "observation match_scan \<Rightarrow> string" where
  "release_review_reason scan =
     (if ms_malformed scan \<noteq> 0 \<or> ms_matches scan \<noteq> []
      then (if ms_matches scan \<noteq> [] then ''release-still-visible-in-live-lease-status''
            else ''malformed-release-status-observation'')
      else ''release-terminal-proof-unavailable'')"

definition reconcile_release ::
    "'a dispatch_env \<Rightarrow> observation list \<Rightarrow> release_pending_request \<Rightarrow> ('a, reconciliation_summary) operation" where
  "reconcile_release env lease_observations item =
     bindM (liftM (matching_releases (pr_request item) (pr_gateway item) lease_observations)) (\<lambda>scan.
     immediate_transaction env (in_review
       (mark_owned_lease_release_review env (pr_request item) (pr_gateway item) (release_review_reason scan))))"

text \<open>The only match of a scan without malformed observations.\<close>

definition sole_match :: "'m match_scan \<Rightarrow> 'm option" where
  "sole_match scan = (if ms_malformed scan \<noteq> 0 \<or> length (ms_matches scan) \<noteq> 1 then None else first (ms_matches scan))"

definition reconcile_lease ::
    "'a dispatch_env \<Rightarrow> observation list \<Rightarrow> dispatch_request \<Rightarrow> ('a, reconciliation_summary) operation" where
  "reconcile_lease env lease_observations rq =
     bindM (liftM (matching_leases rq lease_observations)) (\<lambda>scan.
     immediate_transaction env
       (case sole_match scan of
          None \<Rightarrow> in_review (mark_human_review env rq AcquireRpc ''malformed-or-ambiguous-lease-observation'')
        | Some (obs, g) \<Rightarrow> bindM (persist_acquired_lease env rq obs g True) (\<lambda>_. returnM one_reconciled)))"

definition reconcile_unproven_spawn :: "'a dispatch_env \<Rightarrow> dispatch_request \<Rightarrow> ('a, reconciliation_summary) operation" where
  "reconcile_unproven_spawn env rq =
     immediate_transaction env (in_review (mark_human_review env rq SpawnRpc ''missing-acquired-allow-lease-proof''))"

text \<open>The \<^verbatim>\<open>except\<close> clause is inside the transaction: it keeps what was written before the error.\<close>

definition accept_or_review ::
    "'a dispatch_env \<Rightarrow> dispatch_request \<Rightarrow> observation \<Rightarrow> string \<Rightarrow> ('a, reconciliation_summary) operation" where
  "accept_or_review env rq obs session_key =
     catchM (bindM (persist_spawn_acceptance env rq obs session_key True) (\<lambda>_. returnM one_reconciled))
       (\<lambda>e. case e of
          RuntimeDispatchError message \<Rightarrow> in_review (mark_human_review env rq SpawnRpc message)
        | _ \<Rightarrow> raiseM e)"

definition session_review_reason :: "(observation \<times> string) match_scan \<Rightarrow> string" where
  "session_review_reason scan =
     (if ms_matches scan = [] \<and> ms_malformed scan = 0 then ''zero-session-observation''
      else ''malformed-or-ambiguous-session-observation'')"

definition reconcile_spawn ::
    "'a dispatch_env \<Rightarrow> observation list \<Rightarrow> dispatch_request \<Rightarrow> ('a, reconciliation_summary) operation" where
  "reconcile_spawn env session_observations rq =
     bindM (liftM (matching_sessions rq session_observations)) (\<lambda>scan.
     immediate_transaction env
       (case sole_match scan of
          None \<Rightarrow> in_review (mark_human_review env rq SpawnRpc (session_review_reason scan))
        | Some (obs, session_key) \<Rightarrow> accept_or_review env rq obs session_key))"

definition adopt_verified_lease_ownership :: "'a reconcile_env \<Rightarrow> pydict \<Rightarrow> observation \<Rightarrow> ('a, unit) operation" where
  "adopt_verified_lease_ownership rc params obs w =
     (let r = rc_adopt rc params obs (w_adapter w) in (fst r, w\<lparr>w_adapter := snd r\<rparr>))"

definition cleanup_failed :: "'a dispatch_env \<Rightarrow> release_pending_request \<Rightarrow> exn \<Rightarrow> ('a, reconciliation_summary) operation" where
  "cleanup_failed env item e =
     (if ambiguous_transport_error e then
        in_review (immediate_transaction env
          (mark_owned_lease_release_unknown env (pr_request item) (pr_gateway item) (exn_text e)))
      else if release_failure_error e then
        in_review (immediate_transaction env
          (mark_owned_lease_release_review env (pr_request item) (pr_gateway item) (exn_text e)))
      else raiseM e)"

definition reconcile_cleanup ::
    "'a reconcile_env \<Rightarrow> observation list \<Rightarrow> release_pending_request \<Rightarrow> ('a, reconciliation_summary) operation" where
  "reconcile_cleanup rc lease_observations item =
     (let env = rc_dispatch rc; rq = pr_request item; g = pr_gateway item in
      bindM (liftM (matching_leases rq lease_observations)) (\<lambda>scan.
        case sole_match scan of
          None \<Rightarrow>
            in_review (immediate_transaction env
              (mark_owned_lease_release_review env rq g ''malformed-or-ambiguous-lease-observation''))
        | Some (obs, observed) \<Rightarrow>
            (if observed \<noteq> g then
               in_review (immediate_transaction env
                 (mark_owned_lease_release_review env rq g ''conflicting-acquire-only-lease-observation''))
             else
               catchM
                 (bindM (adopt_verified_lease_ownership rc (lease_metadata rq g) obs) (\<lambda>_.
                  bindM (release_owned_lease env rq g) (\<lambda>_. returnM one_reconciled)))
                 (cleanup_failed env item))))"

subsection \<open>The reconciliation\<close>

definition list_observations :: "('a \<Rightarrow> (exn + observation list) \<times> 'a) \<Rightarrow> ('a, observation list) operation" where
  "list_observations f w = (let r = f (w_adapter w) in (fst r, w\<lparr>w_adapter := snd r\<rparr>))"

text \<open>A loop over the rows that a query answers when it starts.\<close>

definition for_each_row ::
    "'a dispatch_env \<Rightarrow> string \<Rightarrow> (dispatch_tables \<Rightarrow> 'x list) \<Rightarrow> ('x \<Rightarrow> ('a, reconciliation_summary) operation) \<Rightarrow>
     ('a, reconciliation_summary) operation" where
  "for_each_row env label rows f = bindM (query env label rows) (for_each f)"

text \<open>The loops over intents whose outcome is unknown, in their order.\<close>

definition reconcile_intents ::
    "'a dispatch_env \<Rightarrow> int \<Rightarrow> observation list \<Rightarrow> observation list \<Rightarrow> ('a, reconciliation_summary) operation" where
  "reconcile_intents env cutoff session_observations lease_observations =
     bindM (for_each_row env ''orphan leases'' (orphan_unknown_lease_requests cutoff) (reconcile_orphan env)) (\<lambda>n1.
     bindM (for_each_row env ''pending releases'' (release_pending_requests cutoff)
       (reconcile_release env lease_observations)) (\<lambda>n2.
     bindM (for_each_row env ''unknown leases'' (unknown_lease_requests cutoff)
       (reconcile_lease env lease_observations)) (\<lambda>n3.
     bindM (for_each_row env ''unproven spawns'' (spawn_requests_without_acquired_lease_proof cutoff)
       (reconcile_unproven_spawn env)) (\<lambda>n4.
     bindM (for_each_row env ''unknown spawns'' (unknown_spawn_requests cutoff)
       (reconcile_spawn env session_observations)) (\<lambda>n5.
     returnM (add_counts n1 (add_counts n2 (add_counts n3 (add_counts n4 n5)))))))))"

definition reconcile_unknown_metadata :: "'a reconcile_env \<Rightarrow> ('a, reconciliation_summary) operation" where
  "reconcile_unknown_metadata rc =
     bindM (liftM (connect_runtime_db (rc_dispatch rc))) (\<lambda>_.
     bindM (pending_reconcile_cutoff_epoch_ms (rc_dispatch rc)) (\<lambda>cutoff.
     bindM (list_observations (rc_sessions rc)) (\<lambda>session_observations.
     bindM (list_observations (rc_leases rc)) (\<lambda>lease_observations.
     bindM (reconcile_intents (rc_dispatch rc) cutoff session_observations lease_observations) (\<lambda>n.
     bindM (for_each_row (rc_dispatch rc) ''acquire-only leases'' acquire_only_cleanup_requests
       (reconcile_cleanup rc lease_observations)) (\<lambda>n6.
     returnM (add_counts n n6)))))))"

end
