(* ===== verification/DispatchLive.thy ===== *)
theory DispatchLive
  imports DispatchFacts Reconciliation
begin

section \<open>At most one live dispatch\<close>

text \<open>
  Dispatches of any requests and reconciliations interleave transaction by transaction. The tables
  they reach keep the references between their rows, and no run, phase and agent ever has two
  dispatches that may be live.
\<close>

subsection \<open>What the first transaction appends\<close>

text \<open>A spawn request row with the identity of the request.\<close>

definition request_of :: "dispatch_request \<Rightarrow> request_row \<Rightarrow> bool" where
  "request_of rq sr \<longleftrightarrow> sr_id sr = dr_spawn rq \<and> sr_run sr = dr_run rq \<and> sr_phase sr = dr_phase rq \<and>
     sr_agent sr = dr_agent rq \<and> sr_transition sr = dr_transition rq \<and> sr_client sr = dr_client rq \<and>
     sr_key sr = dr_key rq \<and> sr_digest sr = dr_digest rq"

definition new_spawns :: "dispatch_request \<Rightarrow> dispatch_tables \<Rightarrow> request_row list \<Rightarrow> bool" where
  "new_spawns rq db S \<longleftrightarrow>
     (case find (\<lambda>sr. sr_id sr = dr_spawn rq) (dt_spawns db) of
        Some sr \<Rightarrow> S = [] \<and> request_of rq sr
      | None \<Rightarrow> \<exists>sr. S = [sr] \<and> request_of rq sr)"

definition shares_lease_key :: "dispatch_request \<Rightarrow> lease_row \<Rightarrow> bool" where
  "shares_lease_key rq l \<longleftrightarrow> le_id l = lease_id_of rq \<or> le_client l = dr_client_lease rq \<or> le_acquire l = dr_acquire rq"

definition new_leases :: "dispatch_request \<Rightarrow> dispatch_tables \<Rightarrow> lease_row list \<Rightarrow> bool" where
  "new_leases rq db L \<longleftrightarrow>
     (case filter (shares_lease_key rq) (dt_leases db) of
        [] \<Rightarrow> \<exists>l. L = [l] \<and> pending_lease rq (lease_id_of rq) l \<and> le_gateway l = None
      | [l] \<Rightarrow> L = [] \<and> pending_lease rq (lease_id_of rq) l
      | _ \<Rightarrow> False)"

definition new_bindings :: "dispatch_request \<Rightarrow> dispatch_tables \<Rightarrow> binding_row list \<Rightarrow> bool" where
  "new_bindings rq db B \<longleftrightarrow>
     (case filter (\<lambda>b. shares_binding_key (fst b) (binding_of rq)) (dt_bindings db) of
        [] \<Rightarrow> \<exists>at. B = [(binding_of rq, at)]
      | [b] \<Rightarrow> B = [] \<and> fst b = binding_of rq
      | _ \<Rightarrow> False)"

definition acquire_intent_of :: "dispatch_request \<Rightarrow> rpc_row \<Rightarrow> bool" where
  "acquire_intent_of rq i \<longleftrightarrow> ri_kind i = AcquireRpc \<and> ri_run i = dr_run rq \<and> ri_transition i = dr_transition rq \<and>
     ri_client i = dr_client_lease rq \<and> ri_key i = dr_acquire rq \<and> ri_phase i = Some (dr_phase rq) \<and>
     ri_agent i = Some (dr_agent rq) \<and> ri_requester i = Some (dr_requester rq) \<and> ri_ttl i = Some (dr_ttl rq)"

definition new_acquires :: "dispatch_request \<Rightarrow> dispatch_tables \<Rightarrow> rpc_row list \<Rightarrow> bool" where
  "new_acquires rq db A \<longleftrightarrow>
     (case filter (\<lambda>i. ri_kind i = AcquireRpc \<and> (ri_client i = dr_client_lease rq \<or> ri_key i = dr_acquire rq)) (dt_intents db) of
        [] \<Rightarrow> \<exists>i. A = [i] \<and> acquire_intent_of rq i
      | [i] \<Rightarrow> A = [] \<and> acquire_intent_of rq i
      | _ \<Rightarrow> False)"

definition new_spawn_intent :: "dispatch_request \<Rightarrow> rpc_row \<Rightarrow> bool" where
  "new_spawn_intent rq i \<longleftrightarrow> ri_kind i = SpawnRpc \<and> ri_key i = dr_key rq \<and> same_spawn rq i \<and> ri_state i = RpcPending \<and>
     (\<exists>d. spawn_descriptor_metadata rq = Inr d \<and> ri_metadata i = Some (dumps (PDict d)))"

abbreviation same_but_spawns where
  "same_but_spawns a b \<equiv> dt_leases b = dt_leases a \<and> dt_intents b = dt_intents a \<and> dt_bindings b = dt_bindings a \<and> dt_sessions b = dt_sessions a \<and> dt_reserves b = dt_reserves a"

abbreviation same_but_leases where
  "same_but_leases a b \<equiv> dt_spawns b = dt_spawns a \<and> dt_intents b = dt_intents a \<and> dt_bindings b = dt_bindings a \<and> dt_sessions b = dt_sessions a \<and> dt_reserves b = dt_reserves a"

abbreviation same_but_intents where
  "same_but_intents a b \<equiv> dt_spawns b = dt_spawns a \<and> dt_leases b = dt_leases a \<and> dt_bindings b = dt_bindings a \<and> dt_sessions b = dt_sessions a \<and> dt_reserves b = dt_reserves a"

abbreviation same_but_bindings where
  "same_but_bindings a b \<equiv> dt_spawns b = dt_spawns a \<and> dt_leases b = dt_leases a \<and> dt_intents b = dt_intents a \<and> dt_sessions b = dt_sessions a \<and> dt_reserves b = dt_reserves a"

lemma spawn_request_inserted:
  assumes "assert_or_insert_spawn_request env rq now w = (Inr u, w')"
  shows "\<exists>S. dt_spawns (w_db w') = dt_spawns (w_db w) @ S \<and> new_spawns rq (w_db w) S"
    and "same_but_spawns (w_db w) (w_db w')"
  using assms by (auto simp: assert_or_insert_spawn_request_def new_spawns_def request_of_def err_simps
      dest: find_SomeD split: option.splits)

lemma lease_inserted:
  assumes "assert_or_insert_lease env rq now expires ms (lease_id_of rq) w = (Inr u, w')"
  shows "\<exists>L. dt_leases (w_db w') = dt_leases (w_db w) @ L \<and> new_leases rq (w_db w) L"
    and "same_but_leases (w_db w) (w_db w')"
  using assms by (auto simp: assert_or_insert_lease_def new_leases_def shares_lease_key_def [abs_def] pending_lease_def err_simps
      length_Suc_conv split: if_splits list.splits)

lemma acquire_intent_inserted:
  assumes "assert_or_insert_acquire_intent env rq now w = (Inr u, w')"
  shows "\<exists>A. dt_intents (w_db w') = dt_intents (w_db w) @ A \<and> list_all (\<lambda>i. ri_kind i = AcquireRpc) A \<and>
      new_acquires rq (w_db w) A"
    and "same_but_intents (w_db w) (w_db w')"
  using assms by (auto simp: assert_or_insert_acquire_intent_def insert_intent_def new_intent_def new_acquires_def
      acquire_intent_of_def Let_def err_simps length_Suc_conv simp del: dumps.simps dest: filter_eq_ConsD
      split: if_splits list.splits)

lemma binding_inserted:
  assumes "assert_or_insert_dispatch_binding env rq now w = (Inr u, w')"
  shows "\<exists>B. dt_bindings (w_db w') = dt_bindings (w_db w) @ B \<and> new_bindings rq (w_db w) B"
    and "same_but_bindings (w_db w) (w_db w')"
  using assms by (auto simp: assert_or_insert_dispatch_binding_def new_bindings_def err_simps length_Suc_conv
      split: if_splits list.splits)

text \<open>The tables before and after a first transaction that commits.\<close>

definition opens :: "dispatch_request \<Rightarrow> dispatch_tables \<Rightarrow> dispatch_tables \<Rightarrow> bool" where
  "opens rq db db' \<longleftrightarrow> \<not> duplicate_live rq db \<and>
     (\<exists>S. dt_spawns db' = dt_spawns db @ S \<and> new_spawns rq db S) \<and>
     (\<exists>L. dt_leases db' = dt_leases db @ L \<and> new_leases rq db L) \<and>
     (\<exists>A i. dt_intents db' = dt_intents db @ A @ [i] \<and> list_all (\<lambda>i. ri_kind i = AcquireRpc) A \<and>
        new_acquires rq db A \<and> new_spawn_intent rq i) \<and>
     (\<exists>B. dt_bindings db' = dt_bindings db @ B \<and> new_bindings rq db B) \<and>
     dt_sessions db' = dt_sessions db \<and> dt_reserves db' = dt_reserves db"

lemma new_rows_cong:
  "dt_spawns db = dt_spawns db' \<Longrightarrow> new_spawns rq db = new_spawns rq db'"
  "dt_leases db = dt_leases db' \<Longrightarrow> new_leases rq db = new_leases rq db'"
  "dt_bindings db = dt_bindings db' \<Longrightarrow> new_bindings rq db = new_bindings rq db'"
  "dt_intents db = dt_intents db' \<Longrightarrow> new_acquires rq db = new_acquires rq db'"
  by (simp_all add: new_spawns_def new_leases_def new_bindings_def new_acquires_def fun_eq_iff)

lemma new_intent_is_spawn:
  "spawn_descriptor_metadata rq = Inr descriptor \<Longrightarrow>
   new_spawn_intent rq ((new_intent rq intent_id SpawnRpc (dr_client rq) (dr_key rq) descriptor requested)
     \<lparr>ri_spawn := Some (dr_spawn rq), ri_reserve := Some (dr_reserve rq), ri_digest := Some (dr_digest rq)\<rparr>)"
  by (simp add: new_spawn_intent_def new_intent_def same_spawn_def)

lemma pending_dispatch_opens:
  assumes "insert_pending_dispatch env rq w = (Inr u, w')"
  shows "opens rq (w_db w) (w_db w')"
proof -
  obtain t w1 a w2 m b w3 now c w4 d w5 w6 i e where
    spawn: "assert_or_insert_spawn_request env rq t w1 = (Inr a, w2)"
    and lease: "assert_or_insert_lease env rq t (utc_from_epoch_ms m) m (lease_id_of rq) w2 = (Inr b, w3)"
    and acquire: "assert_or_insert_acquire_intent env rq now w3 = (Inr c, w4)"
    and binding: "assert_or_insert_dispatch_binding env rq t w4 = (Inr d, w5)" and same: "w6 = w5"
    and pending: "insert_intent env i w6 = (Inr e, w')"
    and intent: "new_spawn_intent rq i"
    and start: "w_db w1 = w_db w" "\<not> duplicate_live rq (w_db w)"
    using assms
    unfolding insert_pending_dispatch_def assert_no_conflicting_spawn_replay_def assert_no_release_key_collision_def
      assert_no_potentially_live_dispatch_def spawn_intent_requested_time_def
    apply (simp only: err_simps)
    apply (elim exE conjE)
    apply (rule that, assumption+)
      apply (rule new_intent_is_spawn)
     apply simp_all
    done
  note rows = spawn_request_inserted [OF spawn] lease_inserted [OF lease] acquire_intent_inserted [OF acquire]
    binding_inserted [OF binding]
  have last: "w_db w' = (w_db w5)\<lparr>dt_intents := dt_intents (w_db w5) @ [i]\<rparr>"
    using pending same by (simp add: insert_intent_def err_simps)
  have S: "\<exists>S. dt_spawns (w_db w') = dt_spawns (w_db w) @ S \<and> new_spawns rq (w_db w) S"
    using rows(1,4,6,8) start(1) by (simp add: last)
  have L: "\<exists>L. dt_leases (w_db w') = dt_leases (w_db w) @ L \<and> new_leases rq (w_db w) L"
    using rows(2,3,6,8) start(1) new_rows_cong(2) [of "w_db w2" "w_db w" rq] by (simp add: last)
  have A: "\<exists>A. dt_intents (w_db w') = dt_intents (w_db w) @ A @ [i] \<and> list_all (\<lambda>i. ri_kind i = AcquireRpc) A \<and>
      new_acquires rq (w_db w) A"
    using rows(2,4,5,8) start(1) new_rows_cong(4) [of "w_db w3" "w_db w" rq] by (auto simp: last)
  have B: "\<exists>B. dt_bindings (w_db w') = dt_bindings (w_db w) @ B \<and> new_bindings rq (w_db w) B"
    using rows(2,4,6,7) start(1) new_rows_cong(3) [of "w_db w4" "w_db w" rq] by (simp add: last)
  have "dt_sessions (w_db w') = dt_sessions (w_db w)" "dt_reserves (w_db w') = dt_reserves (w_db w)"
    using rows(2,4,6,8) start(1) by (simp_all add: last)
  then show ?thesis unfolding opens_def using start(2) S L A B intent by blast
qed

lemma existing_spawn_replay_returns:
  assumes "existing_spawn_replay_result env rq w = (Inr x, w')"
  shows "w' = w" "x = None \<longleftrightarrow> spawn_intent_of (dr_key rq) (w_db w) = None"
  using assms
  by (auto simp: existing_spawn_replay_result_def accepted_spawn_replay_session_key_def err_simps
      split: option.splits if_splits) (metis rpc_state.exhaust)+

lemma begin_dispatch_cases:
  assumes "begin_dispatch env rq w = (Inr x, w')"
  obtains (replays) res where "x = Some res" "w' = w" "existing_spawn_replay_result env rq w = (Inr (Some res), w)"
    | (begins) "x = None" "opens rq (w_db w) (w_db w')" "spawn_intent_of (dr_key rq) (w_db w) = None"
proof -
  obtain found w1 where found: "existing_spawn_replay_result env rq w = (Inr found, w1)"
    using assms by (auto simp: begin_dispatch_def err_simps)
  note same = existing_spawn_replay_returns [OF found]
  show ?thesis
  proof (cases found)
    case None
    then show ?thesis using assms found same
      by (intro begins) (auto simp: begin_dispatch_def err_simps dest: pending_dispatch_opens)
  next
    case (Some res)
    then show ?thesis using assms found same by (intro replays) (auto simp: begin_dispatch_def err_simps)
  qed
qed

subsection \<open>The references between the rows\<close>

definition spawn_keys :: "dispatch_tables \<Rightarrow> string list" where
  "spawn_keys db = map ri_key (filter (\<lambda>i. ri_kind i = SpawnRpc) (dt_intents db))"

definition dispatch_ok :: "dispatch_tables \<Rightarrow> bool" where
  "dispatch_ok db \<longleftrightarrow>
     distinct (spawn_keys db) \<and> distinct (map sr_id (dt_spawns db)) \<and> distinct (map le_client (dt_leases db)) \<and>
     (\<forall>i\<in>set (dt_intents db). ri_kind i = SpawnRpc \<longrightarrow> (\<exists>sr\<in>set (dt_spawns db). ri_spawn i = Some (sr_id sr))) \<and>
     (\<forall>b\<in>set (dt_bindings db). \<exists>l\<in>set (dt_leases db). le_id l = bd_lease (fst b)) \<and>
     (\<forall>b\<in>set (dt_bindings db). \<forall>c\<in>set (dt_bindings db).
        shares_binding_key (fst b) (fst c) \<longrightarrow> fst b = fst c) \<and>
     (\<forall>b\<in>set (dt_bindings db). \<forall>l\<in>set (dt_leases db).
        le_client l = bd_client_lease (fst b) \<longrightarrow> le_release l = Some (bd_release (fst b))) \<and>
     (\<forall>l\<in>set (dt_leases db). lease_ok (le_gateway l, le_state l))"

lemma dispatch_okD:
  assumes "dispatch_ok db"
  shows "b \<in> set (dt_bindings db) \<Longrightarrow> c \<in> set (dt_bindings db) \<Longrightarrow> shares_binding_key (fst b) (fst c) \<Longrightarrow> fst b = fst c"
    and "b \<in> set (dt_bindings db) \<Longrightarrow> l \<in> set (dt_leases db) \<Longrightarrow> le_client l = bd_client_lease (fst b) \<Longrightarrow>
      le_release l = Some (bd_release (fst b))"
    and "l \<in> set (dt_leases db) \<Longrightarrow> lease_ok (le_gateway l, le_state l)"
    and "sr \<in> set (dt_spawns db) \<Longrightarrow> sr' \<in> set (dt_spawns db) \<Longrightarrow> sr_id sr = sr_id sr' \<Longrightarrow> sr = sr'"
    and "l \<in> set (dt_leases db) \<Longrightarrow> l' \<in> set (dt_leases db) \<Longrightarrow> le_client l = le_client l' \<Longrightarrow> l = l'"
    and "i \<in> set (dt_intents db) \<Longrightarrow> j \<in> set (dt_intents db) \<Longrightarrow> ri_kind i = SpawnRpc \<Longrightarrow> ri_kind j = SpawnRpc \<Longrightarrow>
      ri_key i = ri_key j \<Longrightarrow> i = j"
  using assms unfolding dispatch_ok_def distinct_map inj_on_def spawn_keys_def by (blast, blast, blast, blast, blast, auto)

definition admitted :: "dispatch_request \<Rightarrow> dispatch_tables \<Rightarrow> bool" where
  "admitted rq db \<longleftrightarrow> (\<exists>b\<in>set (dt_bindings db). fst b = binding_of rq)"

text \<open>A request with the release key of its lease's binding; and one that may have no binding at all.\<close>

definition owns_release :: "dispatch_request \<Rightarrow> dispatch_tables \<Rightarrow> bool" where
  "owns_release rq db \<longleftrightarrow>
     (\<exists>b\<in>set (dt_bindings db). bd_client_lease (fst b) = dr_client_lease rq \<and> bd_release (fst b) = dr_release rq)"

definition release_agrees :: "dispatch_request \<Rightarrow> dispatch_tables \<Rightarrow> bool" where
  "release_agrees rq db \<longleftrightarrow>
     (\<forall>b\<in>set (dt_bindings db). bd_client_lease (fst b) = dr_client_lease rq \<longrightarrow> bd_release (fst b) = dr_release rq)"

text \<open>Acquire intents with the lease of the request have its key.\<close>

definition paired :: "dispatch_request \<Rightarrow> dispatch_tables \<Rightarrow> bool" where
  "paired rq db \<longleftrightarrow>
     (\<forall>i\<in>set (dt_intents db). ri_kind i = AcquireRpc \<longrightarrow> ri_client i = dr_client_lease rq \<longrightarrow> ri_key i = dr_acquire rq)"

lemma owns_release_agrees:
  assumes "dispatch_ok db" "owns_release rq db"
  shows "release_agrees rq db"
  unfolding release_agrees_def
proof (intro ballI impI)
  obtain c where c: "c \<in> set (dt_bindings db)" "bd_client_lease (fst c) = dr_client_lease rq" "bd_release (fst c) = dr_release rq"
    using assms(2) by (auto simp: owns_release_def)
  fix b assume b: "b \<in> set (dt_bindings db)" "bd_client_lease (fst b) = dr_client_lease rq"
  then have "shares_binding_key (fst b) (fst c)" using c(2) by (simp add: shares_binding_key_def)
  then have "fst b = fst c" by (rule dispatch_okD(1) [OF assms(1) b(1) c(1)])
  then show "bd_release (fst b) = dr_release rq" using c(3) by simp
qed

lemma admitted_agrees: "dispatch_ok db \<Longrightarrow> admitted rq db \<Longrightarrow> release_agrees rq db"
  by (rule owns_release_agrees) (auto simp: admitted_def owns_release_def binding_of_def intro!: bexI)

lemma some_release_agrees:
  assumes "dispatch_ok db"
  obtains k where "release_agrees (rq\<lparr>dr_release := k\<rparr>) db"
proof (cases "\<exists>b\<in>set (dt_bindings db). bd_client_lease (fst b) = dr_client_lease rq")
  case True
  then obtain b where "b \<in> set (dt_bindings db)" "bd_client_lease (fst b) = dr_client_lease rq" by blast
  then have "owns_release (rq\<lparr>dr_release := bd_release (fst b)\<rparr>) db" by (auto simp: owns_release_def)
  then show ?thesis by (rule that [OF owns_release_agrees [OF assms]])
next
  case False
  then have "release_agrees (rq\<lparr>dr_release := []\<rparr>) db" by (auto simp: release_agrees_def)
  then show ?thesis by (rule that)
qed

lemma grows_keys:
  assumes "grows intent_moves (\<lambda>i. ri_kind i = ReleaseRpc) xs ys"
  shows "map ri_key (filter (\<lambda>i. ri_kind i = SpawnRpc) ys) = map ri_key (filter (\<lambda>i. ri_kind i = SpawnRpc) xs)"
proof -
  obtain old new where ys: "ys = old @ new" and old: "list_all2 intent_moves xs old"
    and new: "list_all (\<lambda>i. ri_kind i = ReleaseRpc) new"
    using assms by (auto simp: grows_def)
  have "filter (\<lambda>i. ri_kind i = SpawnRpc) new = []" using new by (auto simp: list_all_iff filter_empty_conv)
  moreover have "map ri_key (filter (\<lambda>i. ri_kind i = SpawnRpc) old) = map ri_key (filter (\<lambda>i. ri_kind i = SpawnRpc) xs)"
    using old by induction (auto simp: intent_moves_def)
  ultimately show ?thesis by (simp add: ys)
qed

lemma moves_spawn_ids: "moves rq db db' \<Longrightarrow> map sr_id (dt_spawns db') = map sr_id (dt_spawns db)"
  unfolding moves_def by (auto simp: request_moves_def intro: grows_map)

lemma moves_spawn_keys: "moves rq db db' \<Longrightarrow> spawn_keys db' = spawn_keys db"
  unfolding moves_def spawn_keys_def by (auto intro: grows_keys)

lemma moves_lease_clients: "moves rq db db' \<Longrightarrow> map le_client (dt_leases db') = map le_client (dt_leases db)"
  unfolding moves_def by (auto simp: lease_row_moves_def intro: grows_map)

lemma moves_leases:
  "moves rq db db' \<Longrightarrow> l' \<in> set (dt_leases db') \<Longrightarrow> \<exists>l\<in>set (dt_leases db). lease_row_moves rq l l'"
  "moves rq db db' \<Longrightarrow> l \<in> set (dt_leases db) \<Longrightarrow> \<exists>l'\<in>set (dt_leases db'). lease_row_moves rq l l'"
  unfolding moves_def by (auto dest: grows_new grows_old)

lemma moves_spawns:
  "moves rq db db' \<Longrightarrow> sr' \<in> set (dt_spawns db') \<Longrightarrow> \<exists>sr\<in>set (dt_spawns db). request_moves sr sr'"
  "moves rq db db' \<Longrightarrow> sr \<in> set (dt_spawns db) \<Longrightarrow> \<exists>sr'\<in>set (dt_spawns db'). request_moves sr sr'"
  unfolding moves_def by (auto dest: grows_new grows_old)

lemma moves_intents:
  "moves rq db db' \<Longrightarrow> i' \<in> set (dt_intents db') \<Longrightarrow> ri_kind i' = ReleaseRpc \<or> (\<exists>i\<in>set (dt_intents db). intent_moves i i')"
  "moves rq db db' \<Longrightarrow> i \<in> set (dt_intents db) \<Longrightarrow> \<exists>i'\<in>set (dt_intents db'). intent_moves i i'"
  unfolding moves_def by (auto dest: grows_new grows_old)

lemma moves_keep_ok:
  assumes moves: "moves rq db db'" and ok: "dispatch_ok db" and agrees: "release_agrees rq db"
  shows "dispatch_ok db'"
proof -
  have B: "dt_bindings db' = dt_bindings db" using moves by (simp add: moves_def)
  have "\<exists>sr\<in>set (dt_spawns db'). ri_spawn i = Some (sr_id sr)"
    if i: "i \<in> set (dt_intents db')" "ri_kind i = SpawnRpc" for i
  proof -
    obtain j where "j \<in> set (dt_intents db)" "intent_moves j i" using moves_intents(1) [OF moves i(1)] i(2) by auto
    then obtain sr where sr: "sr \<in> set (dt_spawns db)" "ri_spawn i = Some (sr_id sr)"
      using ok i(2) by (fastforce simp: dispatch_ok_def intent_moves_def)
    obtain sr' where "sr' \<in> set (dt_spawns db')" "request_moves sr sr'"
      using moves_spawns(2) [OF moves sr(1)] by blast
    with sr(2) show ?thesis by (intro bexI [of _ sr']) (auto simp: request_moves_def)
  qed
  moreover have "\<exists>l\<in>set (dt_leases db'). le_id l = bd_lease (fst b)" if b: "b \<in> set (dt_bindings db')" for b
  proof -
    obtain l where l: "l \<in> set (dt_leases db)" "le_id l = bd_lease (fst b)"
      using ok b unfolding B dispatch_ok_def by blast
    obtain l' where "l' \<in> set (dt_leases db')" "lease_row_moves rq l l'"
      using moves_leases(2) [OF moves l(1)] by blast
    with l(2) show ?thesis by (auto simp: lease_row_moves_def)
  qed
  moreover have "le_release l' = Some (bd_release (fst b))"
    if b: "b \<in> set (dt_bindings db')" and l': "l' \<in> set (dt_leases db')" "le_client l' = bd_client_lease (fst b)" for b l'
  proof -
    obtain l where l: "l \<in> set (dt_leases db)" "lease_row_moves rq l l'" using moves_leases(1) [OF moves l'(1)] by auto
    then have old: "le_release l = Some (bd_release (fst b))"
      using ok b l'(2) unfolding B by (auto simp: dispatch_ok_def lease_row_moves_def)
    show ?thesis
    proof (cases "le_release l' = le_release l")
      case False
      then have written: "le_client l = dr_client_lease rq" "le_release l' = Some (dr_release rq)" "le_client l = le_client l'"
        using l(2) by (auto simp: lease_row_moves_def)
      then have "bd_release (fst b) = dr_release rq" using agrees b l'(2) unfolding B by (simp add: release_agrees_def)
      then show ?thesis using written by simp
    qed (simp add: old)
  qed
  moreover have "lease_ok (le_gateway l', le_state l')" if "l' \<in> set (dt_leases db')" for l'
    using moves_leases(1) [OF moves that] ok by (auto simp: dispatch_ok_def lease_row_moves_def intro: lease_moves_ok)
  ultimately show ?thesis
    using ok unfolding dispatch_ok_def B moves_spawn_ids [OF moves] moves_spawn_keys [OF moves] moves_lease_clients [OF moves]
    by blast
qed

lemma new_leases_facts:
  assumes "new_leases rq db L"
  shows "\<exists>l\<in>set (dt_leases db) \<union> set L. le_id l = lease_id_of rq"
    and "l \<in> set (dt_leases db) \<union> set L \<Longrightarrow> shares_lease_key rq l \<Longrightarrow>
      le_client l = dr_client_lease rq \<and> le_release l = Some (dr_release rq) \<and> le_state l = AcquirePending"
    and "l \<in> set L \<Longrightarrow> shares_lease_key rq l \<and> m \<in> set (dt_leases db) \<longrightarrow> \<not> shares_lease_key rq m"
    and "l \<in> set L \<Longrightarrow> pending_lease rq (lease_id_of rq) l"
    and "\<exists>l\<in>set (dt_leases db) \<union> set L. pending_lease rq (lease_id_of rq) l"
    and "distinct (map le_client (dt_leases db)) \<Longrightarrow> distinct (map le_client (dt_leases db @ L))"
proof -
  have old: "l \<in> set (filter (shares_lease_key rq) (dt_leases db)) \<Longrightarrow> pending_lease rq (lease_id_of rq) l \<and> L = []" for l
    using assms by (auto simp: new_leases_def simp del: set_filter split: list.splits)
  have new: "l \<in> set L \<Longrightarrow> pending_lease rq (lease_id_of rq) l" for l
    using assms by (auto simp: new_leases_def split: list.splits)
  show "\<exists>l\<in>set (dt_leases db) \<union> set L. le_id l = lease_id_of rq"
    using assms by (auto simp: new_leases_def pending_lease_def filter_eq_Cons_iff split: list.splits)
  show "l \<in> set (dt_leases db) \<union> set L \<Longrightarrow> shares_lease_key rq l \<Longrightarrow>
      le_client l = dr_client_lease rq \<and> le_release l = Some (dr_release rq) \<and> le_state l = AcquirePending"
    using old [of l] new [of l] by (auto simp: pending_lease_def)
  show "l \<in> set L \<Longrightarrow> shares_lease_key rq l \<and> m \<in> set (dt_leases db) \<longrightarrow> \<not> shares_lease_key rq m"
    using old [of m] by auto
  show "l \<in> set L \<Longrightarrow> pending_lease rq (lease_id_of rq) l" by (rule new)
  show "\<exists>l\<in>set (dt_leases db) \<union> set L. pending_lease rq (lease_id_of rq) l"
    using assms by (auto simp: new_leases_def filter_eq_Cons_iff split: list.splits)
  show "distinct (map le_client (dt_leases db @ L))" if "distinct (map le_client (dt_leases db))"
    using assms that
    by (auto simp: new_leases_def pending_lease_def filter_empty_conv shares_lease_key_def split: list.splits)
qed

lemma new_bindings_facts:
  assumes "new_bindings rq db B"
  shows "b \<in> set (dt_bindings db) \<union> set B \<Longrightarrow> shares_binding_key (fst b) (binding_of rq) \<Longrightarrow> fst b = binding_of rq"
    and "b \<in> set B \<Longrightarrow> fst b = binding_of rq"
    and "\<exists>b\<in>set (dt_bindings db) \<union> set B. fst b = binding_of rq"
proof -
  have old: "b \<in> set (filter (\<lambda>b. shares_binding_key (fst b) (binding_of rq)) (dt_bindings db)) \<Longrightarrow>
      fst b = binding_of rq" for b
    using assms by (auto simp: new_bindings_def simp del: set_filter split: list.splits)
  have new: "b \<in> set B \<Longrightarrow> fst b = binding_of rq" for b
    using assms by (auto simp: new_bindings_def split: list.splits)
  show "b \<in> set (dt_bindings db) \<union> set B \<Longrightarrow> shares_binding_key (fst b) (binding_of rq) \<Longrightarrow> fst b = binding_of rq"
    using old [of b] new [of b] by auto
  show "b \<in> set B \<Longrightarrow> fst b = binding_of rq" by (rule new)
  show "\<exists>b\<in>set (dt_bindings db) \<union> set B. fst b = binding_of rq"
    using assms by (auto simp: new_bindings_def filter_eq_Cons_iff split: list.splits)
qed

lemma new_spawns_facts:
  assumes "new_spawns rq db S" "distinct (map sr_id (dt_spawns db))"
  shows "distinct (map sr_id (dt_spawns db @ S))"
    and "\<exists>sr\<in>set (dt_spawns db) \<union> set S. sr_id sr = dr_spawn rq"
    and "sr \<in> set (dt_spawns db) \<union> set S \<Longrightarrow> sr_id sr = dr_spawn rq \<Longrightarrow> request_of rq sr"
    and "sr \<in> set S \<Longrightarrow> sr_id sr = dr_spawn rq \<and> (\<forall>x\<in>set (dt_spawns db). sr_id x \<noteq> dr_spawn rq)"
proof -
  show "distinct (map sr_id (dt_spawns db @ S))"
    using assms by (auto simp: new_spawns_def request_of_def find_None_iff split: option.splits)
  show "\<exists>sr\<in>set (dt_spawns db) \<union> set S. sr_id sr = dr_spawn rq"
    using assms by (auto simp: new_spawns_def request_of_def dest: find_SomeD split: option.splits)
  show "sr \<in> set S \<Longrightarrow> sr_id sr = dr_spawn rq \<and> (\<forall>x\<in>set (dt_spawns db). sr_id x \<noteq> dr_spawn rq)"
    using assms by (auto simp: new_spawns_def request_of_def find_None_iff split: option.splits)
  show "request_of rq sr" if sr: "sr \<in> set (dt_spawns db) \<union> set S" "sr_id sr = dr_spawn rq"
  proof (cases "find (\<lambda>sr. sr_id sr = dr_spawn rq) (dt_spawns db)")
    case None
    moreover from None have "\<forall>x\<in>set (dt_spawns db). sr_id x \<noteq> dr_spawn rq" by (simp add: find_None_iff)
    ultimately show ?thesis using assms(1) sr unfolding new_spawns_def by auto
  next
    case (Some x)
    then have x: "x \<in> set (dt_spawns db)" "sr_id x = dr_spawn rq" "request_of rq x" "S = []"
      using assms(1) by (auto simp: new_spawns_def dest: find_SomeD)
    then have "sr = x" using sr assms(2) unfolding distinct_map inj_on_def by auto
    then show ?thesis using x by simp
  qed
qed

lemma opens_keep_ok:
  assumes opens: "opens rq db db'" and ok: "dispatch_ok db" and new: "spawn_intent_of (dr_key rq) db = None"
  shows "dispatch_ok db'" "admitted rq db'"
proof -
  obtain S L A i B where rows: "dt_spawns db' = dt_spawns db @ S" "new_spawns rq db S"
      "dt_leases db' = dt_leases db @ L" "new_leases rq db L"
      "dt_intents db' = dt_intents db @ A @ [i]" "list_all (\<lambda>i. ri_kind i = AcquireRpc) A" "new_spawn_intent rq i"
      "dt_bindings db' = dt_bindings db @ B" "new_bindings rq db B"
    using opens by (auto simp: opens_def)
  have ids: "distinct (map sr_id (dt_spawns db))" using ok by (simp add: dispatch_ok_def)
  note S = new_spawns_facts [OF rows(2) ids]
  note L = new_leases_facts [OF rows(4)]
  note B = new_bindings_facts [OF rows(9)]
  show "admitted rq db'" using B(3) by (auto simp: admitted_def rows)
  have A: "filter (\<lambda>i. ri_kind i = SpawnRpc) A = []" using rows(6) by (auto simp: list_all_iff filter_empty_conv)
  have keys: "spawn_keys db' = spawn_keys db @ [dr_key rq]"
    using rows(7) A by (simp add: spawn_keys_def rows new_spawn_intent_def)
  have "dr_key rq \<notin> set (spawn_keys db)"
    using new by (auto simp: spawn_keys_def spawn_intent_of_def find_None_iff)
  then have "distinct (spawn_keys db')" using ok keys by (simp add: dispatch_ok_def)
  moreover have "\<exists>sr\<in>set (dt_spawns db'). ri_spawn j = Some (sr_id sr)"
    if j: "j \<in> set (dt_intents db')" "ri_kind j = SpawnRpc" for j
  proof (cases "j \<in> set (dt_intents db)")
    case True
    then show ?thesis using ok j(2) by (auto simp: dispatch_ok_def rows)
  next
    case False
    then have "j = i" using j rows(6) by (auto simp: rows list_all_iff)
    then have "ri_spawn j = Some (dr_spawn rq)" using rows(7) by (simp add: new_spawn_intent_def same_spawn_def)
    moreover obtain sr where "sr \<in> set (dt_spawns db')" "sr_id sr = dr_spawn rq" using S(2) by (auto simp: rows)
    ultimately show ?thesis by (intro bexI [of _ sr]) auto
  qed
  moreover have "\<exists>l\<in>set (dt_leases db'). le_id l = bd_lease (fst b)" if "b \<in> set (dt_bindings db')" for b
  proof (cases "b \<in> set (dt_bindings db)")
    case True
    then show ?thesis using ok by (auto simp: dispatch_ok_def rows)
  next
    case False
    then have "fst b = binding_of rq" using that B(2) by (auto simp: rows)
    then show ?thesis using L(1) by (auto simp: binding_of_def rows)
  qed
  moreover have "fst b = fst c"
    if "b \<in> set (dt_bindings db')" "c \<in> set (dt_bindings db')" "shares_binding_key (fst b) (fst c)" for b c
  proof (cases "fst b = binding_of rq \<or> fst c = binding_of rq")
    case True
    moreover have "shares_binding_key (fst c) (fst b)" using that(3) by (auto simp: shares_binding_key_def)
    ultimately show ?thesis using B(1) [of b] B(1) [of c] that by (auto simp: rows)
  next
    case False
    then have "b \<in> set (dt_bindings db)" "c \<in> set (dt_bindings db)" using that B(2) [of b] B(2) [of c] by (auto simp: rows)
    then show ?thesis using dispatch_okD(1) [OF ok] that(3) by blast
  qed
  moreover have "le_release l = Some (bd_release (fst b))"
    if b: "b \<in> set (dt_bindings db')" and l: "l \<in> set (dt_leases db')" "le_client l = bd_client_lease (fst b)" for b l
  proof (cases "le_client l = dr_client_lease rq")
    case True
    then have "fst b = binding_of rq"
      using B(1) [of b] b l(2) by (simp add: rows shares_binding_key_def binding_of_def)
    then show ?thesis using L(2) [of l] True l(1) by (simp add: rows binding_of_def shares_lease_key_def)
  next
    case False
    then have "l \<in> set (dt_leases db)" using l(1) L(4) by (auto simp: rows pending_lease_def)
    moreover have "b \<in> set (dt_bindings db)" using b B(2) [of b] False l(2) by (auto simp: rows binding_of_def)
    ultimately show ?thesis using ok l(2) by (simp add: dispatch_ok_def)
  qed
  moreover have "lease_ok (le_gateway l, le_state l)" if "l \<in> set (dt_leases db')" for l
    using that ok L(4) [of l] by (auto simp: rows dispatch_ok_def lease_ok_def gone_def pending_lease_def)
  moreover have "distinct (map le_client (dt_leases db'))" using L(6) ok by (simp add: dispatch_ok_def rows(3))
  ultimately show "dispatch_ok db'" using S(1) unfolding dispatch_ok_def rows(1) by blast
qed

subsection \<open>Live rows\<close>

lemma live_row_moves:
  assumes "intent_moves i i'" "request_moves sr sr'" "lease_row_moves rq l l'" "ri_kind i = SpawnRpc"
    and "lease_ok (le_gateway l, le_state l)" "live_row i' sr' l'"
  shows "live_row i sr l"
proof (rule ccontr)
  assume dead: "\<not> live_row i sr l"
  then have "\<not> is_open (ri_state i)" "ri_state i \<notin> {RpcAccepted, RpcReconciled}"
    by (auto simp: live_row_def is_open_def)
  then have i': "ri_state i' = ri_state i"
    using assms(1,4) settled_rpc_stays [of "ri_kind i" "ri_state i" "ri_state i'"] by (simp add: intent_moves_def)
  then have blocked: "ri_state i = RpcReview" "blocked_before_spawn sr l"
    using dead assms(6) by (auto simp: live_row_def)
  then have "sr_state sr' = SpawnReview" "sr_reason sr' = sr_reason sr"
    using assms(2) settled_spawn_stays [of "sr_state sr" "sr_state sr'"]
    by (auto simp: request_moves_def blocked_before_spawn_def)
  moreover have "le_state l' = le_state l"
    using gone_lease_stays [of "(le_gateway l, le_state l)" "(le_gateway l', le_state l')"] assms(3,5) blocked(2)
    by (auto simp: lease_row_moves_def gone_def blocked_before_spawn_def)
  ultimately have "blocked_before_spawn sr' l'" using blocked(2) by (simp add: blocked_before_spawn_def)
  then show False using assms(6) i' blocked(1) by (simp add: live_row_def)
qed

lemma potentially_live_iff:
  "potentially_live db i \<longleftrightarrow> ri_kind i = SpawnRpc \<and>
     (\<exists>sr\<in>set (dt_spawns db). \<exists>b\<in>set (dt_bindings db). \<exists>l\<in>set (dt_leases db). joined i sr (fst b) l \<and> live_row i sr l)"
  by (simp add: potentially_live_def list_ex_iff)

text \<open>A row that is not live stays so.\<close>

lemma moves_live:
  assumes moves: "moves rq db db'" and ok: "dispatch_ok db" and i: "intent_moves i i'" and live: "potentially_live db' i'"
  shows "potentially_live db i"
proof -
  obtain sr' b l' where rows: "sr' \<in> set (dt_spawns db')" "b \<in> set (dt_bindings db)" "l' \<in> set (dt_leases db')"
      and join: "joined i' sr' (fst b) l'" "live_row i' sr' l'" and kind: "ri_kind i' = SpawnRpc"
    using live moves by (auto simp: potentially_live_iff moves_def)
  obtain sr where sr: "sr \<in> set (dt_spawns db)" "request_moves sr sr'" using moves_spawns(1) [OF moves rows(1)] by blast
  obtain l where l: "l \<in> set (dt_leases db)" "lease_row_moves rq l l'" using moves_leases(1) [OF moves rows(3)] by blast
  have "le_release l = Some (bd_release (fst b))"
    using dispatch_okD(2) [OF ok rows(2) l(1)] join(1) l(2) by (simp add: joined_def lease_row_moves_def)
  then have "joined i sr (fst b) l"
    using join(1) i sr(2) l(2) by (simp add: joined_def intent_moves_def request_moves_def lease_row_moves_def)
  moreover have "live_row i sr l"
    using i sr(2) l(2) _ dispatch_okD(3) [OF ok l(1)] join(2)
    by (rule live_row_moves) (use i kind in \<open>simp add: intent_moves_def\<close>)
  ultimately show ?thesis using rows(2) sr(1) l(1) i kind by (auto simp: potentially_live_iff intent_moves_def)
qed

text \<open>New rows do not join with an old intent.\<close>

lemma opens_live:
  assumes opens: "opens rq db db'" and ok: "dispatch_ok db" and new: "spawn_intent_of (dr_key rq) db = None"
    and i: "i \<in> set (dt_intents db)" and live: "potentially_live db' i"
  shows "potentially_live db i"
proof -
  obtain S L B where rows: "dt_spawns db' = dt_spawns db @ S" "new_spawns rq db S"
      "dt_leases db' = dt_leases db @ L" "new_leases rq db L"
      "dt_bindings db' = dt_bindings db @ B" "new_bindings rq db B"
    using opens by (auto simp: opens_def)
  have ids: "distinct (map sr_id (dt_spawns db))" using ok by (simp add: dispatch_ok_def)
  obtain sr b l where found: "sr \<in> set (dt_spawns db')" "b \<in> set (dt_bindings db')" "l \<in> set (dt_leases db')"
      "joined i sr (fst b) l" "live_row i sr l" and kind: "ri_kind i = SpawnRpc"
    using live by (auto simp: potentially_live_iff)
  have key: "ri_key i \<noteq> dr_key rq" using new i kind by (auto simp: spawn_intent_of_def find_None_iff)
  have b: "b \<in> set (dt_bindings db)"
  proof (rule ccontr)
    assume "b \<notin> set (dt_bindings db)"
    then have "fst b = binding_of rq" using found(2) new_bindings_facts(2) [OF rows(6), of b] by (simp add: rows)
    then show False using found(4) key by (simp add: joined_def binding_of_def)
  qed
  have "sr \<in> set (dt_spawns db)"
  proof (rule ccontr)
    assume "sr \<notin> set (dt_spawns db)"
    then have "sr \<in> set S" using found(1) by (simp add: rows)
    then have "sr_id sr = dr_spawn rq" "sr_key sr = dr_key rq"
      using new_spawns_facts(3,4) [OF rows(2) ids, of sr] by (simp_all add: request_of_def)
    then show False using found(4) key by (simp add: joined_def)
  qed
  moreover have "l \<in> set (dt_leases db)"
  proof (rule ccontr)
    assume "l \<notin> set (dt_leases db)"
    then have l: "l \<in> set L" using found(3) by (simp add: rows)
    obtain m where m: "m \<in> set (dt_leases db)" "le_id m = bd_lease (fst b)" using ok b unfolding dispatch_ok_def by blast
    have "le_id l = lease_id_of rq" using new_leases_facts(4) [OF rows(4) l] by (simp add: pending_lease_def)
    then have "shares_lease_key rq m" "shares_lease_key rq l" using m(2) found(4) by (simp_all add: joined_def shares_lease_key_def)
    then show False using new_leases_facts(3) [OF rows(4) l] m(1) by blast
  qed
  ultimately show ?thesis using found(4,5) b kind by (auto simp: potentially_live_iff)
qed

subsection \<open>Interleaved dispatches\<close>

text \<open>
  One transaction of a dispatch: the first one, or one that records an outcome once the dispatch has
  its binding. Answers, exceptions and reasons are arbitrary.
\<close>

inductive dispatch_step :: "'a dispatch_env \<Rightarrow> dispatch_request \<Rightarrow> dispatch_tables \<Rightarrow> dispatch_tables \<Rightarrow> bool" for env rq where
  begins: "immediate_transaction env (begin_dispatch env rq) w = (r, w') \<Longrightarrow> dispatch_step env rq (w_db w) (w_db w')"
| acquires: "admitted rq (w_db w) \<Longrightarrow>
    immediate_transaction env (persist_acquired_lease env rq obs g False) w = (r', w') \<Longrightarrow>
    dispatch_step env rq (w_db w) (w_db w')"
| acquire_ambiguous: "admitted rq (w_db w) \<Longrightarrow>
    immediate_transaction env (record_ambiguous_acquire env rq e) w = (r', w') \<Longrightarrow>
    dispatch_step env rq (w_db w) (w_db w')"
| acquire_fails: "admitted rq (w_db w) \<Longrightarrow>
    immediate_transaction env (record_failed_acquire env rq acquired e) w = (r', w') \<Longrightarrow>
    dispatch_step env rq (w_db w) (w_db w')"
| expires: "admitted rq (w_db w) \<Longrightarrow>
    immediate_transaction env (expire_locally_expired_lease_before_spawn env rq g) w = (r'', w') \<Longrightarrow>
    dispatch_step env rq (w_db w) (w_db w')"
| accepts: "admitted rq (w_db w) \<Longrightarrow>
    immediate_transaction env (persist_spawn_acceptance env rq obs k False) w = (r', w') \<Longrightarrow>
    dispatch_step env rq (w_db w) (w_db w')"
| spawn_ambiguous: "admitted rq (w_db w) \<Longrightarrow>
    immediate_transaction env (record_ambiguous_spawn env rq e) w = (r', w') \<Longrightarrow>
    dispatch_step env rq (w_db w) (w_db w')"
| spawn_fails: "admitted rq (w_db w) \<Longrightarrow>
    immediate_transaction env (mark_human_review env rq SpawnRpc reason) w = (r', w') \<Longrightarrow>
    dispatch_step env rq (w_db w) (w_db w')"
| release_begins: "admitted rq (w_db w) \<Longrightarrow>
    immediate_transaction env (prepare_owned_lease_release env rq g) w = (r', w') \<Longrightarrow>
    dispatch_step env rq (w_db w) (w_db w')"
| releases: "admitted rq (w_db w) \<Longrightarrow>
    immediate_transaction env (persist_released_lease env rq obs g False) w = (r', w') \<Longrightarrow>
    dispatch_step env rq (w_db w) (w_db w')"
| release_ambiguous: "admitted rq (w_db w) \<Longrightarrow>
    immediate_transaction env (mark_owned_lease_release_unknown env rq g reason) w = (r', w') \<Longrightarrow>
    dispatch_step env rq (w_db w) (w_db w')"
| release_fails: "admitted rq (w_db w) \<Longrightarrow>
    immediate_transaction env (mark_owned_lease_release_review env rq g reason) w = (r', w') \<Longrightarrow>
    dispatch_step env rq (w_db w) (w_db w')"

lemma keeps_on_contract_failure:
  "keeps (world_moves rq) m \<Longrightarrow> (\<And>e. keeps (world_moves rq) (h e)) \<Longrightarrow> keeps (world_moves rq) (on_contract_failure m h)"
  unfolding on_contract_failure_def by (intro mv.keeps_rules)

lemma keeps_records:
  "keeps (world_moves rq) (record_ambiguous_acquire env rq e)"
  "keeps (world_moves rq) (record_failed_acquire env rq acquired e)"
  "keeps (world_moves rq) (record_ambiguous_spawn env rq e)"
  unfolding record_ambiguous_acquire_def record_failed_acquire_def record_ambiguous_spawn_def
  by (intro mv.keeps_rules keeps_on_contract_failure keeps_unknown_candidate keeps_unknown keeps_human_review keeps_candidate)+

lemmas keeps_later = keeps_records keeps_persist_acquired keeps_expire keeps_acceptance keeps_human_review
  keeps_prepare_release keeps_released keeps_release_unknown keeps_release_review

lemma later_moves:
  "keeps (world_moves rq) m \<Longrightarrow> immediate_transaction env m w = (r, w') \<Longrightarrow> moves rq (w_db w) (w_db w')"
  using keepsD [OF mv.keeps_transaction, of rq m env w r w'] by (simp add: world_moves_def)

text \<open>A step leaves the tables, opens a dispatch, or moves rows of an admitted one.\<close>

lemma dispatch_step_cases:
  assumes "dispatch_step env rq db db'"
  obtains (unchanged) "db' = db"
    | (opened) "opens rq db db'" "spawn_intent_of (dr_key rq) db = None"
    | (later) "admitted rq db" "moves rq db db'"
  using assms
proof cases
  case (begins w r w')
  from begins(3) show ?thesis
  proof (cases rule: transaction_cases)
    case unchanged
    then show ?thesis using begins that(1) by simp
  next
    case (committed x)
    from committed(2) show ?thesis
      by (cases rule: begin_dispatch_cases) (use begins that(1,2) in simp_all)
  qed
qed (rule that(3), simp, simp, (rule later_moves, rule keeps_later, assumption))+

lemma step_keeps_ok: "dispatch_step env rq db db' \<Longrightarrow> dispatch_ok db \<Longrightarrow> dispatch_ok db'"
  by (erule dispatch_step_cases) (auto intro: opens_keep_ok moves_keep_ok admitted_agrees)

subsection \<open>Reconciliations\<close>

text \<open>
  One transaction of a reconciliation. A review and an acceptance do not depend on the request's
  release key; whatever concerns the release of a lease is about a request that owns the key, and
  what concerns its acquisition about one whose lease and key belong together.
\<close>

inductive reconcile_step :: "'a dispatch_env \<Rightarrow> dispatch_request \<Rightarrow> dispatch_tables \<Rightarrow> dispatch_tables \<Rightarrow> bool" for env rq where
  reviews: "kind \<noteq> ReleaseRpc \<Longrightarrow> (kind = AcquireRpc \<Longrightarrow> paired rq (w_db w)) \<Longrightarrow>
    immediate_transaction env (in_review (mark_human_review env rq kind reason)) w = (r, w') \<Longrightarrow>
    reconcile_step env rq (w_db w) (w_db w')"
| lease_accepted: "paired rq (w_db w) \<Longrightarrow>
    immediate_transaction env (bindM (persist_acquired_lease env rq obs g True) (\<lambda>_. returnM one_reconciled)) w = (r, w') \<Longrightarrow>
    reconcile_step env rq (w_db w) (w_db w')"
| spawn_accepted: "immediate_transaction env (accept_or_review env rq obs k) w = (r, w') \<Longrightarrow>
    reconcile_step env rq (w_db w) (w_db w')"
| release_in_doubt: "owns_release rq (w_db w) \<Longrightarrow>
    immediate_transaction env (in_review (mark_owned_lease_release_review env rq g reason)) w = (r, w') \<Longrightarrow>
    reconcile_step env rq (w_db w) (w_db w')"
| cleanup_reviewed: "owns_release rq (w_db w) \<Longrightarrow>
    immediate_transaction env (mark_owned_lease_release_review env rq g reason) w = (u, w') \<Longrightarrow>
    reconcile_step env rq (w_db w) (w_db w')"
| cleanup_unknown: "owns_release rq (w_db w) \<Longrightarrow>
    immediate_transaction env (mark_owned_lease_release_unknown env rq g reason) w = (u, w') \<Longrightarrow>
    reconcile_step env rq (w_db w) (w_db w')"
| cleanup_begins: "owns_release rq (w_db w) \<Longrightarrow>
    immediate_transaction env (prepare_owned_lease_release env rq g) w = (u, w') \<Longrightarrow>
    reconcile_step env rq (w_db w) (w_db w')"
| cleanup_released: "owns_release rq (w_db w) \<Longrightarrow>
    immediate_transaction env (persist_released_lease env rq obs g False) w = (u, w') \<Longrightarrow>
    reconcile_step env rq (w_db w) (w_db w')"

lemma keeps_in_review: "keeps (world_moves rq) m \<Longrightarrow> keeps (world_moves rq) (in_review m)"
  unfolding in_review_def by (intro mv.keeps_rules)

lemma keeps_accept_or_review: "keeps (world_moves rq) (accept_or_review env rq obs k)"
proof -
  have "keeps (world_moves rq) (case e of RuntimeDispatchError message \<Rightarrow> in_review (mark_human_review env rq SpawnRpc message)
        | _ \<Rightarrow> raiseM e)" for e
    by (cases e) (simp_all add: mv.keeps_basic keeps_in_review keeps_human_review)
  then show ?thesis unfolding accept_or_review_def by (intro mv.keeps_rules keeps_acceptance)
qed

text \<open>The release key does not matter to a review or an acceptance.\<close>

lemma any_release_key:
  "mark_human_review env (rq\<lparr>dr_release := k\<rparr>) = mark_human_review env rq"
  "persist_acquired_lease env (rq\<lparr>dr_release := k\<rparr>) = persist_acquired_lease env rq"
  "persist_spawn_acceptance env (rq\<lparr>dr_release := k\<rparr>) = persist_spawn_acceptance env rq"
  by (simp_all add: fun_eq_iff mark_human_review_def rpc_key_def persist_acquired_lease_def lease_observed_def
      lease_metadata_def persist_spawn_acceptance_def assert_no_potentially_live_dispatch_def duplicate_live_def [abs_def]
      session_observed_def spawn_metadata_def cong: if_cong)

lemma accept_any_release_key: "accept_or_review env (rq\<lparr>dr_release := k\<rparr>) = accept_or_review env rq"
  unfolding accept_or_review_def any_release_key by (rule refl)

lemma owned_moves:
  assumes "keeps (world_moves rq) m" "immediate_transaction env m w = (r, w')" "owns_release rq (w_db w)" "dispatch_ok (w_db w)"
  shows "release_agrees rq (w_db w)" "moves rq (w_db w) (w_db w')"
  using later_moves [OF assms(1,2)] owns_release_agrees [OF assms(4,3)] by simp_all

lemma reconcile_step_cases:
  assumes "reconcile_step env rq db db'" and ok: "dispatch_ok db"
  obtains rq' where "release_agrees rq' db" "moves rq' db db'"
proof -
  obtain k where k: "release_agrees (rq\<lparr>dr_release := k\<rparr>) db" using some_release_agrees [OF ok] by blast
  let ?rq = "rq\<lparr>dr_release := k\<rparr>"
  from assms(1) show ?thesis
  proof cases
    case (reviews kind w reason r w')
    then have "moves ?rq db db'"
      using later_moves [OF keeps_in_review [OF keeps_human_review [of ?rq env kind reason]]] by (simp add: any_release_key)
    then show ?thesis by (rule that [OF k])
  next
    case (lease_accepted w obs g r w')
    have "keeps (world_moves ?rq) (bindM (persist_acquired_lease env ?rq obs g True) (\<lambda>_. returnM one_reconciled))"
      by (intro mv.keeps_rules keeps_persist_acquired)
    then have "moves ?rq db db'" using lease_accepted later_moves by (fastforce simp: any_release_key)
    then show ?thesis by (rule that [OF k])
  next
    case (spawn_accepted obs k' w r w')
    then have "moves ?rq db db'"
      using later_moves [OF keeps_accept_or_review [of ?rq env obs k']] by (simp add: accept_any_release_key)
    then show ?thesis by (rule that [OF k])
  next
    case (release_in_doubt w g reason r w')
    then show ?thesis using that [of rq] ok owned_moves [OF keeps_in_review [OF keeps_release_review]] by blast
  next
    case (cleanup_reviewed w g reason u w')
    then show ?thesis using that [of rq] ok owned_moves [OF keeps_release_review] by blast
  next
    case (cleanup_unknown w g reason u w')
    then show ?thesis using that [of rq] ok owned_moves [OF keeps_release_unknown] by blast
  next
    case (cleanup_begins w g u w')
    then show ?thesis using that [of rq] ok owned_moves [OF keeps_prepare_release] by blast
  next
    case (cleanup_released w obs g u w')
    then show ?thesis using that [of rq] ok owned_moves [OF keeps_released] by blast
  qed
qed

lemma reconcile_keeps_ok: "reconcile_step env rq db db' \<Longrightarrow> dispatch_ok db \<Longrightarrow> dispatch_ok db'"
  by (erule reconcile_step_cases) (auto intro: moves_keep_ok)

text \<open>
  The dispatches of a run, phase and agent that may be live; and the tables that dispatches and
  reconciliations reach from tables without dispatches, when each uses one of the environments \<open>E\<close>
  and the budget ledger adds reservations of its own.
\<close>

definition live_dispatches :: "dispatch_tables \<Rightarrow> string \<Rightarrow> string \<Rightarrow> string \<Rightarrow> rpc_row list" where
  "live_dispatches db run phase agent =
     filter (\<lambda>i. potentially_live db i \<and> ri_run i = run \<and> ri_phase i = Some phase \<and> ri_agent i = Some agent) (dt_intents db)"

inductive dispatches :: "'a dispatch_env set \<Rightarrow> dispatch_tables \<Rightarrow> bool" for E where
  no_dispatch: "dt_spawns db = [] \<Longrightarrow> dt_leases db = [] \<Longrightarrow> dt_intents db = [] \<Longrightarrow> dt_bindings db = [] \<Longrightarrow> dispatches E db"
| transaction: "dispatches E db \<Longrightarrow> env \<in> E \<Longrightarrow> dispatch_step env rq db db' \<Longrightarrow> dispatches E db'"
| reconciliation: "dispatches E db \<Longrightarrow> env \<in> E \<Longrightarrow> reconcile_step env rq db db' \<Longrightarrow> dispatches E db'"
| reserves: "dispatches E db \<Longrightarrow> dispatches E (db\<lparr>dt_reserves := r\<rparr>)"

lemma other_reserves:
  "dispatch_ok (db\<lparr>dt_reserves := r\<rparr>) = dispatch_ok db"
  "live_dispatches (db\<lparr>dt_reserves := r\<rparr>) run phase agent = live_dispatches db run phase agent"
  by (simp_all add: dispatch_ok_def spawn_keys_def live_dispatches_def potentially_live_def)

lemma no_dispatch_ok: "dt_spawns db = [] \<Longrightarrow> dt_leases db = [] \<Longrightarrow> dt_intents db = [] \<Longrightarrow> dt_bindings db = [] \<Longrightarrow> dispatch_ok db"
  by (simp add: dispatch_ok_def spawn_keys_def)

lemma reached_ok: "dispatches E db \<Longrightarrow> dispatch_ok db"
  by (induction rule: dispatches.induct) (auto simp: other_reserves intro: step_keeps_ok reconcile_keeps_ok no_dispatch_ok)

lemma fewer_matches: "(\<And>x. x \<in> set xs \<Longrightarrow> P x \<Longrightarrow> Q x) \<Longrightarrow> length (filter P xs) \<le> length (filter Q xs)"
  by (induction xs) auto

lemma moves_live_dispatches:
  assumes "moves rq db db'" "dispatch_ok db"
  shows "length (live_dispatches db' run phase agent) \<le> length (live_dispatches db run phase agent)"
  unfolding live_dispatches_def
proof (rule grows_filter)
  show "grows intent_moves (\<lambda>i. ri_kind i = ReleaseRpc) (dt_intents db) (dt_intents db')"
    using assms(1) by (simp add: moves_def)
next
  fix i i' assume "intent_moves i i'" "potentially_live db' i' \<and> ri_run i' = run \<and> ri_phase i' = Some phase \<and> ri_agent i' = Some agent"
  then show "potentially_live db i \<and> ri_run i = run \<and> ri_phase i = Some phase \<and> ri_agent i = Some agent"
    using moves_live [OF assms] by (auto simp: intent_moves_def)
qed (simp add: potentially_live_def)

lemma opens_live_dispatches:
  assumes opens: "opens rq db db'" and ok: "dispatch_ok db" and new: "spawn_intent_of (dr_key rq) db = None"
    and one: "length (live_dispatches db run phase agent) \<le> 1"
  shows "length (live_dispatches db' run phase agent) \<le> 1"
proof -
  define C where "C db i \<longleftrightarrow> potentially_live db i \<and> ri_run i = run \<and> ri_phase i = Some phase \<and> ri_agent i = Some agent" for db i
  obtain A i where rows: "dt_intents db' = dt_intents db @ A @ [i]" "list_all (\<lambda>i. ri_kind i = AcquireRpc) A" "new_spawn_intent rq i"
    using opens by (auto simp: opens_def)
  have "filter (C db') A = []" using rows(2) by (auto simp: C_def list_all_iff filter_empty_conv potentially_live_def)
  then have live': "live_dispatches db' run phase agent = filter (C db') (dt_intents db) @ filter (C db') [i]"
    by (simp add: live_dispatches_def C_def [abs_def] rows(1))
  have old: "C db j" if "j \<in> set (dt_intents db)" "C db' j" for j
    using that opens_live [OF opens ok new] by (auto simp: C_def)
  then have fewer: "length (filter (C db') (dt_intents db)) \<le> length (filter (C db) (dt_intents db))"
    by (rule fewer_matches)
  show ?thesis
  proof (cases "C db' i")
    case False
    then have "live_dispatches db' run phase agent = filter (C db') (dt_intents db)" by (simp add: live')
    moreover have "live_dispatches db run phase agent = filter (C db) (dt_intents db)"
      by (simp add: live_dispatches_def C_def [abs_def])
    ultimately show ?thesis using fewer one by simp
  next
    case True
    have "\<not> C db' j" if j: "j \<in> set (dt_intents db)" for j
    proof
      assume "C db' j"
      then have live: "C db j" using old j by blast
      obtain sr b l where sr: "sr \<in> set (dt_spawns db)" "joined j sr (fst b) l" and kind: "ri_kind j = SpawnRpc"
        using live by (auto simp: C_def potentially_live_iff)
      have "\<not> duplicate_live rq db" using opens by (simp add: opens_def)
      then have "ri_spawn j = Some (dr_spawn rq)"
        using live j True rows(3) sr(2)
        by (auto simp: duplicate_live_def list_ex_iff C_def new_spawn_intent_def same_spawn_def sql_neq_def joined_def split: option.splits)
      moreover obtain S where "new_spawns rq db S" using opens by (auto simp: opens_def)
      ultimately have "sr_key sr = dr_key rq"
        using new_spawns_facts(3) [of rq db S sr] sr ok by (auto simp: joined_def dispatch_ok_def request_of_def)
      then have "ri_key j = dr_key rq" using sr(2) by (simp add: joined_def)
      then show False using new j kind by (auto simp: spawn_intent_of_def find_None_iff)
    qed
    then have "filter (C db') (dt_intents db) = []" by (simp add: filter_empty_conv)
    then show ?thesis by (simp add: live')
  qed
qed

lemma step_one_live:
  assumes "dispatch_step env rq db db'" "dispatch_ok db" "length (live_dispatches db run phase agent) \<le> 1"
  shows "length (live_dispatches db' run phase agent) \<le> 1"
  using assms(1)
proof (cases rule: dispatch_step_cases)
  case later
  then show ?thesis using moves_live_dispatches [OF _ assms(2), of rq db' run phase agent] assms(3) by simp
qed (use assms opens_live_dispatches in simp_all)

lemma reconcile_one_live:
  assumes "reconcile_step env rq db db'" "dispatch_ok db" "length (live_dispatches db run phase agent) \<le> 1"
  shows "length (live_dispatches db' run phase agent) \<le> 1"
proof -
  obtain rq' where "moves rq' db db'" using assms(1,2) by (rule reconcile_step_cases)
  then show ?thesis using moves_live_dispatches [OF _ assms(2), of rq' db' run phase agent] assms(3) by simp
qed

end
