(* ===== verification/DispatchRuns.thy ===== *)
theory DispatchRuns
  imports DispatchLive
begin

section \<open>Whole dispatches\<close>

text \<open>
  Which calls a dispatch makes, in which order, and how its transactions compose.
\<close>

lemma bindM_cases:
  assumes "bindM m f w = (r, w')"
  obtains (raises) e where "m w = (Inl e, w')" "r = Inl e"
    | (goes_on) x w1 where "m w = (Inr x, w1)" "f x w1 = (r, w')"
  using assms by (auto simp: bindM_def split: prod.splits sum.splits)

lemma catchM_cases:
  assumes "catchM m h w = (r, w')"
  obtains (returns) x where "m w = (Inr x, w')" "r = Inr x"
    | (handles) e w1 where "m w = (Inl e, w1)" "h e w1 = (r, w')"
  using assms by (auto simp: catchM_def split: prod.splits sum.splits)

lemma catchM_Inl: "catchM m h w = (Inl e, w') \<Longrightarrow> \<exists>e1 w1. m w = (Inl e1, w1) \<and> h e1 w1 = (Inl e, w')"
  by (auto simp: catchM_def split: prod.splits sum.splits)

lemma call_adapter_effect:
  "call_adapter call f params w = (r, w') \<Longrightarrow>
     r = fst (f params (w_adapter w)) \<and> w' = w\<lparr>w_adapter := snd (f params (w_adapter w)), w_calls := w_calls w @ [call params]\<rparr>"
  by (simp add: call_adapter_def Let_def)

subsection \<open>Operations that make no call\<close>

definition silent :: "'a world \<Rightarrow> 'a world \<Rightarrow> bool" where
  "silent w w' \<longleftrightarrow> w_calls w' = w_calls w \<and> w_adapter w' = w_adapter w"

interpretation sl: world_relation silent
  by unfold_locales (auto simp: silent_def)

lemma silent_modify: "keeps silent (modify env l f)"
  by (rule sl.keeps_modify) (simp add: silent_def)

lemma moves_silent: "keeps (world_moves rq) m \<Longrightarrow> keeps silent m"
  by (auto simp: keeps_def world_moves_def silent_def)

lemma silent_inserts:
  "keeps silent (assert_or_insert_spawn_request env rq now)"
  "keeps silent (assert_or_insert_lease env rq now expires ms lease_id)"
  "keeps silent (assert_or_insert_acquire_intent env rq requested)"
  "keeps silent (assert_or_insert_dispatch_binding env rq now)"
  "keeps silent (insert_intent env i)"
  unfolding assert_or_insert_spawn_request_def assert_or_insert_lease_def assert_or_insert_acquire_intent_def
    assert_or_insert_dispatch_binding_def insert_intent_def Let_def
  by (intro sl.keeps_rules silent_modify)+

lemma silent_begin: "keeps silent (begin_dispatch env rq)"
  unfolding begin_dispatch_def existing_spawn_replay_result_def accepted_spawn_replay_session_key_def
    insert_pending_dispatch_def assert_no_conflicting_spawn_replay_def assert_no_release_key_collision_def
    assert_no_potentially_live_dispatch_def spawn_intent_requested_time_def
  by (intro sl.keeps_rules silent_inserts)

lemma silent_transaction:
  assumes "keeps silent m" "immediate_transaction env m w = (r, w')"
  shows "w_calls w' = w_calls w" "w_adapter w' = w_adapter w"
  using keepsD [OF sl.keeps_transaction [OF assms(1)] assms(2)] by (simp_all add: silent_def)

lemmas silent_later = keeps_later [THEN moves_silent]

subsection \<open>The calls of a dispatch\<close>

lemma silent_acquire_failed: "keeps silent (acquire_failed env rq acquired e)"
  unfolding acquire_failed_def by (intro sl.keeps_rules silent_later)

lemma acquire_lease_calls:
  assumes "acquire_lease env rq w = (r, w')"
  shows "w_calls w' = w_calls w @ [AcquireCall (acquire_rpc_params rq)]"
  using assms unfolding acquire_lease_def
proof (cases rule: bindM_cases)
  case (raises e)
  from raises(1) show ?thesis
    by (cases rule: catchM_cases) (auto dest!: call_adapter_effect keepsD [OF silent_acquire_failed] simp: silent_def)
next
  case (goes_on obs w1)
  have "w_calls w1 = w_calls w @ [AcquireCall (acquire_rpc_params rq)]"
    using goes_on(1)
    by (cases rule: catchM_cases) (auto dest!: call_adapter_effect keepsD [OF silent_acquire_failed] simp: silent_def)
  moreover have "keeps silent (bindM (catchM (liftM (validate_accepted_lease_identity (obs_external_id obs) None))
              (acquire_failed env rq None)) (\<lambda>g.
     bindM (catchM (immediate_transaction env (persist_acquired_lease env rq obs g False))
              (acquire_failed env rq (Some (obs, g)))) (\<lambda>_. returnM g)))"
    by (intro sl.keeps_rules silent_acquire_failed silent_later)
  ultimately show ?thesis using goes_on(2) by (auto dest: keepsD simp: silent_def)
qed

lemma spawn_session_calls:
  assumes "spawn_session_once env rq g w = (r, w')" "spawn_rpc_params rq g = Inr p"
  shows "w_calls w' = w_calls w @ [SpawnCall p]"
proof -
  have quiet: "keeps silent (accept_spawn env rq obs)" for obs
    unfolding accept_spawn_def by (intro sl.keeps_rules silent_later)
  show ?thesis using assms unfolding spawn_session_once_def
    by (auto elim!: bindM_cases dest!: call_adapter_effect keepsD [OF quiet] simp: silent_def)
qed

lemma release_calls:
  assumes "release_owned_lease env rq g w = (r, w')"
  shows "w_calls w' \<in> {w_calls w, w_calls w @ [ReleaseCall (release_rpc_metadata rq g)]}"
  using assms unfolding release_owned_lease_def
  by (auto elim!: bindM_cases dest!: call_adapter_effect
      silent_transaction(1) [OF silent_later(8)] silent_transaction(1) [OF silent_later(9)])

text \<open>The three kinds of handler: only the second releases the lease.\<close>

lemma spawn_failed_calls:
  assumes "spawn_failed env rq g e w = (r, w')"
  shows "w_calls w' \<in> {w_calls w, w_calls w @ [ReleaseCall (release_rpc_metadata rq g)]}" and "\<exists>e'. r = Inl e'"
proof -
  have quiet: "keeps silent (release_failed env rq g e')" for e'
    unfolding release_failed_def by (intro sl.keeps_rules silent_later)
  have released: "w_calls w2 \<in> {w_calls w1, w_calls w1 @ [ReleaseCall (release_rpc_metadata rq g)]}"
    if "catchM (release_owned_lease env rq g) (release_failed env rq g) w1 = (r1, w2)" for w1 r1 w2
    using that by (cases rule: catchM_cases) (auto dest!: release_calls keepsD [OF quiet] simp: silent_def)
  show "w_calls w' \<in> {w_calls w, w_calls w @ [ReleaseCall (release_rpc_metadata rq g)]}"
    using assms unfolding spawn_failed_def
    by (auto split: if_splits elim!: bindM_cases dest!: released
        silent_transaction(1) [OF silent_later(3)] silent_transaction(1) [OF silent_later(7)])
  show "\<exists>e'. r = Inl e'"
    using assms unfolding spawn_failed_def by (auto simp: bindM_def split: if_splits prod.splits sum.splits)
qed

text \<open>
  What a new dispatch calls: acquire, then spawn with the lease that the acquire call answered, then
  at most the release of that lease.
\<close>

definition answers_lease :: "'a dispatch_env \<Rightarrow> dispatch_request \<Rightarrow> 'a \<Rightarrow> string \<Rightarrow> bool" where
  "answers_lease env rq adapter g \<longleftrightarrow> g \<noteq> [] \<and>
     (\<exists>obs. fst (dp_acquire env (acquire_rpc_params rq) adapter) = Inr obs \<and> obs_external_id obs = Some g)"

definition dispatch_calls :: "'a dispatch_env \<Rightarrow> dispatch_request \<Rightarrow> 'a \<Rightarrow> rpc_call list \<Rightarrow> bool" where
  "dispatch_calls env rq adapter calls \<longleftrightarrow>
     calls = [AcquireCall (acquire_rpc_params rq)] \<or>
     (\<exists>g p. answers_lease env rq adapter g \<and> spawn_rpc_params rq g = Inr p \<and>
        (calls = [AcquireCall (acquire_rpc_params rq), SpawnCall p] \<or>
         calls = [AcquireCall (acquire_rpc_params rq), SpawnCall p, ReleaseCall (release_rpc_metadata rq g)]))"

lemma spawn_params_valid: "validate_transient_spawn_descriptor rq = Inr () \<Longrightarrow> \<exists>p. spawn_rpc_params rq g = Inr p"
  by (simp add: spawn_rpc_params_def)

lemma acquire_failure_raises: "acquire_failed env rq acquired e w \<noteq> (Inr x, w')"
  by (auto simp: acquire_failed_def bindM_def split: if_splits prod.splits sum.splits)

lemma acquire_lease_answered:
  assumes "acquire_lease env rq w = (Inr g, w')"
  shows "answers_lease env rq (w_adapter w) g"
proof -
  from assms obtain obs w1 w2 where c: "catchM (call_adapter AcquireCall (dp_acquire env) (acquire_rpc_params rq))
      (acquire_failed env rq None) w = (Inr obs, w1)"
    and v: "catchM (liftM (validate_accepted_lease_identity (obs_external_id obs) None)) (acquire_failed env rq None) w1 = (Inr g, w2)"
    by (auto simp: acquire_lease_def bindM_Inr_iff)
  have "fst (dp_acquire env (acquire_rpc_params rq) (w_adapter w)) = Inr obs"
    using c by (auto elim!: catchM_cases dest!: call_adapter_effect simp: acquire_failure_raises)
  moreover have "validate_accepted_lease_identity (obs_external_id obs) None = Inr g"
    using v by (auto elim!: catchM_cases simp: acquire_failure_raises)
  then have "obs_external_id obs = Some g" "g \<noteq> []"
    by (auto simp: validate_accepted_lease_identity_def err_simps split: option.splits if_splits)
  ultimately show ?thesis unfolding answers_lease_def by blast
qed

lemma dispatch_new_calls:
  assumes run: "dispatch_new env rq w = (r, w')" and valid: "validate_transient_spawn_descriptor rq = Inr ()"
  shows "\<exists>calls. w_calls w' = w_calls w @ calls \<and> dispatch_calls env rq (w_adapter w) calls"
    and "r = Inr res \<Longrightarrow> res_status res = ''accepted'' \<and> answers_lease env rq (w_adapter w) (res_gateway res) \<and> (\<exists>p. spawn_rpc_params rq (res_gateway res) = Inr p \<and>
      w_calls w' = w_calls w @ [AcquireCall (acquire_rpc_params rq), SpawnCall p])"
proof -
  let ?acquire = "AcquireCall (acquire_rpc_params rq)"
  have "(\<exists>calls. w_calls w' = w_calls w @ calls \<and> dispatch_calls env rq (w_adapter w) calls) \<and>
    (\<forall>res. r = Inr res \<longrightarrow> res_status res = ''accepted'' \<and> answers_lease env rq (w_adapter w) (res_gateway res) \<and> (\<exists>p. spawn_rpc_params rq (res_gateway res) = Inr p \<and>
      w_calls w' = w_calls w @ [?acquire, SpawnCall p]))"
    using run unfolding dispatch_new_def
  proof (cases rule: bindM_cases)
    case (raises e)
    then show ?thesis using acquire_lease_calls [OF raises(1)] by (auto simp: dispatch_calls_def)
  next
    case (goes_on g w1)
    have c1: "w_calls w1 = w_calls w @ [?acquire]" by (rule acquire_lease_calls [OF goes_on(1)])
    have lease: "answers_lease env rq (w_adapter w) g" by (rule acquire_lease_answered [OF goes_on(1)])
    from goes_on(2) show ?thesis
    proof (cases rule: bindM_cases)
      case (raises e)
      then show ?thesis using silent_transaction(1) [OF silent_later(5) raises(1)] c1 by (auto simp: dispatch_calls_def)
    next
      case (goes_on expired w2)
      then have c2: "w_calls w2 = w_calls w @ [?acquire]" using silent_transaction(1) [OF silent_later(5)] c1 by metis
      obtain p where p: "spawn_rpc_params rq g = Inr p" using spawn_params_valid [OF valid] by blast
      show ?thesis
      proof (cases expired)
        case True
        then show ?thesis using goes_on(2) c2 by (auto simp: dispatch_calls_def)
      next
        case False
        with goes_on(2) have "bindM (catchM (spawn_session_once env rq g) (spawn_failed env rq g)) (\<lambda>session_key.
            returnM \<lparr>res_session = session_key, res_gateway = g, res_status = ''accepted''\<rparr>) w2 = (r, w')" by simp
        then show ?thesis
        proof (cases rule: bindM_cases)
          case (raises e)
          from catchM_Inl [OF raises(1)] obtain e1 w3 where "spawn_session_once env rq g w2 = (Inl e1, w3)" "spawn_failed env rq g e1 w3 = (Inl e :: exn + string, w')"
            by blast
          then show ?thesis
            using raises(2) spawn_session_calls [OF _ p] spawn_failed_calls(1) c2 p lease by (fastforce simp: dispatch_calls_def)
        next
          case (goes_on k w3)
          then have "spawn_session_once env rq g w2 = (Inr k, w3)"
            by (auto elim!: catchM_cases dest: spawn_failed_calls(2))
          then have "w_calls w' = w_calls w @ [?acquire, SpawnCall p]"
            using goes_on(2) spawn_session_calls [OF _ p] c2 by fastforce
          moreover from this p lease have "\<exists>calls. w_calls w' = w_calls w @ calls \<and> dispatch_calls env rq (w_adapter w) calls"
            unfolding dispatch_calls_def by blast
          ultimately show ?thesis using goes_on(2) p lease by auto
        qed
      qed
    qed
  qed
  then show "\<exists>calls. w_calls w' = w_calls w @ calls \<and> dispatch_calls env rq (w_adapter w) calls"
    and "r = Inr res \<Longrightarrow> res_status res = ''accepted'' \<and> answers_lease env rq (w_adapter w) (res_gateway res) \<and> (\<exists>p. spawn_rpc_params rq (res_gateway res) = Inr p \<and>
      w_calls w' = w_calls w @ [?acquire, SpawnCall p])" by blast+
qed

lemma begin_dispatch_valid:
  assumes "begin_dispatch env rq w = (Inr x, w')" "x = None"
  shows "validate_transient_spawn_descriptor rq = Inr ()"
  using assms by (auto simp: begin_dispatch_def err_simps split: option.splits)

text \<open>A call makes no RPC, or its first transaction committed the pending rows.\<close>

lemma dispatch_cases:
  assumes "dispatch_with_metadata env raw w = (r, w')"
  obtains (quiet) "w_calls w' = w_calls w" "w_db w' = w_db w" "\<And>res. r = Inr res \<Longrightarrow> \<exists>rq.
        validate_dispatch_request raw = Inr rq \<and> existing_spawn_replay_result env rq w = (Inr (Some res), w) \<and> w' = w"
    | (new) rq w1 where "validate_dispatch_request raw = Inr rq" "connect_runtime_db env = Inr ()"
        "immediate_transaction env (begin_dispatch env rq) w = (Inr None, w1)" "opens rq (w_db w) (w_db w1)"
        "spawn_intent_of (dr_key rq) (w_db w) = None" "w_calls w1 = w_calls w" 
        "validate_transient_spawn_descriptor rq = Inr ()" "dispatch_new env rq w1 = (r, w')"
proof (cases "validate_dispatch_request raw")
  case (Inl e)
  then show ?thesis using assms by (intro quiet) (simp_all add: dispatch_with_metadata_def)
next
  case (Inr rq)
  show ?thesis
  proof (cases "connect_runtime_db env")
    case (Inl e)
    then show ?thesis using assms \<open>validate_dispatch_request raw = Inr rq\<close>
      by (intro quiet) (simp_all add: dispatch_with_metadata_def)
  next
    case connected: (Inr u)
    then have run: "bindM (immediate_transaction env (begin_dispatch env rq)) (\<lambda>existing.
        case existing of Some result \<Rightarrow> returnM result | None \<Rightarrow> dispatch_new env rq) w = (r, w')"
      using assms Inr by (simp add: dispatch_with_metadata_def option.case_distrib)
    from run show ?thesis
    proof (cases rule: bindM_cases)
      case (raises e)
      show ?thesis
        using transaction_cases [OF raises(1)] silent_transaction(1) [OF silent_begin raises(1)] raises(2)
        by (intro quiet) auto
    next
      case (goes_on x w1)
      from transaction_Inr [OF goes_on(1)] show ?thesis
      proof (cases rule: begin_dispatch_cases)
        case (replays res)
        then show ?thesis using goes_on(2) Inr by (intro quiet) auto
      next
        case begins
        show ?thesis
          using goes_on begins connected Inr silent_transaction(1) [OF silent_begin goes_on(1)]
            begin_dispatch_valid [OF transaction_Inr [OF goes_on(1)] begins(1)]
          by (intro new [of rq w1]) simp_all
      qed
    qed
  qed
qed

subsection \<open>A dispatch is a sequence of transactions\<close>

definition admitted_steps :: "'a dispatch_env \<Rightarrow> dispatch_request \<Rightarrow> 'a world \<Rightarrow> 'a world \<Rightarrow> bool" where
  "admitted_steps env rq w w' \<longleftrightarrow> (admitted rq (w_db w) \<longrightarrow>
     admitted rq (w_db w') \<and> (dispatch_step env rq)\<^sup>*\<^sup>* (w_db w) (w_db w'))"

interpretation st: world_relation "admitted_steps env rq"
  by unfold_locales (auto simp: admitted_steps_def)

lemma later_steps:
  assumes "keeps (world_moves rq) m"
    and step: "\<And>w r w'. admitted rq (w_db w) \<Longrightarrow> immediate_transaction env m w = (r, w') \<Longrightarrow>
      dispatch_step env rq (w_db w) (w_db w')"
  shows "keeps (admitted_steps env rq) (immediate_transaction env m)"
proof (rule keepsI)
  fix w r w' assume run: "immediate_transaction env m w = (r, w')"
  have "dt_bindings (w_db w') = dt_bindings (w_db w)" using later_moves [OF assms(1) run] by (simp add: moves_def)
  then show "admitted_steps env rq w w'" using step [OF _ run] by (auto simp: admitted_steps_def admitted_def)
qed

lemmas steps_acquires = later_steps [OF keeps_persist_acquired dispatch_step.acquires]
lemmas steps_acquire_ambiguous = later_steps [OF keeps_records(1) dispatch_step.acquire_ambiguous]
lemmas steps_acquire_fails = later_steps [OF keeps_records(2) dispatch_step.acquire_fails]
lemmas steps_expires = later_steps [OF keeps_expire dispatch_step.expires]
lemmas steps_accepts = later_steps [OF keeps_acceptance dispatch_step.accepts]
lemmas steps_spawn_ambiguous = later_steps [OF keeps_records(3) dispatch_step.spawn_ambiguous]
lemmas steps_spawn_fails = later_steps [OF keeps_human_review dispatch_step.spawn_fails]
lemmas steps_release_begins = later_steps [OF keeps_prepare_release dispatch_step.release_begins]
lemmas steps_releases = later_steps [OF keeps_released dispatch_step.releases]
lemmas steps_release_ambiguous = later_steps [OF keeps_release_unknown dispatch_step.release_ambiguous]
lemmas steps_release_fails = later_steps [OF keeps_release_review dispatch_step.release_fails]

lemma steps_call: "keeps (admitted_steps env rq) (call_adapter call f params)"
  by (auto simp: keeps_def admitted_steps_def dest: call_adapter_effect)

lemma steps_dispatch_new: "keeps (admitted_steps env rq) (dispatch_new env rq)"
  unfolding dispatch_new_def acquire_lease_def acquire_failed_def spawn_session_once_def accept_spawn_def
    spawn_failed_def release_owned_lease_def release_failed_def
  by (intro st.keeps_basic st.keeps_bind st.keeps_catch st.keeps_if steps_call
      steps_acquires steps_acquire_ambiguous steps_acquire_fails steps_expires
      steps_accepts steps_spawn_ambiguous steps_spawn_fails steps_release_begins steps_releases
      steps_release_ambiguous steps_release_fails)

lemma opens_admitted: "opens rq db db' \<Longrightarrow> admitted rq db'"
proof -
  assume "opens rq db db'"
  then obtain B where "dt_bindings db' = dt_bindings db @ B" "new_bindings rq db B" by (auto simp: opens_def)
  then show "admitted rq db'" using new_bindings_facts(3) by (auto simp: admitted_def)
qed

lemma dispatch_steps:
  assumes "dispatch_with_metadata env raw w = (r, w')"
  shows "w_db w' = w_db w \<or>
    (\<exists>rq. validate_dispatch_request raw = Inr rq \<and> (dispatch_step env rq)\<^sup>*\<^sup>* (w_db w) (w_db w'))"
  using assms
proof (cases rule: dispatch_cases)
  case (new rq w1)
  have first: "dispatch_step env rq (w_db w) (w_db w1)" by (rule begins [OF new(3)])
  have "(dispatch_step env rq)\<^sup>*\<^sup>* (w_db w1) (w_db w')"
    using keepsD [OF steps_dispatch_new new(8)] opens_admitted [OF new(4)] by (simp add: admitted_steps_def)
  with first show ?thesis using new(1) by (meson converse_rtranclp_into_rtranclp)
qed simp

subsection \<open>Keys of spawn intents\<close>

lemma spawn_intent_of_None: "spawn_intent_of key db = None \<longleftrightarrow> key \<notin> set (spawn_keys db)"
  by (auto simp: spawn_intent_of_def spawn_keys_def find_None_iff)

lemma opens_spawn_keys: "opens rq db db' \<Longrightarrow> spawn_keys db' = spawn_keys db @ [dr_key rq]"
  by (auto simp: opens_def spawn_keys_def new_spawn_intent_def list_all_iff filter_empty_conv)

lemma step_spawn_keys: "dispatch_step env rq db db' \<Longrightarrow> set (spawn_keys db) \<subseteq> set (spawn_keys db')"
  by (erule dispatch_step_cases) (auto simp: opens_spawn_keys moves_spawn_keys)

lemma steps_spawn_keys: "(dispatch_step env rq)\<^sup>*\<^sup>* db db' \<Longrightarrow> set (spawn_keys db) \<subseteq> set (spawn_keys db')"
  by (induction rule: rtranclp_induct) (use step_spawn_keys in blast)+

lemma dispatch_spawn_keys:
  assumes "dispatch_with_metadata env raw w = (r, w')"
  shows "set (spawn_keys (w_db w)) \<subseteq> set (spawn_keys (w_db w'))"
  using dispatch_steps [OF assms]
proof (elim disjE exE conjE)
  fix rq assume "(dispatch_step env rq)\<^sup>*\<^sup>* (w_db w) (w_db w')"
  then show ?thesis by (rule steps_spawn_keys)
qed simp

subsection \<open>Sequences of dispatches\<close>

fun dispatch_all :: "('a dispatch_env \<times> raw_request) list \<Rightarrow> 'a world \<Rightarrow> 'a world" where
  "dispatch_all [] w = w"
| "dispatch_all ((env, raw) # rest) w = dispatch_all rest (snd (dispatch_with_metadata env raw w))"

text \<open>The spawn calls that carry an idempotency key.\<close>

definition spawn_calls :: "string \<Rightarrow> rpc_call list \<Rightarrow> rpc_call list" where
  "spawn_calls key calls =
     filter (\<lambda>c. case c of SpawnCall p \<Rightarrow> map_of p ''idempotency_key'' = Some (PStr key) | _ \<Rightarrow> False) calls"

lemma spawn_params_key: "spawn_rpc_params rq g = Inr p \<Longrightarrow> map_of p ''idempotency_key'' = Some (PStr (dr_key rq))"
  by (auto simp: spawn_rpc_params_def err_simps)

lemma dispatch_calls_keys:
  "dispatch_calls env rq adapter calls \<Longrightarrow>
     length (spawn_calls (dr_key rq) calls) \<le> 1 \<and> (key \<noteq> dr_key rq \<longrightarrow> spawn_calls key calls = [])"
  by (auto simp: dispatch_calls_def spawn_calls_def dest: spawn_params_key)

definition spawned_once :: "'a world \<Rightarrow> bool" where
  "spawned_once w \<longleftrightarrow> (\<forall>key. length (spawn_calls key (w_calls w)) \<le> 1 \<and>
     (spawn_calls key (w_calls w) \<noteq> [] \<longrightarrow> key \<in> set (spawn_keys (w_db w))))"

lemma dispatch_spawned_once:
  assumes run: "dispatch_with_metadata env raw w = (r, w')" and before: "spawned_once w"
  shows "spawned_once w'"
  using run
proof (cases rule: dispatch_cases)
  case quiet
  then show ?thesis using before by (simp add: spawned_once_def)
next
  case (new rq w1)
  obtain calls where calls: "w_calls w' = w_calls w @ calls" "dispatch_calls env rq (w_adapter w1) calls"
    using dispatch_new_calls(1) [OF new(8,7)] new(6) by auto
  have fresh: "spawn_calls (dr_key rq) (w_calls w) = []"
    using before new(5) by (auto simp: spawned_once_def spawn_intent_of_None)
  have kept: "set (spawn_keys (w_db w)) \<subseteq> set (spawn_keys (w_db w'))" by (rule dispatch_spawn_keys [OF run])
  have "(dispatch_step env rq)\<^sup>*\<^sup>* (w_db w1) (w_db w')"
    using keepsD [OF steps_dispatch_new new(8)] opens_admitted [OF new(4)] by (simp add: admitted_steps_def)
  then have own: "dr_key rq \<in> set (spawn_keys (w_db w'))"
    using steps_spawn_keys opens_spawn_keys [OF new(4)] by fastforce
  have split: "spawn_calls key (w_calls w') = spawn_calls key (w_calls w) @ spawn_calls key calls" for key
    by (simp add: spawn_calls_def calls(1))
  show ?thesis unfolding spawned_once_def split
  proof (intro allI)
    fix key
    show "length (spawn_calls key (w_calls w) @ spawn_calls key calls) \<le> 1 \<and>
        (spawn_calls key (w_calls w) @ spawn_calls key calls \<noteq> [] \<longrightarrow> key \<in> set (spawn_keys (w_db w')))"
      using dispatch_calls_keys [OF calls(2), of key] fresh before kept own
      by (cases "key = dr_key rq") (auto simp: spawned_once_def)
  qed
qed

lemma dispatch_all_spawned_once: "spawned_once w \<Longrightarrow> spawned_once (dispatch_all cs w)"
  by (induction cs w rule: dispatch_all.induct) (auto intro: dispatch_spawned_once prod.collapse [symmetric])

end
