(* ===== verification/DispatchHonest.thy ===== *)
theory DispatchHonest
  imports DispatchRuns MetadataDispatch
begin

section \<open>A dispatch through an honest gateway\<close>

text \<open>
  When the engine accepts every statement, no row shares a key with the request, the gateway echoes
  the intents, and the lease has not run out, a dispatch runs to acceptance. The three transactions
  are computed one after the other.
\<close>

subsection \<open>An engine that accepts every statement\<close>

definition ready :: "'a dispatch_env \<Rightarrow> bool" where
  "ready env \<longleftrightarrow> dp_engine env = (\<lambda>_ _ _. None) \<and> connect_runtime_db env = Inr ()"

lemma ready_statements:
  assumes "ready env"
  shows "query env l q w = (Inr (q (w_db w)), w)"
    and "modify env l f w = (Inr (), w\<lparr>w_db := f (w_db w)\<rparr>)"
    and "update_intents env l C g w =
      (Inr (length (filter C (dt_intents (w_db w)))), w\<lparr>w_db := (w_db w)\<lparr>dt_intents := update_where C g (dt_intents (w_db w))\<rparr>\<rparr>)"
    and "update_leases env l C' g' w =
      (Inr (length (filter C' (dt_leases (w_db w)))), w\<lparr>w_db := (w_db w)\<lparr>dt_leases := update_where C' g' (dt_leases (w_db w))\<rparr>\<rparr>)"
    and "update_spawns env l C'' g'' w =
      (Inr (length (filter C'' (dt_spawns (w_db w)))), w\<lparr>w_db := (w_db w)\<lparr>dt_spawns := update_where C'' g'' (dt_spawns (w_db w))\<rparr>\<rparr>)"
    and "m w = (Inr x, w') \<Longrightarrow> immediate_transaction env m w = (Inr x, w')"
  using assms
  by (simp_all add: ready_def query_def modify_def update_intents_def update_leases_def update_spawns_def
      immediate_transaction_def bindM_def readM_def)

lemma running:
  "requireM True m w = (Inr (), w)"
  "now_utc env w = (Inr (utc_from_epoch_ms (dp_time env (w_ticks w)), dp_time env (w_ticks w)), w\<lparr>w_ticks := Suc (w_ticks w)\<rparr>)"
  by (simp_all add: requireM_def now_utc_def Let_def)

lemma bindM_run: "m w = (Inr x, v) \<Longrightarrow> bindM m f w = f x v"
  by (simp add: bindM_def)

subsection \<open>Honest answers\<close>

definition echoes :: "observation \<Rightarrow> pydict \<Rightarrow> string \<Rightarrow> bool" where
  "echoes obs d i \<longleftrightarrow> obs_version obs = Some ''v1'' \<and> obs_normalized obs = Some d \<and>
     obs_raw_json obs = Some (dumps (PDict d)) \<and> obs_external_id obs = Some i"

definition texts_ok :: "dispatch_request \<Rightarrow> bool" where
  "texts_ok rq \<longleftrightarrow> [] \<notin> {dr_run rq, dr_transition rq, dr_phase rq, dr_agent rq, dr_requester rq, dr_digest rq, dr_spawn rq,
     dr_reserve rq, dr_client_lease rq, dr_acquire rq, dr_release rq, dr_client rq, dr_key rq} \<and>
     1 \<le> dr_ttl rq \<and> dr_ttl rq \<le> max_lease_ttl_ms"

definition lease_intent_of :: "dispatch_request \<Rightarrow> allow_lease_intent" where
  "lease_intent_of rq = \<lparr>al_client_lease_id = dr_client_lease rq, al_idempotency_key = dr_acquire rq, al_run_id = dr_run rq,
     al_phase = dr_phase rq, al_transition_id = dr_transition rq, al_agent_id = dr_agent rq,
     al_requester_agent_id = dr_requester rq, al_ttl_ms = dr_ttl rq\<rparr>"

definition session_intent_of :: "dispatch_request \<Rightarrow> session_spawn_intent" where
  "session_intent_of rq = \<lparr>sp_run_id = dr_run rq, sp_transition_id = dr_transition rq, sp_client_request_id = dr_client rq,
     sp_idempotency_key = dr_key rq, sp_phase = dr_phase rq, sp_agent_id = dr_agent rq, sp_task_digest = dr_digest rq\<rparr>"

lemma intents_of:
  "lease_metadata rq g = allow_lease_metadata (lease_intent_of rq) g"
  "spawn_metadata rq = session_metadata (session_intent_of rq)"
  "texts_ok rq \<Longrightarrow> lease_intent_ok (lease_intent_of rq)"
  "texts_ok rq \<Longrightarrow> session_intent_ok (session_intent_of rq)"
  by (auto simp: lease_metadata_def allow_lease_metadata_def lease_intent_of_def spawn_metadata_def session_metadata_def
      session_intent_of_def texts_ok_def lease_intent_ok_def session_intent_ok_def)

lemma honest_lease_columns:
  assumes "texts_ok rq" "g \<noteq> []" "echoes obs (lease_metadata rq g) g"
  shows "\<exists>c. lease_observed rq obs g = Inr c"
proof -
  have "validate_allow_lease_observation (lease_metadata rq g) (obs_normalized obs) (obs_raw_json obs) (obs_version obs)
      = Inr (lease_metadata rq g)"
    using honest_lease_valid [OF intents_of(3) [OF assms(1)] assms(2)] assms(3)
    by (simp add: echoes_def intents_of del: dumps.simps)
  then show ?thesis
    by (simp add: lease_observed_def lease_columns_def text_column_def getitem_def lease_metadata_def str_value_def)
qed

lemma honest_session_columns:
  assumes "texts_ok rq" "echoes obs (spawn_metadata rq) s"
  shows "\<exists>c. session_observed rq obs = Inr c"
proof -
  obtain v where v: "validate_session_observation (spawn_metadata rq) (obs_normalized obs) (obs_raw_json obs) (obs_version obs) = Inr v"
    using honest_session_valid [OF intents_of(4) [OF assms(1)]] assms(2)
    by (auto simp: echoes_def intents_of simp del: dumps.simps)
  then have "fields_of (spawn_metadata rq) session_fields v"
    using assms(2) unfolding validate_session_observation_def validate_metadata_observation_iff by auto
  then have "\<exists>c. session_columns (str_dict v) = Inr c"
    by (auto simp: fields_of_def session_fields_def list_all2_Cons1 str_dict_def session_columns_def text_column_def
        getitem_def str_value_def)
  then show ?thesis using v by (simp add: session_observed_def)
qed

subsection \<open>The first transaction\<close>

text \<open>No row has a key of the request, its reservation exists, and nothing live is in its way.\<close>

definition untouched :: "dispatch_request \<Rightarrow> dispatch_tables \<Rightarrow> bool" where
  "untouched rq db \<longleftrightarrow>
     (\<forall>sr\<in>set (dt_spawns db). sr_id sr \<noteq> dr_spawn rq) \<and>
     (\<forall>l\<in>set (dt_leases db). \<not> shares_lease_key rq l) \<and>
     (\<forall>b\<in>set (dt_bindings db). \<not> shares_binding_key (fst b) (binding_of rq)) \<and>
     (\<forall>i\<in>set (dt_intents db). ri_client i \<notin> {dr_client rq, dr_client_lease rq, dr_release rq} \<and>
        ri_key i \<notin> {dr_key rq, dr_acquire rq, dr_release rq}) \<and>
     dr_release rq \<notin> {dr_client_lease rq, dr_acquire rq, dr_client rq, dr_key rq} \<and>
     map_of (dt_reserves db) (dr_reserve rq) \<noteq> None \<and> \<not> duplicate_live rq db"

text \<open>The rows of a pending dispatch, as far as the later transactions read them.\<close>

definition own_rows :: "dispatch_request \<Rightarrow> int \<Rightarrow> dispatch_tables \<Rightarrow> dispatch_tables \<Rightarrow>
    request_row \<Rightarrow> lease_row \<Rightarrow> rpc_row \<Rightarrow> rpc_row \<Rightarrow> bool" where
  "own_rows rq ms db db' sr l a i \<longleftrightarrow>
     dt_spawns db' = dt_spawns db @ [sr] \<and> dt_leases db' = dt_leases db @ [l] \<and> dt_intents db' = dt_intents db @ [a, i] \<and>
     (\<exists>at. dt_bindings db' = dt_bindings db @ [(binding_of rq, at)]) \<and>
     sr_id sr = dr_spawn rq \<and> sr_key sr = dr_key rq \<and>
     le_id l = lease_id_of rq \<and> le_client l = dr_client_lease rq \<and> le_run l = dr_run rq \<and>
     le_transition l = dr_transition rq \<and> le_expires_ms l = ms + dr_ttl rq \<and>
     ri_kind a = AcquireRpc \<and> ri_key a = dr_acquire rq \<and>
     ri_kind i = SpawnRpc \<and> ri_key i = dr_key rq \<and> ri_spawn i = Some (dr_spawn rq)"

definition pending_rows :: "dispatch_request \<Rightarrow> int \<Rightarrow> dispatch_tables \<Rightarrow> dispatch_tables \<Rightarrow> bool" where
  "pending_rows rq ms db db' \<longleftrightarrow> (\<exists>sr l a i. own_rows rq ms db db' sr l a i \<and>
     sr_state sr = SpawnPending \<and> sr_session sr = None \<and> le_state l = AcquirePending \<and> le_gateway l = None \<and>
     ri_state a = RpcPending \<and> ri_state i = RpcPending)"

definition acquired_rows :: "dispatch_request \<Rightarrow> int \<Rightarrow> string \<Rightarrow> dispatch_tables \<Rightarrow> dispatch_tables \<Rightarrow> bool" where
  "acquired_rows rq ms g db db' \<longleftrightarrow> (\<exists>sr l a i. own_rows rq ms db db' sr l a i \<and>
     sr_state sr = SpawnPending \<and> sr_session sr = None \<and> le_state l = Acquired \<and> le_gateway l = Some g \<and>
     ri_state i = RpcPending)"

lemma own_rowsI:
  assumes "dt_spawns db' = dt_spawns db @ [sr]" "dt_leases db' = dt_leases db @ [l]" "dt_intents db' = dt_intents db @ [a, i]"
    and "dt_bindings db' = dt_bindings db @ [(binding_of rq, at)]"
    and "sr_id sr = dr_spawn rq \<and> sr_key sr = dr_key rq \<and>
     le_id l = lease_id_of rq \<and> le_client l = dr_client_lease rq \<and> le_run l = dr_run rq \<and>
     le_transition l = dr_transition rq \<and> le_expires_ms l = ms + dr_ttl rq \<and>
     ri_kind a = AcquireRpc \<and> ri_key a = dr_acquire rq \<and>
     ri_kind i = SpawnRpc \<and> ri_key i = dr_key rq \<and> ri_spawn i = Some (dr_spawn rq)"
  shows "own_rows rq ms db db' sr l a i"
  using assms by (simp add: own_rows_def)

lemma find_after: "(\<And>x. x \<in> set xs \<Longrightarrow> \<not> P x) \<Longrightarrow> find P (xs @ ys) = find P ys"
  by (induction xs) auto

lemma filter_none: "(\<And>x. x \<in> set xs \<Longrightarrow> \<not> P x) \<Longrightarrow> filter P xs = []"
  by (simp add: filter_empty_conv)

lemma find_none: "(\<And>x. x \<in> set xs \<Longrightarrow> \<not> P x) \<Longrightarrow> find P xs = None"
  by (simp add: find_None_iff)

lemma honest_begin:
  assumes ready: "ready env" and free: "untouched rq (w_db w)" and valid: "validate_transient_spawn_descriptor rq = Inr ()"
  shows "\<exists>w'. immediate_transaction env (begin_dispatch env rq) w = (Inr None, w') \<and>
    pending_rows rq (dp_time env (w_ticks w)) (w_db w) (w_db w') \<and> w_ticks w' = Suc (w_ticks w)"
proof -
  let ?db = "w_db w" and ?t = "utc_from_epoch_ms (dp_time env (w_ticks w))" and ?ms = "dp_time env (w_ticks w)"
  let ?w1 = "w\<lparr>w_ticks := Suc (w_ticks w)\<rparr>"
  have none: "find (\<lambda>i. ri_kind i = SpawnRpc \<and> ri_key i = dr_key rq) (dt_intents ?db) = None"
      "filter (\<lambda>i. ri_kind i = SpawnRpc \<and> (ri_client i = dr_client rq \<or> ri_key i = dr_key rq)) (dt_intents ?db) = []"
      "\<not> list_ex (\<lambda>i. ri_client i = dr_release rq \<or> ri_key i = dr_release rq) (dt_intents ?db)"
      "find (\<lambda>sr. sr_id sr = dr_spawn rq) (dt_spawns ?db) = None"
      "filter (\<lambda>l. le_id l = lease_id_of rq \<or> le_client l = dr_client_lease rq \<or> le_acquire l = dr_acquire rq) (dt_leases ?db) = []"
      "filter (\<lambda>i. ri_kind i = AcquireRpc \<and> (ri_client i = dr_client_lease rq \<or> ri_key i = dr_acquire rq)) (dt_intents ?db) = []"
      "filter (\<lambda>b. shares_binding_key (fst b) (binding_of rq)) (dt_bindings ?db) = []"
    using free by (auto simp: untouched_def shares_lease_key_def list_ex_iff intro!: filter_none find_none)
  obtain created where created: "map_of (dt_reserves ?db) (dr_reserve rq) = Some created"
    using free by (auto simp: untouched_def)
  obtain descriptor where descriptor: "spawn_descriptor_metadata rq = Inr descriptor"
    using valid by (simp add: spawn_descriptor_metadata_def)
  have collision: "dr_release rq \<notin> {dr_client_lease rq, dr_acquire rq, dr_client rq, dr_key rq}" "\<not> duplicate_live rq ?db"
    using free by (auto simp: untouched_def)
  have "\<exists>w'. insert_pending_dispatch env rq w = (Inr (), w') \<and> pending_rows rq ?ms ?db (w_db w') \<and> w_ticks w' = Suc (w_ticks w)"
    using collision
    unfolding insert_pending_dispatch_def assert_no_conflicting_spawn_replay_def assert_no_release_key_collision_def
      assert_no_potentially_live_dispatch_def spawn_intent_requested_time_def assert_or_insert_spawn_request_def
      assert_or_insert_lease_def assert_or_insert_acquire_intent_def assert_or_insert_dispatch_binding_def
      insert_intent_def
      pending_rows_def
    apply (simp add: bindM_def ready_statements [OF ready] running none created descriptor Let_def)
    apply (rule exI)+
    apply (intro conjI)
          apply (rule own_rowsI)
              apply (simp; fail)+
         apply (simp_all add: new_intent_def)
    done
  then obtain w' where w': "insert_pending_dispatch env rq w = (Inr (), w')" "pending_rows rq ?ms ?db (w_db w')"
      "w_ticks w' = Suc (w_ticks w)" by blast
  have existing: "existing_spawn_replay_result env rq w = (Inr None, w)"
    by (simp add: existing_spawn_replay_result_def bindM_def ready_statements [OF ready] spawn_intent_of_def none)
  have "bindM (existing_spawn_replay_result env rq) f w = f None w" for f :: "dispatch_result option \<Rightarrow> ('a, dispatch_result option) operation"
    using existing by (rule bindM_run)
  moreover have "bindM (insert_pending_dispatch env rq) f w = f () w'" for f :: "unit \<Rightarrow> ('a, dispatch_result option) operation"
    using w'(1) by (rule bindM_run)
  ultimately have "begin_dispatch env rq w = (Inr None, w')" unfolding begin_dispatch_def by (simp add: valid)
  then have "immediate_transaction env (begin_dispatch env rq) w = (Inr None, w')" by (rule ready_statements(6) [OF ready])
  with w' show ?thesis by blast
qed

subsection \<open>The transactions after it\<close>

lemma update_where_other [simp]: "(\<And>x. x \<in> set xs \<Longrightarrow> \<not> P x) \<Longrightarrow> update_where P f xs = xs"
  by (simp add: update_where_def map_idI)

lemma update_where_Nil [simp]: "update_where P f [] = []"
  by (simp add: update_where_def)

lemma update_where_append [simp]: "update_where P f (xs @ ys) = update_where P f xs @ update_where P f ys"
  by (simp add: update_where_def)

lemma update_where_Cons [simp]: "update_where P f (x # xs) = (if P x then f x else x) # update_where P f xs"
  by (simp add: update_where_def)

lemma untouched_rows:
  assumes "untouched rq db"
  shows "i \<in> set (dt_intents db) \<Longrightarrow> ri_key i \<noteq> dr_acquire rq" "i \<in> set (dt_intents db) \<Longrightarrow> ri_key i \<noteq> dr_key rq"
    and "l \<in> set (dt_leases db) \<Longrightarrow> le_client l \<noteq> dr_client_lease rq"
    and "sr \<in> set (dt_spawns db) \<Longrightarrow> sr_id sr \<noteq> dr_spawn rq"
  using assms by (auto simp: untouched_def shares_lease_key_def)

lemma honest_acquire:
  assumes ready: "ready env" and free: "untouched rq db" and rows: "pending_rows rq ms db (w_db w)"
    and texts: "texts_ok rq" "g \<noteq> []"
    and answer: "dp_acquire env (acquire_rpc_params rq) (w_adapter w) = (Inr obs, ad)" "echoes obs (lease_metadata rq g) g"
  shows "\<exists>w'. acquire_lease env rq w = (Inr g, w') \<and> acquired_rows rq ms g db (w_db w') \<and>
    w_ticks w' = Suc (w_ticks w) \<and> w_adapter w' = ad"
proof -
  obtain c where c: "lease_observed rq obs g = Inr c" using honest_lease_columns [OF texts answer(2)] by blast
  define w1 where "w1 = w\<lparr>w_adapter := ad, w_calls := w_calls w @ [AcquireCall (acquire_rpc_params rq)]\<rparr>"
  obtain sr l a i where own: "own_rows rq ms db (w_db w) sr l a i" "sr_state sr = SpawnPending" "sr_session sr = None"
      "le_state l = AcquirePending" "le_gateway l = None" "ri_state a = RpcPending" "ri_state i = RpcPending"
    using rows by (auto simp: pending_rows_def)
  note other = untouched_rows [OF free]
  have found: "find (\<lambda>i. ri_kind i = AcquireRpc \<and> ri_key i = dr_acquire rq) (dt_intents db @ [a, i]) = Some a"
    using own(1) other by (simp add: find_after own_rows_def)
  have "\<exists>w'. persist_acquired_lease env rq obs g False w1 = (Inr (), w') \<and> acquired_rows rq ms g db (w_db w') \<and>
      w_ticks w' = Suc (w_ticks w1) \<and> w_adapter w' = ad"
    using own other found c
    by (simp add: persist_acquired_lease_def strictly_after_requested_time_def bindM_def ready_statements [OF ready] running
        own_rows_def filter_none is_open_def acquired_rows_def w1_def)
  then obtain w' where persisted: "persist_acquired_lease env rq obs g False w1 = (Inr (), w')" and after: "acquired_rows rq ms g db (w_db w')"
      "w_ticks w' = Suc (w_ticks w)" "w_adapter w' = ad" by (auto simp: w1_def)
  have "validate_accepted_lease_identity (obs_external_id obs) None = Inr g"
    using answer(2) texts(2) by (simp add: echoes_def validate_accepted_lease_identity_def)
  moreover have "call_adapter AcquireCall (dp_acquire env) (acquire_rpc_params rq) w = (Inr obs, w1)"
    using answer(1) by (simp add: call_adapter_def w1_def)
  moreover have "immediate_transaction env (persist_acquired_lease env rq obs g False) w1 = (Inr (), w')"
    by (rule ready_statements(6) [OF ready]) (rule persisted)
  ultimately have "acquire_lease env rq w = (Inr g, w')" by (simp add: acquire_lease_def bindM_def catchM_def)
  with after show ?thesis by blast
qed

lemma honest_not_expired:
  assumes ready: "ready env" and free: "untouched rq db" and rows: "acquired_rows rq ms g db (w_db w)"
    and time: "dp_time env (w_ticks w) < ms + dr_ttl rq"
  shows "immediate_transaction env (expire_locally_expired_lease_before_spawn env rq g) w = (Inr False, w\<lparr>w_ticks := Suc (w_ticks w)\<rparr>)"
proof -
  obtain sr l a i where own: "own_rows rq ms db (w_db w) sr l a i" "le_state l = Acquired" "le_gateway l = Some g"
    using rows by (auto simp: acquired_rows_def)
  have "find (\<lambda>l. le_client l = dr_client_lease rq \<and> le_run l = dr_run rq \<and> le_transition l = dr_transition rq \<and>
      le_gateway l = Some g \<and> le_state l = Acquired) (dt_leases db @ [l]) = Some l"
    using own untouched_rows(3) [OF free] by (simp add: find_after own_rows_def)
  then have "expire_locally_expired_lease_before_spawn env rq g w = (Inr False, w\<lparr>w_ticks := Suc (w_ticks w)\<rparr>)"
    using own time
    by (simp add: expire_locally_expired_lease_before_spawn_def Let_def bindM_def ready_statements [OF ready] running own_rows_def)
  then show ?thesis by (rule ready_statements(6) [OF ready])
qed

text \<open>The rows of the request do not join with older intents.\<close>

lemma own_rows_no_duplicate:
  assumes free: "untouched rq db" and own: "own_rows rq ms db db' sr l a i"
  shows "\<not> duplicate_live rq db'"
proof
  assume "duplicate_live rq db'"
  then obtain j where j: "j \<in> set (dt_intents db')" "potentially_live db' j" "ri_run j = dr_run rq"
      "ri_phase j = Some (dr_phase rq)" "ri_agent j = Some (dr_agent rq)" "sql_neq (ri_spawn j) (dr_spawn rq)"
    by (auto simp: duplicate_live_def list_ex_iff)
  then obtain sr' b l' where found: "sr' \<in> set (dt_spawns db')" "b \<in> set (dt_bindings db')" "l' \<in> set (dt_leases db')"
      "joined j sr' (fst b) l'" "live_row j sr' l'" and kind: "ri_kind j = SpawnRpc"
    by (auto simp: potentially_live_iff)
  have old: "j \<in> set (dt_intents db)" using j(1,6) kind own by (auto simp: own_rows_def sql_neq_def)
  then have key: "ri_key j \<noteq> dr_key rq" using untouched_rows(2) [OF free] by blast
  have b: "b \<in> set (dt_bindings db)" using found(2,4) key own by (auto simp: own_rows_def joined_def binding_of_def)
  have sr: "sr' \<in> set (dt_spawns db)" using found(1,4) key own by (auto simp: own_rows_def joined_def)
  have "l' \<in> set (dt_leases db)"
  proof (rule ccontr)
    assume "l' \<notin> set (dt_leases db)"
    then have "le_id l' = lease_id_of rq" using found(3) own by (auto simp: own_rows_def)
    then have "shares_binding_key (fst b) (binding_of rq)" using found(4) by (simp add: joined_def shares_binding_key_def binding_of_def)
    then show False using free b by (auto simp: untouched_def)
  qed
  then have "potentially_live db j" using found(4,5) b sr kind by (auto simp: potentially_live_iff)
  then have "duplicate_live rq db" using old j by (auto simp: duplicate_live_def list_ex_iff)
  then show False using free by (simp add: untouched_def)
qed

lemma honest_acceptance:
  assumes ready: "ready env" and free: "untouched rq db" and rows: "acquired_rows rq ms g db (w_db w)"
    and texts: "texts_ok rq" and answer: "echoes obs (spawn_metadata rq) s"
  shows "\<exists>w'. persist_spawn_acceptance env rq obs s False w = (Inr (), w')"
proof -
  obtain c where c: "session_observed rq obs = Inr c" using honest_session_columns [OF texts answer] by blast
  obtain sr l a i where own: "own_rows rq ms db (w_db w) sr l a i" "sr_state sr = SpawnPending" "sr_session sr = None"
      "ri_state i = RpcPending"
    using rows by (auto simp: acquired_rows_def)
  note other = untouched_rows [OF free]
  have live: "\<not> duplicate_live rq (w_db w)" by (rule own_rows_no_duplicate [OF free own(1)])
  have found: "find (\<lambda>i. ri_kind i = SpawnRpc \<and> ri_key i = dr_key rq) (dt_intents db @ [a, i]) = Some i"
    using own(1) other by (simp add: find_after own_rows_def)
  show ?thesis
    using own other found c live
    by (simp add: persist_spawn_acceptance_def assert_no_potentially_live_dispatch_def strictly_after_requested_time_def
        bindM_def ready_statements [OF ready] running own_rows_def filter_none is_open_def)
qed

subsection \<open>Typed requests\<close>

text \<open>The values a typed request stands for, field by field.\<close>

definition request_values :: "dispatch_request \<Rightarrow> (string \<times> pyval) list" where
  "request_values rq =
     [(''run_id'', PStr (dr_run rq)), (''transition_id'', PStr (dr_transition rq)), (''phase'', PStr (dr_phase rq)),
      (''agent_id'', PStr (dr_agent rq)), (''requester_agent_id'', PStr (dr_requester rq)),
      (''task_digest'', PStr (dr_digest rq)), (''spawn_request_id'', PStr (dr_spawn rq)),
      (''reserve_budget_event_id'', PStr (dr_reserve rq)), (''client_lease_id'', PStr (dr_client_lease rq)),
      (''acquire_idempotency_key'', PStr (dr_acquire rq)), (''release_idempotency_key'', PStr (dr_release rq)),
      (''ttl_ms'', PInt (dr_ttl rq)), (''spawn_client_request_id'', PStr (dr_client rq)),
      (''spawn_idempotency_key'', PStr (dr_key rq)), (''spawn_task'', dr_task rq), (''spawn_task_name'', dr_task_name rq),
      (''spawn_runtime'', dr_runtime rq), (''spawn_mode'', dr_mode rq), (''spawn_cleanup'', dr_cleanup rq),
      (''spawn_context'', dr_context rq), (''spawn_light_context'', dr_light rq),
      (''lease_id'', case dr_lease rq of None \<Rightarrow> PNone | Some l \<Rightarrow> PStr l)]"

lemma validated_request:
  "validate_dispatch_request raw = Inr rq \<longleftrightarrow>
     texts_ok rq \<and> dr_lease rq \<noteq> Some [] \<and> (\<forall>(f, v)\<in>set (request_values rq). raw f = v)"
proof
  assume valid: "validate_dispatch_request raw = Inr rq"
  then have texts: "\<And>f. f \<in> set required_request_fields \<Longrightarrow> \<exists>s. raw f = PStr s \<and> s \<noteq> []"
    by (fastforce simp: validate_dispatch_request_def err_simps split: if_splits)
  have rq: "rq = typed_request raw" and ttl: "\<exists>t. raw ''ttl_ms'' = PInt t \<and> 1 \<le> t \<and> t \<le> max_lease_ttl_ms"
      and lease: "raw ''lease_id'' = PNone \<or> (\<exists>l. raw ''lease_id'' = PStr l \<and> l \<noteq> [])"
    using valid by (auto simp: validate_dispatch_request_def err_simps split: if_splits option.splits)
  obtain s where "\<forall>f\<in>set required_request_fields. raw f = PStr (s f) \<and> s f \<noteq> []" using texts by metis
  then show "texts_ok rq \<and> dr_lease rq \<noteq> Some [] \<and> (\<forall>(f, v)\<in>set (request_values rq). raw f = v)"
    using ttl lease
    by (auto simp: rq typed_request_def request_values_def texts_ok_def required_request_fields_def text_of_def
        nonempty_str_def [of PNone] nonempty_str_def [of "PStr l" for l])
next
  assume typed: "texts_ok rq \<and> dr_lease rq \<noteq> Some [] \<and> (\<forall>(f, v)\<in>set (request_values rq). raw f = v)"
  then have "typed_request raw = rq"
    by (cases rq) (auto simp: typed_request_def request_values_def text_of_def nonempty_str_def texts_ok_def split: option.splits)
  then show "validate_dispatch_request raw = Inr rq"
    using typed
    by (auto simp: validate_dispatch_request_def request_values_def texts_ok_def required_request_fields_def err_simps
        nonempty_str_def int_value_def split: option.splits)
qed

subsection \<open>The whole dispatch\<close>

definition honest_gateway :: "'a dispatch_env \<Rightarrow> dispatch_request \<Rightarrow> string \<Rightarrow> string \<Rightarrow> 'a \<Rightarrow> bool" where
  "honest_gateway env rq g s ad \<longleftrightarrow> g \<noteq> [] \<and> s \<noteq> [] \<and>
     (\<exists>lease ad1 p session ad2.
        dp_acquire env (acquire_rpc_params rq) ad = (Inr lease, ad1) \<and> echoes lease (lease_metadata rq g) g \<and>
        spawn_rpc_params rq g = Inr p \<and> dp_spawn env p ad1 = (Inr session, ad2) \<and>
        echoes session (spawn_metadata rq) s \<and> obs_spawn_session_key session = Some s \<and> obs_session_key session = Some s)"

lemma honest_dispatch:
  assumes valid: "validate_dispatch_request raw = Inr rq" "validate_transient_spawn_descriptor rq = Inr ()"
    and ready: "ready env" and free: "untouched rq (w_db w)" and honest: "honest_gateway env rq g s (w_adapter w)"
    and time: "dp_time env (w_ticks w + 2) < dp_time env (w_ticks w) + dr_ttl rq"
  shows "fst (dispatch_with_metadata env raw w) = Inr \<lparr>res_session = s, res_gateway = g, res_status = ''accepted''\<rparr>"
proof -
  let ?ms = "dp_time env (w_ticks w)"
  obtain lease ad1 p session ad2 where
      lease: "dp_acquire env (acquire_rpc_params rq) (w_adapter w) = (Inr lease, ad1)" "echoes lease (lease_metadata rq g) g"
    and session: "spawn_rpc_params rq g = Inr p" "dp_spawn env p ad1 = (Inr session, ad2)" "echoes session (spawn_metadata rq) s"
      "obs_spawn_session_key session = Some s" "obs_session_key session = Some s"
    and names: "g \<noteq> []" "s \<noteq> []"
    using honest unfolding honest_gateway_def by blast
  have texts: "texts_ok rq" using valid(1) unfolding validated_request by blast
  obtain w1 where begun: "immediate_transaction env (begin_dispatch env rq) w = (Inr None, w1)"
      and pending: "pending_rows rq ?ms (w_db w) (w_db w1)" "w_ticks w1 = Suc (w_ticks w)"
    using honest_begin [OF ready free valid(2)] by blast
  have same: "w_adapter w1 = w_adapter w" by (rule silent_transaction(2) [OF silent_begin begun])
  obtain w2 where acquired: "acquire_lease env rq w1 = (Inr g, w2)" "acquired_rows rq ?ms g (w_db w) (w_db w2)"
      "w_ticks w2 = Suc (Suc (w_ticks w))" "w_adapter w2 = ad1"
    using honest_acquire [OF ready free pending(1) texts names(1), of lease ad1] lease same pending(2) by auto
  define w3 where "w3 = w2\<lparr>w_ticks := Suc (w_ticks w2)\<rparr>"
  have fresh: "immediate_transaction env (expire_locally_expired_lease_before_spawn env rq g) w2 = (Inr False, w3)"
    unfolding w3_def by (rule honest_not_expired [OF ready free acquired(2)]) (use time acquired(3) in simp)
  define w4 where "w4 = w3\<lparr>w_adapter := ad2, w_calls := w_calls w3 @ [SpawnCall p]\<rparr>"
  obtain w5 where "persist_spawn_acceptance env rq session s False w4 = (Inr (), w5)"
    using honest_acceptance [OF ready free, of ?ms g w4 session s] acquired(2) texts session(3) by (auto simp: w3_def w4_def)
  then have accepted: "immediate_transaction env (persist_spawn_acceptance env rq session s False) w4 = (Inr (), w5)"
    by (rule ready_statements(6) [OF ready])
  have identity: "validate_accepted_session_identity (obs_external_id session) (obs_spawn_session_key session)
      (obs_session_key session) None = Inr s"
    using session names(2) by (simp add: validate_accepted_session_identity_def echoes_def)
  have call: "call_adapter SpawnCall (dp_spawn env) p w3 = (Inr session, w4)"
    using session(2) acquired(4) by (simp add: call_adapter_def w3_def w4_def)
  have "spawn_session_once env rq g w3 = (Inr s, w5)"
    using session(1) call identity accepted by (simp add: spawn_session_once_def accept_spawn_def bindM_def catchM_def)
  then have "dispatch_new env rq w1 = (Inr \<lparr>res_session = s, res_gateway = g, res_status = ''accepted''\<rparr>, w5)"
    using acquired(1) fresh by (simp add: dispatch_new_def bindM_def catchM_def)
  then have "dispatch_with_metadata env raw w = (Inr \<lparr>res_session = s, res_gateway = g, res_status = ''accepted''\<rparr>, w5)"
    using begun valid(1) ready by (simp add: dispatch_with_metadata_def ready_def bindM_def)
  then show ?thesis by simp
qed

end
