(* ===== verification/DispatchOutcome.thy ===== *)
theory DispatchOutcome
  imports DispatchHonest
begin

section \<open>What a returned dispatch leaves behind\<close>

text \<open>
  The rows of an accepted dispatch, and why a repetition finds them: each is unique by its key, and
  what the replay compares was written by the first transaction and has not changed since.
\<close>

subsection \<open>The rows of a request\<close>

definition spawn_row :: "dispatch_request \<Rightarrow> rpc_row \<Rightarrow> bool" where
  "spawn_row rq i \<longleftrightarrow> ri_kind i = SpawnRpc \<and> ri_key i = dr_key rq \<and> same_spawn rq i \<and>
     (\<exists>d. spawn_descriptor_metadata rq = Inr d \<and> ri_metadata i = Some (dumps (PDict d)))"

definition lease_of :: "dispatch_request \<Rightarrow> lease_row \<Rightarrow> bool" where
  "lease_of rq l \<longleftrightarrow> le_run l = dr_run rq \<and> le_transition l = dr_transition rq \<and> le_phase l = dr_phase rq \<and>
     le_agent l = dr_agent rq \<and> le_requester l = dr_requester rq \<and> le_client l = dr_client_lease rq \<and>
     le_acquire l = dr_acquire rq \<and> le_release l = Some (dr_release rq)"

definition has_rows :: "dispatch_request \<Rightarrow> dispatch_tables \<Rightarrow> bool" where
  "has_rows rq db \<longleftrightarrow> admitted rq db \<and> (\<exists>i\<in>set (dt_intents db). spawn_row rq i) \<and>
     (\<exists>sr\<in>set (dt_spawns db). request_of rq sr) \<and> (\<exists>l\<in>set (dt_leases db). lease_of rq l)"

lemma opens_has_rows:
  assumes "opens rq db db'" "dispatch_ok db" "spawn_intent_of (dr_key rq) db = None"
  shows "has_rows rq db'"
proof -
  obtain S L A i where rows: "dt_spawns db' = dt_spawns db @ S" "new_spawns rq db S"
      "dt_leases db' = dt_leases db @ L" "new_leases rq db L"
      "dt_intents db' = dt_intents db @ A @ [i]" "new_spawn_intent rq i"
    using assms(1) by (auto simp: opens_def)
  have ids: "distinct (map sr_id (dt_spawns db))" using assms(2) by (simp add: dispatch_ok_def)
  have "\<exists>sr\<in>set (dt_spawns db'). request_of rq sr"
    using new_spawns_facts(2,3) [OF rows(2) ids] by (fastforce simp: rows)
  moreover have "\<exists>l\<in>set (dt_leases db'). lease_of rq l"
    using new_leases_facts(5) [OF rows(4)] by (fastforce simp: rows lease_of_def pending_lease_def)
  moreover have "\<exists>i\<in>set (dt_intents db'). spawn_row rq i"
    using rows(6) by (auto simp: rows new_spawn_intent_def spawn_row_def)
  ultimately show ?thesis using opens_keep_ok(2) [OF assms] by (simp add: has_rows_def)
qed

lemma moves_has_rows:
  assumes "moves rq db db'" "has_rows rq db"
  shows "has_rows rq db'"
proof -
  have "\<exists>i'\<in>set (dt_intents db'). spawn_row rq i'"
  proof -
    obtain i where "i \<in> set (dt_intents db)" "spawn_row rq i" using assms(2) by (auto simp: has_rows_def)
    with moves_intents(2) [OF assms(1)] show ?thesis by (fastforce simp: spawn_row_def same_spawn_def intent_moves_def)
  qed
  moreover have "\<exists>sr'\<in>set (dt_spawns db'). request_of rq sr'"
  proof -
    obtain sr where "sr \<in> set (dt_spawns db)" "request_of rq sr" using assms(2) by (auto simp: has_rows_def)
    with moves_spawns(2) [OF assms(1)] show ?thesis by (fastforce simp: request_of_def request_moves_def)
  qed
  moreover have "\<exists>l'\<in>set (dt_leases db'). lease_of rq l'"
  proof -
    obtain l where "l \<in> set (dt_leases db)" "lease_of rq l" using assms(2) by (auto simp: has_rows_def)
    with moves_leases(2) [OF assms(1)] show ?thesis by (fastforce simp: lease_of_def lease_row_moves_def)
  qed
  moreover have "admitted rq db'" using assms by (simp add: has_rows_def admitted_def moves_def)
  ultimately show ?thesis by (simp add: has_rows_def)
qed

subsection \<open>After the first transaction rows only move\<close>

definition table_moves :: "dispatch_request \<Rightarrow> 'a world \<Rightarrow> 'a world \<Rightarrow> bool" where
  "table_moves rq w w' \<longleftrightarrow> moves rq (w_db w) (w_db w')"

interpretation tm: world_relation "table_moves rq"
  by unfold_locales (auto simp: table_moves_def intro: moves_trans)

lemma later_table_moves: "keeps (world_moves rq) m \<Longrightarrow> keeps (table_moves rq) m"
  by (auto simp: keeps_def world_moves_def table_moves_def)

lemma call_table_moves: "keeps (table_moves rq) (call_adapter call f params)"
  by (auto simp: keeps_def table_moves_def dest: call_adapter_effect)

lemma dispatch_new_moves: "keeps (table_moves rq) (dispatch_new env rq)"
  unfolding dispatch_new_def acquire_lease_def acquire_failed_def spawn_session_once_def accept_spawn_def
    spawn_failed_def release_owned_lease_def release_failed_def
  by (intro tm.keeps_rules call_table_moves keeps_later [THEN later_table_moves])

subsection \<open>Acceptance\<close>

text \<open>The outcome of an accepted dispatch, in the tables.\<close>

definition session_recorded :: "dispatch_request \<Rightarrow> string \<Rightarrow> dispatch_tables \<Rightarrow> bool" where
  "session_recorded rq k db \<longleftrightarrow>
     (\<exists>i\<in>set (dt_intents db). ri_kind i = SpawnRpc \<and> ri_key i = dr_key rq \<and> ri_state i = RpcAccepted \<and> ri_external i = Some k) \<and>
     (\<exists>sr\<in>set (dt_spawns db). sr_id sr = dr_spawn rq \<and> sr_state sr = SpawnAccepted \<and> sr_session sr = Some k) \<and>
     (\<exists>s\<in>set (dt_sessions db). rs_spawn s = dr_spawn rq \<and> rs_run s = dr_run rq \<and> rs_transition s = dr_transition rq \<and>
        rs_client s = dr_client rq \<and> rs_key s = dr_key rq \<and> rs_phase s = dr_phase rq \<and> rs_agent s = dr_agent rq \<and>
        rs_digest s = dr_digest rq \<and> rs_session s = k \<and> rs_state s = ''running'')"

definition lease_recorded :: "dispatch_request \<Rightarrow> string \<Rightarrow> dispatch_tables \<Rightarrow> bool" where
  "lease_recorded rq g db \<longleftrightarrow>
     (\<exists>i\<in>set (dt_intents db). ri_kind i = AcquireRpc \<and> ri_key i = dr_acquire rq \<and> ri_state i = RpcAccepted \<and> ri_external i = Some g) \<and>
     (\<exists>l\<in>set (dt_leases db). le_client l = dr_client_lease rq \<and> le_state l = Acquired \<and> le_gateway l = Some g)"

lemma updated_row: "length (filter C xs) = 1 \<Longrightarrow> \<exists>x\<in>set xs. C x \<and> f x \<in> set (update_where C f xs)"
  by (auto simp: length_Suc_conv filter_eq_Cons_iff update_where_def)

lemma other_row: "x \<in> set xs \<Longrightarrow> \<not> C x \<Longrightarrow> x \<in> set (update_where C f xs)"
  by (force simp: update_where_def)

text \<open>An update that matched one row left the new version of that row.\<close>

lemma updated_rows:
  "update_intents env l C f w = (Inr 1, w') \<Longrightarrow> (\<And>i. C i \<Longrightarrow> Q (f i)) \<Longrightarrow> \<exists>i\<in>set (dt_intents (w_db w')). Q i"
  "update_leases env l C' f' w = (Inr 1, w') \<Longrightarrow> (\<And>i. C' i \<Longrightarrow> Q' (f' i)) \<Longrightarrow> \<exists>i\<in>set (dt_leases (w_db w')). Q' i"
  "update_spawns env l C'' f'' w = (Inr 1, w') \<Longrightarrow> (\<And>i. C'' i \<Longrightarrow> Q'' (f'' i)) \<Longrightarrow> \<exists>i\<in>set (dt_spawns (w_db w')). Q'' i"
proof -
  assume *: "update_intents env l C f w = (Inr 1, w')" and Q: "\<And>i. C i \<Longrightarrow> Q (f i)"
  show "\<exists>i\<in>set (dt_intents (w_db w')). Q i"
    using update_Inr(1) [OF *] updated_row [of C "dt_intents (w_db w)" f] Q by auto
next
  assume *: "update_leases env l C' f' w = (Inr 1, w')" and Q: "\<And>i. C' i \<Longrightarrow> Q' (f' i)"
  show "\<exists>i\<in>set (dt_leases (w_db w')). Q' i"
    using update_Inr(2) [OF *] updated_row [of C' "dt_leases (w_db w)" f'] Q by auto
next
  assume *: "update_spawns env l C'' f'' w = (Inr 1, w')" and Q: "\<And>i. C'' i \<Longrightarrow> Q'' (f'' i)"
  show "\<exists>i\<in>set (dt_spawns (w_db w')). Q'' i"
    using update_Inr(3) [OF *] updated_row [of C'' "dt_spawns (w_db w)" f''] Q by auto
qed

lemma update_others:
  "update_intents env l C f w = (Inr n, w') \<Longrightarrow> dt_leases (w_db w') = dt_leases (w_db w) \<and>
     dt_spawns (w_db w') = dt_spawns (w_db w) \<and> dt_sessions (w_db w') = dt_sessions (w_db w) \<and>
     (\<forall>i\<in>set (dt_intents (w_db w)). \<not> C i \<longrightarrow> i \<in> set (dt_intents (w_db w')))"
  "update_leases env l C' f' w = (Inr n, w') \<Longrightarrow> dt_intents (w_db w') = dt_intents (w_db w)"
  "update_spawns env l C'' f'' w = (Inr n, w') \<Longrightarrow> dt_intents (w_db w') = dt_intents (w_db w) \<and>
     dt_leases (w_db w') = dt_leases (w_db w) \<and> dt_sessions (w_db w') = dt_sessions (w_db w)"
  by (auto dest!: update_Inr intro: other_row)

lemma acquisition_recorded:
  assumes "persist_acquired_lease env rq obs g False w = (Inr u, w')"
  shows "lease_recorded rq g (w_db w')"
proof -
  obtain now c w1 w2 where
    intents: "update_intents env ''accept acquire''
       (\<lambda>i. ri_kind i = AcquireRpc \<and> ri_key i = dr_acquire rq \<and> is_open (ri_state i))
       (\<lambda>i. i\<lparr>ri_state := RpcAccepted, ri_version := obs_version obs,
          ri_json := obs_raw_json obs, ri_observed := observe_lease c (ri_observed i),
          ri_external := Some g, ri_accepted_at := coalesce (ri_accepted_at i) (Some (fst now)),
          ri_accepted_ms := coalesce (ri_accepted_ms i) (Some (snd now))\<rparr>) w1 = (Inr 1, w2)"
    and leases: "update_leases env ''acquire lease''
       (\<lambda>l. le_client l = dr_client_lease rq \<and> le_state l = AcquirePending \<and> le_gateway l = None)
       (\<lambda>l. l\<lparr>le_state := Acquired, le_gateway := Some g, le_version := obs_version obs,
          le_observed_at := Some (fst now), le_json := obs_raw_json obs,
          le_observed := observe_lease c (le_observed l), le_acquired_at := Some (fst now)\<rparr>) w2 = (Inr 1, w')"
    using assms by (auto simp: persist_acquired_lease_def err_simps)
  show ?thesis
    unfolding lease_recorded_def update_others(2) [OF leases]
    by (intro conjI updated_rows(1) [OF intents] updated_rows(2) [OF leases]) simp_all
qed

lemma acceptance_recorded:
  assumes "persist_spawn_acceptance env rq obs k False w = (Inr u, w')"
  shows "session_recorded rq k (w_db w')" "lease_recorded rq g (w_db w) \<Longrightarrow> lease_recorded rq g (w_db w')"
proof -
  obtain t ms c w1 w2 w3 w4 where
    intents: "update_intents env ''accept spawn''
       (\<lambda>i. ri_kind i = SpawnRpc \<and> ri_key i = dr_key rq \<and> is_open (ri_state i))
       (\<lambda>i. i\<lparr>ri_state := RpcAccepted, ri_version := obs_version obs,
          ri_json := obs_raw_json obs, ri_observed := observe_session c (ri_observed i),
          ri_external := Some k, ri_accepted_at := coalesce (ri_accepted_at i) (Some t),
          ri_accepted_ms := coalesce (ri_accepted_ms i) (Some ms)\<rparr>) w1 = (Inr 1, w2)"
    and key: "update_spawns env ''spawn session key''
       (\<lambda>sr. sr_id sr = dr_spawn rq \<and> sr_state sr \<in> {SpawnPending, SpawnUnknown} \<and>
          (sr_session sr = None \<or> sr_session sr = Some []))
       (\<lambda>sr. sr\<lparr>sr_session := Some k, sr_dispatch_run := Some k, sr_version := obs_version obs,
          sr_observed_at := Some t, sr_json := obs_raw_json obs, sr_updated := t\<rparr>) w2 = (Inr 1, w3)"
    and session: "modify env ''insert session'' (\<lambda>db. db\<lparr>dt_sessions := dt_sessions db @
       [\<lparr>rs_id = ''session:'' @ k, rs_spawn = dr_spawn rq, rs_run = dr_run rq,
         rs_transition = dr_transition rq, rs_phase = dr_phase rq, rs_agent = dr_agent rq, rs_client = dr_client rq,
         rs_key = dr_key rq, rs_session = k, rs_digest = dr_digest rq, rs_status = obs_status_json obs,
         rs_state = ''running'', rs_spawned = t\<rparr>]\<rparr>) w3 = (Inr (), w4)"
    and accept: "update_spawns env ''accept spawn request''
       (\<lambda>sr. sr_id sr = dr_spawn rq \<and> sr_state sr \<in> {SpawnPending, SpawnUnknown} \<and> sr_session sr = Some k)
       (\<lambda>sr. sr\<lparr>sr_state := SpawnAccepted, sr_updated := t\<rparr>) w4 = (Inr 1, w')"
    and start: "w_db w1 = w_db w"
    using assms
    by (clarsimp simp: persist_spawn_acceptance_def assert_no_potentially_live_dispatch_def strictly_after_requested_time_def
        bindM_Inr_iff methodM_Inr_iff requireM_Inr_iff query_Inr_iff now_utc_Inr_iff simp del: insert_iff)
  show "session_recorded rq k (w_db w')"
    unfolding session_recorded_def
  proof (intro conjI)
    show "\<exists>i\<in>set (dt_intents (w_db w')). ri_kind i = SpawnRpc \<and> ri_key i = dr_key rq \<and> ri_state i = RpcAccepted \<and> ri_external i = Some k"
    proof -
      have "dt_intents (w_db w') = dt_intents (w_db w2)"
        using update_others(3) [OF key] update_others(3) [OF accept] session by (simp add: err_simps)
      then show ?thesis by (simp only:) (rule updated_rows(1) [OF intents], simp)
    qed
    show "\<exists>sr\<in>set (dt_spawns (w_db w')). sr_id sr = dr_spawn rq \<and> sr_state sr = SpawnAccepted \<and> sr_session sr = Some k"
      by (rule updated_rows(3) [OF accept]) simp
    show "\<exists>s\<in>set (dt_sessions (w_db w')). rs_spawn s = dr_spawn rq \<and> rs_run s = dr_run rq \<and> rs_transition s = dr_transition rq \<and>
        rs_client s = dr_client rq \<and> rs_key s = dr_key rq \<and> rs_phase s = dr_phase rq \<and> rs_agent s = dr_agent rq \<and>
        rs_digest s = dr_digest rq \<and> rs_session s = k \<and> rs_state s = ''running''"
      using session update_others(3) [OF accept] by (auto simp: err_simps)
  qed
  show "lease_recorded rq g (w_db w')" if "lease_recorded rq g (w_db w)"
    using that start update_others(1) [OF intents] update_others(3) [OF key] update_others(3) [OF accept] session
    unfolding lease_recorded_def by (fastforce simp: err_simps)
qed

subsection \<open>A new dispatch that returns\<close>

lemma acquire_failed_raises: "acquire_failed env rq acquired e w = (r, w') \<Longrightarrow> \<exists>e'. r = Inl e'"
  by (auto simp: acquire_failed_def bindM_def split: if_splits prod.splits sum.splits)

lemma acquire_lease_returns:
  assumes "acquire_lease env rq w = (Inr g, w')"
  shows "lease_recorded rq g (w_db w')" "g \<noteq> []"
proof -
  obtain obs w1 where identity: "validate_accepted_lease_identity (obs_external_id obs) None = Inr g"
    and persisted: "immediate_transaction env (persist_acquired_lease env rq obs g False) w1 = (Inr (), w')"
    using assms unfolding acquire_lease_def
    by (auto simp: bindM_Inr_iff elim!: catchM_cases dest: acquire_failed_raises)
  show "lease_recorded rq g (w_db w')" by (rule acquisition_recorded [OF transaction_Inr [OF persisted]])
  show "g \<noteq> []" using identity by (auto simp: validate_accepted_lease_identity_def split: option.splits if_splits)
qed

lemma not_expired_unchanged:
  assumes "immediate_transaction env (expire_locally_expired_lease_before_spawn env rq g) w = (Inr False, w')"
  shows "w_db w' = w_db w"
  using transaction_Inr [OF assms]
  by (auto simp: expire_locally_expired_lease_before_spawn_def Let_def err_simps split: if_splits)

lemma accept_spawn_returns:
  assumes "accept_spawn env rq obs w = (Inr k, w')"
  shows "session_recorded rq k (w_db w')" "lease_recorded rq g (w_db w) \<Longrightarrow> lease_recorded rq g (w_db w')" "k \<noteq> []"
proof -
  have run: "bindM (liftM (validate_accepted_session_identity (obs_external_id obs) (obs_spawn_session_key obs)
                (obs_session_key obs) None)) (\<lambda>session_key.
        bindM (immediate_transaction env (persist_spawn_acceptance env rq obs session_key False)) (\<lambda>_.
        returnM session_key)) w = (Inr k, w')"
    using assms unfolding accept_spawn_def by (rule catchM_cases) (auto split: if_splits)
  then have identity: "validate_accepted_session_identity (obs_external_id obs) (obs_spawn_session_key obs)
        (obs_session_key obs) None = Inr k"
    and persisted: "immediate_transaction env (persist_spawn_acceptance env rq obs k False) w = (Inr (), w')"
    by (auto simp: bindM_Inr_iff)
  show "session_recorded rq k (w_db w')" "lease_recorded rq g (w_db w) \<Longrightarrow> lease_recorded rq g (w_db w')"
    using acceptance_recorded [OF transaction_Inr [OF persisted]] by blast+
  show "k \<noteq> []" using identity by (auto simp: validate_accepted_session_identity_def split: option.splits if_splits)
qed

lemma dispatch_new_returns:
  assumes "dispatch_new env rq w = (Inr res, w')"
  shows "session_recorded rq (res_session res) (w_db w')" "lease_recorded rq (res_gateway res) (w_db w')"
    and "res_session res \<noteq> []" "res_gateway res \<noteq> []" "res_status res = ''accepted''"
proof -
  obtain g w1 w2 k where acquired: "acquire_lease env rq w = (Inr g, w1)"
    and fresh: "immediate_transaction env (expire_locally_expired_lease_before_spawn env rq g) w1 = (Inr False, w2)"
    and spawned: "catchM (spawn_session_once env rq g) (spawn_failed env rq g) w2 = (Inr k, w')"
    and res: "res = \<lparr>res_session = k, res_gateway = g, res_status = ''accepted''\<rparr>"
    using assms unfolding dispatch_new_def by (auto simp: bindM_Inr_iff split: if_splits)
  have "spawn_session_once env rq g w2 = (Inr k, w')"
    using spawned by (rule catchM_cases) (auto dest: spawn_failed_calls(2))
  then obtain obs ad calls where
      accepted: "accept_spawn env rq obs (w2\<lparr>w_adapter := ad, w_calls := calls\<rparr>) = (Inr k, w')"
    by (auto simp: spawn_session_once_def bindM_Inr_iff dest!: call_adapter_effect)
  note lease = acquire_lease_returns [OF acquired] and session = accept_spawn_returns [OF accepted]
  have "lease_recorded rq g (w_db (w2\<lparr>w_adapter := ad, w_calls := calls\<rparr>))"
    using lease(1) not_expired_unchanged [OF fresh] by simp
  then show "session_recorded rq (res_session res) (w_db w')" "lease_recorded rq (res_gateway res) (w_db w')"
    and "res_session res \<noteq> []" "res_gateway res \<noteq> []" "res_status res = ''accepted''"
    using session lease(2) by (simp_all add: res)
qed

subsection \<open>The replay\<close>

lemma replay_status: "existing_spawn_replay_result env rq w = (Inr (Some res), w') \<Longrightarrow> res_status res = ''replayed''"
  by (auto simp: existing_spawn_replay_result_def bindM_Inr_iff query_Inr_iff methodM_Inr_iff split: option.splits if_splits)

lemma find_unique:
  assumes "x \<in> set xs" "P x" and only: "\<And>y. y \<in> set xs \<Longrightarrow> P y \<Longrightarrow> y = x"
  shows "find P xs = Some x"
proof -
  obtain z where z: "find P xs = Some z" using assms(1,2) by (metis find_None_iff option.exhaust)
  then show ?thesis using find_SomeD [OF z] only by simp
qed

lemma first_Some: "xs \<noteq> [] \<Longrightarrow> (\<And>x. x \<in> set xs \<Longrightarrow> x = y) \<Longrightarrow> first xs = Some y"
  by (metis first.simps(2) list.set_intros(1) neq_Nil_conv)

lemma stored_descriptor_found:
  assumes "spawn_descriptor_metadata rq = Inr d"
  shows "\<exists>b. stored_spawn_descriptor_requires_transient_descriptor (Some (dumps (PDict d))) = Inr b"
    and "validate_transient_spawn_descriptor rq = Inr ()"
proof -
  show valid: "validate_transient_spawn_descriptor rq = Inr ()"
    using assms by (auto simp: spawn_descriptor_metadata_def err_simps)
  have "in_texts v texts = Inr True \<Longrightarrow> plain_value v" "nonempty_str v = Some s \<Longrightarrow> plain_value v"
      "bool_value v = Some b \<Longrightarrow> plain_value v" for v texts s b
    by (auto simp: in_texts_def bool_value_def split: pyval.splits)
  then have "plain_value (PDict d)"
    using assms
    by (auto simp: spawn_descriptor_metadata_def validate_transient_spawn_descriptor_def required_spawn_string_def
        spawn_metadata_def err_simps split: option.splits if_splits)
  then show "\<exists>b. stored_spawn_descriptor_requires_transient_descriptor (Some (dumps (PDict d))) = Inr b"
    by (simp add: stored_spawn_descriptor_requires_transient_descriptor_def json_loads_plain_dumps del: dumps.simps)
qed

subsection \<open>What stays, whoever dispatches\<close>

text \<open>The outcome of an accepted dispatch, as the replay reads it.\<close>

definition settled :: "dispatch_request \<Rightarrow> string \<Rightarrow> string \<Rightarrow> dispatch_tables \<Rightarrow> bool" where
  "settled rq k g db \<longleftrightarrow> admitted rq db \<and>
     (\<exists>i\<in>set (dt_intents db). spawn_row rq i \<and> ri_state i \<in> {RpcAccepted, RpcReconciled} \<and> ri_external i = Some k) \<and>
     (\<exists>sr\<in>set (dt_spawns db). request_of rq sr \<and> sr_state sr \<in> {SpawnAccepted, SpawnCompleted} \<and> sr_session sr = Some k) \<and>
     (\<exists>s\<in>set (dt_sessions db). rs_spawn s = dr_spawn rq \<and> rs_run s = dr_run rq \<and> rs_transition s = dr_transition rq \<and>
        rs_client s = dr_client rq \<and> rs_key s = dr_key rq \<and> rs_phase s = dr_phase rq \<and> rs_agent s = dr_agent rq \<and>
        rs_digest s = dr_digest rq \<and> rs_session s = k) \<and>
     (\<exists>l\<in>set (dt_leases db). le_run l = dr_run rq \<and> le_transition l = dr_transition rq \<and> le_phase l = dr_phase rq \<and>
        le_agent l = dr_agent rq \<and> le_requester l = dr_requester rq \<and> le_client l = dr_client_lease rq \<and>
        le_acquire l = dr_acquire rq \<and> le_gateway l = Some g)"

lemma opens_settled: "opens rq' db db' \<Longrightarrow> settled rq k g db \<Longrightarrow> settled rq k g db'"
  by (auto simp: opens_def settled_def admitted_def)

lemma moves_settled:
  assumes moves: "moves rq' db db'" and settled: "settled rq k g db"
  shows "settled rq k g db'"
proof -
  have "admitted rq db'" using assms by (simp add: settled_def admitted_def moves_def)
  moreover have "\<exists>i\<in>set (dt_intents db'). spawn_row rq i \<and> ri_state i \<in> {RpcAccepted, RpcReconciled} \<and> ri_external i = Some k"
    using settled moves_intents(2) [OF moves] unfolding settled_def intent_moves_def by blast
  moreover have "\<exists>sr\<in>set (dt_spawns db'). request_of rq sr \<and> sr_state sr \<in> {SpawnAccepted, SpawnCompleted} \<and> sr_session sr = Some k"
  proof -
    obtain sr where sr: "sr \<in> set (dt_spawns db)" "request_of rq sr" "sr_state sr \<in> {SpawnAccepted, SpawnCompleted}"
        "sr_session sr = Some k" using settled unfolding settled_def by blast
    then obtain sr' where sr': "sr' \<in> set (dt_spawns db')" "request_moves sr sr'" using moves_spawns(2) [OF moves] by blast
    moreover have "sr' = sr" using sr'(2) sr(3) by (auto simp: request_moves_def)
    ultimately show ?thesis using sr by blast
  qed
  moreover have "set (dt_sessions db) \<subseteq> set (dt_sessions db')"
    using moves by (auto simp: moves_def grows_def list_all2_eq [symmetric])
  moreover have "\<exists>l\<in>set (dt_leases db'). le_run l = dr_run rq \<and> le_transition l = dr_transition rq \<and> le_phase l = dr_phase rq \<and>
        le_agent l = dr_agent rq \<and> le_requester l = dr_requester rq \<and> le_client l = dr_client_lease rq \<and>
        le_acquire l = dr_acquire rq \<and> le_gateway l = Some g"
  proof -
    obtain l where l: "l \<in> set (dt_leases db)" "le_run l = dr_run rq" "le_transition l = dr_transition rq" "le_phase l = dr_phase rq"
        "le_agent l = dr_agent rq" "le_requester l = dr_requester rq" "le_client l = dr_client_lease rq"
        "le_acquire l = dr_acquire rq" "le_gateway l = Some g" using settled unfolding settled_def by blast
    then obtain l' where l': "l' \<in> set (dt_leases db')" "lease_row_moves rq' l l'" using moves_leases(2) [OF moves] by blast
    then have "le_gateway l' = Some g"
      using lease_gateway_stays [of "(le_gateway l, le_state l)" "(le_gateway l', le_state l')" g] l(9) by (simp add: lease_row_moves_def)
    then show ?thesis using l l' by (intro bexI [of _ l']) (auto simp: lease_row_moves_def)
  qed
  ultimately show ?thesis using settled unfolding settled_def by blast
qed

lemma step_settled: "dispatch_step env rq' db db' \<Longrightarrow> settled rq k g db \<Longrightarrow> settled rq k g db'"
  by (erule dispatch_step_cases) (auto intro: opens_settled moves_settled)

text \<open>An accepted dispatch is settled.\<close>

lemma accepted_settled:
  assumes ok: "dispatch_ok db" and rows: "has_rows rq db" and session: "session_recorded rq k db" and lease: "lease_recorded rq g db"
  shows "settled rq k g db"
proof -
  obtain i where i: "i \<in> set (dt_intents db)" "ri_kind i = SpawnRpc" "ri_key i = dr_key rq" "ri_state i = RpcAccepted"
      "ri_external i = Some k" using session unfolding session_recorded_def by blast
  obtain i' where i': "i' \<in> set (dt_intents db)" "spawn_row rq i'" using rows unfolding has_rows_def by blast
  have "i = i'" using dispatch_okD(6) [OF ok i(1) i'(1)] i i'(2) by (simp add: spawn_row_def)
  obtain sr where sr: "sr \<in> set (dt_spawns db)" "sr_id sr = dr_spawn rq" "sr_state sr = SpawnAccepted" "sr_session sr = Some k"
    using session unfolding session_recorded_def by blast
  obtain sr' where sr': "sr' \<in> set (dt_spawns db)" "request_of rq sr'" using rows unfolding has_rows_def by blast
  have "sr = sr'" using dispatch_okD(4) [OF ok sr(1) sr'(1)] sr sr'(2) by (simp add: request_of_def)
  obtain l where l: "l \<in> set (dt_leases db)" "le_client l = dr_client_lease rq" "le_gateway l = Some g"
    using lease unfolding lease_recorded_def by blast
  obtain l' where l': "l' \<in> set (dt_leases db)" "lease_of rq l'" using rows unfolding has_rows_def by blast
  have "l = l'" using dispatch_okD(5) [OF ok l(1) l'(1)] l l'(2) by (simp add: lease_of_def)
  have "admitted rq db" using rows by (simp add: has_rows_def)
  with session show ?thesis
    using i i' \<open>i = i'\<close> sr sr' \<open>sr = sr'\<close> l l' \<open>l = l'\<close> unfolding settled_def session_recorded_def lease_of_def by blast
qed

text \<open>The replay reads a settled dispatch.\<close>

lemma settled_replays:
  assumes ready: "ready env" and ok: "dispatch_ok (w_db w)" and settled: "settled rq k g (w_db w)" and names: "k \<noteq> []" "g \<noteq> []"
  shows "existing_spawn_replay_result env rq w = (Inr (Some \<lparr>res_session = k, res_gateway = g, res_status = ''replayed''\<rparr>), w)"
proof -
  let ?db = "w_db w"
  obtain i where i: "i \<in> set (dt_intents ?db)" "spawn_row rq i" "ri_state i \<in> {RpcAccepted, RpcReconciled}" "ri_external i = Some k"
    using settled unfolding settled_def by blast
  have kind: "ri_kind i = SpawnRpc \<and> ri_key i = dr_key rq" using i(2) by (simp add: spawn_row_def)
  have "j = i" if "j \<in> set (dt_intents ?db)" "ri_kind j = SpawnRpc \<and> ri_key j = dr_key rq" for j
    using dispatch_okD(6) [OF ok that(1) i(1)] that(2) kind by metis
  then have intent: "spawn_intent_of (dr_key rq) ?db = Some i"
    unfolding spawn_intent_of_def using find_unique [OF i(1), of "\<lambda>i. ri_kind i = SpawnRpc \<and> ri_key i = dr_key rq"] kind by blast
  obtain d where d: "spawn_descriptor_metadata rq = Inr d" "ri_metadata i = Some (dumps (PDict d))" "same_spawn rq i"
    using i(2) by (auto simp: spawn_row_def)
  have checked: "check_replayed_descriptor rq i = Inr ()"
    using stored_descriptor_found [OF d(1)] d by (auto simp: check_replayed_descriptor_def simp del: dumps.simps)
  obtain b where b: "b \<in> set (dt_bindings ?db)" "fst b = binding_of rq" using settled unfolding settled_def admitted_def by blast
  obtain c where c: "find (\<lambda>b. bd_spawn (fst b) = dr_spawn rq) (dt_bindings ?db) = Some c" "fst c = binding_of rq"
  proof -
    have "find (\<lambda>b. bd_spawn (fst b) = dr_spawn rq) (dt_bindings ?db) \<noteq> None"
    proof -
      have "bd_spawn (fst b) = dr_spawn rq" by (simp add: b(2) binding_of_def)
      then show ?thesis using b(1) unfolding find_None_iff by blast
    qed
    then obtain c where "find (\<lambda>b. bd_spawn (fst b) = dr_spawn rq) (dt_bindings ?db) = Some c" by blast
    moreover from find_SomeD [OF this] have "fst c = binding_of rq"
      using dispatch_okD(1) [OF ok _ b(1), of c] b(2) by (simp add: shares_binding_key_def binding_of_def)
    ultimately show ?thesis by (rule that)
  qed
  have proof_row: "session_proof rq (Some k) ?db = Some (Some k, k)"
  proof -
    obtain sr where sr: "sr \<in> set (dt_spawns ?db)" "request_of rq sr" "sr_state sr \<in> {SpawnAccepted, SpawnCompleted}"
        "sr_session sr = Some k" using settled unfolding settled_def by blast
    obtain s where s: "s \<in> set (dt_sessions ?db)" "rs_spawn s = dr_spawn rq" "rs_run s = dr_run rq"
        "rs_transition s = dr_transition rq" "rs_client s = dr_client rq" "rs_key s = dr_key rq" "rs_phase s = dr_phase rq"
        "rs_agent s = dr_agent rq" "rs_digest s = dr_digest rq" "rs_session s = k"
      using settled unfolding settled_def by blast
    let ?L = "concat (map (\<lambda>sr. map (\<lambda>s. (sr_session sr, rs_session s))
       (filter (\<lambda>s. rs_spawn s = sr_id sr \<and> rs_run s = sr_run sr \<and> rs_transition s = sr_transition sr \<and>
          rs_client s = sr_client sr \<and> rs_key s = sr_key sr \<and> rs_phase s = sr_phase sr \<and> rs_agent s = sr_agent sr \<and>
          rs_digest s = sr_digest sr \<and> Some (rs_session s) = sr_session sr) (dt_sessions ?db)))
       (filter (\<lambda>sr. sr_id sr = dr_spawn rq \<and> sr_run sr = dr_run rq \<and> sr_transition sr = dr_transition rq \<and>
          sr_client sr = dr_client rq \<and> sr_key sr = dr_key rq \<and> sr_phase sr = dr_phase rq \<and> sr_agent sr = dr_agent rq \<and>
          sr_digest sr = dr_digest rq \<and> sr_state sr \<in> {SpawnAccepted, SpawnCompleted} \<and>
          Some k \<noteq> None \<and> sr_session sr = Some k) (dt_spawns ?db)))"
    have "?L \<noteq> []" using sr s by (auto simp: request_of_def filter_empty_conv intro!: bexI [of _ sr] bexI [of _ s])
    moreover have "x = (Some k, k)" if "x \<in> set ?L" for x using that by (auto split: if_splits)
    ultimately show ?thesis unfolding session_proof_def by (rule first_Some)
  qed
  have session: "accepted_spawn_replay_session_key env rq (Some k) w = (Inr k, w)"
    using names(1) by (simp add: accepted_spawn_replay_session_key_def bindM_def ready_statements [OF ready] proof_row
        validate_accepted_session_identity_def)
  have lease: "dispatch_lease rq ?db = Some g"
  proof -
    obtain l where l: "l \<in> set (dt_leases ?db)" "le_run l = dr_run rq" "le_transition l = dr_transition rq" "le_phase l = dr_phase rq"
        "le_agent l = dr_agent rq" "le_requester l = dr_requester rq" "le_client l = dr_client_lease rq"
        "le_acquire l = dr_acquire rq" "le_gateway l = Some g" using settled unfolding settled_def by blast
    have release: "le_release l = Some (dr_release rq)"
      using dispatch_okD(2) [OF ok b(1) l(1)] b(2) l(7) by (simp add: binding_of_def)
    let ?P = "\<lambda>l. le_run l = dr_run rq \<and> le_transition l = dr_transition rq \<and> le_phase l = dr_phase rq \<and>
        le_agent l = dr_agent rq \<and> le_requester l = dr_requester rq \<and> le_client l = dr_client_lease rq \<and>
        le_acquire l = dr_acquire rq \<and> le_release l = Some (dr_release rq) \<and>
        le_gateway l \<noteq> None \<and> le_gateway l \<noteq> Some []"
    have "m = l" if "m \<in> set (dt_leases ?db)" "?P m" for m
      using dispatch_okD(5) [OF ok that(1) l(1)] that(2) l(7) by metis
    moreover have "?P l" using l release names(2) by simp
    ultimately have "find ?P (dt_leases ?db) = Some l" using find_unique [OF l(1), of ?P] by blast
    then show ?thesis using l(9) by (simp add: dispatch_lease_def)
  qed
  obtain at where "c = (binding_of rq, at)" using c(2) by (cases c) auto
  then show ?thesis
    using i(3,4) by (auto simp: existing_spawn_replay_result_def bindM_def ready_statements [OF ready] intent checked c(1)
        session lease running)
qed

subsection \<open>Repeating a dispatch\<close>

text \<open>Steps of any dispatches and reconciliations, in the environments \<open>E\<close>.\<close>

definition others :: "'a dispatch_env set \<Rightarrow> dispatch_tables \<Rightarrow> dispatch_tables \<Rightarrow> bool" where
  "others E db db' \<longleftrightarrow> (\<exists>env\<in>E. \<exists>rq. dispatch_step env rq db db' \<or> reconcile_step env rq db db')"

lemma dispatches_steps: "(others E)\<^sup>*\<^sup>* db db' \<Longrightarrow> dispatches E db \<Longrightarrow> dispatches E db'"
  by (induction rule: rtranclp_induct) (auto simp: others_def intro: dispatches.transaction dispatches.reconciliation)

lemma others_keep_ok: "others E db db' \<Longrightarrow> dispatch_ok db \<Longrightarrow> dispatch_ok db'"
  by (auto simp: others_def intro: step_keeps_ok reconcile_keeps_ok)

lemma others_settled:
  assumes "(others E)\<^sup>*\<^sup>* db db'" "dispatch_ok db" "settled rq k g db"
  shows "settled rq k g db' \<and> dispatch_ok db'"
  using assms
proof (induction rule: rtranclp_induct)
  case (step b c)
  then have before: "settled rq k g b" "dispatch_ok b" by blast+
  have "settled rq k g c"
    using step.hyps(2) unfolding others_def
  proof (elim bexE exE disjE)
    fix env rq' assume "dispatch_step env rq' b c"
    then show ?thesis using before(1) by (rule step_settled)
  next
    fix env rq' assume "reconcile_step env rq' b c"
    then obtain rq'' where "moves rq'' b c" using before(2) by (rule reconcile_step_cases)
    then show ?thesis using before(1) by (rule moves_settled)
  qed
  then show ?case using others_keep_ok [OF step.hyps(2) before(2)] by blast
qed simp

lemma dispatch_others:
  assumes "dispatch_with_metadata env raw w = (r, w')" "env \<in> E"
  shows "(others E)\<^sup>*\<^sup>* (w_db w) (w_db w')"
proof -
  have "(dispatch_step env rq)\<^sup>*\<^sup>* \<le> (others E)\<^sup>*\<^sup>*" for rq
    by (rule rtranclp_mono) (use assms(2) in \<open>unfold others_def, blast\<close>)
  then show ?thesis using dispatch_steps [OF assms(1)] by auto
qed

text \<open>What an accepted dispatch leaves.\<close>

lemma dispatch_accepts:
  assumes run: "dispatch_with_metadata env raw w = (Inr res, w')" and accepted: "res_status res = ''accepted''"
    and ok: "dispatch_ok (w_db w)"
  shows "\<exists>rq. validate_dispatch_request raw = Inr rq \<and> connect_runtime_db env = Inr () \<and> has_rows rq (w_db w') \<and>
    session_recorded rq (res_session res) (w_db w') \<and> lease_recorded rq (res_gateway res) (w_db w') \<and>
    settled rq (res_session res) (res_gateway res) (w_db w') \<and> dispatch_ok (w_db w') \<and>
    res_session res \<noteq> [] \<and> res_gateway res \<noteq> []"
  using run
proof (cases rule: dispatch_cases)
  case quiet
  then obtain rq where "existing_spawn_replay_result env rq w = (Inr (Some res), w)" by blast
  then have "res_status res = ''replayed''" by (rule replay_status)
  then show ?thesis using accepted by simp
next
  case (new rq w1)
  note outcome = dispatch_new_returns [OF new(8)]
  have ok1: "dispatch_ok (w_db w1)" "admitted rq (w_db w1)" using opens_keep_ok [OF new(4) ok new(5)] by blast+
  have moves: "moves rq (w_db w1) (w_db w')" using keepsD [OF dispatch_new_moves new(8)] by (simp add: table_moves_def)
  have ok': "dispatch_ok (w_db w')" by (rule moves_keep_ok [OF moves ok1(1) admitted_agrees [OF ok1]])
  have rows: "has_rows rq (w_db w')" by (rule moves_has_rows [OF moves opens_has_rows [OF new(4) ok new(5)]])
  show ?thesis
    using new(1,2) ok' rows outcome accepted_settled [OF ok' rows outcome(1,2)] by blast
qed

lemma dispatch_replays:
  assumes "validate_dispatch_request raw = Inr rq" "ready env" "dispatch_ok (w_db w)" "settled rq k g (w_db w)" "k \<noteq> []" "g \<noteq> []"
  shows "dispatch_with_metadata env raw w = (Inr \<lparr>res_session = k, res_gateway = g, res_status = ''replayed''\<rparr>, w)"
proof -
  have existing: "existing_spawn_replay_result env rq w =
      (Inr (Some \<lparr>res_session = k, res_gateway = g, res_status = ''replayed''\<rparr>), w)"
    by (rule settled_replays [OF assms(2-6)])
  have "begin_dispatch env rq w = (Inr (Some \<lparr>res_session = k, res_gateway = g, res_status = ''replayed''\<rparr>), w)"
    unfolding begin_dispatch_def bindM_def existing by simp
  then have "immediate_transaction env (begin_dispatch env rq) w =
      (Inr (Some \<lparr>res_session = k, res_gateway = g, res_status = ''replayed''\<rparr>), w)"
    by (rule ready_statements(6) [OF assms(2)])
  then show ?thesis using assms(1,2) by (simp add: dispatch_with_metadata_def ready_def bindM_def)
qed

subsection \<open>Rows keep their place\<close>

definition in_place :: "('r \<Rightarrow> 'r \<Rightarrow> bool) \<Rightarrow> 'r list \<Rightarrow> 'r list \<Rightarrow> bool" where
  "in_place Q xs ys \<longleftrightarrow> (\<forall>n < length xs. n < length ys \<and> Q (xs ! n) (ys ! n))"

lemma in_place_refl: "(\<And>x. Q x x) \<Longrightarrow> in_place Q xs (xs @ ys)"
  by (simp add: in_place_def nth_append)

lemma in_place_trans:
  "in_place Q xs ys \<Longrightarrow> in_place Q ys zs \<Longrightarrow> (\<And>x y z. Q x y \<Longrightarrow> Q y z \<Longrightarrow> Q x z) \<Longrightarrow> in_place Q xs zs"
  unfolding in_place_def by metis

lemma in_place_grows:
  assumes "grows Q P xs ys" "\<And>x y. Q x y \<Longrightarrow> Q' x y"
  shows "in_place Q' xs ys"
  using assms by (auto simp: grows_def in_place_def nth_append list_all2_conv_all_nth)

definition lease_kept :: "lease_row \<Rightarrow> lease_row \<Rightarrow> bool" where
  "lease_kept l m \<longleftrightarrow>
     le_id m = le_id l \<and> le_run m = le_run l \<and> le_phase m = le_phase l \<and> le_transition m = le_transition l \<and>
     le_agent m = le_agent l \<and> le_requester m = le_requester l \<and> le_client m = le_client l \<and>
     le_acquire m = le_acquire l \<and> le_ttl m = le_ttl l \<and> le_expires_ms m = le_expires_ms l \<and>
     lease_moves (le_gateway l, le_state l) (le_gateway m, le_state m) \<and>
     (le_gateway l \<noteq> None \<longrightarrow> le_gateway m = le_gateway l \<and> (gone (le_state l) \<longrightarrow> le_state m = le_state l))"

lemma lease_row_kept: "lease_row_moves rq l m \<Longrightarrow> lease_kept l m"
  using lease_gateway_stays [of "(le_gateway l, le_state l)" "(le_gateway m, le_state m)"]
    gone_lease_stays [of "(le_gateway l, le_state l)" "(le_gateway m, le_state m)"]
  by (auto simp: lease_row_moves_def lease_kept_def lease_ok_def)

lemma lease_kept_trans: "lease_kept l m \<Longrightarrow> lease_kept m n \<Longrightarrow> lease_kept l n"
  unfolding lease_kept_def by (auto intro: rtranclp_trans)

definition rows_move :: "dispatch_tables \<Rightarrow> dispatch_tables \<Rightarrow> bool" where
  "rows_move db db' \<longleftrightarrow> in_place intent_moves (dt_intents db) (dt_intents db') \<and>
     in_place request_moves (dt_spawns db) (dt_spawns db') \<and> in_place lease_kept (dt_leases db) (dt_leases db') \<and>
     in_place (=) (dt_sessions db) (dt_sessions db') \<and> in_place (=) (dt_bindings db) (dt_bindings db')"

lemma moved_refl: "intent_moves i i" "request_moves s s" "lease_kept l l"
  by (simp_all add: intent_moves_def request_moves_def lease_kept_def)

lemma rows_move_trans:
  assumes ab: "rows_move a b" and bc: "rows_move b c"
  shows "rows_move a c"
  unfolding rows_move_def
proof (intro conjI)
  note parts = ab [unfolded rows_move_def] bc [unfolded rows_move_def]
  from parts have "in_place intent_moves (dt_intents a) (dt_intents b)" "in_place intent_moves (dt_intents b) (dt_intents c)" by simp_all
  then show "in_place intent_moves (dt_intents a) (dt_intents c)" by (rule in_place_trans) (rule intent_moves_trans)
  from parts have "in_place request_moves (dt_spawns a) (dt_spawns b)" "in_place request_moves (dt_spawns b) (dt_spawns c)" by simp_all
  then show "in_place request_moves (dt_spawns a) (dt_spawns c)" by (rule in_place_trans) (rule request_moves_trans)
  from parts have "in_place lease_kept (dt_leases a) (dt_leases b)" "in_place lease_kept (dt_leases b) (dt_leases c)" by simp_all
  then show "in_place lease_kept (dt_leases a) (dt_leases c)" by (rule in_place_trans) (rule lease_kept_trans)
  from parts have "in_place (=) (dt_sessions a) (dt_sessions b)" "in_place (=) (dt_sessions b) (dt_sessions c)" by simp_all
  then show "in_place (=) (dt_sessions a) (dt_sessions c)" by (rule in_place_trans) (rule trans)
  from parts have "in_place (=) (dt_bindings a) (dt_bindings b)" "in_place (=) (dt_bindings b) (dt_bindings c)" by simp_all
  then show "in_place (=) (dt_bindings a) (dt_bindings c)" by (rule in_place_trans) (rule trans)
qed

lemma moves_rows_move:
  assumes "moves rq db db'"
  shows "rows_move db db'"
proof -
  have "in_place intent_moves (dt_intents db) (dt_intents db')" "in_place request_moves (dt_spawns db) (dt_spawns db')"
    using assms by (auto simp: moves_def intro: in_place_grows)
  moreover have "in_place lease_kept (dt_leases db) (dt_leases db')" "in_place (=) (dt_sessions db) (dt_sessions db')"
    using assms lease_row_kept by (auto simp: moves_def intro: in_place_grows)
  moreover have "dt_bindings db' = dt_bindings db" using assms by (simp add: moves_def)
  ultimately show ?thesis by (simp add: rows_move_def in_place_def)
qed

lemma opens_rows_move: "opens rq db db' \<Longrightarrow> rows_move db db'"
proof -
  assume o: "opens rq db db'"
  have grown: "in_place Q xs ys" if "\<And>x. Q x x" "\<exists>zs. ys = xs @ zs" for Q and xs ys :: "'r list"
    using that by (auto simp: in_place_refl)
  show ?thesis
    unfolding rows_move_def using o
    by (intro conjI; intro grown) (auto simp: opens_def moved_refl)
qed

lemma others_rows_move:
  assumes "(others E)\<^sup>*\<^sup>* db db'" "dispatch_ok db"
  shows "rows_move db db' \<and> dispatch_ok db'"
  using assms
proof (induction rule: rtranclp_induct)
  case base
  then show ?case by (simp add: moves_rows_move)
next
  case (step b c)
  then have before: "rows_move db b" "dispatch_ok b" by blast+
  have "rows_move b c"
    using step.hyps(2) unfolding others_def
  proof (elim bexE exE disjE)
    fix env rq assume "dispatch_step env rq b c"
    then show ?thesis by (cases rule: dispatch_step_cases) (simp_all add: moves_rows_move opens_rows_move)
  next
    fix env rq assume "reconcile_step env rq b c"
    then obtain rq' where "moves rq' b c" using before(2) by (rule reconcile_step_cases)
    then show ?thesis by (rule moves_rows_move)
  qed
  then show ?case using rows_move_trans [OF before(1)] others_keep_ok [OF step.hyps(2) before(2)] by blast
qed

end
