(* ===== verification/DispatchClaims.thy ===== *)
theory DispatchClaims
  imports DispatchOutcome
begin

section \<open>Claims about runtime dispatches (\<^verbatim>\<open>runtime_dispatch.py\<close>)\<close>

text \<open>
  The claims about \<^verbatim>\<open>dispatch_with_metadata\<close>, over the interleaved system of all dispatches and
  reconciliations, each applied to one concrete dispatch.
\<close>

subsection \<open>A dispatch to apply the claims to\<close>

text \<open>A gateway that echoes the intent, an engine that accepts every statement, and a request.\<close>

definition demo_dispatch :: dispatch_request where
  "demo_dispatch = \<lparr>dr_run = ''r'', dr_transition = ''t'', dr_phase = ''p'', dr_agent = ''a'', dr_requester = ''q'',
     dr_digest = sha256_hex (utf8 ''do''), dr_spawn = ''s'', dr_reserve = ''b'', dr_client_lease = ''c'', dr_acquire = ''ka'',
     dr_release = ''kr'', dr_ttl = 60000, dr_client = ''cs'', dr_key = ''ks'', dr_task = PStr ''do'', dr_task_name = PStr ''n'',
     dr_runtime = PStr ''subagent'', dr_mode = PStr ''run'', dr_cleanup = PStr ''keep'', dr_context = PStr ''isolated'',
     dr_light = PBool False, dr_lease = None\<rparr>"

definition demo_raw :: raw_request where
  "demo_raw f = (case map_of (request_values demo_dispatch) f of None \<Rightarrow> PNone | Some v \<Rightarrow> v)"

definition echo :: "pydict \<Rightarrow> string \<Rightarrow> observation" where
  "echo d i = \<lparr>obs_version = Some ''v1'', obs_normalized = Some d, obs_raw_json = Some (dumps (PDict d)),
     obs_external_id = Some i, obs_spawn_session_key = Some i, obs_session_key = Some i, obs_status_json = None,
     obs_raw_response = None\<rparr>"

definition demo_gateway :: "unit dispatch_env" where
  "demo_gateway = \<lparr>dp_engine = \<lambda>_ _ _. None, dp_time = \<lambda>n. 1000 * int n, dp_path = Inr ''w/my.db'',
     dp_root = Inr ''w'', dp_git = demo_git_env, dp_open = None,
     dp_pragma = (\<lambda>_. Inr (Some ''1''))(''PRAGMA journal_mode=WAL'' := Inr (Some ''wal'')), dp_verify = Inr (),
     dp_acquire = \<lambda>p a. (Inr (echo (lease_metadata demo_dispatch ''g'') ''g''), a),
     dp_spawn = \<lambda>p a. (Inr (echo (spawn_metadata demo_dispatch) ''session''), a),
     dp_release = \<lambda>p a. (Inr (echo (release_rpc_metadata demo_dispatch ''g'') ''g''), a)\<rparr>"

definition demo_world :: "unit world" where
  "demo_world = \<lparr>w_db = \<lparr>dt_spawns = [], dt_intents = [], dt_leases = [], dt_bindings = [], dt_sessions = [],
     dt_reserves = [(''b'', 0)]\<rparr>, w_ticks = 5, w_adapter = (), w_calls = []\<rparr>"

lemma sha256_not_empty: "sha256_hex data \<noteq> []"
  using sha256_hex_text [of data] by (auto simp: is_sha256_text_def)

lemma demo_request_valid: "validate_dispatch_request demo_raw = Inr demo_dispatch"
  unfolding validated_request
  by (simp add: texts_ok_def demo_dispatch_def sha256_not_empty sha256_not_empty [symmetric] max_lease_ttl_ms_def demo_raw_def request_values_def)

lemma demo_descriptor_valid: "validate_transient_spawn_descriptor demo_dispatch = Inr ()"
  by (simp add: validate_transient_spawn_descriptor_def required_spawn_string_def nonempty_str_def demo_dispatch_def
      in_texts_def bool_value_def)

lemma casefold_wal: "casefold ''wal'' = ''wal''"
  by code_simp

lemma demo_ready: "ready demo_gateway"
  by (simp add: ready_def demo_gateway_def connect_runtime_db_def open_pragma_def mapErr_def casefold_wal demo_preflight)

lemma demo_untouched: "untouched demo_dispatch (w_db demo_world)"
  by (simp add: untouched_def demo_world_def demo_dispatch_def duplicate_live_def)

lemma demo_honest: "honest_gateway demo_gateway demo_dispatch ''g'' ''session'' (w_adapter demo_world)"
  using spawn_params_valid [OF demo_descriptor_valid, of "''g''"]
  by (auto simp: honest_gateway_def demo_gateway_def echoes_def echo_def simp del: dumps.simps)

lemma demo_time: "dp_time demo_gateway (w_ticks demo_world + 2) < dp_time demo_gateway (w_ticks demo_world) + dr_ttl demo_dispatch"
  by (simp add: demo_gateway_def demo_world_def demo_dispatch_def)

abbreviation demo_done :: "unit world" where
  "demo_done \<equiv> snd (dispatch_with_metadata demo_gateway demo_raw demo_world)"

lemma demo_dispatched:
  "dispatch_with_metadata demo_gateway demo_raw demo_world =
     (Inr \<lparr>res_session = ''session'', res_gateway = ''g'', res_status = ''accepted''\<rparr>, demo_done)"
  using honest_dispatch [OF demo_request_valid demo_descriptor_valid demo_ready demo_untouched demo_honest demo_time]
  by (metis prod.collapse)

lemma demo_start: "dispatches {demo_gateway} (w_db demo_world)"
  by (rule dispatches.no_dispatch) (simp_all add: demo_world_def)

subsection \<open>The claims\<close>

text \<open>
  C1: however the transactions of any dispatches and reconciliations interleave, failing and rolled
  back ones included, at most one spawn intent of a run, phase and agent is potentially live at any time.
\<close>

theorem at_most_one_live:
  assumes "dispatches E db"
  shows "length (live_dispatches db run phase agent) \<le> 1"
  using assms
proof induction
  case (no_dispatch db)
  then show ?case by (simp add: live_dispatches_def)
next
  case (transaction db env rq db')
  then show ?case using step_one_live reached_ok by blast
next
  case (reconciliation db env rq db')
  then show ?case using reconcile_one_live reached_ok by blast
next
  case (reserves db r)
  then show ?case by (simp add: other_reserves)
qed

lemma at_most_one_live_witness: "length (live_dispatches (w_db demo_done) ''r'' ''p'' ''a'') \<le> 1"
  by (rule at_most_one_live [OF dispatches_steps [OF dispatch_others [OF demo_dispatched] demo_start]]) simp

text \<open>
  C15: a whole call of \<^verbatim>\<open>dispatch_with_metadata\<close> changes the tables only by the atomic transactions of
  its own request, one after the other, whatever the engine, the gateway and the clock answer; so a
  call refines the interleaved system.
\<close>

theorem dispatch_is_transactions:
  assumes "dispatch_with_metadata env raw w = (r, w')"
  shows "w_db w' = w_db w \<or>
    (\<exists>rq. validate_dispatch_request raw = Inr rq \<and> (dispatch_step env rq)\<^sup>*\<^sup>* (w_db w) (w_db w'))"
  by (rule dispatch_steps [OF assms])

lemma dispatch_is_transactions_witness:
  "w_db demo_done = w_db demo_world \<or>
    (\<exists>rq. validate_dispatch_request demo_raw = Inr rq \<and> (dispatch_step demo_gateway rq)\<^sup>*\<^sup>* (w_db demo_world) (w_db demo_done))"
  by (rule dispatch_is_transactions [OF demo_dispatched])

text \<open>
  C17: a call makes no RPC at all, or its pending rows were committed first, for a key without a
  spawn intent, and then it calls acquire, then at most once spawn with the lease that the acquire call
  answered, then at most once the release of that lease. An accepted result means exactly one acquire and
  one spawn, with the lease it returns, which is the one acquired; a replayed one means no call and no change.
\<close>

theorem rpc_order:
  assumes run: "dispatch_with_metadata env raw w = (r, w')"
  shows "w_calls w' = w_calls w \<and> (\<forall>res. r = Inr res \<longrightarrow> w' = w \<and> res_status res = ''replayed'') \<or>
    (\<exists>rq w1 calls. validate_dispatch_request raw = Inr rq \<and> spawn_intent_of (dr_key rq) (w_db w) = None \<and>
       immediate_transaction env (begin_dispatch env rq) w = (Inr None, w1) \<and> opens rq (w_db w) (w_db w1) \<and>
       w_calls w' = w_calls w @ calls \<and> dispatch_calls env rq (w_adapter w) calls \<and>
       (\<forall>res. r = Inr res \<longrightarrow> res_status res = ''accepted'' \<and> answers_lease env rq (w_adapter w) (res_gateway res) \<and>
          (\<exists>p. spawn_rpc_params rq (res_gateway res) = Inr p \<and> calls = [AcquireCall (acquire_rpc_params rq), SpawnCall p])))"
  using run
proof (cases rule: dispatch_cases)
  case quiet
  then have "w' = w \<and> res_status res = ''replayed''" if "r = Inr res" for res
    using quiet(3) [OF that] replay_status by metis
  then show ?thesis using quiet(1) by simp
next
  case (new rq w1)
  have same: "w_adapter w1 = w_adapter w" by (rule silent_transaction(2) [OF silent_begin new(3)])
  obtain calls where calls: "w_calls w' = w_calls w @ calls" "dispatch_calls env rq (w_adapter w) calls"
    using dispatch_new_calls(1) [OF new(8,7)] new(6) same by auto
  have "res_status res = ''accepted'' \<and> answers_lease env rq (w_adapter w) (res_gateway res) \<and>
      (\<exists>p. spawn_rpc_params rq (res_gateway res) = Inr p \<and> calls = [AcquireCall (acquire_rpc_params rq), SpawnCall p])"
    if "r = Inr res" for res
    using dispatch_new_calls(2) [OF new(8,7) that] calls(1) new(6) same by auto
  then show ?thesis using new(1,3,4,5) calls by blast
qed

lemma rpc_order_witness:
  "\<exists>rq w1 calls. validate_dispatch_request demo_raw = Inr rq \<and> spawn_intent_of (dr_key rq) (w_db demo_world) = None \<and>
       immediate_transaction demo_gateway (begin_dispatch demo_gateway rq) demo_world = (Inr None, w1) \<and>
       opens rq (w_db demo_world) (w_db w1) \<and>
       w_calls demo_done = w_calls demo_world @ calls \<and> dispatch_calls demo_gateway rq (w_adapter demo_world) calls \<and>
       answers_lease demo_gateway rq (w_adapter demo_world) ''g'' \<and>
       (\<exists>p. spawn_rpc_params rq ''g'' = Inr p \<and> calls = [AcquireCall (acquire_rpc_params rq), SpawnCall p])"
  using rpc_order [OF demo_dispatched] by simp

text \<open>
  C4: over any sequence of calls, failing ones included, with any gateways and requests, the session
  spawn RPC is made at most once for an idempotency key.
\<close>

theorem one_spawn_per_key:
  assumes "w_calls w = []"
  shows "length (spawn_calls key (w_calls (dispatch_all calls w))) \<le> 1"
proof -
  have "spawned_once w" using assms by (simp add: spawned_once_def spawn_calls_def)
  then show ?thesis using dispatch_all_spawned_once [of w calls] by (simp add: spawned_once_def)
qed

lemma one_spawn_per_key_witness:
  "length (spawn_calls ''ks'' (w_calls (dispatch_all [(demo_gateway, demo_raw), (demo_gateway, demo_raw)] demo_world))) \<le> 1"
  by (rule one_spawn_per_key) (simp add: demo_world_def)

text \<open>
  C18: when a dispatch from reachable tables returns an accepted result, the tables hold it: the
  spawn intent is accepted with the session key, the spawn request is accepted, the session is recorded
  as running, the acquire intent is accepted and the lease is acquired with the gateway identity.
\<close>

theorem accepted_result_recorded:
  assumes "dispatch_with_metadata env raw w = (Inr res, w')" "res_status res = ''accepted''" "dispatches E (w_db w)"
  shows "\<exists>rq. validate_dispatch_request raw = Inr rq \<and> session_recorded rq (res_session res) (w_db w') \<and>
    lease_recorded rq (res_gateway res) (w_db w') \<and> res_session res \<noteq> [] \<and> res_gateway res \<noteq> []"
  using dispatch_accepts [OF assms(1,2) reached_ok [OF assms(3)]] by blast

lemma accepted_result_recorded_witness:
  "\<exists>rq. validate_dispatch_request demo_raw = Inr rq \<and> session_recorded rq ''session'' (w_db demo_done) \<and>
    lease_recorded rq ''g'' (w_db demo_done)"
  using accepted_result_recorded [OF demo_dispatched _ demo_start] by auto

text \<open>
  C6: when a dispatch was accepted and any callers and reconciliations took any further steps, the
  same request returns the same session and lease, marked as a replay, makes no call and changes nothing, provided the
  engine accepts the statements.
\<close>

theorem repeated_dispatch_is_replay:
  assumes run: "dispatch_with_metadata env raw w = (Inr res, w1)" "res_status res = ''accepted''"
    and reached: "dispatches E (w_db w)" "env \<in> E" and later: "(others E)\<^sup>*\<^sup>* (w_db w1) (w_db w2)" and ready: "ready env'"
  shows "dispatch_with_metadata env' raw w2 = (Inr (res\<lparr>res_status := ''replayed''\<rparr>), w2)"
proof -
  obtain rq where rq: "validate_dispatch_request raw = Inr rq" "settled rq (res_session res) (res_gateway res) (w_db w1)"
      "res_session res \<noteq> []" "res_gateway res \<noteq> []"
    using dispatch_accepts [OF run reached_ok [OF reached(1)]] by blast
  have "dispatches E (w_db w1)" by (rule dispatches_steps [OF dispatch_others [OF run(1) reached(2)] reached(1)])
  then have "settled rq (res_session res) (res_gateway res) (w_db w2)" "dispatch_ok (w_db w2)"
    using others_settled [OF later reached_ok rq(2)] by blast+
  then have "dispatch_with_metadata env' raw w2 =
      (Inr \<lparr>res_session = res_session res, res_gateway = res_gateway res, res_status = ''replayed''\<rparr>, w2)"
    using dispatch_replays [OF rq(1) ready] rq(3,4) by blast
  then show ?thesis by simp
qed

lemma repeated_dispatch_is_replay_witness:
  "dispatch_with_metadata demo_gateway demo_raw demo_done =
     (Inr \<lparr>res_session = ''session'', res_gateway = ''g'', res_status = ''replayed''\<rparr>, demo_done)"
  using repeated_dispatch_is_replay [OF demo_dispatched _ demo_start _ rtranclp.rtrancl_refl demo_ready] by simp

text \<open>
  C13: a well-formed request with fresh keys and a reservation, sent through a gateway that echoes
  the intents, is accepted with the gateway's session and lease, when the engine accepts the
  statements, nothing live is in its way and the lease has not run out before the spawn.
\<close>

theorem honest_dispatch_accepted:
  assumes "validate_dispatch_request raw = Inr rq" "validate_transient_spawn_descriptor rq = Inr ()"
    and "ready env" "untouched rq (w_db w)" "honest_gateway env rq g s (w_adapter w)"
    and "dp_time env (w_ticks w + 2) < dp_time env (w_ticks w) + dr_ttl rq"
  shows "fst (dispatch_with_metadata env raw w) = Inr \<lparr>res_session = s, res_gateway = g, res_status = ''accepted''\<rparr>"
  using assms by (rule honest_dispatch)

lemma honest_dispatch_accepted_witness:
  "fst (dispatch_with_metadata demo_gateway demo_raw demo_world) =
     Inr \<lparr>res_session = ''session'', res_gateway = ''g'', res_status = ''accepted''\<rparr>"
  by (rule honest_dispatch_accepted [OF demo_request_valid demo_descriptor_valid demo_ready demo_untouched demo_honest demo_time])

text \<open>
  C40: a raw request is accepted exactly when it is the field-by-field rendering of a typed request
  whose thirteen identities are non-empty, whose time to live is in range and whose lease identity, if
  any, is non-empty; and that typed request is the result.
\<close>

theorem accepted_request_is_typed:
  "validate_dispatch_request raw = Inr rq \<longleftrightarrow>
     texts_ok rq \<and> dr_lease rq \<noteq> Some [] \<and> list_all (\<lambda>(f, v). raw f = v) (request_values rq)"
  unfolding validated_request list_all_iff by (rule refl)

text \<open>
  C20: over any interleaving, rows keep their place and move along the state machines of RPC intents, spawn
  requests and leases. What never changes: the identity columns of every row, the time to live and the
  expiry of a lease; every column of an accepted or reconciled intent, of a spawn request that is neither
  pending nor unknown, of a session and of a binding; the gateway identity of a lease once it is set, and
  then its state once it is released, expired or needs no release. A settled lease's remaining columns and an intent
  in review may still be rewritten.
\<close>

theorem rows_follow_state_machines:
  assumes "dispatches E db" "(others E)\<^sup>*\<^sup>* db db'"
  shows "rows_move db db'"
  using others_rows_move [OF assms(2) reached_ok [OF assms(1)]] by blast

lemma rows_follow_state_machines_witness: "rows_move (w_db demo_world) (w_db demo_done)"
  by (rule rows_follow_state_machines [OF demo_start dispatch_others [OF demo_dispatched]]) simp

end
