(* ===== verification/ReconcileRows.thy ===== *)
theory ReconcileRows
  imports DispatchOutcome
begin

section \<open>Every row has its partners\<close>

text \<open>
  In the tables that dispatches and reconciliations reach, a binding has its lease and its spawn
  request, an intent of an acquire or a spawn has its binding, and keys are unique.
\<close>

definition acquire_keys :: "dispatch_tables \<Rightarrow> string list" where
  "acquire_keys db = map ri_key (filter (\<lambda>i. ri_kind i = AcquireRpc) (dt_intents db))"

definition linked :: "dispatch_tables \<Rightarrow> bool" where
  "linked db \<longleftrightarrow> distinct (acquire_keys db) \<and> distinct (map fst (dt_bindings db)) \<and>
     (\<forall>b\<in>set (dt_bindings db). \<exists>l\<in>set (dt_leases db). lease_bound (fst b) l) \<and>
     (\<forall>b\<in>set (dt_bindings db). \<exists>sr\<in>set (dt_spawns db). request_bound (fst b) sr) \<and>
     (\<forall>i\<in>set (dt_intents db). ri_kind i = AcquireRpc \<longrightarrow> (\<exists>b\<in>set (dt_bindings db). acquire_bound (fst b) i \<and>
        (\<forall>l\<in>set (dt_leases db). lease_bound (fst b) l \<longrightarrow> ri_ttl i = Some (le_ttl l)))) \<and>
     (\<forall>i\<in>set (dt_intents db). ri_kind i = SpawnRpc \<longrightarrow>
        (\<exists>b\<in>set (dt_bindings db). spawn_bound (fst b) i \<and> ri_reserve i = Some (bd_reserve (fst b))))"

lemma linkedD:
  assumes "linked db"
  shows "b \<in> set (dt_bindings db) \<Longrightarrow> \<exists>l\<in>set (dt_leases db). lease_bound (fst b) l"
    and "b \<in> set (dt_bindings db) \<Longrightarrow> \<exists>sr\<in>set (dt_spawns db). request_bound (fst b) sr"
    and "i \<in> set (dt_intents db) \<Longrightarrow> ri_kind i = AcquireRpc \<Longrightarrow> \<exists>b\<in>set (dt_bindings db). acquire_bound (fst b) i \<and>
        (\<forall>l\<in>set (dt_leases db). lease_bound (fst b) l \<longrightarrow> ri_ttl i = Some (le_ttl l))"
    and "i \<in> set (dt_intents db) \<Longrightarrow> ri_kind i = SpawnRpc \<Longrightarrow>
        \<exists>b\<in>set (dt_bindings db). spawn_bound (fst b) i \<and> ri_reserve i = Some (bd_reserve (fst b))"
    and "distinct (acquire_keys db)" "distinct (map fst (dt_bindings db))"
  using assms unfolding linked_def by blast+

lemma moves_acquire_keys:
  assumes "moves rq db db'"
  shows "acquire_keys db' = acquire_keys db"
proof -
  obtain old new where ys: "dt_intents db' = old @ new" and old: "list_all2 intent_moves (dt_intents db) old"
    and new: "list_all (\<lambda>i. ri_kind i = ReleaseRpc) new"
    using assms by (auto simp: moves_def grows_def)
  have "filter (\<lambda>i. ri_kind i = AcquireRpc) new = []" using new by (auto simp: list_all_iff filter_empty_conv)
  moreover have "map ri_key (filter (\<lambda>i. ri_kind i = AcquireRpc) old) = acquire_keys db"
    using old unfolding acquire_keys_def by induction (auto simp: intent_moves_def)
  ultimately show ?thesis by (simp add: ys acquire_keys_def)
qed

lemma moves_linked:
  assumes moves: "moves rq db db'" and linked: "linked db" and ok': "dispatch_ok db'"
  shows "linked db'"
proof -
  have B: "dt_bindings db' = dt_bindings db" using moves by (simp add: moves_def)
  have lease: "\<exists>l\<in>set (dt_leases db'). lease_bound (fst b) l" if b: "b \<in> set (dt_bindings db')" for b
  proof -
    obtain l where l: "l \<in> set (dt_leases db)" "lease_bound (fst b) l" using linkedD(1) [OF linked] b unfolding B by blast
    obtain l' where l': "l' \<in> set (dt_leases db')" "lease_row_moves rq l l'" using moves_leases(2) [OF moves l(1)] by blast
    have "le_client l' = bd_client_lease (fst b)" using l l' by (simp add: lease_row_moves_def lease_bound_def)
    then have "le_release l' = Some (bd_release (fst b))" by (rule dispatch_okD(2) [OF ok' b l'(1)])
    then have "lease_bound (fst b) l'" using l(2) l'(2) by (simp add: lease_row_moves_def lease_bound_def)
    then show ?thesis using l'(1) by blast
  qed
  moreover have "\<exists>sr\<in>set (dt_spawns db'). request_bound (fst b) sr" if b: "b \<in> set (dt_bindings db')" for b
  proof -
    obtain sr where sr: "sr \<in> set (dt_spawns db)" "request_bound (fst b) sr" using linkedD(2) [OF linked] b unfolding B by blast
    then obtain sr' where "sr' \<in> set (dt_spawns db')" "request_moves sr sr'" using moves_spawns(2) [OF moves] by blast
    with sr show ?thesis by (intro bexI [of _ sr']) (simp add: request_moves_def request_bound_def)
  qed
  moreover have "\<exists>b\<in>set (dt_bindings db'). acquire_bound (fst b) i \<and>
      (\<forall>l\<in>set (dt_leases db'). lease_bound (fst b) l \<longrightarrow> ri_ttl i = Some (le_ttl l))"
    if i: "i \<in> set (dt_intents db')" "ri_kind i = AcquireRpc" for i
  proof -
    obtain j where j: "j \<in> set (dt_intents db)" "intent_moves j i" using moves_intents(1) [OF moves i(1)] i(2) by auto
    then have "ri_kind j = AcquireRpc" using i(2) by (simp add: intent_moves_def)
    then obtain b where b: "b \<in> set (dt_bindings db)" "acquire_bound (fst b) j"
        "\<forall>l\<in>set (dt_leases db). lease_bound (fst b) l \<longrightarrow> ri_ttl j = Some (le_ttl l)"
      using linkedD(3) [OF linked j(1)] by blast
    have "ri_ttl i = Some (le_ttl l')" if l': "l' \<in> set (dt_leases db')" "lease_bound (fst b) l'" for l'
    proof -
      obtain l where l: "l \<in> set (dt_leases db)" "lease_row_moves rq l l'" using moves_leases(1) [OF moves l'(1)] by blast
      obtain m where m: "m \<in> set (dt_leases db)" "lease_bound (fst b) m" using linkedD(1) [OF linked b(1)] by blast
      have clients: "distinct (map le_client (dt_leases db'))" "map le_client (dt_leases db') = map le_client (dt_leases db)"
        using ok' moves_lease_clients [OF moves] by (simp_all add: dispatch_ok_def)
      have "le_client l = le_client m" using l' l m by (simp add: lease_row_moves_def lease_bound_def)
      then have "l = m" using clients l(1) m(1) by (metis distinct_map inj_onD)
      then show ?thesis using b(3) m j(2) l(2) by (simp add: intent_moves_def lease_row_moves_def)
    qed
    moreover have "acquire_bound (fst b) i" using b(2) j(2) by (simp add: acquire_bound_def intent_moves_def)
    ultimately show ?thesis using b(1) unfolding B by (intro bexI [of _ b]) simp_all
  qed
  moreover have "\<exists>b\<in>set (dt_bindings db'). spawn_bound (fst b) i \<and> ri_reserve i = Some (bd_reserve (fst b))"
    if i: "i \<in> set (dt_intents db')" "ri_kind i = SpawnRpc" for i
  proof -
    obtain j where j: "j \<in> set (dt_intents db)" "intent_moves j i" using moves_intents(1) [OF moves i(1)] i(2) by auto
    then have "ri_kind j = SpawnRpc" using i(2) by (simp add: intent_moves_def)
    then show ?thesis using linkedD(4) [OF linked j(1)] j(2) unfolding B by (auto simp: spawn_bound_def intent_moves_def)
  qed
  ultimately show ?thesis
    using linkedD(5,6) [OF linked] B moves_acquire_keys [OF moves] unfolding linked_def by simp
qed

lemma same_lease:
  assumes "dispatch_ok db" "l \<in> set (dt_leases db)" "m \<in> set (dt_leases db)" "le_client l = le_client m"
  shows "l = m"
proof -
  have "distinct (map le_client (dt_leases db))" using assms(1) by (simp add: dispatch_ok_def)
  then show ?thesis using assms(2-4) unfolding distinct_map inj_on_def by blast
qed

lemma new_acquires_facts:
  assumes "new_acquires rq db A" "distinct (acquire_keys db)"
  shows "i \<in> set A \<Longrightarrow> acquire_intent_of rq i"
    and "distinct (acquire_keys (db\<lparr>dt_intents := dt_intents db @ A\<rparr>))"
proof -
  show "i \<in> set A \<Longrightarrow> acquire_intent_of rq i"
    using assms(1) by (auto simp: new_acquires_def split: list.splits)
  show "distinct (acquire_keys (db\<lparr>dt_intents := dt_intents db @ A\<rparr>))"
    using assms by (auto simp: new_acquires_def acquire_keys_def acquire_intent_of_def filter_empty_conv split: list.splits)
qed

lemma opens_linked:
  assumes opens: "opens rq db db'" and linked: "linked db" and ok: "dispatch_ok db" and ok': "dispatch_ok db'"
  shows "linked db'"
proof -
  obtain S L A i B where rows: "dt_spawns db' = dt_spawns db @ S" "new_spawns rq db S"
      "dt_leases db' = dt_leases db @ L" "new_leases rq db L"
      "dt_intents db' = dt_intents db @ A @ [i]" "new_acquires rq db A" "new_spawn_intent rq i"
      "dt_bindings db' = dt_bindings db @ B" "new_bindings rq db B"
    using opens by (auto simp: opens_def)
  have ids: "distinct (map sr_id (dt_spawns db))" using ok by (simp add: dispatch_ok_def)
  note B = new_bindings_facts [OF rows(9)]
  obtain p where p: "p \<in> set (dt_leases db')" "pending_lease rq (lease_id_of rq) p"
    using new_leases_facts(5) [OF rows(4)] by (auto simp: rows)
  have own_lease: "lease_bound (binding_of rq) p" using p(2) by (simp add: pending_lease_def lease_bound_def binding_of_def)
  obtain c where c: "c \<in> set (dt_bindings db')" "fst c = binding_of rq" using B(3) by (auto simp: rows)
  have keep: "\<exists>b\<in>set (dt_bindings db'). acquire_bound (fst b) a \<and>
      (\<forall>l\<in>set (dt_leases db'). lease_bound (fst b) l \<longrightarrow> ri_ttl a = Some (le_ttl l))"
    if a: "b \<in> set (dt_bindings db')" "m \<in> set (dt_leases db')" "acquire_bound (fst b) a" "lease_bound (fst b) m"
      "ri_ttl a = Some (le_ttl m)" for a b m
  proof -
    have "l = m" if "l \<in> set (dt_leases db')" "lease_bound (fst b) l" for l
      using same_lease [OF ok' that(1) a(2)] that(2) a(4) by (simp add: lease_bound_def)
    then show ?thesis using a by blast
  qed
  have "distinct (acquire_keys db')"
    using new_acquires_facts(2) [OF rows(6) linkedD(5) [OF linked]] rows(7) by (simp add: acquire_keys_def rows(5) new_spawn_intent_def)
  moreover have "distinct (map fst (dt_bindings db'))"
  proof -
    have "B = [] \<or> (\<exists>at. B = [(binding_of rq, at)]) \<and> (\<forall>b\<in>set (dt_bindings db). fst b \<noteq> binding_of rq)"
      using rows(9) by (auto simp: new_bindings_def filter_empty_conv shares_binding_key_def split: list.splits)
    then show ?thesis using linkedD(6) [OF linked] by (auto simp: rows(8))
  qed
  moreover have "\<exists>l\<in>set (dt_leases db'). lease_bound (fst b) l" if "b \<in> set (dt_bindings db')" for b
    using that linkedD(1) [OF linked, of b] B(2) [of b] p(1) own_lease by (auto simp: rows)
  moreover have "\<exists>sr\<in>set (dt_spawns db'). request_bound (fst b) sr" if b: "b \<in> set (dt_bindings db')" for b
  proof (cases "b \<in> set (dt_bindings db)")
    case True
    then obtain sr where "sr \<in> set (dt_spawns db)" "request_bound (fst b) sr" using linkedD(2) [OF linked] by blast
    then show ?thesis by (auto simp: rows)
  next
    case False
    then have "fst b = binding_of rq" using b B(2) [of b] by (auto simp: rows)
    moreover obtain sr where "sr \<in> set (dt_spawns db')" "request_of rq sr"
      using new_spawns_facts(2,3) [OF rows(2) ids] by (fastforce simp: rows)
    ultimately show ?thesis by (intro bexI [of _ sr]) (simp_all add: request_bound_def request_of_def binding_of_def)
  qed
  moreover have "\<exists>b\<in>set (dt_bindings db'). acquire_bound (fst b) a \<and>
      (\<forall>l\<in>set (dt_leases db'). lease_bound (fst b) l \<longrightarrow> ri_ttl a = Some (le_ttl l))"
    if a: "a \<in> set (dt_intents db')" "ri_kind a = AcquireRpc" for a
  proof (cases "a \<in> set (dt_intents db)")
    case True
    then obtain b where b: "b \<in> set (dt_bindings db)" "acquire_bound (fst b) a"
        "\<forall>l\<in>set (dt_leases db). lease_bound (fst b) l \<longrightarrow> ri_ttl a = Some (le_ttl l)"
      using linkedD(3) [OF linked _ a(2)] by blast
    moreover obtain m where "m \<in> set (dt_leases db)" "lease_bound (fst b) m" using linkedD(1) [OF linked b(1)] by blast
    ultimately show ?thesis using keep [of b m a] by (simp add: rows)
  next
    case False
    then have "a \<in> set A" using a rows(7) by (auto simp: rows new_spawn_intent_def)
    then have "acquire_intent_of rq a" by (rule new_acquires_facts(1) [OF rows(6) linkedD(5) [OF linked]])
    then have "acquire_bound (fst c) a" "ri_ttl a = Some (le_ttl p)"
      using c(2) p(2) by (simp_all add: acquire_intent_of_def acquire_bound_def binding_of_def pending_lease_def)
    then show ?thesis using keep [OF c(1) p(1)] own_lease c(2) by simp
  qed
  moreover have "\<exists>b\<in>set (dt_bindings db'). spawn_bound (fst b) a \<and> ri_reserve a = Some (bd_reserve (fst b))"
    if a: "a \<in> set (dt_intents db')" "ri_kind a = SpawnRpc" for a
  proof (cases "a \<in> set (dt_intents db)")
    case True
    then show ?thesis using linkedD(4) [OF linked _ a(2)] by (auto simp: rows)
  next
    case False
    then have "a = i" using a new_acquires_facts(1) [OF rows(6) linkedD(5) [OF linked], of a]
      by (auto simp: rows acquire_intent_of_def)
    then have "spawn_bound (fst c) a" "ri_reserve a = Some (bd_reserve (fst c))"
      using rows(7) c(2) by (simp_all add: new_spawn_intent_def same_spawn_def spawn_bound_def binding_of_def)
    then show ?thesis using c(1) by blast
  qed
  ultimately show ?thesis unfolding linked_def by simp
qed

lemma reconcile_step_linked: "reconcile_step env rq db db' \<Longrightarrow> dispatch_ok db \<Longrightarrow> linked db \<Longrightarrow> linked db'"
  by (erule (1) reconcile_step_cases) (auto intro: moves_linked moves_keep_ok)

lemma dispatch_step_linked:
  assumes "dispatch_step env rq db db'" "dispatch_ok db" "linked db"
  shows "linked db'"
  using assms(1)
proof (cases rule: dispatch_step_cases)
  case opened
  then show ?thesis using assms(2,3) opens_linked step_keeps_ok [OF assms(1)] by blast
next
  case later
  then show ?thesis using assms(2,3) moves_linked step_keeps_ok [OF assms(1)] by blast
qed (use assms(3) in simp)

lemma reached_linked: "dispatches E db \<Longrightarrow> linked db"
proof (induction rule: dispatches.induct)
  case (no_dispatch db)
  then show ?case by (simp add: linked_def acquire_keys_def)
next
  case (transaction db env rq db')
  then show ?case using dispatch_step_linked reached_ok by blast
next
  case (reconciliation db env rq db')
  then show ?case using reconcile_step_linked reached_ok by blast
next
  case (reserves db r)
  then show ?case by (simp add: linked_def acquire_keys_def)
qed

subsection \<open>Nothing stale is overlooked\<close>

lemma list_ex_memb: "x \<in> set xs \<Longrightarrow> P x \<Longrightarrow> list_ex P xs"
  by (auto simp: list_ex_iff)

text \<open>A stale spawn intent is selected by one of the two queries for spawns, and never by both.\<close>

lemma stale_spawn_selected:
  assumes linked: "linked db" and i: "i \<in> set (dt_intents db)" "ri_kind i = SpawnRpc" "pending_or_unknown_clause cutoff i"
  shows "\<exists>rq. dr_key rq = ri_key i \<and>
    (rq \<in> set (unknown_spawn_requests cutoff db) \<or> rq \<in> set (spawn_requests_without_acquired_lease_proof cutoff db))"
proof -
  obtain b where b: "b \<in> set (dt_bindings db)" "spawn_bound (fst b) i" "ri_reserve i = Some (bd_reserve (fst b))"
    using linkedD(4) [OF linked i(1,2)] by blast
  obtain l where l: "l \<in> set (dt_leases db)" "lease_bound (fst b) l" using linkedD(1) [OF linked b(1)] by blast
  have key: "dr_key (spawn_request_from i l) = ri_key i" by (simp add: spawn_request_from_def stored_request_def)
  show ?thesis
  proof (cases "\<exists>a\<in>set (dt_intents db). acquire_proof (fst b) l a \<and> le_state l = Acquired \<and> live_gateway l")
    case True
    then have "spawn_request_from i l \<in> set (unknown_spawn_requests cutoff db)"
      using i b l unfolding unknown_spawn_requests_def by force
    then show ?thesis using key by blast
  next
    case False
    then have "spawn_request_from i l \<in> set (spawn_requests_without_acquired_lease_proof cutoff db)"
      using i b l unfolding spawn_requests_without_acquired_lease_proof_def list_ex_iff by force
    then show ?thesis using key by blast
  qed
qed

lemma stale_acquire_selected:
  assumes linked: "linked db" and i: "i \<in> set (dt_intents db)" "ri_kind i = AcquireRpc" "pending_or_unknown_clause cutoff i"
  shows "\<exists>rq\<in>set (unknown_lease_requests cutoff db). dr_acquire rq = ri_key i"
proof -
  obtain b where b: "b \<in> set (dt_bindings db)" "acquire_bound (fst b) i"
      "\<forall>l\<in>set (dt_leases db). lease_bound (fst b) l \<longrightarrow> ri_ttl i = Some (le_ttl l)"
    using linkedD(3) [OF linked i(1,2)] by blast
  obtain l where l: "l \<in> set (dt_leases db)" "lease_bound (fst b) l" using linkedD(1) [OF linked b(1)] by blast
  obtain sr where sr: "sr \<in> set (dt_spawns db)" "request_bound (fst b) sr" using linkedD(2) [OF linked b(1)] by blast
  let ?rq = "stored_request (ri_run i) (ri_transition i) (text_or_empty (ri_phase i)) (text_or_empty (ri_agent i))
        (text_or_empty (ri_requester i)) (sr_digest sr) (sr_id sr) (text_or_empty (ri_reserve i)) (ri_client i) (ri_key i)
        (release_key_or (le_release l) (ri_client i)) (le_ttl l) (sr_client sr) (sr_key sr) (Some (le_id l))"
  have "?rq \<in> set (unknown_lease_requests cutoff db)"
    using i b l sr unfolding unknown_lease_requests_def by force
  moreover have "dr_acquire ?rq = ri_key i" by (simp add: stored_request_def)
  ultimately show ?thesis by blast
qed

lemma no_orphans:
  assumes "linked db"
  shows "orphan_unknown_lease_requests cutoff db = []"
proof -
  have "list_ex (lease_of_intent i) (dt_leases db)" if i: "i \<in> set (dt_intents db)" "ri_kind i = AcquireRpc" for i
  proof -
    obtain b where b: "b \<in> set (dt_bindings db)" "acquire_bound (fst b) i"
        "\<forall>l\<in>set (dt_leases db). lease_bound (fst b) l \<longrightarrow> ri_ttl i = Some (le_ttl l)"
      using linkedD(3) [OF assms i] by blast
    obtain l where l: "l \<in> set (dt_leases db)" "lease_bound (fst b) l" using linkedD(1) [OF assms b(1)] by blast
    have "lease_of_intent i l" using b l by (simp add: acquire_bound_def lease_bound_def lease_of_intent_def)
    then show ?thesis using l(1) by (rule list_ex_memb [rotated])
  qed
  then show ?thesis unfolding orphan_unknown_lease_requests_def by (auto simp: concat_eq_Nil_conv)
qed

end
