(* ===== verification/ReconcileRuns.thy ===== *)
theory ReconcileRuns
  imports ReconcileRows
begin

section \<open>Whole reconciliations\<close>

text \<open>
  A reconciliation is a sequence of its transactions and of release calls for leases that a blocked
  dispatch left behind.
\<close>

definition reconcile_steps :: "'a dispatch_env \<Rightarrow> dispatch_tables \<Rightarrow> dispatch_tables \<Rightarrow> bool" where
  "reconcile_steps env = (\<lambda>db db'. \<exists>rq. reconcile_step env rq db db')\<^sup>*\<^sup>*"

lemma reconcile_steps_refl [simp]: "reconcile_steps env db db"
  by (simp add: reconcile_steps_def)

lemma reconcile_steps_one: "reconcile_step env rq db db' \<Longrightarrow> reconcile_steps env db db'"
  unfolding reconcile_steps_def by (rule r_into_rtranclp) blast

lemma reconcile_steps_trans: "reconcile_steps env a b \<Longrightarrow> reconcile_steps env b c \<Longrightarrow> reconcile_steps env a c"
  unfolding reconcile_steps_def by (rule rtranclp_trans)

text \<open>The release calls of the requests that \<open>P\<close> holds of.\<close>

definition releases_of :: "(release_pending_request \<Rightarrow> bool) \<Rightarrow> rpc_call list \<Rightarrow> bool" where
  "releases_of P calls \<longleftrightarrow> (\<exists>items. list_all P items \<and>
     calls = map (\<lambda>item. ReleaseCall (release_rpc_metadata (pr_request item) (pr_gateway item))) items)"

lemma releases_of_Nil [simp]: "releases_of P []"
  unfolding releases_of_def by (rule exI [of _ "[]"]) simp

lemma releases_of_append:
  assumes "releases_of P xs" "releases_of P ys"
  shows "releases_of P (xs @ ys)"
proof -
  let ?call = "\<lambda>item. ReleaseCall (release_rpc_metadata (pr_request item) (pr_gateway item))"
  obtain us js where "list_all P us" "xs = map ?call us" "list_all P js" "ys = map ?call js"
    using assms unfolding releases_of_def by blast
  then show ?thesis unfolding releases_of_def by (intro exI [of _ "us @ js"]) simp
qed

lemma releases_of_one: "P item \<Longrightarrow> releases_of P [ReleaseCall (release_rpc_metadata (pr_request item) (pr_gateway item))]"
  unfolding releases_of_def by (rule exI [of _ "[item]"]) simp

text \<open>
  A request that owns its release key, and one whose lease and acquire key belong together.
\<close>

definition grounded :: "dispatch_request + dispatch_request \<Rightarrow> dispatch_tables \<Rightarrow> bool" where
  "grounded q db = (case q of Inl rq \<Rightarrow> owns_release rq db | Inr rq \<Rightarrow> paired rq db)"

lemma moves_paired:
  assumes "moves rq' db db'" "paired rq db"
  shows "paired rq db'"
  unfolding paired_def
proof (intro ballI impI)
  fix j assume j: "j \<in> set (dt_intents db')" "ri_kind j = AcquireRpc" "ri_client j = dr_client_lease rq"
  then obtain i where "i \<in> set (dt_intents db)" "intent_moves i j" using moves_intents(1) [OF assms(1) j(1)] by auto
  then show "ri_key j = dr_acquire rq" using assms(2) j by (auto simp: paired_def intent_moves_def)
qed

lemma moves_grounded: "moves rq' db db' \<Longrightarrow> grounded q db \<Longrightarrow> grounded q db'"
  by (cases q) (auto simp: grounded_def owns_release_def moves_def intro: moves_paired [unfolded moves_def])

text \<open>
  What a part of a reconciliation does when the tables are consistent and the requests in \<open>Q\<close>
  are grounded.
\<close>

definition reconciles ::
    "'a dispatch_env \<Rightarrow> (dispatch_request + dispatch_request) set \<Rightarrow> (release_pending_request \<Rightarrow> bool) \<Rightarrow> 'a world \<Rightarrow> 'a world \<Rightarrow> bool" where
  "reconciles env Q P w w' \<longleftrightarrow>
     (dispatch_ok (w_db w) \<and> linked (w_db w) \<and> (\<forall>q\<in>Q. grounded q (w_db w)) \<longrightarrow>
        dispatch_ok (w_db w') \<and> linked (w_db w') \<and> (\<forall>q\<in>Q. grounded q (w_db w')) \<and> reconcile_steps env (w_db w) (w_db w') \<and>
        (\<exists>calls. w_calls w' = w_calls w @ calls \<and> releases_of P calls))"

lemma reconciles_trans:
  assumes "reconciles env Q P w1 w2" "reconciles env Q P w2 w3"
  shows "reconciles env Q P w1 w3"
  unfolding reconciles_def
proof (intro impI)
  assume start: "dispatch_ok (w_db w1) \<and> linked (w_db w1) \<and> (\<forall>q\<in>Q. grounded q (w_db w1))"
  then obtain c1 where first: "dispatch_ok (w_db w2)" "linked (w_db w2)" "\<forall>q\<in>Q. grounded q (w_db w2)"
      "reconcile_steps env (w_db w1) (w_db w2)" "w_calls w2 = w_calls w1 @ c1" "releases_of P c1"
    using assms(1) unfolding reconciles_def by blast
  then obtain c2 where "dispatch_ok (w_db w3)" "linked (w_db w3)" "\<forall>q\<in>Q. grounded q (w_db w3)"
      "reconcile_steps env (w_db w2) (w_db w3)" "w_calls w3 = w_calls w2 @ c2" "releases_of P c2"
    using assms(2) unfolding reconciles_def by blast
  then show "dispatch_ok (w_db w3) \<and> linked (w_db w3) \<and> (\<forall>q\<in>Q. grounded q (w_db w3)) \<and> reconcile_steps env (w_db w1) (w_db w3) \<and>
      (\<exists>calls. w_calls w3 = w_calls w1 @ calls \<and> releases_of P calls)"
    using first reconcile_steps_trans [OF first(4)] releases_of_append [OF first(6)] by auto
qed

interpretation rc: world_relation "reconciles env Q P"
proof unfold_locales
  show "reconciles env Q P w w" for w
    unfolding reconciles_def by (intro impI conjI exI [of _ "[]"]) auto
  show "reconciles env Q P w (w\<lparr>w_ticks := n\<rparr>)" for w n
    unfolding reconciles_def by (intro impI conjI exI [of _ "[]"]) auto
  show "reconciles env Q P w (w'\<lparr>w_db := w_db w\<rparr>)" if "reconciles env Q P w w'" for w w'
    using that unfolding reconciles_def by auto
qed (rule reconciles_trans)

lemma reconcile_keeps_grounded:
  assumes "reconcile_step env rq db db'" "dispatch_ok db" "grounded q db"
  shows "grounded q db'"
proof -
  obtain rq' where "moves rq' db db'" using assms(1,2) by (rule reconcile_step_cases)
  then show ?thesis using assms(3) by (rule moves_grounded)
qed

lemma reconciles_transaction:
  assumes quiet: "keeps silent m"
    and step: "\<And>w r w'. (\<forall>q\<in>Q. grounded q (w_db w)) \<Longrightarrow> immediate_transaction env m w = (r, w') \<Longrightarrow>
      reconcile_step env rq (w_db w) (w_db w')"
  shows "keeps (reconciles env Q P) (immediate_transaction env m)"
proof (rule keepsI)
  fix w r w' assume run: "immediate_transaction env m w = (r, w')"
  show "reconciles env Q P w w'"
    unfolding reconciles_def
  proof (intro impI)
    assume start: "dispatch_ok (w_db w) \<and> linked (w_db w) \<and> (\<forall>q\<in>Q. grounded q (w_db w))"
    then have one: "reconcile_step env rq (w_db w) (w_db w')" using step [OF _ run] by blast
    then show "dispatch_ok (w_db w') \<and> linked (w_db w') \<and> (\<forall>q\<in>Q. grounded q (w_db w')) \<and> reconcile_steps env (w_db w) (w_db w') \<and>
        (\<exists>calls. w_calls w' = w_calls w @ calls \<and> releases_of P calls)"
      using start reconcile_keeps_ok [OF one] reconcile_step_linked [OF one] reconcile_keeps_grounded [OF one]
        reconcile_steps_one [OF one] silent_transaction(1) [OF quiet run] by (auto intro: exI [of _ "[]"])
  qed
qed

lemma silent_in_review: "keeps silent m \<Longrightarrow> keeps silent (in_review m)"
  unfolding in_review_def by (intro sl.keeps_rules)

lemmas silent_reviews = silent_in_review [OF silent_later(7)] silent_in_review [OF silent_later(11)]

lemma reconciles_silent:
  assumes "keeps silent m" "\<And>w r w'. m w = (r, w') \<Longrightarrow> w_db w' = w_db w"
  shows "keeps (reconciles env Q P) m"
  using assms by (fastforce simp: keeps_def reconciles_def silent_def intro: exI [of _ "[]"])

subsection \<open>The rounds of the loops\<close>

lemma reconciles_orphan: "Inr rq \<in> Q \<Longrightarrow> keeps (reconciles env Q P) (reconcile_orphan env rq)"
  unfolding reconcile_orphan_def
  by (rule reconciles_transaction [where rq = rq, OF silent_reviews(1)]) (rule reviews, auto simp: grounded_def dest!: bspec)

lemma reconciles_unproven: "keeps (reconciles env Q P) (reconcile_unproven_spawn env rq)"
  unfolding reconcile_unproven_spawn_def
  by (rule reconciles_transaction [where rq = rq, OF silent_reviews(1)]) (rule reviews, simp_all)

lemma reconciles_release:
  assumes "Inl (pr_request item) \<in> Q"
  shows "keeps (reconciles env Q P) (reconcile_release env listed item)"
  unfolding reconcile_release_def using assms
  by (intro rc.keeps_basic rc.keeps_bind reconciles_transaction [where rq = "pr_request item", OF silent_reviews(2)])
    (rule release_in_doubt, auto simp: grounded_def dest!: bspec)

lemma reconciles_lease:
  assumes "Inr rq \<in> Q"
  shows "keeps (reconciles env Q P) (reconcile_lease env listed rq)"
proof -
  have "keeps (reconciles env Q P) (immediate_transaction env
      (in_review (mark_human_review env rq AcquireRpc reason)))" for reason
    by (rule reconciles_transaction [where rq = rq, OF silent_reviews(1)])
      (rule reviews, use assms in \<open>auto simp: grounded_def dest!: bspec\<close>)
  moreover have "keeps (reconciles env Q P) (immediate_transaction env
      (bindM (persist_acquired_lease env rq obs g True) (\<lambda>_. returnM one_reconciled)))" for obs g
    by (rule reconciles_transaction [where rq = rq], intro sl.keeps_rules silent_later)
      (rule lease_accepted, use assms in \<open>auto simp: grounded_def dest!: bspec\<close>)
  ultimately show ?thesis unfolding reconcile_lease_def
    by (intro rc.keeps_basic rc.keeps_bind) (auto split: option.splits)
qed

lemma reconciles_spawn: "keeps (reconciles env Q P) (reconcile_spawn env listed rq)"
proof -
  have "keeps (reconciles env Q P) (immediate_transaction env
      (in_review (mark_human_review env rq SpawnRpc reason)))" for reason
    by (rule reconciles_transaction [where rq = rq, OF silent_reviews(1)]) (rule reviews, simp_all)
  moreover have "keeps (reconciles env Q P) (immediate_transaction env (accept_or_review env rq obs k))" for obs k
    by (rule reconciles_transaction [where rq = rq, OF moves_silent [OF keeps_accept_or_review]]) (rule spawn_accepted)
  ultimately show ?thesis unfolding reconcile_spawn_def
    by (intro rc.keeps_basic rc.keeps_bind) (auto split: option.splits)
qed

lemma reconciles_adopt: "keeps (reconciles env Q P) (adopt_verified_lease_ownership rc params obs)"
  unfolding keeps_def adopt_verified_lease_ownership_def Let_def reconciles_def by (fastforce intro: exI [of _ "[]"])

lemma reconciles_release_call:
  assumes "P item"
  shows "keeps (reconciles env Q P)
    (call_adapter ReleaseCall f (release_rpc_metadata (pr_request item) (pr_gateway item)))"
  using releases_of_one [of P, OF assms] by (auto simp: keeps_def reconciles_def dest!: call_adapter_effect)

text \<open>The gateway lists the lease of the request, once and well-formed, with its own identity.\<close>

definition listed_once :: "observation list \<Rightarrow> release_pending_request \<Rightarrow> bool" where
  "listed_once listed item \<longleftrightarrow>
     (\<exists>scan obs. matching_leases (pr_request item) listed = Inr scan \<and> sole_match scan = Some (obs, pr_gateway item))"

lemma reconciles_release_owned:
  assumes "Inl (pr_request item) \<in> Q" "P item"
  shows "keeps (reconciles env Q P) (release_owned_lease env (pr_request item) (pr_gateway item))"
  unfolding release_owned_lease_def
proof (intro rc.keeps_bind reconciles_release_call [of P, OF assms(2)])
  show "keeps (reconciles env Q P)
      (immediate_transaction env (prepare_owned_lease_release env (pr_request item) (pr_gateway item)))"
    by (rule reconciles_transaction [where rq = "pr_request item", OF silent_later(8)])
      (rule cleanup_begins, use assms(1) in \<open>auto simp: grounded_def dest!: bspec\<close>)
  show "keeps (reconciles env Q P) (immediate_transaction env
      (persist_released_lease env (pr_request item) obs (pr_gateway item) False))" for obs
    by (rule reconciles_transaction [where rq = "pr_request item", OF silent_later(9)])
      (rule cleanup_released, use assms(1) in \<open>auto simp: grounded_def dest!: bspec\<close>)
qed

lemma reconciles_cleanup_review:
  assumes "Inl (pr_request item) \<in> Q"
  shows "keeps (reconciles env Q P) (in_review (immediate_transaction env
      (mark_owned_lease_release_review env (pr_request item) (pr_gateway item) reason)))"
    and "keeps (reconciles env Q P) (in_review (immediate_transaction env
      (mark_owned_lease_release_unknown env (pr_request item) (pr_gateway item) reason)))"
proof -
  have "keeps (reconciles env Q P) (immediate_transaction env
      (mark_owned_lease_release_review env (pr_request item) (pr_gateway item) reason))"
    by (rule reconciles_transaction [where rq = "pr_request item", OF silent_later(11)])
      (rule cleanup_reviewed, use assms in \<open>auto simp: grounded_def dest!: bspec\<close>)
  then show "keeps (reconciles env Q P) (in_review (immediate_transaction env
      (mark_owned_lease_release_review env (pr_request item) (pr_gateway item) reason)))"
    unfolding in_review_def by (rule rc.keeps_bind) (rule rc.keeps_basic)
  have "keeps (reconciles env Q P) (immediate_transaction env
      (mark_owned_lease_release_unknown env (pr_request item) (pr_gateway item) reason))"
    by (rule reconciles_transaction [where rq = "pr_request item", OF silent_later(10)])
      (rule cleanup_unknown, use assms in \<open>auto simp: grounded_def dest!: bspec\<close>)
  then show "keeps (reconciles env Q P) (in_review (immediate_transaction env
      (mark_owned_lease_release_unknown env (pr_request item) (pr_gateway item) reason)))"
    unfolding in_review_def by (rule rc.keeps_bind) (rule rc.keeps_basic)
qed

lemma reconciles_cleanup:
  assumes "Inl (pr_request item) \<in> Q" "listed_once listed item \<Longrightarrow> P item"
  shows "keeps (reconciles (rc_dispatch rc) Q P) (reconcile_cleanup rc listed item)"
proof (cases "matching_leases (pr_request item) listed")
  case (Inl e)
  then show ?thesis by (simp add: reconcile_cleanup_def Let_def rc.keeps_basic)
next
  case (Inr scan)
  have failed: "keeps (reconciles (rc_dispatch rc) Q P) (cleanup_failed (rc_dispatch rc) item e)" for e
    unfolding cleanup_failed_def by (intro rc.keeps_if rc.keeps_basic reconciles_cleanup_review assms(1))
  show ?thesis
  proof (cases "sole_match scan")
    case None
    then show ?thesis using Inr reconciles_cleanup_review(1) [OF assms(1)] by (simp add: reconcile_cleanup_def Let_def)
  next
    case (Some found)
    obtain obs g where g: "found = (obs, g)" by (cases found)
    show ?thesis
    proof (cases "g = pr_gateway item")
      case False
      then show ?thesis using Inr Some g reconciles_cleanup_review(1) [OF assms(1)] by (simp add: reconcile_cleanup_def Let_def)
    next
      case True
      then have "P item" using assms(2) Inr Some g by (auto simp: listed_once_def)
      then have "keeps (reconciles (rc_dispatch rc) Q P) (catchM
          (bindM (adopt_verified_lease_ownership rc (lease_metadata (pr_request item) (pr_gateway item)) obs) (\<lambda>_.
           bindM (release_owned_lease (rc_dispatch rc) (pr_request item) (pr_gateway item)) (\<lambda>_. returnM one_reconciled)))
          (cleanup_failed (rc_dispatch rc) item))"
        by (intro rc.keeps_catch rc.keeps_bind rc.keeps_basic reconciles_adopt reconciles_release_owned failed assms(1))
      then show ?thesis using Inr Some g True by (simp add: reconcile_cleanup_def Let_def)
    qed
  qed
qed

subsection \<open>The loops\<close>

lemma reconciles_for_each:
  assumes "\<And>x. x \<in> set xs \<Longrightarrow> keeps (reconciles env Q P) (f x)"
  shows "keeps (reconciles env Q P) (for_each f xs)"
  using assms
proof (induction xs)
  case Nil
  show ?case unfolding for_each.simps by (rule rc.keeps_basic)
next
  case (Cons x xs)
  have "keeps (reconciles env Q P) (f x)" "keeps (reconciles env Q P) (for_each f xs)" using Cons by simp_all
  then show ?case unfolding for_each.simps by (intro rc.keeps_bind rc.keeps_basic)
qed

text \<open>A loop whose rows are grounded when the query answers them.\<close>

lemma reconciles_rows:
  assumes own: "\<And>db x. dispatch_ok db \<Longrightarrow> linked db \<Longrightarrow> x \<in> set (rows db) \<Longrightarrow> \<forall>q\<in>Q x. grounded q db"
    and body: "\<And>x Q'. x \<in> set (rows (w_db w)) \<Longrightarrow> Q x \<subseteq> Q' \<Longrightarrow> keeps (reconciles env Q' P) (f x)"
    and run: "for_each_row env label rows f w = (r, w')"
  shows "reconciles env {} P w w'"
proof -
  consider "w' = w" | "for_each f (rows (w_db w)) w = (r, w')"
    using run by (auto simp: for_each_row_def bindM_def query_def split: option.splits)
  then show ?thesis
  proof cases
    case 1
    then show ?thesis by (simp add: rc.refl)
  next
    case 2
    let ?Q = "\<Union>x\<in>set (rows (w_db w)). Q x"
    have "keeps (reconciles env ?Q P) (for_each f (rows (w_db w)))"
      by (rule reconciles_for_each, rule body) auto
    then have "reconciles env ?Q P w w'" using 2 by (rule keepsD)
    then show ?thesis using own by (fastforce simp: reconciles_def)
  qed
qed

text \<open>The rows of the two selections that lead to a release own its key.\<close>

lemma release_pending_owns: "item \<in> set (release_pending_requests cutoff db) \<Longrightarrow> owns_release (pr_request item) db"
  by (force simp: release_pending_requests_def owns_release_def stored_request_def lease_bound_def)

lemma cleanup_owns: "item \<in> set (acquire_only_cleanup_requests db) \<Longrightarrow> owns_release (pr_request item) db"
  by (force simp: acquire_only_cleanup_requests_def owns_release_def stored_request_def lease_bound_def cleanup_release_key_def)

text \<open>The rows of the selection of acquires carry the key of their lease.\<close>

lemma acquires_paired:
  assumes "dispatch_ok db" "linked db" "b \<in> set (dt_bindings db)" "bd_client_lease (fst b) = dr_client_lease rq"
    and "bd_acquire (fst b) = dr_acquire rq"
  shows "paired rq db"
  unfolding paired_def
proof (intro ballI impI)
  fix j assume j: "j \<in> set (dt_intents db)" "ri_kind j = AcquireRpc" "ri_client j = dr_client_lease rq"
  obtain c where c: "c \<in> set (dt_bindings db)" "acquire_bound (fst c) j" using linkedD(3) [OF assms(2) j(1,2)] by blast
  then have "shares_binding_key (fst b) (fst c)" using j(3) assms(4) by (simp add: acquire_bound_def shares_binding_key_def)
  then have "fst b = fst c" by (rule dispatch_okD(1) [OF assms(1,3) c(1)])
  then show "ri_key j = dr_acquire rq" using c(2) assms(5) by (simp add: acquire_bound_def)
qed

lemma unknown_lease_paired:
  assumes "dispatch_ok db" "linked db" "rq \<in> set (unknown_lease_requests cutoff db)"
  shows "paired rq db"
proof -
  obtain b i where "b \<in> set (dt_bindings db)" "acquire_bound (fst b) i" "dr_client_lease rq = ri_client i" "dr_acquire rq = ri_key i"
    using assms(3) unfolding unknown_lease_requests_def by (force simp: stored_request_def)
  then show ?thesis using acquires_paired [OF assms(1,2)] by (simp add: acquire_bound_def)
qed

lemmas grounded_rows = release_pending_owns cleanup_owns unknown_lease_paired

lemma reconciles_intents: "keeps (reconciles env {} P) (reconcile_intents env cutoff session_observations lease_observations)"
  unfolding reconcile_intents_def
proof (intro rc.keeps_bind rc.keeps_basic)
  show "keeps (reconciles env {} P) (for_each_row env ''orphan leases'' (orphan_unknown_lease_requests cutoff) (reconcile_orphan env))"
    by (rule keepsI, rule reconciles_rows [where Q = "\<lambda>rq. {Inr rq}"]) (simp_all add: reconciles_orphan no_orphans)
  show "keeps (reconciles env {} P) (for_each_row env ''pending releases'' (release_pending_requests cutoff)
      (reconcile_release env lease_observations))"
    by (rule keepsI, rule reconciles_rows [where Q = "\<lambda>item. {Inl (pr_request item)}"])
      (auto simp: reconciles_release grounded_def dest: grounded_rows)
  show "keeps (reconciles env {} P) (for_each_row env ''unknown leases'' (unknown_lease_requests cutoff)
      (reconcile_lease env lease_observations))"
    by (rule keepsI, rule reconciles_rows [where Q = "\<lambda>rq. {Inr rq}"])
      (auto simp: reconciles_lease grounded_def dest: grounded_rows)
  show "keeps (reconciles env {} P) (for_each_row env ''unproven spawns'' (spawn_requests_without_acquired_lease_proof cutoff)
      (reconcile_unproven_spawn env))"
    by (rule keepsI, rule reconciles_rows [where Q = "\<lambda>_. {}"]) (simp_all add: reconciles_unproven)
  show "keeps (reconciles env {} P) (for_each_row env ''unknown spawns'' (unknown_spawn_requests cutoff)
      (reconcile_spawn env session_observations))"
    by (rule keepsI, rule reconciles_rows [where Q = "\<lambda>_. {}"]) (simp_all add: reconciles_spawn)
qed

lemma reconciles_cleanups:
  assumes "for_each_row (rc_dispatch rc) label acquire_only_cleanup_requests (reconcile_cleanup rc listed) w = (r, w')"
  shows "reconciles (rc_dispatch rc) {} (\<lambda>item. item \<in> set (acquire_only_cleanup_requests (w_db w)) \<and> listed_once listed item) w w'"
  by (rule reconciles_rows [OF _ _ assms, where Q = "\<lambda>item. {Inl (pr_request item)}"])
    (auto simp: grounded_def intro: reconciles_cleanup dest: grounded_rows)

text \<open>
  A reconciliation fails before its first query, leaving the tables, or has its two listings, settles the
  intents, and then releases leases.
\<close>

lemma reconcile_cases:
  assumes "reconcile_unknown_metadata rc w = (r, w')"
  obtains (early) e where "r = Inl e" "w_db w' = w_db w" "w_calls w' = w_calls w"
    | (runs) w0 cutoff session_observations lease_observations r1 w1 where
        "w_db w0 = w_db w" "w_calls w0 = w_calls w"
        "cutoff = dp_time (rc_dispatch rc) (w_ticks w) - pending_rpc_reconcile_grace_ms"
        "fst (rc_sessions rc (w_adapter w)) = Inr session_observations"
        "fst (rc_leases rc (snd (rc_sessions rc (w_adapter w)))) = Inr lease_observations"
        "reconcile_intents (rc_dispatch rc) cutoff session_observations lease_observations w0 = (r1, w1)"
        "(case r1 of Inl e \<Rightarrow> r = Inl e \<and> w' = w1
          | Inr n \<Rightarrow> bindM (for_each_row (rc_dispatch rc) ''acquire-only leases'' acquire_only_cleanup_requests
              (reconcile_cleanup rc lease_observations)) (\<lambda>n6. returnM (add_counts n n6)) w1 = (r, w'))"
proof -
  let ?ticked = "w\<lparr>w_ticks := Suc (w_ticks w)\<rparr>"
  let ?a1 = "snd (rc_sessions rc (w_adapter w))"
  let ?w0 = "?ticked\<lparr>w_adapter := snd (rc_leases rc ?a1)\<rparr>"
  show ?thesis
  proof (cases "connect_runtime_db (rc_dispatch rc)")
    case (Inl e)
    then show ?thesis using assms by (intro early [of e]) (simp_all add: reconcile_unknown_metadata_def)
  next
    case connected: (Inr u)
    show ?thesis
    proof (cases "fst (rc_sessions rc (w_adapter w))")
      case (Inl e)
      then show ?thesis using assms connected
        by (intro early [of e]) (auto simp: reconcile_unknown_metadata_def pending_reconcile_cutoff_epoch_ms_def
            bindM_def now_utc_def list_observations_def Let_def)
    next
      case listed: (Inr session_observations)
      show ?thesis
      proof (cases "fst (rc_leases rc ?a1)")
        case (Inl e)
        then show ?thesis using assms connected listed
          by (intro early [of e]) (auto simp: reconcile_unknown_metadata_def pending_reconcile_cutoff_epoch_ms_def
              bindM_def now_utc_def list_observations_def Let_def)
      next
        case (Inr lease_observations)
        define cutoff where "cutoff = dp_time (rc_dispatch rc) (w_ticks w) - pending_rpc_reconcile_grace_ms"
        obtain r1 w1 where first: "reconcile_intents (rc_dispatch rc) cutoff session_observations lease_observations ?w0 = (r1, w1)"
          by (cases "reconcile_intents (rc_dispatch rc) cutoff session_observations lease_observations ?w0")
        have "(case r1 of Inl e \<Rightarrow> r = Inl e \<and> w' = w1
          | Inr n \<Rightarrow> bindM (for_each_row (rc_dispatch rc) ''acquire-only leases'' acquire_only_cleanup_requests
              (reconcile_cleanup rc lease_observations)) (\<lambda>n6. returnM (add_counts n n6)) w1 = (r, w'))"
          using assms connected listed Inr first
          by (simp add: reconcile_unknown_metadata_def pending_reconcile_cutoff_epoch_ms_def now_utc_def
              list_observations_def Let_def cutoff_def bindM_def [of "now_utc _"] bindM_def [of "list_observations _"]
              bindM_def [of "reconcile_intents _ _ _ _"] bindM_def [of "bindM _ _"] split: sum.splits) (metis Inl_Inr_False)
        then show ?thesis using first listed Inr cutoff_def by (intro runs [of ?w0]) simp_all
      qed
    qed
  qed
qed

text \<open>The tables of a whole reconciliation, and its calls.\<close>

lemma reconcile_runs:
  assumes run: "reconcile_unknown_metadata rc w = (r, w')" and ok: "dispatch_ok (w_db w)" "linked (w_db w)"
  shows "reconcile_steps (rc_dispatch rc) (w_db w) (w_db w') \<and> dispatch_ok (w_db w') \<and>
    (\<exists>calls. w_calls w' = w_calls w @ calls \<and>
       (calls = [] \<or>
        (\<exists>db listed. reconcile_steps (rc_dispatch rc) (w_db w) db \<and> reconcile_steps (rc_dispatch rc) db (w_db w') \<and>
           fst (rc_leases rc (snd (rc_sessions rc (w_adapter w)))) = Inr listed \<and>
           releases_of (\<lambda>item. item \<in> set (acquire_only_cleanup_requests db) \<and> listed_once listed item) calls)))"
  using run
proof (cases rule: reconcile_cases)
  case (early e)
  then show ?thesis using ok by simp
next
  case (runs w0 cutoff session_observations lease_observations r1 w1)
  have first: "reconciles (rc_dispatch rc) {} (\<lambda>_. False) w0 w1" by (rule keepsD [OF reconciles_intents runs(6)])
  then have quiet: "w_calls w1 = w_calls w" and db1: "dispatch_ok (w_db w1)" "linked (w_db w1)" "reconcile_steps (rc_dispatch rc) (w_db w) (w_db w1)"
    using ok runs(1,2) by (auto simp: reconciles_def releases_of_def list_all_iff)
  show ?thesis
  proof (cases r1)
    case (Inl e)
    then show ?thesis using runs(7) quiet db1 by simp
  next
    case (Inr n)
    then obtain r2 where "for_each_row (rc_dispatch rc) ''acquire-only leases'' acquire_only_cleanup_requests
        (reconcile_cleanup rc lease_observations) w1 = (r2, w')"
      using runs(7) by (auto simp: bindM_def split: sum.splits prod.splits)
    from reconciles_cleanups [OF this] db1(1,2) obtain calls where
      second: "dispatch_ok (w_db w')" "reconcile_steps (rc_dispatch rc) (w_db w1) (w_db w')" "w_calls w' = w_calls w1 @ calls"
        "releases_of (\<lambda>item. item \<in> set (acquire_only_cleanup_requests (w_db w1)) \<and> listed_once lease_observations item) calls"
      unfolding reconciles_def by auto
    then show ?thesis using db1 quiet runs(5) reconcile_steps_trans [OF db1(3) second(2)] by auto
  qed
qed

end
