(* ===== verification/ReconcileSettles.thy ===== *)
theory ReconcileSettles
  imports ReconcileRuns
begin

section \<open>Intents are settled only when stale, and accepted only on proof\<close>

text \<open>
  Which intents a round of a loop may change, and on which proof.
\<close>

subsection \<open>The sole match of a scan\<close>

definition matched :: "exn + 'm option \<Rightarrow> 'm option" where
  "matched r = (case r of Inl _ \<Rightarrow> None | Inr m \<Rightarrow> m)"

lemma matched_Some [simp]: "matched r = Some m \<longleftrightarrow> r = Inr (Some m)"
  by (auto simp: matched_def split: sum.splits)

lemma matched_Inr [simp]: "matched (Inr m) = m"
  by (simp add: matched_def)

lemma scan_observations_result:
  "scan_observations check looks xs = Inr s \<Longrightarrow>
     ms_matches s = List.map_filter (\<lambda>x. matched (check x)) xs \<and>
     ms_malformed s = length (filter (\<lambda>x. looks x \<and> matched (check x) = None) xs)"
proof (induction xs arbitrary: s)
  case Nil
  then show ?case by (auto simp: map_filter_simps)
next
  case (Cons x xs)
  then show ?case
    by (auto simp: map_filter_simps matched_def err_simps split: sum.splits option.splits if_splits)
qed

lemma sole_match_listed:
  assumes scan: "scan_observations check looks xs = Inr s" and sole: "sole_match s = Some m"
    and looks: "\<And>x m. check x = Inr (Some m) \<Longrightarrow> looks x"
  shows "\<exists>x. filter looks xs = [x] \<and> check x = Inr (Some m)"
proof -
  have one: "length (List.map_filter (\<lambda>x. matched (check x)) xs) = 1" "first (List.map_filter (\<lambda>x. matched (check x)) xs) = Some m"
    and none: "\<And>x. x \<in> set xs \<Longrightarrow> looks x \<Longrightarrow> matched (check x) \<noteq> None"
    using sole scan_observations_result [OF scan] by (auto simp: sole_match_def filter_empty_conv split: if_splits)
  have "looks x \<longleftrightarrow> matched (check x) \<noteq> None" if "x \<in> set xs" for x
    using none [OF that] looks [of x] by auto
  then have "filter looks xs = filter (\<lambda>x. matched (check x) \<noteq> None) xs" by (intro filter_cong) auto
  then have "List.map_filter (\<lambda>x. matched (check x)) xs = map (\<lambda>x. the (matched (check x))) (filter looks xs)"
    by (simp add: map_filter_def comp_def)
  then obtain x where x: "filter looks xs = [x]" "the (matched (check x)) = m"
    using one by (auto simp: length_Suc_conv)
  have "x \<in> set (filter looks xs)" by (simp add: x(1))
  then have "x \<in> set xs" "looks x" by auto
  then have "check x = Inr (Some m)" using none [of x] x(2) by auto
  then show ?thesis using x(1) by blast
qed

lemma fields_agree:
  assumes "fields_of a names v" "fields_of b names v" "f \<in> set names"
  shows "dict_get a f = dict_get b f"
  using fields_of_lookup [OF assms(1,3)] fields_of_lookup [OF assms(2,3)] by (auto simp: dict_get_def)

lemma str_dict_inj: "str_dict v = str_dict w \<Longrightarrow> v = w"
  unfolding str_dict_def by (induction v arbitrary: w) (auto simp: map_eq_Cons_conv prod_eq_iff)

lemma identity_matches_iff:
  "normalized_identity_matches local normalized identity \<longleftrightarrow>
     (\<exists>n. normalized = Some n \<and> (\<forall>f\<in>set identity. dict_get n f = dict_get local f))"
  by (auto simp: normalized_identity_matches_def list_all_iff split: option.splits)

lemma session_match_looks:
  assumes "session_match rq obs = Inr (Some m)"
  shows "normalized_identity_matches (spawn_metadata rq) (obs_normalized obs) session_fields"
proof -
  obtain v n where "obs_normalized obs = Some n" "fields_of (spawn_metadata rq) session_fields v" "fields_of n session_fields v"
    using assms by (auto simp: session_match_def validate_session_observation_def validate_metadata_observation_iff bindE_Inr_iff)
  then show ?thesis using fields_agree [of n session_fields v "spawn_metadata rq"] by (auto simp: identity_matches_iff)
qed

lemma allow_values_agree:
  assumes "allow_values a l1 True = Inr r" "allow_values b l2 True = Inr r" "f \<in> set allow_lease_identity_fields"
  shows "dict_get a f = dict_get b f"
proof -
  obtain v t g where a: "fields_of a allow_lease_identity_fields v" "r = str_dict v @ [(''ttl_ms'', PInt t), (''gateway_lease_id'', PStr g)]"
    using assms(1) by (auto simp: allow_values_Inr_iff)
  obtain w t' g' where b: "fields_of b allow_lease_identity_fields w" "r = str_dict w @ [(''ttl_ms'', PInt t'), (''gateway_lease_id'', PStr g')]"
    using assms(2) by (auto simp: allow_values_Inr_iff)
  have "v = w" using a(2) b(2) str_dict_inj by auto
  then show ?thesis using fields_agree [OF a(1) _ assms(3)] b(1) by simp
qed

lemma lease_match_looks:
  assumes "lease_match rq obs = Inr (Some m)"
  shows "normalized_identity_matches (lease_metadata rq (text_or_empty (obs_external_id obs))) (obs_normalized obs)
    allow_lease_identity_fields"
proof -
  let ?local = "lease_metadata rq (text_or_empty (obs_external_id obs))"
  obtain r n where "obs_normalized obs = Some n" "allow_values ?local ''local intent'' True = Inr r"
      "allow_values n ''normalized metadata'' True = Inr r"
    using assms by (auto simp: lease_match_def validate_allow_lease_observation_iff bindE_Inr_iff split: if_splits)
  then show ?thesis using allow_values_agree [of n _ r ?local] by (auto simp: identity_matches_iff)
qed

subsection \<open>What one round touches\<close>

text \<open>
  A round concerns the open intents of one kind and key: they go to review, or are reconciled with a
  \<open>good\<close> external identity. Intents of releases may change in any round.
\<close>

definition touches :: "rpc_kind \<Rightarrow> string \<Rightarrow> (string \<Rightarrow> bool) \<Rightarrow> rpc_row \<Rightarrow> rpc_row \<Rightarrow> bool" where
  "touches k key good i j \<longleftrightarrow> j = i \<or> ri_kind i = ReleaseRpc \<and> ri_kind j = ReleaseRpc \<or>
     ri_kind i = k \<and> ri_kind j = k \<and> ri_key i = key \<and> ri_key j = key \<and> is_open (ri_state i) \<and>
     (ri_state j = RpcReview \<or> ri_state j = RpcReconciled \<and> (\<exists>x. good x \<and> ri_external j = Some x))"

lemma touches_refl: "touches k key good i i"
  by (simp add: touches_def)

lemma touches_trans: "touches k key good i j \<Longrightarrow> touches k key good j l \<Longrightarrow> touches k key good i l"
  unfolding touches_def by (elim disjE conjE; simp)

definition touching :: "rpc_kind \<Rightarrow> string \<Rightarrow> (string \<Rightarrow> bool) \<Rightarrow> 'a world \<Rightarrow> 'a world \<Rightarrow> bool" where
  "touching k key good w w' \<longleftrightarrow> in_place (touches k key good) (dt_intents (w_db w)) (dt_intents (w_db w'))"

lemma in_place_same: "in_place (touches k key good) xs xs"
  by (simp add: in_place_def touches_refl)

interpretation tc: world_relation "touching k key good"
proof unfold_locales
  show "touching k key good w1 w3" if "touching k key good w1 w2" "touching k key good w2 w3" for w1 w2 w3
    using that unfolding touching_def by (rule in_place_trans) (rule touches_trans)
qed (simp_all add: touching_def in_place_same)

lemma touch_intents:
  "(\<And>i. C i \<Longrightarrow> touches k key good i (f i)) \<Longrightarrow> keeps (touching k key good) (update_intents env l C f)"
  unfolding update_intents_def
  by (intro tc.keeps_bind tc.keeps_basic tc.keeps_modify)
    (auto simp: touching_def in_place_def update_where_def touches_refl)

lemma touch_others:
  "keeps (touching k key good) (update_leases env l C' f')"
  "keeps (touching k key good) (update_spawns env l C'' f'')"
  unfolding update_leases_def update_spawns_def
  by (intro tc.keeps_bind tc.keeps_basic tc.keeps_modify, simp add: touching_def in_place_same)+

lemma touch_insert_session:
  "keeps (touching k key good) (modify env l (\<lambda>db. db\<lparr>dt_sessions := dt_sessions db @ s\<rparr>))"
  by (rule tc.keeps_modify) (simp add: touching_def in_place_same)

lemma touch_insert_release: "keeps (touching k key good) (insert_intent env i)"
  unfolding insert_intent_def by (rule tc.keeps_modify) (simp add: touching_def in_place_def nth_append touches_refl)

lemma touch_human_review:
  assumes "kind \<noteq> ReleaseRpc"
  shows "keeps (touching kind (rpc_key rq kind) good) (mark_human_review env rq kind reason)"
  unfolding mark_human_review_def open_states
  by (intro tc.keeps_rules touch_intents touch_others) (simp add: touches_def)

lemma touch_strictly_after: "keeps (touching k key good) (strictly_after_requested_time env kind key')"
  unfolding strictly_after_requested_time_def by (intro tc.keeps_rules)

lemma touch_acquired:
  assumes "good g"
  shows "keeps (touching AcquireRpc (dr_acquire rq) good) (persist_acquired_lease env rq obs g True)"
  unfolding persist_acquired_lease_def
  by (intro tc.keeps_rules touch_strictly_after touch_intents touch_others) (simp add: touches_def assms)

lemma touch_acceptance:
  assumes "good k"
  shows "keeps (touching SpawnRpc (dr_key rq) good) (persist_spawn_acceptance env rq obs k True)"
  unfolding persist_spawn_acceptance_def assert_no_potentially_live_dispatch_def
  by (intro tc.keeps_rules touch_strictly_after touch_intents touch_others touch_insert_session)
    (simp add: touches_def assms)

lemma touch_accept_or_review:
  assumes "good k"
  shows "keeps (touching SpawnRpc (dr_key rq) good) (accept_or_review env rq obs k)"
proof -
  have "keeps (touching SpawnRpc (dr_key rq) good) (mark_human_review env rq SpawnRpc reason)" for reason
    using touch_human_review [of SpawnRpc rq good env reason] by (simp add: rpc_key_def)
  then have "keeps (touching SpawnRpc (dr_key rq) good) (case e of
      RuntimeDispatchError message \<Rightarrow> in_review (mark_human_review env rq SpawnRpc message) | _ \<Rightarrow> raiseM e)" for e
    by (cases e) (simp_all add: tc.keeps_basic in_review_def tc.keeps_bind)
  then show ?thesis unfolding accept_or_review_def by (intro tc.keeps_catch tc.keeps_bind tc.keeps_basic touch_acceptance assms)
qed

text \<open>Whatever concerns the release of a lease touches only intents of releases.\<close>

lemma touch_release_review: "keeps (touching k key good) (mark_owned_lease_release_review env rq g reason)"
  unfolding mark_owned_lease_release_review_def
  by (intro tc.keeps_rules touch_intents touch_others) (simp add: touches_def)

lemma touch_release_unknown: "keeps (touching k key good) (mark_owned_lease_release_unknown env rq g reason)"
  unfolding mark_owned_lease_release_unknown_def
  by (intro tc.keeps_rules touch_intents touch_others) (simp add: touches_def)

lemma touch_prepare_release: "keeps (touching k key good) (prepare_owned_lease_release env rq g)"
  unfolding prepare_owned_lease_release_def
  by (intro tc.keeps_rules touch_others touch_insert_release)

lemma touch_released: "keeps (touching k key good) (persist_released_lease env rq obs g reconciled)"
  unfolding persist_released_lease_def
  by (intro tc.keeps_rules tc.keeps_option touch_strictly_after touch_intents touch_others) (simp add: touches_def)

subsection \<open>What the loops settle\<close>

text \<open>The identity of an intent, as the gateway must echo it.\<close>

definition session_identity :: "rpc_row \<Rightarrow> pydict" where
  "session_identity i =
     [(''run_id'', PStr (ri_run i)), (''transition_id'', PStr (ri_transition i)), (''client_request_id'', PStr (ri_client i)),
      (''idempotency_key'', PStr (ri_key i)), (''phase'', PStr (text_or_empty (ri_phase i))),
      (''agent_id'', PStr (text_or_empty (ri_agent i))), (''task_digest'', PStr (text_or_empty (ri_digest i)))]"

definition lease_identity :: "rpc_row \<Rightarrow> string \<Rightarrow> pydict" where
  "lease_identity i g =
     [(''client_lease_id'', PStr (ri_client i)), (''idempotency_key'', PStr (ri_key i)), (''run_id'', PStr (ri_run i)),
      (''phase'', PStr (text_or_empty (ri_phase i))), (''transition_id'', PStr (ri_transition i)),
      (''agent_id'', PStr (text_or_empty (ri_agent i))), (''requester_agent_id'', PStr (text_or_empty (ri_requester i))),
      (''ttl_ms'', PInt (case ri_ttl i of None \<Rightarrow> 0 | Some ttl \<Rightarrow> ttl)), (''gateway_lease_id'', PStr g)]"

text \<open>
  Exactly one listed observation carries the identity of the intent; it is well-formed in its three
  copies, and \<open>x\<close> is its external identity.
\<close>

definition session_proved :: "observation list \<Rightarrow> rpc_row \<Rightarrow> string \<Rightarrow> bool" where
  "session_proved listed i x \<longleftrightarrow>
     (\<exists>obs. filter (\<lambda>obs. normalized_identity_matches (session_identity i) (obs_normalized obs) session_fields) listed = [obs] \<and>
        returned (validate_session_observation (session_identity i) (obs_normalized obs) (obs_raw_json obs) (obs_version obs)) \<and>
        obs_external_id obs = Some x \<and> obs_spawn_session_key obs = Some x \<and> obs_session_key obs = Some x \<and> x \<noteq> [])"

definition lease_proved :: "observation list \<Rightarrow> rpc_row \<Rightarrow> string \<Rightarrow> bool" where
  "lease_proved listed i x \<longleftrightarrow>
     (\<exists>obs. filter (\<lambda>obs. normalized_identity_matches (lease_identity i []) (obs_normalized obs) allow_lease_identity_fields) listed = [obs] \<and>
        returned (validate_allow_lease_observation (lease_identity i x) (obs_normalized obs) (obs_raw_json obs) (obs_version obs)) \<and>
        obs_external_id obs = Some x \<and> x \<noteq> [])"

text \<open>The gateway identity is not one of the compared fields.\<close>

lemma lease_identity_fields:
  "f \<in> set allow_lease_identity_fields \<Longrightarrow> dict_get (lease_identity i g) f = dict_get (lease_identity i []) f"
  by (auto simp: allow_lease_identity_fields_def lease_identity_def dict_get_def)

lemma any_gateway:
  "normalized_identity_matches (lease_identity i g) n allow_lease_identity_fields \<longleftrightarrow>
     normalized_identity_matches (lease_identity i []) n allow_lease_identity_fields"
proof (cases n)
  case (Some d)
  have "(\<forall>f\<in>set allow_lease_identity_fields. dict_get d f = dict_get (lease_identity i g) f) \<longleftrightarrow>
      (\<forall>f\<in>set allow_lease_identity_fields. dict_get d f = dict_get (lease_identity i []) f)"
    by (rule ball_cong [OF refl]) (simp only: lease_identity_fields [of _ i g])
  then show ?thesis by (simp add: normalized_identity_matches_def list_all_iff Some)
qed (simp add: normalized_identity_matches_def)

lemma session_scan_proves:
  assumes "matching_sessions rq listed = Inr scan" "sole_match scan = Some (obs, x)" "spawn_metadata rq = session_identity i"
  shows "session_proved listed i x"
proof -
  obtain o1 where "filter (\<lambda>obs. normalized_identity_matches (spawn_metadata rq) (obs_normalized obs) session_fields) listed = [o1]"
      "session_match rq o1 = Inr (Some (obs, x))"
    using sole_match_listed [OF assms(1) [unfolded matching_sessions_def] assms(2)] session_match_looks by auto
  then show ?thesis using assms(3) unfolding session_proved_def
    by (intro exI [of _ o1]) (auto simp: session_match_def returned_def err_simps)
qed

lemma lease_scan_proves:
  assumes "matching_leases rq listed = Inr scan" "sole_match scan = Some (obs, x)" "\<And>g. lease_metadata rq g = lease_identity i g"
  shows "lease_proved listed i x"
proof -
  obtain o1 where only: "filter (\<lambda>obs. normalized_identity_matches (lease_metadata rq (text_or_empty (obs_external_id obs)))
        (obs_normalized obs) allow_lease_identity_fields) listed = [o1]" and this_one: "lease_match rq o1 = Inr (Some (obs, x))"
    using sole_match_listed [OF assms(1) [unfolded matching_leases_def] assms(2)] lease_match_looks by auto
  have same: "(\<lambda>obs. normalized_identity_matches (lease_identity i (text_or_empty (obs_external_id obs)))
        (obs_normalized obs) allow_lease_identity_fields) =
      (\<lambda>obs. normalized_identity_matches (lease_identity i []) (obs_normalized obs) allow_lease_identity_fields)"
    by (rule ext) (rule any_gateway)
  from only have "filter (\<lambda>obs. normalized_identity_matches (lease_identity i []) (obs_normalized obs) allow_lease_identity_fields)
      listed = [o1]" unfolding assms(3) same .
  moreover have "text_or_empty (obs_external_id o1) = x" "x \<noteq> []"
      "returned (validate_allow_lease_observation (lease_identity i x) (obs_normalized o1) (obs_raw_json o1) (obs_version o1))"
    using this_one unfolding lease_match_def assms(3) by (auto simp: returned_def err_simps split: if_splits)
  moreover have "obs_external_id o1 = Some x" using calculation(2,3) by (cases "obs_external_id o1") (auto simp: text_or_empty_def)
  ultimately show ?thesis unfolding lease_proved_def by blast
qed

text \<open>An intent of an acquire or a spawn changes only when it is stale, into review or on proof.\<close>

definition settles :: "int \<Rightarrow> observation list \<Rightarrow> observation list \<Rightarrow> rpc_row \<Rightarrow> rpc_row \<Rightarrow> bool" where
  "settles cutoff session_observations lease_observations i j \<longleftrightarrow> j = i \<or> ri_kind i = ReleaseRpc \<and> ri_kind j = ReleaseRpc \<or>
     ri_kind j = ri_kind i \<and> ri_key j = ri_key i \<and> ri_kind i \<noteq> ReleaseRpc \<and> pending_or_unknown_clause cutoff i \<and>
     (ri_state j = RpcReview \<or>
      ri_state j = RpcReconciled \<and> (\<exists>x. ri_external j = Some x \<and>
        (if ri_kind i = SpawnRpc then session_proved session_observations i x else lease_proved lease_observations i x)))"

lemma settles_refl: "settles cutoff S L i i"
  by (simp add: settles_def)

lemma settles_trans:
  assumes "settles cutoff S L i j" "settles cutoff S L j l"
  shows "settles cutoff S L i l"
proof (cases "j = i \<or> l = j")
  case True
  then show ?thesis using assms by blast
next
  case False
  then have "ri_kind i = ReleaseRpc \<and> ri_kind j = ReleaseRpc \<or> ri_state j = RpcReview \<or> ri_state j = RpcReconciled"
      "ri_kind i = ReleaseRpc \<and> ri_kind j = ReleaseRpc \<or> ri_kind i = ri_kind j \<and> ri_kind i \<noteq> ReleaseRpc"
    using False assms(1) unfolding settles_def by auto
  moreover have "ri_kind j = ReleaseRpc \<and> ri_kind l = ReleaseRpc \<or> pending_or_unknown_clause cutoff j"
      "ri_kind j = ReleaseRpc \<and> ri_kind l = ReleaseRpc \<or> ri_kind j \<noteq> ReleaseRpc"
    using False assms(2) unfolding settles_def by auto
  ultimately have "ri_kind i = ReleaseRpc \<and> ri_kind l = ReleaseRpc"
    by (auto simp: pending_or_unknown_clause_def)
  then show ?thesis by (simp add: settles_def)
qed

lemma reconcile_steps_linked:
  assumes "reconcile_steps env db db'" "dispatch_ok db" "linked db"
  shows "dispatch_ok db' \<and> linked db'"
  using assms unfolding reconcile_steps_def
proof (induction rule: rtranclp_induct)
  case (step b c)
  then obtain rq where "reconcile_step env rq b c" by blast
  then show ?case using step reconcile_keeps_ok reconcile_step_linked by blast
qed simp

lemma later_key:
  assumes "distinct (map f (filter P xs))" "n < m" "m < length xs" "P (xs ! n)" "P (xs ! m)"
  shows "f (xs ! n) \<noteq> f (xs ! m)"
proof -
  have xs: "xs = take m xs @ xs ! m # drop (Suc m) xs" using assms(3) by (rule id_take_nth_drop)
  have "distinct (map f (filter P (take m xs @ xs ! m # drop (Suc m) xs)))" using assms(1) xs by simp
  then have new: "f (xs ! m) \<notin> set (map f (filter P (take m xs)))" using assms(5) by simp
  have "n < length (take m xs)" "take m xs ! n = xs ! n" using assms(2,3) by simp_all
  then have "xs ! n \<in> set (take m xs)" by (metis nth_mem)
  then have "f (xs ! n) \<in> set (map f (filter P (take m xs)))" using assms(4) by simp
  then show ?thesis using new by auto
qed

lemma keys_unique:
  assumes "distinct (map f (filter P xs))" "n < length xs" "m < length xs" "P (xs ! n)" "P (xs ! m)" "f (xs ! n) = f (xs ! m)"
  shows "n = m"
  using later_key [OF assms(1), of n m] later_key [OF assms(1), of m n] assms by (cases n m rule: linorder_cases) auto

definition unique_keys :: "dispatch_tables \<Rightarrow> bool" where
  "unique_keys db \<longleftrightarrow> distinct (spawn_keys db) \<and> distinct (acquire_keys db)"

lemma unique_position:
  assumes "unique_keys db" "n < length (dt_intents db)" "m < length (dt_intents db)" "ri_kind (dt_intents db ! n) = k"
    and "ri_kind (dt_intents db ! m) = k" "k \<noteq> ReleaseRpc" "ri_key (dt_intents db ! n) = ri_key (dt_intents db ! m)"
  shows "n = m"
proof (rule keys_unique)
  show "distinct (map ri_key (filter (\<lambda>i. ri_kind i = k) (dt_intents db)))"
    using assms(1,6) by (cases k) (simp_all add: unique_keys_def spawn_keys_def acquire_keys_def)
qed (use assms in simp_all)

text \<open>A request that a query selected: it stems from a stale intent, and carries its identity.\<close>

definition carries :: "rpc_kind \<Rightarrow> dispatch_request \<Rightarrow> rpc_row \<Rightarrow> bool" where
  "carries k rq i \<longleftrightarrow>
     (if k = SpawnRpc then spawn_metadata rq = session_identity i else \<forall>g. lease_metadata rq g = lease_identity i g)"

definition selected :: "rpc_kind \<Rightarrow> int \<Rightarrow> dispatch_request \<Rightarrow> dispatch_tables \<Rightarrow> bool" where
  "selected k cutoff rq db \<longleftrightarrow> k \<noteq> ReleaseRpc \<longrightarrow>
     (\<exists>i\<in>set (dt_intents db). ri_kind i = k \<and> ri_key i = rpc_key rq k \<and> pending_or_unknown_clause cutoff i \<and> carries k rq i)"

lemma spawns_selected:
  "rq \<in> set (unknown_spawn_requests cutoff db) \<Longrightarrow> selected SpawnRpc cutoff rq db"
  "rq \<in> set (spawn_requests_without_acquired_lease_proof cutoff db) \<Longrightarrow> selected SpawnRpc cutoff rq db"
  by (force simp: unknown_spawn_requests_def spawn_requests_without_acquired_lease_proof_def selected_def carries_def
      spawn_request_from_def stored_request_def spawn_metadata_def session_identity_def rpc_key_def spawn_bound_def)+

lemma leases_selected:
  "rq \<in> set (unknown_lease_requests cutoff db) \<Longrightarrow> selected AcquireRpc cutoff rq db"
  "linked db \<Longrightarrow> rq \<in> set (orphan_unknown_lease_requests cutoff db) \<Longrightarrow> selected AcquireRpc cutoff rq db"
  by (force simp: unknown_lease_requests_def selected_def carries_def
      stored_request_def lease_metadata_def lease_identity_def rpc_key_def acquire_bound_def)
    (simp add: no_orphans)

text \<open>One round settles only what is stale.\<close>

definition round_ok ::
    "observation list \<Rightarrow> observation list \<Rightarrow> rpc_kind \<Rightarrow> dispatch_request \<Rightarrow> ('a, 'b) operation \<Rightarrow> bool" where
  "round_ok S L k rq m \<longleftrightarrow>
     (\<exists>good. keeps (touching k (rpc_key rq k) good) m \<and>
        (\<forall>x i. good x \<longrightarrow> carries k rq i \<longrightarrow> (if k = SpawnRpc then session_proved S i x else lease_proved L i x)))"

lemma round_settles:
  assumes unique: "unique_keys (w_db w)" and since: "in_place (settles cutoff S L) (dt_intents db0) (dt_intents (w_db w))"
    and sel: "selected k cutoff rq db0" and round_ok: "round_ok S L k rq m" and run: "m w = (r, w')"
  shows "in_place (settles cutoff S L) (dt_intents (w_db w)) (dt_intents (w_db w'))"
proof -
  obtain good where keep: "keeps (touching k (rpc_key rq k) good) m"
    and good: "\<And>x i. good x \<Longrightarrow> carries k rq i \<Longrightarrow> if k = SpawnRpc then session_proved S i x else lease_proved L i x"
    using round_ok unfolding round_ok_def by blast
  have touch: "in_place (touches k (rpc_key rq k) good) (dt_intents (w_db w)) (dt_intents (w_db w'))"
    using keepsD [OF keep run] by (simp add: touching_def)
  show ?thesis unfolding in_place_def
  proof (intro allI impI conjI)
    fix n assume n: "n < length (dt_intents (w_db w))"
    let ?i = "dt_intents (w_db w) ! n"
    let ?j = "dt_intents (w_db w') ! n"
    show "n < length (dt_intents (w_db w'))" using touch n by (simp add: in_place_def)
    have "touches k (rpc_key rq k) good ?i ?j" using touch n by (simp add: in_place_def)
    then consider "?j = ?i" | "ri_kind ?i = ReleaseRpc" "ri_kind ?j = ReleaseRpc"
      | "ri_kind ?i = k" "ri_kind ?j = k" "k \<noteq> ReleaseRpc" "ri_key ?i = rpc_key rq k" "is_open (ri_state ?i)"
        "ri_key ?j = rpc_key rq k" "ri_state ?j = RpcReview \<or> ri_state ?j = RpcReconciled \<and> (\<exists>x. good x \<and> ri_external ?j = Some x)"
      unfolding touches_def by metis
    then show "settles cutoff S L ?i ?j"
    proof cases
      case 3
      then obtain i where i: "i \<in> set (dt_intents db0)" "ri_kind i = k" "ri_key i = rpc_key rq k"
          "pending_or_unknown_clause cutoff i" "carries k rq i" using sel unfolding selected_def by blast
      obtain m where m: "m < length (dt_intents db0)" "dt_intents db0 ! m = i" using i(1) unfolding in_set_conv_nth by blast
      then have moved: "m < length (dt_intents (w_db w))" "settles cutoff S L (dt_intents db0 ! m) (dt_intents (w_db w) ! m)"
        using since by (auto simp: in_place_def)
      then have "ri_kind (dt_intents (w_db w) ! m) = k" "ri_key (dt_intents (w_db w) ! m) = rpc_key rq k"
        using m(2) i(2,3) 3(3) by (auto simp: settles_def)
      then have "n = m" using unique_position [OF unique n moved(1) 3(1) _ 3(3)] 3(4) by simp
      then have same: "?i = i" using moved(2) 3(3,5) m(2) i(2) by (auto simp: settles_def is_open_def)
      have "if k = SpawnRpc then session_proved S i x else lease_proved L i x" if "good x" for x
        by (rule good [OF that i(5)])
      then show ?thesis using 3 i(3,4) unfolding settles_def same by (cases "k = SpawnRpc") auto
    qed (simp_all add: settles_def)
  qed
qed

end
