(* ===== verification/ReconcileLoops.thy ===== *)
theory ReconcileLoops
  imports ReconcileSettles
begin

section \<open>The loops of a reconciliation\<close>

text \<open>
  What each of the six loops does to the intents its query selected, from what one round may do
  and what is closed when it returns.
\<close>

subsection \<open>A rule for loops\<close>

lemma for_each_rule:
  assumes "\<And>x w r w'. x \<in> set xs \<Longrightarrow> I w \<Longrightarrow> f x w = (r, w') \<Longrightarrow>
      I w' \<and> (\<forall>y. D y w \<longrightarrow> D y w') \<and> (returned r \<longrightarrow> D x w')"
    and "I w" "for_each f xs w = (r, w')"
  shows "I w' \<and> (\<forall>y. D y w \<longrightarrow> D y w') \<and> (returned r \<longrightarrow> (\<forall>x\<in>set xs. D x w'))"
  using assms
proof (induction xs arbitrary: w r)
  case (Cons x xs)
  from Cons.prems(3) have "bindM (f x) (\<lambda>s. bindM (for_each f xs) (\<lambda>t. returnM (add_counts s t))) w = (r, w')" by simp
  then show ?case
  proof (cases rule: bindM_cases)
    case (raises e)
    then show ?thesis using Cons.prems(1) [of x w] Cons.prems(2) by (simp add: returned_def)
  next
    case (goes_on s w1)
    have first: "I w1" "\<forall>y. D y w \<longrightarrow> D y w1" "D x w1"
      using Cons.prems(1) [OF _ Cons.prems(2) goes_on(1)] by (auto simp: returned_def)
    obtain r2 where r2: "for_each f xs w1 = (r2, w')" "returned r \<longleftrightarrow> returned r2"
      using goes_on(2) by (auto simp: bindM_def returned_def split: prod.splits sum.splits)
    have "I w' \<and> (\<forall>y. D y w1 \<longrightarrow> D y w') \<and> (returned r2 \<longrightarrow> (\<forall>x\<in>set xs. D x w'))"
      by (rule Cons.IH [OF _ first(1) r2(1)], rule Cons.prems(1)) simp_all
    then show ?thesis using first r2(2) by auto
  qed
qed simp

text \<open>A loop over the answer of a query that succeeds or leaves everything.\<close>

lemma for_each_row_cases:
  assumes "for_each_row env label rows f w = (r, w')"
  obtains (refused) e where "r = Inl e" "w' = w" | (loops) "for_each f (rows (w_db w)) w = (r, w')"
  using assms by (auto simp: for_each_row_def bindM_def query_def split: option.splits)

subsection \<open>Closed intents\<close>

definition closed :: "rpc_kind \<Rightarrow> string \<Rightarrow> dispatch_tables \<Rightarrow> bool" where
  "closed k key db \<longleftrightarrow> (\<forall>i\<in>set (dt_intents db). ri_kind i = k \<longrightarrow> ri_key i = key \<longrightarrow> \<not> is_open (ri_state i))"

lemma moves_closed:
  assumes "moves rq db db'" "closed k key db" "k \<noteq> ReleaseRpc"
  shows "closed k key db'"
  unfolding closed_def
proof (intro ballI impI)
  fix j assume j: "j \<in> set (dt_intents db')" "ri_kind j = k" "ri_key j = key"
  obtain i where i: "i \<in> set (dt_intents db)" "intent_moves i j" using moves_intents(1) [OF assms(1) j(1)] j(2) assms(3) by auto
  then have "\<not> is_open (ri_state i)" using assms(2) j by (simp add: closed_def intent_moves_def)
  then show "\<not> is_open (ri_state j)"
    using i(2) j(2) assms(3) settled_rpc_stays [of "ri_kind i" "ri_state i" "ri_state j"] by (simp add: intent_moves_def)
qed

lemma reconcile_steps_closed:
  assumes "reconcile_steps env db db'" "dispatch_ok db" "closed k key db" "k \<noteq> ReleaseRpc"
  shows "closed k key db'"
proof -
  have "dispatch_ok db' \<and> closed k key db'"
    using assms(1-3) unfolding reconcile_steps_def
  proof (induction rule: rtranclp_induct)
    case (step b c)
    then obtain rq rq' where "reconcile_step env rq b c" "moves rq' b c" using reconcile_step_cases by metis
    then show ?case using step reconcile_keeps_ok moves_closed assms(4) by blast
  qed simp
  then show ?thesis by simp
qed

lemma closed_update:
  "dt_intents db = update_where C f xs \<Longrightarrow>
   (\<And>i. ri_kind i = k \<Longrightarrow> ri_key i = key \<Longrightarrow> is_open (ri_state i) \<Longrightarrow> C i) \<Longrightarrow>
   (\<And>i. C i \<Longrightarrow> \<not> is_open (ri_state (f i))) \<Longrightarrow> closed k key db"
  by (auto simp: closed_def update_where_def)

text \<open>A round that returns closes its intents.\<close>

lemma human_review_closes:
  assumes "mark_human_review env rq kind reason w = (Inr u, w')"
  shows "closed kind (rpc_key rq kind) (w_db w')"
proof -
  obtain t xs where "dt_intents (w_db w') = update_where
       (\<lambda>i. ri_kind i = kind \<and> ri_key i = rpc_key rq kind \<and> is_open (ri_state i))
       (\<lambda>i. i\<lparr>ri_state := RpcReview, ri_resolved_at := Some (fst t), ri_resolved_ms := Some (snd t)\<rparr>) xs"
    using assms unfolding mark_human_review_def open_states
    by (auto simp: bindM_Inr_iff now_utc_Inr_iff split: if_splits dest!: update_Inr)
  then show ?thesis by (rule closed_update) auto
qed

lemma acquired_closes:
  assumes "persist_acquired_lease env rq obs g reconciled w = (Inr u, w')"
  shows "closed AcquireRpc (dr_acquire rq) (w_db w')"
proof -
  obtain n C f w1 w2 where "update_intents env ''accept acquire'' C f w1 = (Inr n, w2)"
      "C = (\<lambda>i. ri_kind i = AcquireRpc \<and> ri_key i = dr_acquire rq \<and> is_open (ri_state i))"
      "\<And>i. \<not> is_open (ri_state (f i))" "dt_intents (w_db w') = dt_intents (w_db w2)"
    using assms unfolding persist_acquired_lease_def
    by (auto simp: bindM_Inr_iff requireM_Inr_iff dest!: update_Inr(2))
  then show ?thesis using closed_update [of "w_db w'" C f "dt_intents (w_db w1)"] by (auto dest!: update_Inr(1))
qed

lemma acceptance_closes:
  assumes "persist_spawn_acceptance env rq obs k reconciled w = (Inr u, w')"
  shows "closed SpawnRpc (dr_key rq) (w_db w')"
proof -
  obtain n C f w1 w2 where "update_intents env ''accept spawn'' C f w1 = (Inr n, w2)"
      "C = (\<lambda>i. ri_kind i = SpawnRpc \<and> ri_key i = dr_key rq \<and> is_open (ri_state i))"
      "\<And>i. \<not> is_open (ri_state (f i))" "dt_intents (w_db w') = dt_intents (w_db w2)"
    using assms unfolding persist_spawn_acceptance_def assert_no_potentially_live_dispatch_def
    by (auto simp: bindM_Inr_iff requireM_Inr_iff modify_Inr_iff dest!: update_Inr(3))
  then show ?thesis using closed_update [of "w_db w'" C f "dt_intents (w_db w1)"] by (auto dest!: update_Inr(1))
qed

lemma accept_or_review_closes:
  assumes "accept_or_review env rq obs k w = (Inr n, w')"
  shows "closed SpawnRpc (dr_key rq) (w_db w')"
  using assms unfolding accept_or_review_def
proof (cases rule: catchM_cases)
  case (returns x)
  then show ?thesis by (auto simp: bindM_Inr_iff dest: acceptance_closes)
next
  case (handles e w1)
  then show ?thesis
    by (cases e) (auto simp: in_review_def bindM_Inr_iff rpc_key_def dest!: human_review_closes)
qed

subsection \<open>What each round may do\<close>

lemma round_review:
  assumes "k \<noteq> ReleaseRpc"
  shows "round_ok S L k rq (immediate_transaction env (in_review (mark_human_review env rq k reason)))"
  unfolding round_ok_def in_review_def
  by (intro exI [of _ "\<lambda>_. False"] conjI tc.keeps_transaction tc.keeps_bind tc.keeps_basic touch_human_review assms) simp

lemma round_orphan: "round_ok S L AcquireRpc rq (reconcile_orphan env rq)"
  unfolding reconcile_orphan_def by (rule round_review) simp

lemma round_unproven: "round_ok S L SpawnRpc rq (reconcile_unproven_spawn env rq)"
  unfolding reconcile_unproven_spawn_def by (rule round_review) simp

lemma touch_release:
  assumes "\<And>Q. keeps (touching ReleaseRpc key (\<lambda>_. False)) m"
  shows "keeps (touching ReleaseRpc key (\<lambda>_. False)) (in_review m)"
  unfolding in_review_def by (intro tc.keeps_bind tc.keeps_basic assms)

lemma round_release: "round_ok S L ReleaseRpc rq (reconcile_release env listed item)"
  unfolding round_ok_def reconcile_release_def
  by (intro exI [of _ "\<lambda>_. False"] conjI tc.keeps_bind tc.keeps_basic tc.keeps_transaction touch_release touch_release_review) simp

lemma round_lease: "round_ok S L AcquireRpc rq (reconcile_lease env L rq)"
proof -
  define good where "good x \<longleftrightarrow> (\<exists>scan obs. matching_leases rq L = Inr scan \<and> sole_match scan = Some (obs, x))" for x
  have review: "keeps (touching AcquireRpc (dr_acquire rq) good) (immediate_transaction env
      (in_review (mark_human_review env rq AcquireRpc reason)))" for reason
    unfolding in_review_def using touch_human_review [of AcquireRpc rq good env reason]
    by (intro tc.keeps_transaction tc.keeps_bind tc.keeps_basic) (simp add: rpc_key_def)
  have "keeps (touching AcquireRpc (dr_acquire rq) good) (reconcile_lease env L rq)"
  proof (cases "matching_leases rq L")
    case (Inl e)
    then show ?thesis unfolding reconcile_lease_def by (simp add: tc.keeps_basic)
  next
    case (Inr scan)
    show ?thesis
    proof (cases "sole_match scan")
      case None
      then show ?thesis using Inr review by (simp add: reconcile_lease_def)
    next
      case (Some found)
      obtain obs g where g: "found = (obs, g)" by (cases found)
      then have "good g" using Inr Some by (auto simp: good_def)
      then have "keeps (touching AcquireRpc (dr_acquire rq) good) (immediate_transaction env
          (bindM (persist_acquired_lease env rq obs g True) (\<lambda>_. returnM one_reconciled)))"
        by (intro tc.keeps_transaction tc.keeps_bind tc.keeps_basic touch_acquired)
      then show ?thesis using Inr Some g by (simp add: reconcile_lease_def)
    qed
  qed
  then show ?thesis unfolding round_ok_def
    by (intro exI [of _ good]) (auto simp: rpc_key_def good_def carries_def intro: lease_scan_proves)
qed

lemma round_spawn: "round_ok S L SpawnRpc rq (reconcile_spawn env S rq)"
proof -
  define good where "good x \<longleftrightarrow> (\<exists>scan obs. matching_sessions rq S = Inr scan \<and> sole_match scan = Some (obs, x))" for x
  have review: "keeps (touching SpawnRpc (dr_key rq) good) (immediate_transaction env
      (in_review (mark_human_review env rq SpawnRpc reason)))" for reason
    unfolding in_review_def using touch_human_review [of SpawnRpc rq good env reason]
    by (intro tc.keeps_transaction tc.keeps_bind tc.keeps_basic) (simp add: rpc_key_def)
  have "keeps (touching SpawnRpc (dr_key rq) good) (reconcile_spawn env S rq)"
  proof (cases "matching_sessions rq S")
    case (Inl e)
    then show ?thesis unfolding reconcile_spawn_def by (simp add: tc.keeps_basic)
  next
    case (Inr scan)
    show ?thesis
    proof (cases "sole_match scan")
      case None
      then show ?thesis using Inr review by (simp add: reconcile_spawn_def)
    next
      case (Some found)
      obtain obs x where x: "found = (obs, x)" by (cases found)
      then have "good x" using Inr Some by (auto simp: good_def)
      then have "keeps (touching SpawnRpc (dr_key rq) good) (immediate_transaction env (accept_or_review env rq obs x))"
        by (intro tc.keeps_transaction touch_accept_or_review)
      then show ?thesis using Inr Some x by (simp add: reconcile_spawn_def)
    qed
  qed
  then show ?thesis unfolding round_ok_def
    by (intro exI [of _ good]) (auto simp: rpc_key_def good_def carries_def intro: session_scan_proves)
qed

lemma round_cleanup: "round_ok S L ReleaseRpc rq (reconcile_cleanup rc listed item)"
proof -
  let ?t = "touching ReleaseRpc (rpc_key rq ReleaseRpc) (\<lambda>_. False)"
  have call: "keeps ?t (call_adapter call f params)" for call f params
    by (auto simp: keeps_def touching_def in_place_same dest: call_adapter_effect)
  have adopt: "keeps ?t (adopt_verified_lease_ownership rc params obs)" for params obs
    by (auto simp: keeps_def touching_def in_place_same adopt_verified_lease_ownership_def Let_def)
  have release: "keeps ?t (release_owned_lease env rq' g)" for env rq' g
    unfolding release_owned_lease_def
    by (intro tc.keeps_bind tc.keeps_transaction touch_prepare_release touch_released call)
  have review: "keeps ?t (in_review (immediate_transaction env (mark_owned_lease_release_review env rq' g reason)))"
    "keeps ?t (in_review (immediate_transaction env (mark_owned_lease_release_unknown env rq' g reason)))" for env rq' g reason
    unfolding in_review_def
    by (intro tc.keeps_bind tc.keeps_basic tc.keeps_transaction touch_release_review touch_release_unknown)+
  have "keeps ?t (reconcile_cleanup rc listed item)"
    unfolding reconcile_cleanup_def Let_def cleanup_failed_def
    by (intro tc.keeps_bind tc.keeps_basic tc.keeps_option tc.keeps_prod tc.keeps_if tc.keeps_catch review release adopt)
  then show ?thesis unfolding round_ok_def by (intro exI [of _ "\<lambda>_. False"]) simp
qed

text \<open>A round that returns closes its intents.\<close>

lemma review_round_closes:
  "immediate_transaction env (in_review (mark_human_review env rq k reason)) w = (Inr n, w') \<Longrightarrow>
     closed k (rpc_key rq k) (w_db w')"
  by (auto simp: in_review_def bindM_Inr_iff dest!: transaction_Inr human_review_closes)

lemma lease_round_closes:
  assumes "reconcile_lease env L rq w = (Inr n, w')"
  shows "closed AcquireRpc (rpc_key rq AcquireRpc) (w_db w')"
proof -
  obtain scan where "immediate_transaction env
       (case sole_match scan of
          None \<Rightarrow> in_review (mark_human_review env rq AcquireRpc ''malformed-or-ambiguous-lease-observation'')
        | Some (obs, g) \<Rightarrow> bindM (persist_acquired_lease env rq obs g True) (\<lambda>_. returnM one_reconciled)) w = (Inr n, w')"
    using assms by (auto simp: reconcile_lease_def bindM_Inr_iff)
  then show ?thesis
    by (cases "sole_match scan")
      (auto simp: rpc_key_def in_review_def bindM_Inr_iff dest!: transaction_Inr acquired_closes human_review_closes)
qed

lemma spawn_round_closes:
  assumes "reconcile_spawn env S rq w = (Inr n, w')"
  shows "closed SpawnRpc (rpc_key rq SpawnRpc) (w_db w')"
proof -
  obtain scan where "immediate_transaction env
       (case sole_match scan of
          None \<Rightarrow> in_review (mark_human_review env rq SpawnRpc (session_review_reason scan))
        | Some (obs, session_key) \<Rightarrow> accept_or_review env rq obs session_key) w = (Inr n, w')"
    using assms by (auto simp: reconcile_spawn_def bindM_Inr_iff)
  then show ?thesis
    by (cases "sole_match scan")
      (auto simp: rpc_key_def in_review_def bindM_Inr_iff dest!: transaction_Inr accept_or_review_closes human_review_closes)
qed

subsection \<open>A whole loop\<close>

lemma unique_keysI: "dispatch_ok db \<Longrightarrow> linked db \<Longrightarrow> unique_keys db"
  by (simp add: unique_keys_def dispatch_ok_def linkedD(5))

lemma settles_in_place_trans:
  "in_place (settles cutoff S L) xs ys \<Longrightarrow> in_place (settles cutoff S L) ys zs \<Longrightarrow> in_place (settles cutoff S L) xs zs"
  by (erule (1) in_place_trans) (rule settles_trans)

lemma loop_settles:
  assumes run: "for_each_row env label rows f w = (r, w')" and start: "dispatch_ok (w_db w)" "linked (w_db w)"
    and own: "\<And>x. x \<in> set (rows (w_db w)) \<Longrightarrow> \<forall>q\<in>Q x. grounded q (w_db w)"
    and body: "\<And>x Q'. x \<in> set (rows (w_db w)) \<Longrightarrow> Q x \<subseteq> Q' \<Longrightarrow> keeps (reconciles env Q' (\<lambda>_. True)) (f x)"
    and sel: "\<And>x. x \<in> set (rows (w_db w)) \<Longrightarrow> selected k cutoff (rqf x) (w_db w)"
    and rnd: "\<And>x. round_ok S L k (rqf x) (f x)"
    and closes: "\<And>x n w w'. k \<noteq> ReleaseRpc \<Longrightarrow> f x w = (Inr n, w') \<Longrightarrow> closed k (rpc_key (rqf x) k) (w_db w')"
  shows "dispatch_ok (w_db w') \<and> linked (w_db w') \<and> reconcile_steps env (w_db w) (w_db w') \<and>
    in_place (settles cutoff S L) (dt_intents (w_db w)) (dt_intents (w_db w')) \<and>
    (returned r \<longrightarrow> k \<noteq> ReleaseRpc \<longrightarrow> (\<forall>x\<in>set (rows (w_db w)). closed k (rpc_key (rqf x) k) (w_db w')))"
  using run
proof (cases rule: for_each_row_cases)
  case (refused e)
  then show ?thesis using start by (simp add: returned_def in_place_def settles_refl)
next
  case loops
  let ?Q = "\<Union>x\<in>set (rows (w_db w)). Q x"
  define I where "I v \<longleftrightarrow> dispatch_ok (w_db v) \<and> linked (w_db v) \<and> (\<forall>q\<in>?Q. grounded q (w_db v)) \<and>
      reconcile_steps env (w_db w) (w_db v) \<and> in_place (settles cutoff S L) (dt_intents (w_db w)) (dt_intents (w_db v))" for v :: "'a world"
  define D where "D x v \<longleftrightarrow> k \<noteq> ReleaseRpc \<longrightarrow> closed k (rpc_key (rqf x) k) (w_db v)" for x and v :: "'a world"
  have "I w' \<and> (\<forall>y. D y w \<longrightarrow> D y w') \<and> (returned r \<longrightarrow> (\<forall>x\<in>set (rows (w_db w)). D x w'))"
  proof (rule for_each_rule [OF _ _ loops])
    show "I w" using start own by (auto simp: I_def in_place_def settles_refl)
  next
    fix x v r v' assume x: "x \<in> set (rows (w_db w))" and v: "I v" and go: "f x v = (r, v')"
    have "keeps (reconciles env ?Q (\<lambda>_. True)) (f x)" using x by (intro body) auto
    then have "reconciles env ?Q (\<lambda>_. True) v v'" using go by (rule keepsD)
    then have step: "dispatch_ok (w_db v')" "\<forall>q\<in>?Q. grounded q (w_db v')" "reconcile_steps env (w_db v) (w_db v')"
      using v unfolding reconciles_def I_def by blast+
    have linked: "linked (w_db v')" using reconcile_steps_linked [OF step(3)] v by (simp add: I_def)
    have since: "in_place (settles cutoff S L) (dt_intents (w_db w)) (dt_intents (w_db v))" using v by (simp add: I_def)
    have "in_place (settles cutoff S L) (dt_intents (w_db v)) (dt_intents (w_db v'))"
      by (rule round_settles [OF _ _ sel [OF x] rnd go]) (use v in \<open>simp_all add: I_def unique_keysI\<close>)
    then have all: "in_place (settles cutoff S L) (dt_intents (w_db w)) (dt_intents (w_db v'))"
      by (rule settles_in_place_trans [OF since])
    have "reconcile_steps env (w_db w) (w_db v')" using v reconcile_steps_trans step(3) by (auto simp: I_def)
    with step linked all have "I v'" by (simp add: I_def)
    moreover have "D y v \<longrightarrow> D y v'" for y
      using reconcile_steps_closed [OF step(3)] v by (simp add: D_def I_def)
    moreover have "returned r \<longrightarrow> D x v'" using closes [of x v] go by (auto simp: D_def returned_def split: sum.splits)
    ultimately show "I v' \<and> (\<forall>y. D y v \<longrightarrow> D y v') \<and> (returned r \<longrightarrow> D x v')" by blast
  qed
  then show ?thesis by (simp add: I_def D_def)
qed

end
