(* ===== verification/ReconcileOutcome.thy ===== *)
theory ReconcileOutcome
  imports ReconcileLoops
begin

section \<open>What a whole reconciliation settles\<close>

text \<open>
  The loops composed: what a whole reconciliation settles, and that nothing stale is overlooked.
\<close>

definition settling ::
    "'a dispatch_env \<Rightarrow> int \<Rightarrow> observation list \<Rightarrow> observation list \<Rightarrow> 'a world \<Rightarrow> 'a world \<Rightarrow> bool" where
  "settling env cutoff S L w w' \<longleftrightarrow>
     (dispatch_ok (w_db w) \<and> linked (w_db w) \<longrightarrow> dispatch_ok (w_db w') \<and> linked (w_db w') \<and>
        reconcile_steps env (w_db w) (w_db w') \<and> in_place (settles cutoff S L) (dt_intents (w_db w)) (dt_intents (w_db w')))"

lemma settles_in_place_refl: "in_place (settles cutoff S L) xs xs"
  by (simp add: in_place_def settles_refl)

interpretation se: world_relation "settling env cutoff S L"
proof unfold_locales
  show "settling env cutoff S L w1 w3" if "settling env cutoff S L w1 w2" "settling env cutoff S L w2 w3" for w1 w2 w3
    using that unfolding settling_def
    by (meson reconcile_steps_trans settles_in_place_trans)
qed (simp_all add: settling_def settles_in_place_refl)

lemma loop_orphans:
  "keeps (settling env cutoff S L) (for_each_row env label (orphan_unknown_lease_requests cutoff) (reconcile_orphan env))"
proof (rule keepsI)
  fix w r w' assume run: "for_each_row env label (orphan_unknown_lease_requests cutoff) (reconcile_orphan env) w = (r, w')"
  show "settling env cutoff S L w w'" unfolding settling_def
  proof (intro impI)
    assume start: "dispatch_ok (w_db w) \<and> linked (w_db w)"
    have none: "orphan_unknown_lease_requests cutoff (w_db w) = []" using no_orphans start by blast
    from run have "w' = w" by (cases rule: for_each_row_cases) (simp_all add: none)
    then show "dispatch_ok (w_db w') \<and> linked (w_db w') \<and> reconcile_steps env (w_db w) (w_db w') \<and>
        in_place (settles cutoff S L) (dt_intents (w_db w)) (dt_intents (w_db w'))"
      using start by (simp add: settles_in_place_refl)
  qed
qed

text \<open>The other loops, and what is closed when they return.\<close>

lemma loop_releases:
  assumes "for_each_row env label (release_pending_requests cutoff) (reconcile_release env listed) w = (r, w')"
    and "dispatch_ok (w_db w)" "linked (w_db w)"
  shows "dispatch_ok (w_db w') \<and> linked (w_db w') \<and> reconcile_steps env (w_db w) (w_db w') \<and>
    in_place (settles cutoff S L) (dt_intents (w_db w)) (dt_intents (w_db w'))"
  using loop_settles [OF assms, where Q = "\<lambda>item. {Inl (pr_request item)}" and k = ReleaseRpc and rqf = pr_request
      and cutoff = cutoff and S = S and L = L]
  by (auto simp: grounded_def reconciles_release round_release selected_def dest: release_pending_owns)

lemma loop_leases:
  assumes "for_each_row env label (unknown_lease_requests cutoff) (reconcile_lease env L) w = (r, w')"
    and "dispatch_ok (w_db w)" "linked (w_db w)"
  shows "dispatch_ok (w_db w') \<and> linked (w_db w') \<and> reconcile_steps env (w_db w) (w_db w') \<and>
    in_place (settles cutoff S L) (dt_intents (w_db w)) (dt_intents (w_db w')) \<and>
    (returned r \<longrightarrow> (\<forall>rq\<in>set (unknown_lease_requests cutoff (w_db w)). closed AcquireRpc (dr_acquire rq) (w_db w')))"
proof -
  let ?xs = "unknown_lease_requests cutoff (w_db w)"
  have "dispatch_ok (w_db w') \<and> linked (w_db w') \<and> reconcile_steps env (w_db w) (w_db w') \<and>
    in_place (settles cutoff S L) (dt_intents (w_db w)) (dt_intents (w_db w')) \<and>
    (returned r \<longrightarrow> AcquireRpc \<noteq> ReleaseRpc \<longrightarrow> (\<forall>rq\<in>set ?xs. closed AcquireRpc (rpc_key rq AcquireRpc) (w_db w')))"
    by (rule loop_settles [OF assms, where Q = "\<lambda>rq. {Inr rq}" and rqf = "\<lambda>rq. rq"])
      (simp_all add: grounded_def reconciles_lease round_lease leases_selected unknown_lease_paired [OF assms(2,3)],
        erule lease_round_closes)
  then show ?thesis by (simp add: rpc_key_def)
qed

lemma unproven_round_closes:
  "reconcile_unproven_spawn env rq w = (Inr n, w') \<Longrightarrow> closed SpawnRpc (rpc_key rq SpawnRpc) (w_db w')"
  unfolding reconcile_unproven_spawn_def by (rule review_round_closes)

lemma loop_unproven:
  assumes "for_each_row env label (spawn_requests_without_acquired_lease_proof cutoff) (reconcile_unproven_spawn env) w = (r, w')"
    and "dispatch_ok (w_db w)" "linked (w_db w)"
  shows "dispatch_ok (w_db w') \<and> linked (w_db w') \<and> reconcile_steps env (w_db w) (w_db w') \<and>
    in_place (settles cutoff S L) (dt_intents (w_db w)) (dt_intents (w_db w')) \<and>
    (returned r \<longrightarrow> (\<forall>rq\<in>set (spawn_requests_without_acquired_lease_proof cutoff (w_db w)). closed SpawnRpc (dr_key rq) (w_db w')))"
proof -
  let ?xs = "spawn_requests_without_acquired_lease_proof cutoff (w_db w)"
  have "dispatch_ok (w_db w') \<and> linked (w_db w') \<and> reconcile_steps env (w_db w) (w_db w') \<and>
    in_place (settles cutoff S L) (dt_intents (w_db w)) (dt_intents (w_db w')) \<and>
    (returned r \<longrightarrow> SpawnRpc \<noteq> ReleaseRpc \<longrightarrow> (\<forall>rq\<in>set ?xs. closed SpawnRpc (rpc_key rq SpawnRpc) (w_db w')))"
    by (rule loop_settles [OF assms, where Q = "\<lambda>_. {}" and rqf = "\<lambda>rq. rq"])
      (simp_all add: reconciles_unproven round_unproven spawns_selected, erule unproven_round_closes)
  then show ?thesis by (simp add: rpc_key_def)
qed

lemma loop_spawns:
  assumes "for_each_row env label (unknown_spawn_requests cutoff) (reconcile_spawn env S) w = (r, w')"
    and "dispatch_ok (w_db w)" "linked (w_db w)"
  shows "dispatch_ok (w_db w') \<and> linked (w_db w') \<and> reconcile_steps env (w_db w) (w_db w') \<and>
    in_place (settles cutoff S L) (dt_intents (w_db w)) (dt_intents (w_db w')) \<and>
    (returned r \<longrightarrow> (\<forall>rq\<in>set (unknown_spawn_requests cutoff (w_db w)). closed SpawnRpc (dr_key rq) (w_db w')))"
proof -
  let ?xs = "unknown_spawn_requests cutoff (w_db w)"
  have "dispatch_ok (w_db w') \<and> linked (w_db w') \<and> reconcile_steps env (w_db w) (w_db w') \<and>
    in_place (settles cutoff S L) (dt_intents (w_db w)) (dt_intents (w_db w')) \<and>
    (returned r \<longrightarrow> SpawnRpc \<noteq> ReleaseRpc \<longrightarrow> (\<forall>rq\<in>set ?xs. closed SpawnRpc (rpc_key rq SpawnRpc) (w_db w')))"
    by (rule loop_settles [OF assms, where Q = "\<lambda>_. {}" and rqf = "\<lambda>rq. rq"])
      (simp_all add: reconciles_spawn round_spawn spawns_selected, erule spawn_round_closes)
  then show ?thesis by (simp add: rpc_key_def)
qed

lemma loop_cleanups:
  assumes "for_each_row (rc_dispatch rc) label acquire_only_cleanup_requests (reconcile_cleanup rc listed) w = (r, w')"
    and "dispatch_ok (w_db w)" "linked (w_db w)"
  shows "dispatch_ok (w_db w') \<and> linked (w_db w') \<and> reconcile_steps (rc_dispatch rc) (w_db w) (w_db w') \<and>
    in_place (settles cutoff S L) (dt_intents (w_db w)) (dt_intents (w_db w'))"
  using loop_settles [OF assms, where Q = "\<lambda>item. {Inl (pr_request item)}" and k = ReleaseRpc and rqf = pr_request
      and cutoff = cutoff and S = S and L = L]
  by (auto simp: grounded_def reconciles_cleanup round_cleanup selected_def dest: cleanup_owns)

lemma settling_intents: "keeps (settling env cutoff S L) (reconcile_intents env cutoff S L)"
  unfolding reconcile_intents_def
proof (intro se.keeps_bind se.keeps_basic loop_orphans)
  show "keeps (settling env cutoff S L) (for_each_row env ''pending releases'' (release_pending_requests cutoff) (reconcile_release env L))"
    by (auto simp: keeps_def settling_def dest: loop_releases)
  show "keeps (settling env cutoff S L) (for_each_row env ''unknown leases'' (unknown_lease_requests cutoff) (reconcile_lease env L))"
    by (auto simp: keeps_def settling_def dest: loop_leases)
  show "keeps (settling env cutoff S L) (for_each_row env ''unproven spawns''
      (spawn_requests_without_acquired_lease_proof cutoff) (reconcile_unproven_spawn env))"
    by (auto simp: keeps_def settling_def dest: loop_unproven)
  show "keeps (settling env cutoff S L) (for_each_row env ''unknown spawns'' (unknown_spawn_requests cutoff) (reconcile_spawn env S))"
    by (auto simp: keeps_def settling_def dest: loop_spawns)
qed

subsection \<open>The whole reconciliation\<close>

text \<open>The two listings of a call, empty when the adapter raises, and its cutoff.\<close>

definition listed :: "exn + observation list \<Rightarrow> observation list" where
  "listed r = (case r of Inl _ \<Rightarrow> [] | Inr l \<Rightarrow> l)"

definition listed_sessions :: "'a reconcile_env \<Rightarrow> 'a world \<Rightarrow> observation list" where
  "listed_sessions rc w = listed (fst (rc_sessions rc (w_adapter w)))"

definition listed_leases :: "'a reconcile_env \<Rightarrow> 'a world \<Rightarrow> observation list" where
  "listed_leases rc w = listed (fst (rc_leases rc (snd (rc_sessions rc (w_adapter w)))))"

definition cutoff_of :: "'a reconcile_env \<Rightarrow> 'a world \<Rightarrow> int" where
  "cutoff_of rc w = dp_time (rc_dispatch rc) (w_ticks w) - pending_rpc_reconcile_grace_ms"

lemma reconcile_settles:
  assumes run: "reconcile_unknown_metadata rc w = (r, w')" and ok: "dispatch_ok (w_db w)" "linked (w_db w)"
  shows "in_place (settles (cutoff_of rc w) (listed_sessions rc w) (listed_leases rc w)) (dt_intents (w_db w)) (dt_intents (w_db w'))"
  using run
proof (cases rule: reconcile_cases)
  case (early e)
  then show ?thesis by (simp add: settles_in_place_refl)
next
  case (runs w0 cutoff S L r1 w1)
  have given: "cutoff_of rc w = cutoff" "listed_sessions rc w = S" "listed_leases rc w = L"
    using runs(3-5) by (simp_all add: cutoff_of_def listed_sessions_def listed_leases_def listed_def)
  have "settling (rc_dispatch rc) cutoff S L w0 w1" by (rule keepsD [OF settling_intents runs(6)])
  then have first: "dispatch_ok (w_db w1)" "linked (w_db w1)" "in_place (settles cutoff S L) (dt_intents (w_db w)) (dt_intents (w_db w1))"
    using ok runs(1) by (auto simp: settling_def)
  show ?thesis unfolding given
  proof (cases r1)
    case (Inl e)
    then show "in_place (settles cutoff S L) (dt_intents (w_db w)) (dt_intents (w_db w'))" using runs(7) first(3) by simp
  next
    case (Inr n)
    then obtain r2 where "for_each_row (rc_dispatch rc) ''acquire-only leases'' acquire_only_cleanup_requests
        (reconcile_cleanup rc L) w1 = (r2, w')"
      using runs(7) by (auto simp: bindM_def split: sum.splits prod.splits)
    from loop_cleanups [OF this first(1,2), of cutoff S L]
    show "in_place (settles cutoff S L) (dt_intents (w_db w)) (dt_intents (w_db w'))"
      using settles_in_place_trans [OF first(3)] by blast
  qed
qed

subsection \<open>Nothing stale remains\<close>

text \<open>Rows added by a reconciliation belong to releases.\<close>

lemma new_rows_release:
  assumes "reconcile_steps env db db'" "dispatch_ok db" "length (dt_intents db) \<le> n" "n < length (dt_intents db')"
  shows "ri_kind (dt_intents db' ! n) = ReleaseRpc"
proof -
  have "dispatch_ok db' \<and> (\<forall>n. length (dt_intents db) \<le> n \<longrightarrow> n < length (dt_intents db') \<longrightarrow> ri_kind (dt_intents db' ! n) = ReleaseRpc)"
    using assms(1,2) unfolding reconcile_steps_def
  proof (induction rule: rtranclp_induct)
    case (step b c)
    then obtain rq rq' where rq: "reconcile_step env rq b c" "moves rq' b c" using reconcile_step_cases by metis
    obtain old new where grown: "dt_intents c = old @ new" "list_all2 intent_moves (dt_intents b) old"
        "list_all (\<lambda>i. ri_kind i = ReleaseRpc) new"
      using rq(2) by (auto simp: moves_def grows_def)
    have len: "length old = length (dt_intents b)" using list_all2_lengthD [OF grown(2)] by simp
    have "ri_kind (dt_intents c ! n) = ReleaseRpc" if n: "length (dt_intents db) \<le> n" "n < length (dt_intents c)" for n
    proof (cases "n < length (dt_intents b)")
      case True
      then have "intent_moves (dt_intents b ! n) (old ! n)" using list_all2_nthD [OF grown(2)] by blast
      moreover have "ri_kind (dt_intents b ! n) = ReleaseRpc" using step n(1) True by blast
      ultimately show ?thesis using True len by (simp add: grown(1) nth_append intent_moves_def)
    next
      case False
      then have "new ! (n - length old) \<in> set new" using n(2) len by (simp add: grown(1))
      then show ?thesis using False len grown(3) by (simp add: grown(1) nth_append list_all_iff)
    qed
    moreover have "dispatch_ok c" using reconcile_keeps_ok [OF rq(1)] step by blast
    ultimately show ?case by blast
  qed simp
  then show ?thesis using assms(3,4) by blast
qed

text \<open>A stale intent was there before, unchanged.\<close>

lemma stale_before:
  assumes "reconcile_steps env db db'" "dispatch_ok db" "in_place (settles cutoff S L) (dt_intents db) (dt_intents db')"
    and "n < length (dt_intents db')" "ri_kind (dt_intents db' ! n) \<noteq> ReleaseRpc" "pending_or_unknown_clause cutoff (dt_intents db' ! n)"
  shows "n < length (dt_intents db)" "dt_intents db ! n = dt_intents db' ! n"
proof -
  show n: "n < length (dt_intents db)" using new_rows_release [OF assms(1,2) _ assms(4)] assms(5) by (meson not_le)
  have "settles cutoff S L (dt_intents db ! n) (dt_intents db' ! n)" using assms(3) n by (simp add: in_place_def)
  then show "dt_intents db ! n = dt_intents db' ! n"
    using assms(5,6) by (auto simp: settles_def pending_or_unknown_clause_def)
qed

lemma stale_open: "pending_or_unknown_clause cutoff i \<Longrightarrow> is_open (ri_state i)"
  by (auto simp: pending_or_unknown_clause_def is_open_def)

text \<open>A review of a spawn leaves the leases and the intents of acquires alone.\<close>

definition leases_alone :: "'a world \<Rightarrow> 'a world \<Rightarrow> bool" where
  "leases_alone w w' \<longleftrightarrow> dt_leases (w_db w') = dt_leases (w_db w) \<and> dt_bindings (w_db w') = dt_bindings (w_db w) \<and>
     filter (\<lambda>i. ri_kind i = AcquireRpc) (dt_intents (w_db w')) = filter (\<lambda>i. ri_kind i = AcquireRpc) (dt_intents (w_db w))"

interpretation la: world_relation leases_alone
  by unfold_locales (auto simp: leases_alone_def)

lemma filter_update_other:
  "(\<And>x. C x \<Longrightarrow> \<not> P x \<and> \<not> P (f x)) \<Longrightarrow> filter P (update_where C f xs) = filter P xs"
  by (induction xs) (auto simp: update_where_def)

lemma alone_review: "keeps leases_alone (mark_human_review env rq SpawnRpc reason)"
  unfolding mark_human_review_def update_intents_def update_leases_def update_spawns_def
    simp_thms(6) if_True
  by (intro la.keeps_rules la.keeps_modify) (auto simp: leases_alone_def intro!: filter_update_other)

lemma alone_unproven:
  assumes "for_each_row env label rows (reconcile_unproven_spawn env) w = (r, w')"
  shows "leases_alone w w'"
  using assms
proof (cases rule: for_each_row_cases)
  case (refused e)
  then show ?thesis by (simp add: leases_alone_def)
next
  case loops
  have "keeps leases_alone (for_each (reconcile_unproven_spawn env) xs)" for xs
  proof (induction xs)
    case Nil
    show ?case unfolding for_each.simps by (rule la.keeps_basic)
  next
    case (Cons x xs)
    then show ?case unfolding for_each.simps reconcile_unproven_spawn_def in_review_def
      by (intro la.keeps_bind la.keeps_basic la.keeps_transaction alone_review)
  qed
  then show ?thesis using loops by (rule keepsD)
qed

lemma intents_leave_nothing_stale:
  assumes run: "reconcile_intents env cutoff S L w = (Inr count, w')" and ok: "dispatch_ok (w_db w)" "linked (w_db w)"
    and i: "i \<in> set (dt_intents (w_db w'))" "ri_kind i \<noteq> ReleaseRpc"
  shows "\<not> pending_or_unknown_clause cutoff i"
proof
  assume stale: "pending_or_unknown_clause cutoff i"
  obtain n1 w1 n2 w2 n3 w3 n4 w4 n5 where
    loop1: "for_each_row env ''orphan leases'' (orphan_unknown_lease_requests cutoff) (reconcile_orphan env) w = (Inr n1, w1)"
    and loop2: "for_each_row env ''pending releases'' (release_pending_requests cutoff) (reconcile_release env L) w1 = (Inr n2, w2)"
    and loop3: "for_each_row env ''unknown leases'' (unknown_lease_requests cutoff) (reconcile_lease env L) w2 = (Inr n3, w3)"
    and loop4: "for_each_row env ''unproven spawns'' (spawn_requests_without_acquired_lease_proof cutoff)
        (reconcile_unproven_spawn env) w3 = (Inr n4, w4)"
    and loop5: "for_each_row env ''unknown spawns'' (unknown_spawn_requests cutoff) (reconcile_spawn env S) w4 = (Inr n5, w')"
    using run unfolding reconcile_intents_def by (auto simp: bindM_Inr_iff)
  have s1: "dispatch_ok (w_db w1)" "linked (w_db w1)"
    using keepsD [OF loop_orphans loop1] ok by (simp_all add: settling_def)
  note f2 = loop_releases [OF loop2 s1, of S L]
  then have s2: "dispatch_ok (w_db w2)" "linked (w_db w2)" by simp_all
  note f3 = loop_leases [OF loop3 s2, of S]
  then have s3: "dispatch_ok (w_db w3)" "linked (w_db w3)" by simp_all
  note f4 = loop_unproven [OF loop4 s3, of S L]
  then have s4: "dispatch_ok (w_db w4)" "linked (w_db w4)" by simp_all
  note f5 = loop_spawns [OF loop5 s4, of L]
  have steps35: "reconcile_steps env (w_db w3) (w_db w')" using f4 f5 reconcile_steps_trans by blast
  obtain n where n: "n < length (dt_intents (w_db w'))" "dt_intents (w_db w') ! n = i" using i(1) unfolding in_set_conv_nth by blast
  have at4: "n < length (dt_intents (w_db w4))" "dt_intents (w_db w4) ! n = i"
    using stale_before [of env "w_db w4" "w_db w'" cutoff S L n] f5 s4 n i(2) stale by simp_all
  have at3: "n < length (dt_intents (w_db w3))" "dt_intents (w_db w3) ! n = i"
    using stale_before [of env "w_db w3" "w_db w4" cutoff S L n] f4 s3 at4 i(2) stale by simp_all
  have at2: "n < length (dt_intents (w_db w2))" "dt_intents (w_db w2) ! n = i"
    using stale_before [of env "w_db w2" "w_db w3" cutoff S L n] f3 s2 at3 i(2) stale by simp_all
  have "is_open (ri_state i)" using stale by (rule stale_open)
  then have not_closed: "\<not> closed (ri_kind i) (ri_key i) db" if "i \<in> set (dt_intents db)" for db
    using that by (auto simp: closed_def)
  show False
  proof (cases "ri_kind i")
    case AcquireRpc
    have "i \<in> set (dt_intents (w_db w2))" using at2 by (metis nth_mem)
    then obtain rq where "rq \<in> set (unknown_lease_requests cutoff (w_db w2))" "dr_acquire rq = ri_key i"
      using stale_acquire_selected [OF s2(2) _ AcquireRpc stale] by blast
    then have "closed AcquireRpc (ri_key i) (w_db w3)" using f3 by (auto simp: returned_def)
    then have "closed AcquireRpc (ri_key i) (w_db w')" using reconcile_steps_closed [OF steps35 s3(1)] by simp
    then show False using not_closed [OF i(1)] AcquireRpc by simp
  next
    case SpawnRpc
    have i4: "i \<in> set (dt_intents (w_db w4))" and i3: "i \<in> set (dt_intents (w_db w3))" using at4 at3 by (metis nth_mem)+
    obtain rq where rq: "dr_key rq = ri_key i" "rq \<in> set (unknown_spawn_requests cutoff (w_db w4)) \<or>
        rq \<in> set (spawn_requests_without_acquired_lease_proof cutoff (w_db w4))"
      using stale_spawn_selected [OF s4(2) i4 SpawnRpc stale] by blast
    from rq(2) show False
    proof
      assume "rq \<in> set (unknown_spawn_requests cutoff (w_db w4))"
      then have "closed SpawnRpc (ri_key i) (w_db w')" using f5 rq(1) by (auto simp: returned_def)
      then show False using not_closed [OF i(1)] SpawnRpc by simp
    next
      assume "rq \<in> set (spawn_requests_without_acquired_lease_proof cutoff (w_db w4))"
      then obtain j b l where j: "j \<in> set (dt_intents (w_db w4))" "(b, l) \<in> set (map fst (dt_bindings (w_db w4))) \<times> set (dt_leases (w_db w4))"
          "rq = spawn_request_from j l" "spawn_bound b j" "ri_reserve j = Some (bd_reserve b)" "lease_bound b l"
          "pending_or_unknown_clause cutoff j"
          "\<not> list_ex (\<lambda>a. acquire_proof b l a \<and> le_state l = Acquired \<and> live_gateway l) (dt_intents (w_db w4))"
        unfolding spawn_requests_without_acquired_lease_proof_def by auto
      have alone: "leases_alone w3 w4" by (rule alone_unproven [OF loop4])
      have "acquire_proof b l a \<Longrightarrow> a \<in> set (dt_intents (w_db w3)) \<Longrightarrow> a \<in> set (dt_intents (w_db w4))" for a
      proof -
        assume a: "acquire_proof b l a" "a \<in> set (dt_intents (w_db w3))"
        then have "a \<in> set (filter (\<lambda>i. ri_kind i = AcquireRpc) (dt_intents (w_db w3)))" by (simp add: acquire_proof_def)
        then have "a \<in> set (filter (\<lambda>i. ri_kind i = AcquireRpc) (dt_intents (w_db w4)))" using alone by (simp add: leases_alone_def)
        then show ?thesis by simp
      qed
      then have none: "\<not> list_ex (\<lambda>a. acquire_proof b l a \<and> le_state l = Acquired \<and> live_gateway l) (dt_intents (w_db w3))"
        using j(8) by (auto simp: list_ex_iff)
      obtain m where m: "m < length (dt_intents (w_db w4))" "dt_intents (w_db w4) ! m = j" using j(1) unfolding in_set_conv_nth by blast
      have "j \<in> set (dt_intents (w_db w3))"
        using stale_before [of env "w_db w3" "w_db w4" cutoff S L m] f4 s3 m j(4,7) by (auto simp: spawn_bound_def)
      then have "rq \<in> set (spawn_requests_without_acquired_lease_proof cutoff (w_db w3))"
        using j alone none unfolding spawn_requests_without_acquired_lease_proof_def leases_alone_def by force
      then have "closed SpawnRpc (ri_key i) (w_db w4)" using f4 rq(1) by (auto simp: returned_def)
      then show False using not_closed [OF i4] SpawnRpc by simp
    qed
  next
    case ReleaseRpc
    then show False using i(2) by simp
  qed
qed

end
