(* ===== verification/ReconcileWaits.thy ===== *)
theory ReconcileWaits
  imports ReconcileOutcome
begin

section \<open>The lease of an open acquire is pending\<close>

text \<open>
  As long as the outcome of an acquire is open, its lease waits for it, without a gateway identity. So
  whatever reconciles the intent finds the lease row as it needs it.
\<close>

definition waiting :: "dispatch_tables \<Rightarrow> bool" where
  "waiting db \<longleftrightarrow> (\<forall>i\<in>set (dt_intents db). ri_kind i = AcquireRpc \<longrightarrow> is_open (ri_state i) \<longrightarrow>
     (\<forall>l\<in>set (dt_leases db). le_client l = ri_client i \<longrightarrow> le_state l = AcquirePending))"

definition unowned :: "dispatch_tables \<Rightarrow> bool" where
  "unowned db \<longleftrightarrow> (\<forall>l\<in>set (dt_leases db). le_state l = AcquirePending \<longrightarrow> le_gateway l = None)"

subsection \<open>Statements\<close>

text \<open>With \<open>c\<close>, the intents of the request's acquire are closed already.\<close>

definition waits :: "bool \<Rightarrow> dispatch_request \<Rightarrow> 'a world \<Rightarrow> 'a world \<Rightarrow> bool" where
  "waits c rq w w' \<longleftrightarrow>
     (waiting (w_db w) \<and> paired rq (w_db w) \<and> (c \<longrightarrow> closed AcquireRpc (dr_acquire rq) (w_db w)) \<longrightarrow>
      waiting (w_db w') \<and> paired rq (w_db w') \<and> (c \<longrightarrow> closed AcquireRpc (dr_acquire rq) (w_db w')))"

interpretation wt: world_relation "waits c rq"
  by unfold_locales (auto simp: waits_def)

lemma waits_same:
  "dt_intents (w_db w') = dt_intents (w_db w) \<Longrightarrow> dt_leases (w_db w') = dt_leases (w_db w) \<Longrightarrow> waits c rq w w'"
  by (simp add: waits_def waiting_def paired_def closed_def)

lemma updated_in: "y \<in> set (update_where C f xs) \<Longrightarrow> \<exists>x\<in>set xs. y = x \<or> C x \<and> y = f x"
  by (auto simp: update_where_def)

definition opens_none :: "rpc_row \<Rightarrow> rpc_row \<Rightarrow> bool" where
  "opens_none i j \<longleftrightarrow> ri_kind j = ri_kind i \<and> ri_key j = ri_key i \<and> ri_client j = ri_client i \<and>
     (ri_kind i = AcquireRpc \<longrightarrow> is_open (ri_state j) \<longrightarrow> is_open (ri_state i))"

lemma opens_none_refl: "opens_none i i"
  by (simp add: opens_none_def)

lemma waits_intents:
  assumes "\<And>j. j \<in> set (dt_intents (w_db w')) \<Longrightarrow> ri_kind j \<noteq> AcquireRpc \<or> (\<exists>i\<in>set (dt_intents (w_db w)). opens_none i j)"
    and "dt_leases (w_db w') = dt_leases (w_db w)"
  shows "waits c rq w w'"
proof -
  have "ri_key j = dr_acquire rq" if "paired rq (w_db w)" "j \<in> set (dt_intents (w_db w'))" "ri_kind j = AcquireRpc"
    "ri_client j = dr_client_lease rq" for j
    using assms(1) [OF that(2)] that by (auto simp: paired_def opens_none_def)
  moreover have "le_state l = AcquirePending" if "waiting (w_db w)" "j \<in> set (dt_intents (w_db w'))" "ri_kind j = AcquireRpc"
    "is_open (ri_state j)" "l \<in> set (dt_leases (w_db w'))" "le_client l = ri_client j" for j l
    using assms(1) [OF that(2)] assms(2) that by (auto simp: waiting_def opens_none_def)
  moreover have "\<not> is_open (ri_state j)" if "closed AcquireRpc (dr_acquire rq) (w_db w)" "j \<in> set (dt_intents (w_db w'))"
    "ri_kind j = AcquireRpc" "ri_key j = dr_acquire rq" for j
    using assms(1) [OF that(2)] that by (auto simp: closed_def opens_none_def)
  ultimately show ?thesis unfolding waits_def waiting_def [of "w_db w'"] paired_def [of rq "w_db w'"] closed_def [of _ _ "w_db w'"]
    by blast
qed

lemma wt_intents: "(\<And>i. C i \<Longrightarrow> opens_none i (f i)) \<Longrightarrow> keeps (waits c rq) (update_intents env l C f)"
  unfolding update_intents_def
  by (intro wt.keeps_bind wt.keeps_basic wt.keeps_modify waits_intents) (auto intro: opens_none_refl dest!: updated_in)

lemma wt_insert_release: "ri_kind i = ReleaseRpc \<Longrightarrow> keeps (waits c rq) (insert_intent env i)"
  unfolding insert_intent_def by (intro wt.keeps_modify waits_intents) (auto intro: opens_none_refl)

lemma wt_spawns: "keeps (waits c rq) (update_spawns env l C f)"
  unfolding update_spawns_def by (intro wt.keeps_bind wt.keeps_basic wt.keeps_modify waits_same) simp_all

lemma wt_sessions: "keeps (waits c rq) (modify env l (\<lambda>db. db\<lparr>dt_sessions := dt_sessions db @ s\<rparr>))"
  by (intro wt.keeps_modify waits_same) simp_all

lemma waits_leases:
  assumes "dt_intents (w_db w') = dt_intents (w_db w)" "dt_leases (w_db w') = update_where C f (dt_leases (w_db w))"
    and "\<And>l. C l \<Longrightarrow> le_client (f l) = le_client l \<and>
      ((le_state l = AcquirePending \<longrightarrow> le_state (f l) = AcquirePending) \<or> c \<and> le_client l = dr_client_lease rq)"
  shows "waits c rq w w'"
proof -
  have "le_state m = AcquirePending"
    if start: "waiting (w_db w)" "paired rq (w_db w)" "c \<longrightarrow> closed AcquireRpc (dr_acquire rq) (w_db w)"
      and i: "i \<in> set (dt_intents (w_db w))" "ri_kind i = AcquireRpc" "is_open (ri_state i)"
      and m: "m \<in> set (dt_leases (w_db w'))" "le_client m = ri_client i" for i m
  proof -
    obtain l where l: "l \<in> set (dt_leases (w_db w))" "m = l \<or> C l \<and> m = f l" using m(1) assms(2) by (auto dest: updated_in)
    then have client: "le_client l = ri_client i" using assms(3) [of l] m(2) by auto
    then have pending: "le_state l = AcquirePending" using start(1) i l(1) by (simp add: waiting_def)
    have "\<not> (c \<and> le_client l = dr_client_lease rq)" using start(2,3) i client by (auto simp: paired_def closed_def)
    then show ?thesis using assms(3) [of l] l(2) pending by auto
  qed
  then show ?thesis
    unfolding waits_def waiting_def [of "w_db w'"] paired_def [of rq "w_db w'"] closed_def [of _ _ "w_db w'"] assms(1)
    by (simp add: paired_def closed_def)
qed

lemma wt_leases:
  assumes "\<And>l. C l \<Longrightarrow> le_client (f l) = le_client l \<and>
      ((le_state l = AcquirePending \<longrightarrow> le_state (f l) = AcquirePending) \<or> c \<and> le_client l = dr_client_lease rq)"
  shows "keeps (waits c rq) (update_leases env l C f)"
  unfolding update_leases_def
  by (intro wt.keeps_bind wt.keeps_basic wt.keeps_modify waits_leases [where C = C and f = f] assms) simp_all

text \<open>A statement that closes the intents of the acquire comes before the one that changes the lease.\<close>

lemma wt_closing:
  assumes C: "C = (\<lambda>i. ri_kind i = AcquireRpc \<and> ri_key i = dr_acquire rq \<and> is_open (ri_state i))"
    and f: "\<And>i. opens_none i (f i) \<and> \<not> is_open (ri_state (f i))"
    and rest: "\<And>n. keeps (waits True rq) (k n)"
  shows "keeps (waits False rq) (bindM (update_intents env l C f) k)"
proof (rule keepsI)
  fix w r w' assume "bindM (update_intents env l C f) k w = (r, w')"
  then show "waits False rq w w'"
  proof (cases rule: bindM_cases)
    case (raises e)
    then show ?thesis using keepsD [OF wt_intents, of C f env l w] f by blast
  next
    case (goes_on n w1)
    have one: "w1 = w\<lparr>w_db := (w_db w)\<lparr>dt_intents := update_where C f (dt_intents (w_db w))\<rparr>\<rparr>"
      using update_Inr(1) [OF goes_on(1)] by blast
    have "closed AcquireRpc (dr_acquire rq) (w_db w1)"
      unfolding one C by (rule closed_update) (simp, use f in auto)
    moreover have "waits False rq w w1" using keepsD [OF wt_intents goes_on(1)] f by blast
    moreover have "waits True rq w1 w'" using keepsD [OF rest goes_on(2)] .
    ultimately show ?thesis by (auto simp: waits_def)
  qed
qed


subsection \<open>Operations\<close>

lemma wt_strictly_after: "keeps (waits c rq) (strictly_after_requested_time env kind key)"
  unfolding strictly_after_requested_time_def by (intro wt.keeps_rules)

lemma wt_review_acquire: "keeps (waits False rq) (mark_human_review env rq AcquireRpc reason)"
proof -
  have "rpc_key rq AcquireRpc = dr_acquire rq" by (simp add: rpc_key_def)
  then show ?thesis unfolding mark_human_review_def open_states
    by (intro wt_closing wt.keeps_basic wt.keeps_bind wt.keeps_if wt_leases wt_spawns) (simp_all add: opens_none_def)
qed

lemma wt_review_spawn: "keeps (waits c rq) (mark_human_review env rq' SpawnRpc reason)"
  unfolding mark_human_review_def open_states simp_thms(6) if_True
  by (intro wt.keeps_basic wt.keeps_bind wt_intents wt_spawns) (simp add: opens_none_def)

lemma wt_acquired: "keeps (waits False rq) (persist_acquired_lease env rq obs g reconciled)"
  unfolding persist_acquired_lease_def
  by (intro wt_closing wt_strictly_after wt.keeps_basic wt.keeps_bind wt_leases) (auto simp: opens_none_def)

lemma wt_candidate: "keeps (waits c rq) (persist_unknown_acquired_lease_candidate env rq obs g reason)"
  unfolding persist_unknown_acquired_lease_candidate_def open_states
  by (intro wt.keeps_basic wt.keeps_bind wt_intents wt_leases) (simp_all add: opens_none_def)

lemma wt_unknown: "keeps (waits c rq) (mark_unknown env rq kind reason)"
  unfolding mark_unknown_def open_states
  by (intro wt.keeps_basic wt.keeps_bind wt.keeps_if wt_intents wt_leases wt_spawns) (simp_all add: opens_none_def)

lemma wt_acceptance: "keeps (waits c rq) (persist_spawn_acceptance env rq' obs k reconciled)"
  unfolding persist_spawn_acceptance_def assert_no_potentially_live_dispatch_def
  by (intro wt.keeps_rules wt_strictly_after wt_intents wt_spawns wt_sessions) (simp add: opens_none_def)

lemma wt_accept_or_review: "keeps (waits c rq) (accept_or_review env rq' obs k)"
proof -
  have "keeps (waits c rq) (case e of RuntimeDispatchError message \<Rightarrow> in_review (mark_human_review env rq' SpawnRpc message)
      | _ \<Rightarrow> raiseM e)" for e
    by (cases e) (simp_all add: wt.keeps_basic in_review_def wt.keeps_bind wt_review_spawn)
  then show ?thesis unfolding accept_or_review_def by (intro wt.keeps_catch wt.keeps_bind wt.keeps_basic wt_acceptance)
qed

lemma wt_ambiguous_spawn: "keeps (waits c rq) (record_ambiguous_spawn env rq' e)"
  unfolding record_ambiguous_spawn_def persist_ambiguous_spawn_candidate_def
  by (intro wt.keeps_rules wt_review_spawn wt_intents) (simp add: opens_none_def)

lemma wt_expire: "keeps (waits c rq) (expire_locally_expired_lease_before_spawn env rq' g)"
  unfolding expire_locally_expired_lease_before_spawn_def Let_def
  by (intro wt.keeps_rules wt_review_spawn wt_leases) simp

lemma wt_ambiguous_acquire: "keeps (waits False rq) (record_ambiguous_acquire env rq e)"
  unfolding record_ambiguous_acquire_def on_contract_failure_def
  by (intro wt.keeps_rules wt_candidate wt_unknown wt_review_spawn)

lemma wt_failed_acquire: "keeps (waits False rq) (record_failed_acquire env rq acquired e)"
  unfolding record_failed_acquire_def on_contract_failure_def
  by (intro wt.keeps_rules wt_candidate wt_review_acquire wt_review_spawn)

lemma wt_release:
  "keeps (waits c rq) (mark_owned_lease_release_review env rq' g reason)"
  "keeps (waits c rq) (mark_owned_lease_release_unknown env rq' g reason)"
  "keeps (waits c rq) (prepare_owned_lease_release env rq' g)"
  unfolding mark_owned_lease_release_review_def mark_owned_lease_release_unknown_def prepare_owned_lease_release_def open_states
  by (intro wt.keeps_rules wt_intents wt_leases wt_insert_release; auto simp: opens_none_def new_intent_def)+

lemma wt_released: "keeps (waits c rq) (persist_released_lease env rq' obs g reconciled)"
  unfolding persist_released_lease_def
  by (intro wt.keeps_rules wt.keeps_option wt_strictly_after wt_intents wt_leases) (auto simp: opens_none_def)

lemmas wt_later = wt_acquired wt_ambiguous_acquire wt_failed_acquire wt_expire wt_acceptance wt_ambiguous_spawn
  wt_review_spawn wt_release wt_released

subsection \<open>Steps\<close>

lemma waits_step:
  assumes "keeps (waits False rq) m" "immediate_transaction env m w = (r, w')" "waiting (w_db w)" "paired rq (w_db w)"
  shows "waiting (w_db w')"
  using keepsD [OF wt.keeps_transaction [OF assms(1)] assms(2)] assms(3,4) by (simp add: waits_def)

text \<open>Unless it needs the pairing, an operation keeps the property for any request.\<close>

lemma waits_step_any:
  assumes "\<And>rq. keeps (waits False rq) m" "immediate_transaction env m w = (r, w')" "waiting (w_db w)"
  shows "waiting (w_db w')"
proof -
  have "finite (ri_client ` set (dt_intents (w_db w)))" by simp
  then obtain key :: string where "key \<notin> ri_client ` set (dt_intents (w_db w))"
    using ex_new_if_finite infinite_UNIV_listI by blast
  then have "paired (rq\<lparr>dr_client_lease := key\<rparr>) (w_db w)" for rq by (auto simp: paired_def)
  then show ?thesis using waits_step [OF assms(1,2,3)] by blast
qed

subsection \<open>Interleavings\<close>

lemma opens_waiting:
  assumes opens: "opens rq db db'" and before: "waiting db" "unowned db"
  shows "waiting db' \<and> unowned db'"
proof -
  obtain L A i where rows: "dt_leases db' = dt_leases db @ L" "new_leases rq db L" "dt_intents db' = dt_intents db @ A @ [i]"
      "new_acquires rq db A" "ri_kind i = SpawnRpc"
    using opens by (auto simp: opens_def new_spawn_intent_def)
  have A: "acquire_intent_of rq a" if "a \<in> set A" for a
    using rows(4) that by (auto simp: new_acquires_def split: list.splits)
  have "le_state l = AcquirePending"
    if a: "a \<in> set (dt_intents db')" "ri_kind a = AcquireRpc" "is_open (ri_state a)"
      and l: "l \<in> set (dt_leases db')" "le_client l = ri_client a" for a l
  proof (cases "l \<in> set L \<or> a \<in> set A")
    case True
    then have "shares_lease_key rq l"
      using new_leases_facts(4) [OF rows(2), of l] A [of a] l(2)
      by (auto simp: shares_lease_key_def pending_lease_def acquire_intent_of_def)
    then show ?thesis using new_leases_facts(2) [OF rows(2), of l] l(1) by (simp add: rows(1))
  next
    case False
    then show ?thesis using a l before(1) rows by (auto simp: waiting_def)
  qed
  moreover have "le_gateway l = None" if "l \<in> set (dt_leases db')" "le_state l = AcquirePending" for l
  proof (cases "l \<in> set L")
    case True
    then show ?thesis using rows(2) by (auto simp: new_leases_def split: list.splits)
  next
    case False
    then show ?thesis using that before(2) by (auto simp: unowned_def rows(1))
  qed
  ultimately show ?thesis unfolding waiting_def unowned_def by blast
qed

lemma pending_lease_stayed: "lease_moves gs gs' \<Longrightarrow> snd gs' = AcquirePending \<Longrightarrow> gs' = gs"
  by (erule rtranclp.cases) (auto elim: lease_step.cases)

lemma moves_unowned:
  assumes "moves rq db db'" "unowned db"
  shows "unowned db'"
  unfolding unowned_def
proof (intro ballI impI)
  fix m assume m: "m \<in> set (dt_leases db')" "le_state m = AcquirePending"
  obtain l where l: "l \<in> set (dt_leases db)" "lease_row_moves rq l m" using moves_leases(1) [OF assms(1) m(1)] by blast
  then have "(le_gateway m, le_state m) = (le_gateway l, le_state l)"
    by (intro pending_lease_stayed) (simp_all add: lease_row_moves_def m(2))
  then show "le_gateway m = None" using assms(2) l(1) m(2) by (simp add: unowned_def)
qed

lemma admitted_paired: "dispatch_ok db \<Longrightarrow> linked db \<Longrightarrow> admitted rq db \<Longrightarrow> paired rq db"
  unfolding admitted_def by (elim bexE) (rule acquires_paired, auto simp: binding_of_def)

lemma later_waiting:
  assumes "immediate_transaction env m w = (r, w')" "keeps (waits False rq) m" "admitted rq (w_db w)"
    and "dispatch_ok (w_db w)" "linked (w_db w)" "waiting (w_db w)"
  shows "waiting (w_db w')"
  using waits_step [OF assms(2,1,6)] admitted_paired [OF assms(4,5,3)] by blast

lemma dispatch_step_waiting:
  assumes step: "dispatch_step env rq db db'" and ok: "dispatch_ok db" "linked db" and before: "waiting db" "unowned db"
  shows "waiting db' \<and> unowned db'"
proof -
  have owned: "unowned db'"
    using step by (cases rule: dispatch_step_cases) (use before opens_waiting moves_unowned in blast)+
  have "waiting db'"
    using step ok before
  proof (induction rule: dispatch_step.induct)
    case (begins w r w')
    from begins(1) show ?case
    proof (cases rule: transaction_cases)
      case unchanged
      then show ?thesis using begins by simp
    next
      case (committed x)
      from committed(2) show ?thesis
        by (cases rule: begin_dispatch_cases) (use begins opens_waiting in auto)
    qed
  qed (rule later_waiting, assumption, rule wt_later, assumption+)+
  then show ?thesis using owned by simp
qed

lemma reconcile_step_waiting:
  assumes step: "reconcile_step env rq db db'" and ok: "dispatch_ok db" and before: "waiting db" "unowned db"
  shows "waiting db' \<and> unowned db'"
proof -
  obtain rq' where "moves rq' db db'" using step ok by (rule reconcile_step_cases)
  then have owned: "unowned db'" using before(2) by (rule moves_unowned)
  have in_review: "keeps (waits c rq') (in_review m)" if "keeps (waits c rq') m" for c rq' m
    unfolding in_review_def using that by (intro wt.keeps_bind wt.keeps_basic)
  have "waiting db'"
    using step before(1)
  proof (induction rule: reconcile_step.induct)
    case (reviews kind w reason r w')
    show ?case
    proof (cases kind)
      case AcquireRpc
      then show ?thesis using waits_step [OF in_review [OF wt_review_acquire]] reviews by blast
    next
      case SpawnRpc
      then show ?thesis using waits_step_any [OF in_review [OF wt_review_spawn]] reviews by blast
    qed (use reviews in simp)
  next
    case (lease_accepted w obs g r w')
    have "keeps (waits False rq) (bindM (persist_acquired_lease env rq obs g True) (\<lambda>_. returnM one_reconciled))"
      by (intro wt.keeps_bind wt.keeps_basic wt_acquired)
    then show ?case using waits_step lease_accepted by blast
  next
    case (spawn_accepted obs k w r w')
    then show ?case using waits_step_any [OF wt_accept_or_review] by blast
  next
    case (release_in_doubt w g reason r w')
    then show ?case using waits_step_any [OF in_review [OF wt_release(1)]] by blast
  qed (rule waits_step_any, rule wt_release wt_released, assumption, assumption)+
  then show ?thesis using owned by simp
qed

lemma reached_waiting: "dispatches E db \<Longrightarrow> waiting db \<and> unowned db"
proof (induction rule: dispatches.induct)
  case (no_dispatch db)
  then show ?case by (simp add: waiting_def unowned_def)
next
  case (transaction db env rq db')
  then show ?case using dispatch_step_waiting reached_ok reached_linked by blast
next
  case (reconciliation db env rq db')
  then show ?case using reconcile_step_waiting reached_ok by blast
next
  case (reserves db r)
  then show ?case by (simp add: waiting_def unowned_def)
qed

end
