(* ===== verification/ReconcileReturns.thy ===== *)
theory ReconcileReturns
  imports ReconcileWaits DispatchHonest
begin

section \<open>Reconciliations settle everything stale\<close>

text \<open>
  When the engine accepts every statement and the listings stay within the model, the loops over intents
  return: scans find only contract failures, acceptances raise only what becomes a review, and each
  acquire is selected once and finds its pending lease. So nothing stale remains.
\<close>

subsection \<open>Scans return\<close>

definition readable :: "observation \<Rightarrow> bool" where
  "readable obs \<longleftrightarrow> (\<forall>raw. obs_raw_json obs = Some raw \<longrightarrow> raw_json_object raw \<noteq> Inl wide_char)"

lemma not_wide:
  "exact_nonempty_fields d names label \<noteq> Inl wide_char"
  "list_all (has_key d) names \<Longrightarrow> select_fields d names \<noteq> Inl wide_char"
  "allow_values d label exact \<noteq> Inl wide_char"
  "rename_release_key d label external \<noteq> Inl wide_char"
  "raw_object s names = Inl wide_char \<longleftrightarrow> raw_json_object s = Inl wide_char"
  "release_values d label exact \<noteq> Inl wide_char"
proof -
  show exact: "exact_nonempty_fields d names label \<noteq> Inl wide_char" for d names label
    by (auto simp: exact_nonempty_fields_def raise_simps getitem_def wide_char_def split: option.splits dest!: mapE_error)
  show select: "list_all (has_key d) names \<Longrightarrow> select_fields d names \<noteq> Inl wide_char" for d names
    by (simp add: select_fields_all)
  show "allow_values d label exact \<noteq> Inl wide_char"
  proof -
    have "list_all (has_key d) allow_lease_observed_fields \<Longrightarrow> list_all (has_key d) allow_lease_identity_fields"
      by (simp add: allow_lease_observed_fields_def)
    then show ?thesis using exact select
      by (auto simp: allow_values_def raise_simps getitem_def wide_char_def split: option.splits)
  qed
  show rename: "rename_release_key d label external \<noteq> Inl wide_char" for external
    by (auto simp: rename_release_key_def wide_char_def Let_def split: option.splits)
  show "raw_object s names = Inl wide_char \<longleftrightarrow> raw_json_object s = Inl wide_char"
    using exact select by (auto simp: raw_object_def raise_simps wide_char_def)
  show "release_values d label exact \<noteq> Inl wide_char"
    using exact select rename by (auto simp: release_values_def raise_simps wide_char_def)
qed

lemma contract_failure_iff: "contract_error e \<Longrightarrow> e \<noteq> wide_char \<Longrightarrow> contract_failure e"
  by (auto simp: contract_error_def contract_failure_def)

lemma validators_refuse:
  assumes "readable obs"
  shows "validate_session_observation l (obs_normalized obs) (obs_raw_json obs) v = Inl e \<Longrightarrow> contract_failure e"
    and "validate_allow_lease_observation l (obs_normalized obs) (obs_raw_json obs) v = Inl e \<Longrightarrow> contract_failure e"
    and "validate_allow_lease_release_observation l (obs_normalized obs) (obs_raw_json obs) v = Inl e \<Longrightarrow> contract_failure e"
proof -
  have wide: "obs_raw_json obs = Some raw \<Longrightarrow> raw_json_object raw = Inl wide_char \<Longrightarrow> False" for raw
    using assms by (simp add: readable_def)
  have "validate_session_observation l (obs_normalized obs) (obs_raw_json obs) v \<noteq> Inl wide_char"
    using wide by (auto simp: validate_session_observation_def validate_metadata_observation_def raise_simps not_wide wide_char_def [symmetric]
      split: option.splits if_splits) (simp_all add: wide_char_def)
  moreover have "validate_allow_lease_observation l (obs_normalized obs) (obs_raw_json obs) v \<noteq> Inl wide_char"
    using wide by (auto simp: validate_allow_lease_observation_def raise_simps not_wide
      split: option.splits if_splits) (simp_all add: wide_char_def)
  moreover have "validate_allow_lease_release_observation l (obs_normalized obs) (obs_raw_json obs) v \<noteq> Inl wide_char"
    using wide by (auto simp: validate_allow_lease_release_observation_def raise_simps not_wide
      split: option.splits if_splits) (simp_all add: wide_char_def)
  ultimately show "validate_session_observation l (obs_normalized obs) (obs_raw_json obs) v = Inl e \<Longrightarrow> contract_failure e"
    and "validate_allow_lease_observation l (obs_normalized obs) (obs_raw_json obs) v = Inl e \<Longrightarrow> contract_failure e"
    and "validate_allow_lease_release_observation l (obs_normalized obs) (obs_raw_json obs) v = Inl e \<Longrightarrow> contract_failure e"
    using validators_raise_contract_errors contract_failure_iff by metis+
qed

lemma scan_returns:
  "(\<And>obs e. obs \<in> set xs \<Longrightarrow> check obs = Inl e \<Longrightarrow> contract_failure e) \<Longrightarrow> \<exists>s. scan_observations check looks xs = Inr s"
proof (induction xs)
  case (Cons obs xs)
  then obtain s where "scan_observations check looks xs = Inr s" by auto
  then show ?case using Cons.prems [of obs] by (auto split: sum.splits option.splits)
qed simp

lemma session_identity_refuses: "validate_accepted_session_identity a b c d = Inl e \<Longrightarrow> contract_failure e"
  by (auto simp: validate_accepted_session_identity_def contract_failure_def split: option.splits if_splits)

lemma scans_return:
  assumes "list_all readable seen"
  shows "\<exists>scan. matching_sessions rq seen = Inr scan"
    and "\<exists>scan. matching_leases rq seen = Inr scan"
    and "\<exists>scan. matching_releases rq g seen = Inr scan"
proof -
  have ok: "readable obs" if "obs \<in> set seen" for obs using assms that by (simp add: list_all_iff)
  have "contract_failure e" if "obs \<in> set seen" "session_match rq obs = Inl e" for obs e
    using that(2) validators_refuse(1) [OF ok [OF that(1)]] session_identity_refuses
    by (auto simp: session_match_def raise_simps)
  then show "\<exists>scan. matching_sessions rq seen = Inr scan" unfolding matching_sessions_def by (rule scan_returns)
  have "contract_failure e" if "obs \<in> set seen" "lease_match rq obs = Inl e" for obs e
    using that(2) validators_refuse(2) [OF ok [OF that(1)]] by (auto simp: lease_match_def raise_simps split: if_splits)
  then show "\<exists>scan. matching_leases rq seen = Inr scan" unfolding matching_leases_def by (rule scan_returns)
  have "contract_failure e" if "obs \<in> set seen" "release_match rq g obs = Inl e" for obs e
    using that(2) validators_refuse(3) [OF ok [OF that(1)]] by (auto simp: release_match_def raise_simps)
  then show "\<exists>scan. matching_releases rq g seen = Inr scan" unfolding matching_releases_def by (rule scan_returns)
qed

text \<open>What a scan matched is stored without error.\<close>

lemma matched_lease_columns:
  assumes "matching_leases rq seen = Inr scan" "sole_match scan = Some (obs, g)"
  shows "\<exists>c. lease_observed rq obs g = Inr c"
proof -
  obtain o1 where "lease_match rq o1 = Inr (Some (obs, g))"
    using sole_match_listed [OF assms(1) [unfolded matching_leases_def] assms(2)] lease_match_looks by auto
  then obtain d where d: "validate_allow_lease_observation (lease_metadata rq g) (obs_normalized obs) (obs_raw_json obs) (obs_version obs) = Inr d"
    by (auto simp: lease_match_def err_simps split: if_splits)
  then obtain v t where "fields_of (lease_metadata rq g) allow_lease_identity_fields v"
      "d = str_dict v @ [(''ttl_ms'', PInt t), (''gateway_lease_id'', PStr g)]"
    unfolding validate_allow_lease_observation_iff allow_values_Inr_iff by (auto simp: lease_metadata_def)
  then have "\<exists>c. lease_columns d = Inr c"
    by (auto simp: fields_of_def allow_lease_identity_fields_def list_all2_Cons1 str_dict_def lease_columns_def text_column_def
        getitem_def str_value_def)
  then show ?thesis using d by (simp add: lease_observed_def)
qed

lemma matched_session_columns:
  assumes "matching_sessions rq seen = Inr scan" "sole_match scan = Some (obs, k)"
  shows "\<exists>c. session_observed rq obs = Inr c"
proof -
  obtain o1 where "session_match rq o1 = Inr (Some (obs, k))"
    using sole_match_listed [OF assms(1) [unfolded matching_sessions_def] assms(2)] session_match_looks by auto
  then obtain v where v: "validate_session_observation (spawn_metadata rq) (obs_normalized obs) (obs_raw_json obs) (obs_version obs) = Inr v"
    by (auto simp: session_match_def err_simps)
  then have "fields_of (spawn_metadata rq) session_fields v"
    unfolding validate_session_observation_def validate_metadata_observation_iff by auto
  then have "\<exists>c. session_columns (str_dict v) = Inr c"
    by (auto simp: fields_of_def session_fields_def list_all2_Cons1 str_dict_def session_columns_def text_column_def
        getitem_def str_value_def)
  then show ?thesis using v by (simp add: session_observed_def)
qed

subsection \<open>Transactions return\<close>

text \<open>When the engine accepts every statement, a transaction that only updates and queries returns.\<close>

definition returns :: "('a, 'b) operation \<Rightarrow> 'a world \<Rightarrow> bool" where
  "returns m w \<longleftrightarrow> (\<exists>x w'. m w = (Inr x, w'))"

lemma returns_bind: "returns m w \<Longrightarrow> (\<And>x w'. m w = (Inr x, w') \<Longrightarrow> returns (f x) w') \<Longrightarrow> returns (bindM m f) w"
  by (auto simp: returns_def bindM_def)

lemma returns_ready:
  assumes "ready env"
  shows "returns (returnM x) w" "returns (now_utc env) w" "returns (liftM (Inr y)) w" "returns (query env l q) w"
    "returns (update_intents env l C f) w" "returns (update_leases env l C' f') w" "returns (update_spawns env l C'' f'') w"
    "returns m w \<Longrightarrow> returns (immediate_transaction env m) w"
  using ready_statements(6) [OF assms, of m w]
  by (auto simp: returns_def ready_statements [OF assms] running)

lemma returns_if: "returns m w \<Longrightarrow> returns m' w \<Longrightarrow> returns (if c then m else m') w"
  by simp

lemma reviews_return:
  assumes "ready env"
  shows "returns (mark_human_review env rq kind reason) w" "returns (mark_owned_lease_release_review env rq g reason) w"
  unfolding mark_human_review_def mark_owned_lease_release_review_def
  by (intro returns_bind returns_if returns_ready [OF assms])+

lemma in_review_returns: "returns m w \<Longrightarrow> returns (in_review m) w"
  unfolding in_review_def by (rule returns_bind) (simp_all add: returns_def)

lemma for_each_returns: "(\<And>x w. returns (f x) w) \<Longrightarrow> returns (for_each f xs) w"
  by (induction xs arbitrary: w) (simp add: returns_def, simp, intro returns_bind, simp_all add: returns_def)

lemma for_each_row_returns:
  assumes "ready env" "returns (for_each f (rows (w_db w))) w"
  shows "returns (for_each_row env label rows f) w"
  using assms(2) by (simp add: for_each_row_def returns_def bindM_def ready_statements [OF assms(1)])

lemma release_round_returns:
  assumes "ready env" "list_all readable seen"
  shows "returns (reconcile_release env seen item) w"
proof -
  obtain scan where "matching_releases (pr_request item) (pr_gateway item) seen = Inr scan" using scans_return(3) [OF assms(2)] by blast
  then show ?thesis unfolding reconcile_release_def
    by (simp add: bindM_def [of "liftM _"]) (intro returns_ready in_review_returns reviews_return assms(1))
qed

lemma unproven_round_returns: "ready env \<Longrightarrow> returns (reconcile_unproven_spawn env rq) w"
  unfolding reconcile_unproven_spawn_def by (intro returns_ready in_review_returns reviews_return)

text \<open>An acceptance raises at most what its caller turns into a review.\<close>

definition refuses :: "('a, 'b) operation \<Rightarrow> bool" where
  "refuses m \<longleftrightarrow> (\<forall>w e w'. m w = (Inl e, w') \<longrightarrow> (\<exists>message. e = RuntimeDispatchError message))"

lemma refuses_bind: "refuses m \<Longrightarrow> (\<And>x. refuses (f x)) \<Longrightarrow> refuses (bindM m f)"
  unfolding refuses_def by (intro allI impI, erule bindM_cases) blast+

lemma refuses_ready:
  assumes "ready env"
  shows "refuses (returnM x)" "refuses (now_utc env)" "refuses (liftM (Inr y))" "refuses (query env l q)"
    "refuses (update_intents env l C f)" "refuses (update_spawns env l C'' f'')" "refuses (modify env l g)"
    "refuses (requireM ok message)" "refuses (raiseM (RuntimeDispatchError message))"
  by (simp_all add: refuses_def ready_statements [OF assms] running requireM_def)

lemma refuses_option: "refuses m \<Longrightarrow> (\<And>x. refuses (f x)) \<Longrightarrow> refuses (case v of None \<Rightarrow> m | Some x \<Rightarrow> f x)"
  by (cases v) simp_all

lemma acceptance_refuses:
  assumes "ready env" "session_observed rq obs = Inr c"
  shows "refuses (persist_spawn_acceptance env rq obs k reconciled)"
  unfolding persist_spawn_acceptance_def assert_no_potentially_live_dispatch_def strictly_after_requested_time_def assms(2)
  by (intro refuses_bind refuses_option refuses_ready [OF assms(1)])

lemma spawn_round_returns:
  assumes "ready env" "list_all readable seen"
  shows "returns (reconcile_spawn env seen rq) w"
proof -
  obtain scan where scan: "matching_sessions rq seen = Inr scan" using scans_return(1) [OF assms(2)] by blast
  have accept: "returns (accept_or_review env rq obs k) w" if sole: "sole_match scan = Some (obs, k)" for obs k w
  proof -
    obtain c where "session_observed rq obs = Inr c" using matched_session_columns [OF scan sole] by blast
    then have quiet: "refuses (persist_spawn_acceptance env rq obs k True)" by (rule acceptance_refuses [OF assms(1)])
    have review: "returns (in_review (mark_human_review env rq SpawnRpc message)) v" for message v
      by (intro in_review_returns reviews_return assms(1))
    obtain r v where run: "persist_spawn_acceptance env rq obs k True w = (r, v)" by fastforce
    show ?thesis
    proof (cases r)
      case (Inl e)
      then obtain message where "e = RuntimeDispatchError message" using quiet run unfolding refuses_def by blast
      then show ?thesis using review [of message v] run Inl by (simp add: accept_or_review_def catchM_def bindM_def returns_def)
    next
      case (Inr u)
      then show ?thesis using run by (simp add: accept_or_review_def catchM_def bindM_def returns_def)
    qed
  qed
  have "returns (case sole_match scan of
          None \<Rightarrow> in_review (mark_human_review env rq SpawnRpc (session_review_reason scan))
        | Some (obs, session_key) \<Rightarrow> accept_or_review env rq obs session_key) w"
    using accept by (auto split: option.splits intro: in_review_returns reviews_return assms(1))
  then have "returns (immediate_transaction env (case sole_match scan of
          None \<Rightarrow> in_review (mark_human_review env rq SpawnRpc (session_review_reason scan))
        | Some (obs, session_key) \<Rightarrow> accept_or_review env rq obs session_key)) w" by (rule returns_ready(8) [OF assms(1)])
  then show ?thesis by (simp add: reconcile_spawn_def scan bindM_def [of "liftM _"])
qed

subsection \<open>The loop over acquires returns\<close>

lemma one_key:
  "distinct (map f (filter P xs)) \<Longrightarrow> x \<in> set xs \<Longrightarrow> P x \<Longrightarrow> Q x \<Longrightarrow> filter (\<lambda>y. P y \<and> f y = f x \<and> Q y) xs = [x]"
  by (induction xs) (auto simp: filter_empty_conv image_iff split: if_splits)

text \<open>The acquire of a request is open.\<close>

definition acquire_open :: "dispatch_request \<Rightarrow> dispatch_tables \<Rightarrow> bool" where
  "acquire_open rq db \<longleftrightarrow> (\<exists>i\<in>set (dt_intents db). ri_kind i = AcquireRpc \<and> ri_key i = dr_acquire rq \<and>
     ri_client i = dr_client_lease rq \<and> is_open (ri_state i))"

definition sound :: "dispatch_tables \<Rightarrow> bool" where
  "sound db \<longleftrightarrow> dispatch_ok db \<and> linked db \<and> waiting db \<and> unowned db"

lemma acquired_returns:
  assumes ready: "ready env" and sound: "sound (w_db w)" and opened: "acquire_open rq (w_db w)"
    and columns: "lease_observed rq obs g = Inr c"
  shows "returns (persist_acquired_lease env rq obs g True) w"
proof -
  let ?db = "w_db w"
  obtain i where i: "i \<in> set (dt_intents ?db)" "ri_kind i = AcquireRpc" "ri_key i = dr_acquire rq"
      "ri_client i = dr_client_lease rq" "is_open (ri_state i)" using opened by (auto simp: acquire_open_def)
  have ok: "dispatch_ok ?db" "linked ?db" "waiting ?db" "unowned ?db" using sound by (simp_all add: sound_def)
  have "distinct (map ri_key (filter (\<lambda>i. ri_kind i = AcquireRpc) (dt_intents ?db)))"
    using linkedD(5) [OF ok(2)] by (simp add: acquire_keys_def)
  then have intents: "filter (\<lambda>y. ri_kind y = AcquireRpc \<and> ri_key y = dr_acquire rq \<and> is_open (ri_state y)) (dt_intents ?db) = [i]"
    using one_key [of ri_key "\<lambda>i. ri_kind i = AcquireRpc" "dt_intents ?db" i "\<lambda>y. is_open (ri_state y)"] i by simp
  obtain b where b: "b \<in> set (dt_bindings ?db)" "acquire_bound (fst b) i" using linkedD(3) [OF ok(2) i(1,2)] by blast
  obtain l where l: "l \<in> set (dt_leases ?db)" "lease_bound (fst b) l" using linkedD(1) [OF ok(2) b(1)] by blast
  have client: "le_client l = dr_client_lease rq" using b(2) l(2) i(4) by (simp add: acquire_bound_def lease_bound_def)
  then have "le_state l = AcquirePending" using ok(3) i l(1) by (auto simp: waiting_def)
  moreover have "le_gateway l = None" using ok(4) l(1) calculation by (auto simp: unowned_def)
  moreover have "distinct (map le_client (filter (\<lambda>_. True) (dt_leases ?db)))" using ok(1) by (simp add: dispatch_ok_def)
  ultimately have leases: "filter (\<lambda>l. le_client l = dr_client_lease rq \<and> le_state l = AcquirePending \<and> le_gateway l = None)
      (dt_leases ?db) = [l]"
    using one_key [of le_client "\<lambda>_. True" "dt_leases ?db" l "\<lambda>l. le_state l = AcquirePending \<and> le_gateway l = None"] l(1) client
    by simp
  obtain j where "find (\<lambda>i. ri_kind i = AcquireRpc \<and> ri_key i = dr_acquire rq) (dt_intents ?db) = Some j"
    using i(1-3) by (cases "find (\<lambda>i. ri_kind i = AcquireRpc \<and> ri_key i = dr_acquire rq) (dt_intents ?db)")
      (auto simp: find_None_iff)
  then show ?thesis
    unfolding persist_acquired_lease_def strictly_after_requested_time_def returns_def
    by (simp add: bindM_def ready_statements [OF ready] running columns intents leases requireM_def now_utc_def Let_def)
qed

lemma lease_round_returns:
  assumes ready: "ready env" and seen: "list_all readable seen" and sound: "sound (w_db w)" and opened: "acquire_open rq (w_db w)"
  shows "returns (reconcile_lease env seen rq) w"
proof -
  obtain scan where scan: "matching_leases rq seen = Inr scan" using scans_return(2) [OF seen] by blast
  have accept: "returns (bindM (persist_acquired_lease env rq obs g True) (\<lambda>_. returnM one_reconciled)) w"
    if sole: "sole_match scan = Some (obs, g)" for obs g
  proof -
    obtain c where c: "lease_observed rq obs g = Inr c" using matched_lease_columns [OF scan sole] by blast
    show ?thesis by (rule returns_bind [OF acquired_returns [OF ready sound opened c]]) (simp add: returns_def)
  qed
  have "returns (case sole_match scan of
          None \<Rightarrow> in_review (mark_human_review env rq AcquireRpc ''malformed-or-ambiguous-lease-observation'')
        | Some (obs, g) \<Rightarrow> bindM (persist_acquired_lease env rq obs g True) (\<lambda>_. returnM one_reconciled)) w"
    using accept by (auto split: option.splits intro: in_review_returns reviews_return ready)
  then have "returns (immediate_transaction env (case sole_match scan of
          None \<Rightarrow> in_review (mark_human_review env rq AcquireRpc ''malformed-or-ambiguous-lease-observation'')
        | Some (obs, g) \<Rightarrow> bindM (persist_acquired_lease env rq obs g True) (\<lambda>_. returnM one_reconciled))) w"
    by (rule returns_ready(8) [OF ready])
  then show ?thesis by (simp add: reconcile_lease_def scan bindM_def [of "liftM _"])
qed

lemma reconcile_steps_sound:
  assumes "reconcile_steps env db db'" "sound db"
  shows "sound db'"
  using assms unfolding reconcile_steps_def
proof (induction rule: rtranclp_induct)
  case (step b c)
  then obtain rq where one: "reconcile_step env rq b c" and "sound b" by blast
  then show ?case using reconcile_step_waiting [OF one] reconcile_keeps_ok [OF one] reconcile_step_linked [OF one]
    by (simp add: sound_def)
qed simp

text \<open>A round leaves the acquires of other keys alone.\<close>

lemma other_acquires:
  assumes "round_ok S L AcquireRpc x m" "m w = (r, w')" "dr_acquire rq \<noteq> dr_acquire x" "acquire_open rq (w_db w)"
  shows "acquire_open rq (w_db w')"
proof -
  obtain good where "keeps (touching AcquireRpc (dr_acquire x) good) m" using assms(1) by (auto simp: round_ok_def rpc_key_def)
  then have place: "in_place (touches AcquireRpc (dr_acquire x) good) (dt_intents (w_db w)) (dt_intents (w_db w'))"
    using assms(2) keepsD by (fastforce simp: touching_def)
  obtain i where i: "i \<in> set (dt_intents (w_db w))" "ri_kind i = AcquireRpc" "ri_key i = dr_acquire rq"
      "ri_client i = dr_client_lease rq" "is_open (ri_state i)" using assms(4) by (auto simp: acquire_open_def)
  then obtain n where n: "n < length (dt_intents (w_db w))" "dt_intents (w_db w) ! n = i" by (auto simp: in_set_conv_nth)
  then have "n < length (dt_intents (w_db w'))" "dt_intents (w_db w') ! n = i"
    using place i(2,3) assms(3) by (auto simp: in_place_def touches_def)
  then have "i \<in> set (dt_intents (w_db w'))" by (metis nth_mem)
  then show ?thesis using i unfolding acquire_open_def by blast
qed

lemma lease_loop_returns:
  assumes ready: "ready env" and seen: "list_all readable seen"
  shows "distinct (map dr_acquire rqs) \<Longrightarrow> sound (w_db w) \<Longrightarrow> (\<And>rq. rq \<in> set rqs \<Longrightarrow> paired rq (w_db w) \<and> acquire_open rq (w_db w)) \<Longrightarrow>
    returns (for_each (reconcile_lease env seen) rqs) w"
proof (induction rqs arbitrary: w)
  case Nil
  then show ?case by (simp add: returns_def)
next
  case (Cons x rqs)
  have "returns (for_each (reconcile_lease env seen) rqs) w1" if go: "reconcile_lease env seen x w = (Inr s, w1)" for s w1
  proof (rule Cons.IH)
    let ?Q = "Inr ` set (x # rqs) :: (dispatch_request + dispatch_request) set"
    have "keeps (reconciles env ?Q (\<lambda>_. True)) (reconcile_lease env seen x)" by (rule reconciles_lease) simp
    then have "reconciles env ?Q (\<lambda>_. True) w w1" using go by (rule keepsD)
    then have after: "\<forall>q\<in>?Q. grounded q (w_db w1)" "reconcile_steps env (w_db w) (w_db w1)"
      using Cons.prems(2,3) by (auto simp: reconciles_def sound_def grounded_def)
    show "sound (w_db w1)" using reconcile_steps_sound [OF after(2) Cons.prems(2)] .
    show "distinct (map dr_acquire rqs)" using Cons.prems(1) by simp
    fix rq assume rq: "rq \<in> set rqs"
    then have "dr_acquire rq \<noteq> dr_acquire x" using Cons.prems(1) by (auto simp: image_iff)
    then have "acquire_open rq (w_db w1)" using other_acquires [OF round_lease go] Cons.prems(3) rq by simp
    then show "paired rq (w_db w1) \<and> acquire_open rq (w_db w1)" using after(1) rq by (auto simp: grounded_def)
  qed
  then have rest: "returns (bindM (for_each (reconcile_lease env seen) rqs) (\<lambda>t. returnM (add_counts s t))) w1"
    if "reconcile_lease env seen x w = (Inr s, w1)" for s w1
    using that by (intro returns_bind) (simp_all add: returns_def)
  have "returns (reconcile_lease env seen x) w" by (rule lease_round_returns [OF ready seen]) (use Cons.prems in simp_all)
  then show ?case unfolding for_each.simps by (rule returns_bind) (rule rest)
qed

subsection \<open>The selection of acquires answers each once\<close>

lemma at_most_one:
  assumes "distinct xs" "\<And>x. x \<in> set xs \<Longrightarrow> length (f x) \<le> 1"
    and "\<And>x y. x \<in> set xs \<Longrightarrow> y \<in> set xs \<Longrightarrow> f x \<noteq> [] \<Longrightarrow> f y \<noteq> [] \<Longrightarrow> x = y"
  shows "length (concat (map f xs)) \<le> 1"
  using assms
proof (induction xs)
  case (Cons x xs)
  show ?case
  proof (cases "f x = []")
    case False
    then have "f y = []" if "y \<in> set xs" for y using Cons.prems(1,3) that by (metis distinct.simps(2) list.set_intros)
    then have "concat (map f xs) = []" by simp
    then show ?thesis using Cons.prems(2) [of x] by (simp del: concat_eq_Nil_conv)
  qed (use Cons in simp)
qed simp

lemma distinct_answers:
  assumes "distinct (map k (filter P xs))" "\<And>x. x \<in> set xs \<Longrightarrow> length (F x) \<le> 1"
    and "\<And>x r. x \<in> set xs \<Longrightarrow> r \<in> set (F x) \<Longrightarrow> P x \<and> g r = k x"
  shows "distinct (map g (concat (map F xs)))"
  using assms
proof (induction xs)
  case (Cons x xs)
  have rest: "distinct (map g (concat (map F xs)))" by (rule Cons.IH) (use Cons.prems in \<open>auto split: if_splits\<close>)
  show ?case
  proof (cases "F x")
    case (Cons r rs)
    then have one: "F x = [r]" using Cons.prems(2) [of x] by simp
    then have r: "P x" "g r = k x" using Cons.prems(3) [of x r] by simp_all
    have "k x \<noteq> g s" if "y \<in> set xs" "s \<in> set (F y)" for y s
      using Cons.prems(3) [of y s] Cons.prems(1) r(1) that by (auto simp: image_iff)
    then show ?thesis using rest one r(2) by auto
  qed (use rest in simp)
qed simp

lemma acquires_once:
  assumes ok: "dispatch_ok db" "linked db"
  shows "distinct (map dr_acquire (unknown_lease_requests cutoff db))"
  unfolding unknown_lease_requests_def
proof (rule distinct_answers [where k = ri_key and P = "\<lambda>i. ri_kind i = AcquireRpc"])
  show "distinct (map ri_key (filter (\<lambda>i. ri_kind i = AcquireRpc) (dt_intents db)))"
    using linkedD(5) [OF ok(2)] by (simp add: acquire_keys_def)
next
  have D: "distinct (map fst (dt_bindings db))" "distinct (dt_leases db)" "distinct (dt_spawns db)"
    using linkedD(6) [OF ok(2)] ok(1) by (auto simp: dispatch_ok_def distinct_map)
  have L: "l = m" if "lease_bound b l" "lease_bound b m" "l \<in> set (dt_leases db)" "m \<in> set (dt_leases db)" for b l m
    using that by (intro same_lease [OF ok(1)]) (simp_all add: lease_bound_def)
  have S: "sr = sr'" if "request_bound b sr" "request_bound b sr'" "sr \<in> set (dt_spawns db)" "sr' \<in> set (dt_spawns db)" for b sr sr'
    using that by (intro dispatch_okD(4) [OF ok(1)]) (simp_all add: request_bound_def)
  have B: "b = c" if "acquire_bound b i" "acquire_bound c i" "(b, s) \<in> set (dt_bindings db)" "(c, t) \<in> set (dt_bindings db)" for b c s t i
    using dispatch_okD(1) [OF ok(1) that(3,4)] that(1,2) by (simp add: shares_binding_key_def acquire_bound_def)
  fix i
  show "length (concat (map (\<lambda>b. concat (map (\<lambda>l. concat (map (\<lambda>sr.
          if acquire_bound b i \<and> lease_bound b l \<and> ri_ttl i = Some (le_ttl l) \<and> request_bound b sr \<and> pending_or_unknown_clause cutoff i
          then [stored_request (ri_run i) (ri_transition i) (text_or_empty (ri_phase i)) (text_or_empty (ri_agent i))
            (text_or_empty (ri_requester i)) (sr_digest sr) (sr_id sr) (text_or_empty (ri_reserve i)) (ri_client i) (ri_key i)
            (release_key_or (le_release l) (ri_client i)) (le_ttl l) (sr_client sr) (sr_key sr) (Some (le_id l))]
          else []) (dt_spawns db))) (dt_leases db))) (map fst (dt_bindings db)))) \<le> 1"
  proof (rule at_most_one [OF D(1)], rule at_most_one [OF D(2)], rule at_most_one [OF D(3)])
  qed (auto split: if_splits intro: L S B)
qed (auto simp: acquire_bound_def stored_request_def split: if_splits)

subsection \<open>The loops over intents return\<close>

lemma intents_return:
  assumes ready: "ready env" and readable: "list_all readable S" "list_all readable L" and sound: "sound (w_db w)"
  shows "returns (reconcile_intents env cutoff S L) w"
proof -
  have orphans: "for_each_row env ''orphan leases'' (orphan_unknown_lease_requests cutoff) (reconcile_orphan env) w = (Inr (counted 0 0), w)"
    using sound by (simp add: for_each_row_def bindM_def ready_statements(1) [OF ready] no_orphans sound_def)
  have releases: "returns (for_each_row env ''pending releases'' (release_pending_requests cutoff) (reconcile_release env L)) w"
    by (intro for_each_row_returns ready for_each_returns release_round_returns readable)
  have leases: "returns (for_each_row env ''unknown leases'' (unknown_lease_requests cutoff) (reconcile_lease env L)) w2"
    if "for_each_row env ''pending releases'' (release_pending_requests cutoff) (reconcile_release env L) w = (Inr n, w2)" for n w2
  proof -
    have "reconcile_steps env (w_db w) (w_db w2)" using loop_releases [OF that, of S L] sound by (simp add: sound_def)
    then have sound2: "sound (w_db w2)" using sound by (rule reconcile_steps_sound)
    then have ok: "dispatch_ok (w_db w2)" "linked (w_db w2)" by (simp_all add: sound_def)
    have "paired rq (w_db w2) \<and> acquire_open rq (w_db w2)" if rq: "rq \<in> set (unknown_lease_requests cutoff (w_db w2))" for rq
    proof -
      have "acquire_open rq (w_db w2)"
        using rq by (force simp: unknown_lease_requests_def acquire_open_def acquire_bound_def stored_request_def dest: stale_open)
      then show ?thesis using unknown_lease_paired [OF ok rq] by simp
    qed
    then show ?thesis
      by (intro for_each_row_returns ready lease_loop_returns readable acquires_once ok sound2)
  qed
  have unproven: "returns (for_each_row env ''unproven spawns'' (spawn_requests_without_acquired_lease_proof cutoff)
      (reconcile_unproven_spawn env)) v" for v
    by (intro for_each_row_returns ready for_each_returns unproven_round_returns)
  have spawns: "returns (for_each_row env ''unknown spawns'' (unknown_spawn_requests cutoff) (reconcile_spawn env S)) v" for v
    by (intro for_each_row_returns ready for_each_returns spawn_round_returns readable)
  show ?thesis unfolding reconcile_intents_def
  proof (rule returns_bind)
    show "returns (for_each_row env ''orphan leases'' (orphan_unknown_lease_requests cutoff) (reconcile_orphan env)) w"
      using orphans by (simp add: returns_def)
  next
    fix n1 w1
    assume "for_each_row env ''orphan leases'' (orphan_unknown_lease_requests cutoff) (reconcile_orphan env) w = (Inr n1, w1)"
    then have "w1 = w" using orphans by simp
    then show "returns (bindM (for_each_row env ''pending releases'' (release_pending_requests cutoff) (reconcile_release env L)) (\<lambda>n2.
       bindM (for_each_row env ''unknown leases'' (unknown_lease_requests cutoff) (reconcile_lease env L)) (\<lambda>n3.
       bindM (for_each_row env ''unproven spawns'' (spawn_requests_without_acquired_lease_proof cutoff)
         (reconcile_unproven_spawn env)) (\<lambda>n4.
       bindM (for_each_row env ''unknown spawns'' (unknown_spawn_requests cutoff) (reconcile_spawn env S)) (\<lambda>n5.
       returnM (add_counts n1 (add_counts n2 (add_counts n3 (add_counts n4 n5))))))))) w1"
      by (simp only:) (intro returns_bind releases leases unproven spawns returns_ready(1) [OF ready])
  qed
qed

text \<open>A call whose listings return starts its loops.\<close>

lemma reconcile_starts:
  assumes "ready (rc_dispatch rc)" "fst (rc_sessions rc (w_adapter w)) = Inr S"
    and "fst (rc_leases rc (snd (rc_sessions rc (w_adapter w)))) = Inr L"
  obtains w0 where "w_db w0 = w_db w"
    and "reconcile_unknown_metadata rc w =
      bindM (reconcile_intents (rc_dispatch rc) (cutoff_of rc w) S L) (\<lambda>n.
      bindM (for_each_row (rc_dispatch rc) ''acquire-only leases'' acquire_only_cleanup_requests (reconcile_cleanup rc L)) (\<lambda>n6.
      returnM (add_counts n n6))) w0"
proof -
  let ?w0 = "w\<lparr>w_ticks := Suc (w_ticks w), w_adapter := snd (rc_leases rc (snd (rc_sessions rc (w_adapter w))))\<rparr>"
  have "pending_reconcile_cutoff_epoch_ms (rc_dispatch rc) w = (Inr (cutoff_of rc w), w\<lparr>w_ticks := Suc (w_ticks w)\<rparr>)"
    by (simp add: pending_reconcile_cutoff_epoch_ms_def bindM_def running cutoff_of_def)
  then have "reconcile_unknown_metadata rc w =
      bindM (reconcile_intents (rc_dispatch rc) (cutoff_of rc w) S L) (\<lambda>n.
      bindM (for_each_row (rc_dispatch rc) ''acquire-only leases'' acquire_only_cleanup_requests (reconcile_cleanup rc L)) (\<lambda>n6.
      returnM (add_counts n n6))) ?w0"
    using assms by (simp add: reconcile_unknown_metadata_def ready_def bindM_run list_observations_def Let_def)
  then show ?thesis by (intro that [of ?w0]) simp_all
qed

lemma reconcile_leaves_nothing_stale:
  assumes run: "reconcile_unknown_metadata rc w = (r, w')" and sound: "sound (w_db w)" and ready: "ready (rc_dispatch rc)"
    and listings: "fst (rc_sessions rc (w_adapter w)) = Inr S" "fst (rc_leases rc (snd (rc_sessions rc (w_adapter w)))) = Inr L"
    and readable: "list_all readable S" "list_all readable L"
    and i: "i \<in> set (dt_intents (w_db w'))" "ri_kind i \<noteq> ReleaseRpc"
  shows "\<not> pending_or_unknown_clause (cutoff_of rc w) i"
proof
  assume stale: "pending_or_unknown_clause (cutoff_of rc w) i"
  let ?env = "rc_dispatch rc" and ?cutoff = "cutoff_of rc w"
  obtain w0 where w0: "w_db w0 = w_db w" "reconcile_unknown_metadata rc w =
      bindM (reconcile_intents ?env ?cutoff S L) (\<lambda>n.
      bindM (for_each_row ?env ''acquire-only leases'' acquire_only_cleanup_requests (reconcile_cleanup rc L)) (\<lambda>n6.
      returnM (add_counts n n6))) w0"
    using reconcile_starts [OF ready listings] by blast
  have "sound (w_db w0)" using sound w0(1) by simp
  then obtain n w1 where first: "reconcile_intents ?env ?cutoff S L w0 = (Inr n, w1)"
    using intents_return [OF ready readable, of w0 ?cutoff] by (auto simp: returns_def)
  have ok: "dispatch_ok (w_db w0)" "linked (w_db w0)" using \<open>sound (w_db w0)\<close> by (simp_all add: sound_def)
  have ok1: "dispatch_ok (w_db w1)" "linked (w_db w1)"
    using keepsD [OF settling_intents first] ok by (simp_all add: settling_def)
  obtain r2 where "for_each_row ?env ''acquire-only leases'' acquire_only_cleanup_requests (reconcile_cleanup rc L) w1 = (r2, w')"
    using run unfolding w0(2) bindM_run [where m = "reconcile_intents ?env ?cutoff S L", OF first] by (auto simp: bindM_def split: sum.splits prod.splits)
  note second = loop_cleanups [OF this ok1, of ?cutoff S L]
  obtain k where k: "k < length (dt_intents (w_db w'))" "dt_intents (w_db w') ! k = i" using i(1) unfolding in_set_conv_nth by blast
  have "k < length (dt_intents (w_db w1))" "dt_intents (w_db w1) ! k = i"
    using stale_before [of ?env "w_db w1" "w_db w'" ?cutoff S L k] second ok1(1) k i(2) stale by simp_all
  then have "i \<in> set (dt_intents (w_db w1))" by (metis nth_mem)
  then show False using intents_leave_nothing_stale [OF first ok] i(2) stale by blast
qed

end
