(* ===== verification/ReconcileClaims.thy ===== *)
theory ReconcileClaims
  imports ReconcileReturns DispatchClaims
begin

section \<open>Claims about reconciliations (\<^verbatim>\<open>reconciliation.py\<close>)\<close>

text \<open>
  The claims about \<^verbatim>\<open>reconcile_unknown_metadata\<close>, from any tables that dispatches and
  reconciliations reach, each applied to the tables of a dispatch that stopped half-way.
\<close>

subsection \<open>A reconciliation to apply the claims to\<close>

text \<open>
  A dispatch that stopped after its first transaction, more than five minutes ago; and a gateway that
  lists the lease of the dispatch but no session.
\<close>

definition demo_crashed :: "unit world" where
  "demo_crashed =
     (snd (immediate_transaction demo_gateway (begin_dispatch demo_gateway demo_dispatch) demo_world))\<lparr>w_ticks := 1000\<rparr>"

definition demo_reconcile :: "unit reconcile_env" where
  "demo_reconcile = \<lparr>rc_dispatch = demo_gateway, rc_sessions = \<lambda>a. (Inr [], a),
     rc_leases = \<lambda>a. (Inr [echo (lease_metadata demo_dispatch ''g'') ''g''], a), rc_adopt = \<lambda>p obs a. (Inr (), a)\<rparr>"

lemma demo_crashed_reached: "dispatches {demo_gateway} (w_db demo_crashed)"
proof -
  obtain r w1 where "immediate_transaction demo_gateway (begin_dispatch demo_gateway demo_dispatch) demo_world = (r, w1)"
    by (cases "immediate_transaction demo_gateway (begin_dispatch demo_gateway demo_dispatch) demo_world")
  then show ?thesis
    using dispatches.transaction [OF demo_start _ dispatch_step.begins] by (fastforce simp: demo_crashed_def)
qed

abbreviation demo_after :: "unit world" where
  "demo_after \<equiv> snd (reconcile_unknown_metadata demo_reconcile demo_crashed)"

lemma demo_reconciled:
  "reconcile_unknown_metadata demo_reconcile demo_crashed = (fst (reconcile_unknown_metadata demo_reconcile demo_crashed), demo_after)"
  by simp

subsection \<open>Which leases may be released\<close>

text \<open>
  A lease whose dispatch was blocked before its spawn: it is acquired, its dispatch ended with the
  spawn failed or in review, for a reason that starts with the words of a block, and no release of it
  was ever intended.
\<close>

definition blocked_dispatch :: "dispatch_tables \<Rightarrow> lease_row \<Rightarrow> bool" where
  "blocked_dispatch db l \<longleftrightarrow>
     le_state l = Acquired \<and>
     (\<exists>(b, n) \<in> set (dt_bindings db). \<exists>sr \<in> set (dt_spawns db). \<exists>i \<in> set (dt_intents db). \<exists>reason.
        bd_lease b = le_id l \<and> bd_run b = le_run l \<and> bd_transition b = le_transition l \<and>
        bd_client_lease b = le_client l \<and> bd_acquire b = le_acquire l \<and> le_release l = Some (bd_release b) \<and>
        sr_id sr = bd_spawn b \<and> sr_run sr = bd_run b \<and> sr_key sr = bd_key b \<and>
        ri_kind i = SpawnRpc \<and> ri_spawn i = Some (bd_spawn b) \<and> ri_run i = bd_run b \<and> ri_key i = bd_key b \<and>
        (ri_state i = RpcFailed \<or> ri_state i = RpcReview) \<and>
        sr_reason sr = Some reason \<and> ascii_lower (take 28 reason) = ''spawn blocked by allow lease'') \<and>
     \<not> (\<exists>i \<in> set (dt_intents db). ri_kind i = ReleaseRpc \<and> Some (ri_key i) = le_release l)"

text \<open>The identity of a lease with its gateway identity, as the gateway must echo it.\<close>

definition row_identity :: "lease_row \<Rightarrow> string \<Rightarrow> pydict" where
  "row_identity l g =
     [(''client_lease_id'', PStr (le_client l)), (''idempotency_key'', PStr (le_acquire l)), (''run_id'', PStr (le_run l)),
      (''phase'', PStr (le_phase l)), (''transition_id'', PStr (le_transition l)), (''agent_id'', PStr (le_agent l)),
      (''requester_agent_id'', PStr (le_requester l)), (''ttl_ms'', PInt (le_ttl l)), (''gateway_lease_id'', PStr g)]"

text \<open>
  Exactly one listed observation carries the identity of the lease; it is well-formed in its three
  copies, and \<open>g\<close> is its external identity.
\<close>

definition lease_seen_once :: "observation list \<Rightarrow> lease_row \<Rightarrow> string \<Rightarrow> bool" where
  "lease_seen_once observations l g \<longleftrightarrow>
     (\<exists>obs. filter (\<lambda>obs. \<exists>n. obs_normalized obs = Some n \<and>
            (\<forall>field \<in> {''client_lease_id'', ''idempotency_key'', ''run_id'', ''phase'', ''transition_id'', ''agent_id'',
                ''requester_agent_id''}. dict_get n field = dict_get (row_identity l g) field)) observations = [obs] \<and>
        returned (validate_allow_lease_observation (row_identity l g) (obs_normalized obs) (obs_raw_json obs) (obs_version obs)) \<and>
        obs_external_id obs = Some g)"

definition releases_lease :: "dispatch_tables \<Rightarrow> observation list \<Rightarrow> rpc_call \<Rightarrow> bool" where
  "releases_lease db observations call \<longleftrightarrow>
     (\<exists>l \<in> set (dt_leases db). \<exists>g k.
        le_gateway l = Some g \<and> g \<noteq> [] \<and> le_release l = Some k \<and>
        blocked_dispatch db l \<and> lease_seen_once observations l g \<and>
        call = ReleaseCall
          [(''client_lease_id'', PStr (le_client l)), (''release_idempotency_key'', PStr k), (''run_id'', PStr (le_run l)),
           (''phase'', PStr (le_phase l)), (''transition_id'', PStr (le_transition l)), (''agent_id'', PStr (le_agent l)),
           (''requester_agent_id'', PStr (le_requester l)), (''gateway_lease_id'', PStr g)])"

lemma starts_with_blocked:
  "like_prefix r ''spawn blocked by allow lease'' \<Longrightarrow> ascii_lower (take 28 r) = ''spawn blocked by allow lease''"
proof -
  assume "like_prefix r ''spawn blocked by allow lease''"
  moreover have "ascii_lower ''spawn blocked by allow lease'' = ''spawn blocked by allow lease''" by (simp add: ascii_lower_def)
  ultimately have "starts_with (ascii_lower r) ''spawn blocked by allow lease''" by (simp add: like_prefix_def)
  then have "take (length ''spawn blocked by allow lease'') (ascii_lower r) = ''spawn blocked by allow lease''"
    by (auto simp: starts_with_iff)
  moreover have "length ''spawn blocked by allow lease'' = 28" by simp
  ultimately have "take 28 (ascii_lower r) = ''spawn blocked by allow lease''" by (simp only:)
  then show ?thesis by (simp only: ascii_lower_def take_map)
qed

text \<open>A lease is proved as the intent of its acquire would be.\<close>

lemma row_seen_once:
  assumes "listed_once observations item" "pr_request item = stored_request (le_run l) (le_transition l) (le_phase l) (le_agent l)
      (le_requester l) digest spawn reserve (le_client l) (le_acquire l) release (le_ttl l) client key lease"
  shows "lease_seen_once observations l (pr_gateway item)"
proof -
  obtain any :: rpc_row where True by simp
  define i where "i = any\<lparr>ri_run := le_run l, ri_transition := le_transition l, ri_client := le_client l, ri_key := le_acquire l,
    ri_phase := Some (le_phase l), ri_agent := Some (le_agent l), ri_requester := Some (le_requester l), ri_ttl := Some (le_ttl l)\<rparr>"
  have same: "lease_identity i g = row_identity l g" for g
    by (simp add: i_def lease_identity_def row_identity_def text_or_empty_def)
  have "lease_metadata (pr_request item) g = lease_identity i g" for g
    by (simp add: assms(2) same row_identity_def lease_metadata_def stored_request_def)
  then have "lease_proved observations i (pr_gateway item)"
    using assms(1) lease_scan_proves unfolding listed_once_def by blast
  then obtain obs where one: "filter (\<lambda>obs. normalized_identity_matches (lease_identity i []) (obs_normalized obs)
        allow_lease_identity_fields) observations = [obs]"
    and obs: "returned (validate_allow_lease_observation (lease_identity i (pr_gateway item)) (obs_normalized obs) (obs_raw_json obs)
        (obs_version obs))" "obs_external_id obs = Some (pr_gateway item)"
    unfolding lease_proved_def by (elim exE conjE) (rule that)
  have "filter (\<lambda>obs. normalized_identity_matches (lease_identity i (pr_gateway item)) (obs_normalized obs)
        allow_lease_identity_fields) observations =
      filter (\<lambda>obs. normalized_identity_matches (lease_identity i []) (obs_normalized obs) allow_lease_identity_fields) observations"
    by (rule filter_cong [OF refl]) (rule any_gateway)
  note one = trans [OF this one]
  have "(\<lambda>obs. normalized_identity_matches (lease_identity i (pr_gateway item)) (obs_normalized obs) allow_lease_identity_fields) =
      (\<lambda>obs. \<exists>n. obs_normalized obs = Some n \<and> (\<forall>field \<in> {''client_lease_id'', ''idempotency_key'', ''run_id'', ''phase'',
         ''transition_id'', ''agent_id'', ''requester_agent_id''}. dict_get n field = dict_get (row_identity l (pr_gateway item)) field))"
    by (rule ext) (simp only: identity_matches_iff same allow_lease_identity_fields_def list.set)
  note one = one [unfolded this]
  show ?thesis unfolding lease_seen_once_def by (intro exI [of _ obs] conjI one obs [unfolded same])
qed

lemma cleanup_releases:
  assumes "item \<in> set (acquire_only_cleanup_requests db)" "listed_once observations item"
  shows "releases_lease db observations (ReleaseCall (release_rpc_metadata (pr_request item) (pr_gateway item)))"
proof -
  obtain l b n sr i where rows: "l \<in> set (dt_leases db)" "(b, n) \<in> set (dt_bindings db)" "sr \<in> set (dt_spawns db)" "i \<in> set (dt_intents db)"
    and joins: "lease_bound b l" "request_bound b sr" "spawn_bound b i"
    and live: "le_state l = Acquired" "live_gateway l" "ri_state i \<in> {RpcFailed, RpcReview}"
    and reason: "case sr_reason sr of None \<Rightarrow> False | Some r \<Rightarrow> like_prefix r ''spawn blocked by allow lease''"
    and fresh: "\<not> list_ex (\<lambda>r. ri_kind r = ReleaseRpc \<and> ri_key r = cleanup_release_key l) (dt_intents db)"
    and item: "pr_request item = stored_request (le_run l) (le_transition l) (le_phase l) (le_agent l) (le_requester l) (sr_digest sr)
         (sr_id sr) (text_or_empty (ri_reserve i)) (le_client l) (le_acquire l) (cleanup_release_key l) (le_ttl l)
         (sr_client sr) (sr_key sr) (Some (le_id l))" "pr_gateway item = text_or_empty (le_gateway l)"
    using assms(1) by (auto simp: acquire_only_cleanup_requests_def)
  obtain g where g: "le_gateway l = Some g" "g \<noteq> []" using live(2) by (auto simp: live_gateway_def)
  have key: "le_release l = Some (bd_release b)" "cleanup_release_key l = bd_release b"
    using joins(1) by (simp_all add: lease_bound_def cleanup_release_key_def)
  obtain r where r: "sr_reason sr = Some r" "ascii_lower (take 28 r) = ''spawn blocked by allow lease''"
    using reason starts_with_blocked by (cases "sr_reason sr") auto
  have blocked: "blocked_dispatch db l"
    unfolding blocked_dispatch_def
    using live(1,3) key fresh joins r
    by (intro conjI bexI [OF _ rows(2)] case_prodI bexI [OF _ rows(3)] bexI [OF _ rows(4)] exI [of _ r])
      (auto simp: lease_bound_def request_bound_def spawn_bound_def list_ex_iff)
  have "lease_seen_once observations l g" using row_seen_once [OF assms(2) item(1)] item(2) g(1) by (simp add: text_or_empty_def)
  then show ?thesis unfolding releases_lease_def using g key blocked item
    by (intro bexI [OF _ rows(1)] exI [of _ g] exI [of _ "bd_release b"])
      (simp add: release_rpc_metadata_def stored_request_def text_or_empty_def)
qed

lemma releases_of_each:
  assumes "releases_of P calls" "\<And>item. P item \<Longrightarrow> Q (ReleaseCall (release_rpc_metadata (pr_request item) (pr_gateway item)))"
  shows "list_all Q calls"
  using assms by (auto simp: releases_of_def list_all_iff)

subsection \<open>The claims\<close>

text \<open>
  C16: a whole call of \<^verbatim>\<open>reconcile_unknown_metadata\<close> changes the tables only by the atomic transactions
  of reconciliations, so it refines the interleaved system. It never acquires a lease and never spawns
  a session. Each of its calls releases an acquired lease, by the lease's own identity and release key.
  In the tables before the first of these calls, the dispatch of that lease was blocked before its spawn,
  with the spawn failed or in review, and no release of the lease was ever intended; and exactly one
  observation that the gateway listed carries the identity of the lease, well-formed in its three copies
  and with the stored gateway identity.
\<close>

theorem reconciliation_is_transactions:
  assumes "reconcile_unknown_metadata rc w = (r, w')" "dispatches E (w_db w)"
  shows "reconcile_steps (rc_dispatch rc) (w_db w) (w_db w') \<and>
    (\<exists>calls. w_calls w' = w_calls w @ calls \<and>
       (calls = [] \<or>
        (\<exists>db listed. reconcile_steps (rc_dispatch rc) (w_db w) db \<and> reconcile_steps (rc_dispatch rc) db (w_db w') \<and>
           fst (rc_leases rc (snd (rc_sessions rc (w_adapter w)))) = Inr listed \<and>
           list_all (releases_lease db listed) calls)))"
proof -
  have "list_all (releases_lease db seen) calls"
    if "releases_of (\<lambda>item. item \<in> set (acquire_only_cleanup_requests db) \<and> listed_once seen item) calls" for db seen calls
    by (rule releases_of_each [OF that]) (use cleanup_releases in blast)
  note proved = this
  show ?thesis
    using reconcile_runs [OF assms(1) reached_ok [OF assms(2)] reached_linked [OF assms(2)]]
    by (elim conjE exE disjE) (auto dest: proved intro: exI [of _ "[]"])
qed

lemma reconciliation_is_transactions_witness: "reconcile_steps demo_gateway (w_db demo_crashed) (w_db demo_after)"
  using reconciliation_is_transactions [OF demo_reconciled demo_crashed_reached] by (simp add: demo_reconcile_def)

text \<open>
  C2: in a reconciliation of reachable tables, whether it returns or raises, rows of RPC intents keep
  their place, and an intent of an acquire or a spawn changes only when its outcome was unknown, or it
  was pending for longer than the grace of five minutes. Then it goes to review, or is reconciled
  with the external identity of the one listed observation that carries its identity and is
  well-formed in its three copies.
\<close>

theorem reconciled_only_on_proof:
  assumes "reconcile_unknown_metadata rc w = (r, w')" "dispatches E (w_db w)"
  shows "in_place (settles (dp_time (rc_dispatch rc) (w_ticks w) - pending_rpc_reconcile_grace_ms)
      (listed_sessions rc w) (listed_leases rc w)) (dt_intents (w_db w)) (dt_intents (w_db w'))"
  using reconcile_settles [OF assms(1) reached_ok [OF assms(2)] reached_linked [OF assms(2)]] by (simp only: cutoff_of_def)

lemma reconciled_only_on_proof_witness:
  "in_place (settles (1000000 - pending_rpc_reconcile_grace_ms) [] [echo (lease_metadata demo_dispatch ''g'') ''g''])
     (dt_intents (w_db demo_crashed)) (dt_intents (w_db demo_after))"
  using reconciled_only_on_proof [OF demo_reconciled demo_crashed_reached]
  by (simp add: listed_sessions_def listed_leases_def listed_def demo_reconcile_def demo_gateway_def demo_crashed_def)

text \<open>
  C3: when the engine accepts every statement and both listings return, a call of
  \<^verbatim>\<open>reconcile_unknown_metadata\<close> from reachable tables leaves no intent of an acquire or a spawn stale, even if
  the releases at its end raise: whatever was unknown, or pending for longer than the grace, is settled.
  (\<open>readable\<close>: the raw JSON stays within the code points of the model.)
\<close>

theorem nothing_stale_remains:
  assumes "reconcile_unknown_metadata rc w = (r, w')" "dispatches E (w_db w)" "ready (rc_dispatch rc)"
    and "fst (rc_sessions rc (w_adapter w)) = Inr S" "fst (rc_leases rc (snd (rc_sessions rc (w_adapter w)))) = Inr L"
    and "list_all readable (S @ L)"
  shows "\<not> list_ex (\<lambda>i. ri_kind i \<noteq> ReleaseRpc \<and>
      pending_or_unknown_clause (dp_time (rc_dispatch rc) (w_ticks w) - pending_rpc_reconcile_grace_ms) i) (dt_intents (w_db w'))"
proof -
  have "sound (w_db w)"
    using reached_ok [OF assms(2)] reached_linked [OF assms(2)] reached_waiting [OF assms(2)] by (simp add: sound_def)
  then show ?thesis
    using reconcile_leaves_nothing_stale [OF assms(1) _ assms(3-5)] assms(6) by (auto simp: list_ex_iff cutoff_of_def)
qed

lemma demo_listed_readable: "readable (echo (lease_metadata demo_dispatch ''g'') ''g'')"
proof -
  have "texts_ok demo_dispatch"
    by (simp add: texts_ok_def demo_dispatch_def sha256_not_empty sha256_not_empty [symmetric] max_lease_ttl_ms_def)
  then obtain c where "lease_observed demo_dispatch (echo (lease_metadata demo_dispatch ''g'') ''g'') ''g'' = Inr c"
    using honest_lease_columns by (fastforce simp: echoes_def echo_def simp del: dumps.simps)
  then obtain d where "raw_json_object (dumps (PDict (lease_metadata demo_dispatch ''g''))) = Inr d"
    by (auto simp: lease_observed_def err_simps validate_allow_lease_observation_iff echo_def simp del: dumps.simps)
  then show ?thesis by (simp add: readable_def echo_def del: dumps.simps)
qed

lemma nothing_stale_remains_witness:
  "\<not> list_ex (\<lambda>i. ri_kind i \<noteq> ReleaseRpc \<and> pending_or_unknown_clause 700000 i) (dt_intents (w_db demo_after))"
proof -
  have "\<not> list_ex (\<lambda>i. ri_kind i \<noteq> ReleaseRpc \<and>
      pending_or_unknown_clause (dp_time (rc_dispatch demo_reconcile) (w_ticks demo_crashed) - pending_rpc_reconcile_grace_ms) i)
      (dt_intents (w_db demo_after))"
    by (rule nothing_stale_remains [OF demo_reconciled demo_crashed_reached, where S = "[]" and
          L = "[echo (lease_metadata demo_dispatch ''g'') ''g'']"])
      (simp_all add: demo_reconcile_def demo_ready demo_listed_readable)
  then show ?thesis by (simp add: demo_reconcile_def demo_gateway_def demo_crashed_def pending_rpc_reconcile_grace_ms_def)
qed

end
