(* ===== verification/Spec2Isabelle.thy ===== *)
theory Spec2Isabelle
  imports MetadataDispatch GitClaims BudgetClaims DispatchClaims ReconcileClaims
begin

text \<open>
  A verification development for the control plane of \<^verbatim>\<open>openclaw-agentic-os\<close>
  (\<^verbatim>\<open>src/agentic_os\<close>): the Python package that decides, over one SQLite database, which agent
  sessions may be spawned through a gateway, what they may cost, and what is done about calls whose
  outcome is unknown.

  \<^bold>\<open>The parts and how they interact.\<close> A dispatch (\<^verbatim>\<open>runtime_dispatch.py\<close>) writes the pending rows of
  a request in one transaction, acquires a lease through the gateway adapter, spawns the session once and
  records each outcome in a transaction of its own. Every answer of the gateway is believed only
  when the validators (\<^verbatim>\<open>metadata.py\<close>) find the same identity in three copies: the local intent, the
  normalized metadata and the raw JSON. What stays unknown or pending is settled later by a
  reconciliation (\<^verbatim>\<open>reconciliation.py\<close>) that compares the rows with what the gateway lists. The
  budget ledger (\<^verbatim>\<open>budgets.py\<close>) reserves, consumes, releases and settles what a run may spend. Both
  open the database only after the privacy preflight (\<^verbatim>\<open>privacy.py\<close>). Standing goals ask the
  predicate evaluator (\<^verbatim>\<open>predicates.py\<close>), which reads evidence from a repository whose root must prove
  to be a git work tree. The dispatch probe (\<^verbatim>\<open>metadata_dispatch.py\<close>) drives an adapter without a database.

  \<^bold>\<open>Theories and code.\<close> A theory has one definition for each function of the source, in the order of
  the source, next to the records of its state.
  \<^item> \<open>Prelude\<close>: exceptions as \<open>Inl\<close>, the error monad \<open>bindE\<close>, its variant with a state, iff lemmas.
  \<^item> \<open>PyValue\<close>, \<open>Exceptions\<close>, \<open>Json\<close>, \<open>JsonText\<close>, \<open>Sha256\<close>, \<open>Clock\<close>: what the code uses of Python's
    values, exceptions, \<^verbatim>\<open>json\<close>, \<^verbatim>\<open>hashlib\<close> and \<^verbatim>\<open>datetime\<close>.
  \<^item> \<open>Metadata\<close>: \<^verbatim>\<open>metadata.py\<close>. \<open>MetadataDispatch\<close>: \<^verbatim>\<open>metadata_dispatch.py\<close>; the probe's tables are a
    record, a run is a fold of its calls.
  \<^item> \<open>Privacy\<close>: \<^verbatim>\<open>privacy.py\<close>. \<open>Credentials\<close>, \<open>Predicates\<close>, \<open>GitConfig\<close>, \<open>GitMetadata\<close>: \<^verbatim>\<open>predicates.py\<close>;
    the facts are in \<open>GitFacts\<close>, the claims in \<open>Predicates\<close> and \<open>GitClaims\<close>. \<open>evaluate\<close> is the
    evaluation below an accepted root, \<open>evaluate_predicate_document\<close> the whole call with its root check.
  \<^item> \<open>Amounts\<close>, \<open>Ledger\<close>, \<open>Budgets\<close>: \<^verbatim>\<open>budgets.py\<close>, the tables it reads and writes as lists of rows; the
    facts are in \<open>BudgetLedger\<close> and \<open>BudgetFacts\<close>, the claims in \<open>BudgetClaims\<close>, an example in \<open>BudgetDemo\<close>.
  \<^item> \<open>DispatchStore\<close>, \<open>DispatchRequest\<close>, \<open>DispatchSteps\<close>, \<open>DispatchPersist\<close>, \<open>RuntimeDispatch\<close>:
    \<^verbatim>\<open>runtime_dispatch.py\<close>. A \<open>world\<close> holds the six tables, the clock, the adapter's state and the calls
    made so far; \<open>immediate_transaction\<close> puts the tables back when its body raises. A failing \<^verbatim>\<open>COMMIT\<close> puts
    them back at once; the source leaves that transaction open until the connection closes, which
    is an engine that refuses the next \<^verbatim>\<open>BEGIN\<close>.
  \<^item> \<open>ReconcileScans\<close>, \<open>Reconciliation\<close>: \<^verbatim>\<open>reconciliation.py\<close>, the six selections as joins, and the six loops.

  \<^bold>\<open>What the lemmas show.\<close>
  \<^item> Validators and probe: the accepted observations and listings, exactly; a repeated acquire or spawn
    answers the same lease or session; only the owner releases.
  \<^item> Predicates and privacy: the connectives are those of propositional logic within the depth
    bound; private and credential files cannot be observed; an accepted root is a work tree bound to
    itself, with a safe configuration that includes the work tree's own exactly when it applies; a passed
    preflight proves the database files untracked and ignored.
  \<^item> Budgets: counters are what the ledger says and never exceed the budget; every call refines the
    machine \<open>account_step\<close> (the locale \<open>account_machine\<close>, interpreted three times); settlements are exact;
    failing calls change nothing; a ledger closed by unknown usage or a final settlement stays as it is.
  \<^item> Dispatches (\<open>DispatchFacts\<close> to \<open>DispatchClaims\<close>): \<open>dispatch_step\<close> and \<open>reconcile_step\<close> are the
    transactions of any dispatches and reconciliations, \<open>dispatches\<close> the tables that they reach in any
    interleaving. At most one dispatch of a run, phase and agent may be live; a key is spawned at
    most once; rows follow their state machines; an accepted dispatch is recorded and replayed; a
    well-formed request through an honest gateway is accepted. The locale \<open>world_relation\<close> composes
    what single statements keep into what whole calls keep; each interpretation is one such relation.
  \<^item> Reconciliations (\<open>ReconcileRows\<close> to \<open>ReconcileClaims\<close>): a call is a sequence of \<open>reconcile_step\<close>s; an
    intent changes only when stale, to review or on the proof of the one listed observation that echoes
    it; only leases of blocked dispatches are released, each listed exactly once. As the lease of an open acquire is always pending
    (\<open>ReconcileWaits\<close>), the loops return (\<open>ReconcileReturns\<close>), and nothing stale remains.

  \<^bold>\<open>Bounds and fuel.\<close> Integers are Python's, so \<open>int\<close>; the limits of the code (amounts, epoch
  milliseconds, times to live, predicate depth and list length) are its own checks. SHA-256 computes on
  \<open>32 word\<close>. The JSON reader has as fuel a bound on its recursion that the length of the text gives;
  \<open>json_loads_not_out_of_fuel\<close> shows it is enough. The depth of a predicate is bounded by the code. Every
  other recursion is structural.

  \<^bold>\<open>Parameters.\<close> What is not under \<^verbatim>\<open>src/\<close> is an argument, about which nothing is assumed unless a claim
  says so: whether the SQL engine accepts a statement (\<open>dp_engine\<close>, \<open>be_engine\<close>: constraints and
  triggers can only refuse), the clock, git, the file system, the schema verification, the loaded
  migrations and SLO queries, and the gateway adapter with a state of its own. Each of these calls may
  raise whatever it likes; each \<^verbatim>\<open>except\<close> clause of the source catches what it names, subclasses
  included, and the rest gets out. The predicates \<open>connect_lets_escape\<close>, \<open>body_lets_escape\<close>,
  \<open>root_lets_escape\<close>, \<open>git_lets_escape\<close> and \<open>os_lets_escape\<close> say which error of which call that is. Two
  claims about later calls name what the schema and the engine keep: \<open>one_settlement_per_spawn\<close> (the
  unique key of settlements) and \<open>settlements_proved\<close> (which budget calls preserve).
  A select without an order answers rows in the order of the table. Characters are code points up to 255;
  a JSON escape above them is \<open>OutsideModel\<close>. The interpreter's own limits on JSON text (the
  \<^verbatim>\<open>ValueError\<close> of an integer of more than 4300 digits, the \<^verbatim>\<open>RecursionError\<close> of deep nesting) are out
  of scope: no claim says that only contract errors leave the validators. Messages keep the constant text of the source.

  \<^bold>\<open>Not modelled.\<close> \<^verbatim>\<open>migrations.py\<close>, \<^verbatim>\<open>slo_contracts.py\<close> and \<^verbatim>\<open>slo_audits.py\<close> are SQL text and its
  execution; their effect on the modelled code is the parameters above. \<^verbatim>\<open>openclaw_adapter.py\<close> is
  transport and response parsing behind the adapter interface. \<^verbatim>\<open>cli.py\<close>, the canary, the authority
  controller, the shadow pilots, the legacy import, the pass gates, trust promotion, attestation
  and the scripts are operational procedures around files, processes and live gateways.
\<close>

end
